(* ===== verification/Py_Prelude.thy ===== *)
theory Py_Prelude
  imports Complex_Main "HOL-Library.AList" "HOL-Library.Word"
begin

text \<open>
  Shared vocabulary of the development: exceptions as values, the dynamically typed values the
  gateway passes around, and Python's insertion-ordered dictionaries.

  \<^item> An operation that may raise returns \<open>pyerr + 'a\<close>; \<open>Inl\<close> is the raised exception. An
    operation that may raise after it has already changed some object returns the result together
    with the changed object.
  \<^item> A Python value is a \<open>pyval\<close>. Integers are unbounded. Floats are exact rationals: rounding to
    53 bits, infinities and NaN are outside the model. Strings are lists of characters below
    code point 256.
  \<^item> A dictionary is an association list in insertion order. Storing under a present key keeps the
    key's position, as in Python; the library's \<open>AList.update\<close> does exactly this.
  \<^item> \<open>Unmodelled\<close> marks the few places where the source would produce a value that depends on a
    part of Python this development leaves out (the decimal text of a float or of a container).
\<close>

named_theorems result_simps and dict_simps

section \<open>Exceptions as values\<close>

datatype pyerr =
    ValueError string
  | TypeError string
  | KeyError string
  | IndexError string
  | AttributeError string
  | RuntimeError string
  | AssertionError
  | ZeroDivisionError
  | FileNotFoundError
  | FileExistsError
  | NotADirectoryError
  | IsADirectoryError
  | SystemExit string
  | UnicodeEncodeError
  | InvokerError string
  | Unmodelled

type_synonym 'a result = "pyerr + 'a"

fun bind_result :: "'err + 'x \<Rightarrow> ('x \<Rightarrow> 'err + 'y) \<Rightarrow> 'err + 'y" where
  "bind_result (Inl err) k = Inl err"
| "bind_result (Inr val) k = k val"

lemma bind_result_Inr_iff [result_simps]:
  "bind_result act k = Inr out \<longleftrightarrow> (\<exists>val. act = Inr val \<and> k val = Inr out)"
  by (cases act) auto

lemma bind_result_Inl_iff [result_simps]:
  "bind_result act k = Inl err \<longleftrightarrow> act = Inl err \<or> (\<exists>val. act = Inr val \<and> k val = Inl err)"
  by (cases act) auto

lemma bind_result_cong [fundef_cong]:
  "m = m' \<Longrightarrow> (\<And>x. m' = Inr x \<Longrightarrow> f x = f' x) \<Longrightarrow> bind_result m f = bind_result m' f'"
  by (cases m') auto

text \<open>\<open>[f x for x in xs]\<close> where \<open>f\<close> may raise: the first exception ends the comprehension.\<close>

fun map_result :: "('x \<Rightarrow> 'err + 'y) \<Rightarrow> 'x list \<Rightarrow> 'err + 'y list" where
  "map_result f [] = Inr []"
| "map_result f (x # xs) =
     bind_result (f x) (\<lambda>y. bind_result (map_result f xs) (\<lambda>ys. Inr (y # ys)))"

lemma map_result_Inr_length: "map_result f xs = Inr ys \<Longrightarrow> length ys = length xs"
  by (induction xs arbitrary: ys) (auto simp: result_simps)

lemma map_result_all_Inr: "(\<And>x. x \<in> set xs \<Longrightarrow> f x = Inr (g x)) \<Longrightarrow> map_result f xs = Inr (map g xs)"
  by (induction xs) auto

lemma map_result_cases:
  "case map_result f xs of
     Inl e \<Rightarrow> \<exists>x \<in> set xs. f x = Inl e
   | Inr ys \<Rightarrow> list_all2 (\<lambda>x y. f x = Inr y) xs ys"
proof (induction xs)
  case (Cons x xs)
  then show ?case by (cases "f x"; cases "map_result f xs") auto
qed simp

lemma filter_length_mono: "(\<And>a. P a \<Longrightarrow> Q a) \<Longrightarrow> length (filter P xs) \<le> length (filter Q xs)"
  by (induction xs) auto

text \<open>Sorting commutes with mapping.\<close>

lemma insort_key_map: "insort_key f (h x) (map h xs) = map h (insort_key (\<lambda>y. f (h y)) x xs)"
  by (induction xs) auto

lemma sort_key_map: "sort_key f (map h xs) = map h (sort_key (\<lambda>y. f (h y)) xs)"
  by (induction xs) (simp_all add: insort_key_map)

section \<open>Dictionaries\<close>

type_synonym ('k, 'v) dict = "('k \<times> 'v) list"

abbreviation dict_get :: "('k, 'v) dict \<Rightarrow> 'k \<Rightarrow> 'v option" where
  "dict_get d k \<equiv> map_of d k"

abbreviation dict_set :: "'k \<Rightarrow> 'v \<Rightarrow> ('k, 'v) dict \<Rightarrow> ('k, 'v) dict" where
  "dict_set k v d \<equiv> AList.update k v d"

abbreviation dict_pop :: "'k \<Rightarrow> ('k, 'v) dict \<Rightarrow> ('k, 'v) dict" where
  "dict_pop k d \<equiv> AList.delete k d"

abbreviation dict_keys :: "('k, 'v) dict \<Rightarrow> 'k list" where
  "dict_keys d \<equiv> map fst d"

abbreviation wf_dict :: "('k, 'v) dict \<Rightarrow> bool" where
  "wf_dict d \<equiv> distinct (dict_keys d)"

lemma dict_get_set [dict_simps]:
  "dict_get (dict_set k v d) k' = (if k' = k then Some v else dict_get d k')"
  by (simp add: update_conv)

lemma dict_get_pop [dict_simps]:
  "dict_get (dict_pop k d) k' = (if k' = k then None else dict_get d k')"
  by (simp add: delete_conv)

lemma dict_get_None_iff: "dict_get d k = None \<longleftrightarrow> k \<notin> set (dict_keys d)"
  by (simp add: map_of_eq_None_iff)

lemma wf_dict_set [simp, intro]: "wf_dict d \<Longrightarrow> wf_dict (dict_set k v d)"
  by (rule distinct_update)

lemma wf_dict_pop [simp, intro]: "wf_dict d \<Longrightarrow> wf_dict (dict_pop k d)"
  by (rule distinct_delete)

lemma dict_keys_set [dict_simps]: "set (dict_keys (dict_set k v d)) = insert k (set (dict_keys d))"
  by (auto simp: update_keys)

lemma dict_keys_pop [dict_simps]: "set (dict_keys (dict_pop k d)) = set (dict_keys d) - {k}"
  by (auto simp: delete_keys)

lemma dict_mem_iff: "wf_dict d \<Longrightarrow> (k, v) \<in> set d \<longleftrightarrow> dict_get d k = Some v"
  by (auto dest: map_of_SomeD)

lemma dict_keys_iff_get: "k \<in> set (dict_keys d) \<longleftrightarrow> (\<exists>v. dict_get d k = Some v)"
  by (metis dict_get_None_iff not_None_eq)

lemma dict_set_mem_iff:
  "wf_dict d \<Longrightarrow> (a, b) \<in> set (dict_set k v d) \<longleftrightarrow> (if a = k then v = b else (a, b) \<in> set d)"
  using dict_mem_iff [of "dict_set k v d" a b] dict_mem_iff [of d a b] wf_dict_set [of d k v]
  by (simp add: dict_get_set)

lemma dict_pop_mem_iff: "(a, b) \<in> set (dict_pop k d) \<longleftrightarrow> a \<noteq> k \<and> (a, b) \<in> set d"
  by (auto simp: AList.delete_eq)

lemma dict_set_length_new: "k \<notin> set (dict_keys d) \<Longrightarrow> length (dict_set k v d) = Suc (length d)"
  by (metis length_append_singleton length_map update_keys)

lemma dict_set_length_old: "k \<in> set (dict_keys d) \<Longrightarrow> length (dict_set k v d) = length d"
  by (metis length_map update_keys)

text \<open>\<open>{k: v for ...}\<close>.\<close>

definition dict_of :: "('k \<times> 'v) list \<Rightarrow> ('k, 'v) dict" where
  "dict_of pairs = fold (\<lambda>(k, v) d. dict_set k v d) pairs []"

lemma dict_of_distinct: "distinct (map fst pairs) \<Longrightarrow> dict_of pairs = pairs"
proof (induction pairs rule: rev_induct)
  case (snoc p pairs)
  obtain k v where p: "p = (k, v)" by fastforce
  have "dict_set k v d = d @ [(k, v)]" if "k \<notin> set (dict_keys d)" for d :: "('a, 'b) dict"
    using that by (induction d) auto
  with snoc p show ?case by (auto simp: dict_of_def)
qed (simp add: dict_of_def)

text \<open>
  The interface the components use a dictionary through. \<open>pop_all\<close> is the source's recurring
  idiom of collecting keys first and popping each of them afterwards.
\<close>

locale keyed_store =
  fixes lookup :: "'d \<Rightarrow> 'k \<Rightarrow> 'v option"
    and put :: "'k \<Rightarrow> 'v \<Rightarrow> 'd \<Rightarrow> 'd"
    and drop_key :: "'k \<Rightarrow> 'd \<Rightarrow> 'd"
  assumes lookup_put: "lookup (put k v d) k' = (if k' = k then Some v else lookup d k')"
    and lookup_drop: "lookup (drop_key k d) k' = (if k' = k then None else lookup d k')"
begin

lemma lookup_drop_all: "lookup (fold drop_key ks d) k = (if k \<in> set ks then None else lookup d k)"
  by (induction ks arbitrary: d) (auto simp: lookup_drop)

lemma put_put_same: "lookup (put k v (put k v' d)) = lookup (put k v d)"
  by (rule ext) (simp add: lookup_put)

lemma drop_put_same: "lookup (drop_key k (put k v d)) = lookup (drop_key k d)"
  by (rule ext) (simp add: lookup_put lookup_drop)

lemma put_commute: "k \<noteq> k' \<Longrightarrow> lookup (put k v (put k' v' d)) = lookup (put k' v' (put k v d))"
  by (rule ext) (simp add: lookup_put)

lemma lookup_drop_all_SomeD: "lookup (fold drop_key ks d) k = Some v \<Longrightarrow> k \<notin> set ks \<and> lookup d k = Some v"
  by (simp add: lookup_drop_all split: if_splits)

end

interpretation pydict: keyed_store "map_of" "AList.update" "AList.delete"
  by unfold_locales (simp_all add: dict_simps)

lemma wf_dict_pop_all: "wf_dict d \<Longrightarrow> wf_dict (fold AList.delete ks d)"
  by (induction ks arbitrary: d) auto

lemma dict_pop_all_subset: "set (fold AList.delete ks d) \<subseteq> set d"
proof (induction ks arbitrary: d)
  case (Cons k ks)
  have "set (dict_pop k d) \<subseteq> set d" by (auto simp: AList.delete_eq)
  with Cons [of "dict_pop k d"] show ?case by simp
qed simp

section \<open>Values\<close>

datatype pyval =
    VNone
  | VBool bool
  | VInt int
  | VFloat rat
  | VStr string
  | VBytes "8 word list"
  | VList "pyval list"
  | VTuple "pyval list"
  | VDict "(pyval \<times> pyval) list"

type_synonym pydict = "(pyval, pyval) dict"
type_synonym payload = "(string, pyval) dict"

text \<open>\<open>d.get(key, default)\<close> on a dictionary value with a string key.\<close>

definition get_default :: "pydict \<Rightarrow> string \<Rightarrow> pyval \<Rightarrow> pyval" where
  "get_default d k dflt = (case dict_get d (VStr k) of None \<Rightarrow> dflt | Some v \<Rightarrow> v)"

definition payload_get :: "payload \<Rightarrow> string \<Rightarrow> pyval" where
  "payload_get d k = (case dict_get d k of None \<Rightarrow> VNone | Some v \<Rightarrow> v)"

definition payload_index :: "payload \<Rightarrow> string \<Rightarrow> pyval result" where
  "payload_index d k = (case dict_get d k of None \<Rightarrow> Inl (KeyError k) | Some v \<Rightarrow> Inr v)"

definition payload_value :: "payload \<Rightarrow> pyval" where
  "payload_value d = VDict (map (\<lambda>(k, v). (VStr k, v)) d)"

text \<open>Truth value testing, \<open>bool(v)\<close>.\<close>

fun truthy :: "pyval \<Rightarrow> bool" where
  "truthy VNone = False"
| "truthy (VBool b) = b"
| "truthy (VInt i) = (i \<noteq> 0)"
| "truthy (VFloat q) = (q \<noteq> 0)"
| "truthy (VStr s) = (s \<noteq> [])"
| "truthy (VBytes bs) = (bs \<noteq> [])"
| "truthy (VList xs) = (xs \<noteq> [])"
| "truthy (VTuple xs) = (xs \<noteq> [])"
| "truthy (VDict d) = (d \<noteq> [])"

text \<open>\<open>a or b\<close>.\<close>

definition py_or :: "pyval \<Rightarrow> pyval \<Rightarrow> pyval" where
  "py_or a b = (if truthy a then a else b)"

text \<open>Indexing a sequence: negative indices count from the end.\<close>

definition py_index :: "'a list \<Rightarrow> int \<Rightarrow> 'a result" where
  "py_index items idx =
     (if idx \<ge> int (length items) \<or> idx < - int (length items)
      then Inl (IndexError ''sequence index out of range'')
      else if idx < 0 then Inr (items ! nat (int (length items) + idx))
      else Inr (items ! nat idx))"

lemma py_index_mem: "py_index xs i = Inr x \<Longrightarrow> x \<in> set xs"
  by (auto simp: py_index_def split: if_splits)

section \<open>Runs that emit results\<close>

fun run_events :: "('e \<Rightarrow> 's \<Rightarrow> 'r list \<times> 's) \<Rightarrow> 'e list \<Rightarrow> 's \<Rightarrow> 'r list \<times> 's" where
  "run_events step [] s = ([], s)"
| "run_events step (e # es) s =
     (case step e s of (rs, s') \<Rightarrow> case run_events step es s' of (rs', s'') \<Rightarrow> (rs @ rs', s''))"

lemma run_events_append:
  "run_events step (es @ es') s =
     (case run_events step es s of (rs, s') \<Rightarrow> case run_events step es' s' of (rs', s'') \<Rightarrow> (rs @ rs', s''))"
  by (induction es arbitrary: s) (auto split: prod.splits)

lemma run_events_snoc:
  assumes "run_events step (es @ [e]) s = (rs, s')"
  obtains rs0 s0 rs1 where "run_events step es s = (rs0, s0)" "step e s0 = (rs1, s')" "rs = rs0 @ rs1"
  using assms by (auto simp: run_events_append split: prod.splits)

text \<open>
  An invariant that may mention the history: it holds initially, and each step of a history that
  satisfies a prefix-closed condition keeps it.
\<close>

lemma run_events_invariant:
  assumes "run_events step es s = (rs, s')" "good es" "inv_at [] s"
    and "\<And>es e. good (es @ [e]) \<Longrightarrow> good es"
    and "\<And>es e s rs s'. good (es @ [e]) \<Longrightarrow> inv_at es s \<Longrightarrow> step e s = (rs, s') \<Longrightarrow> inv_at (es @ [e]) s'"
  shows "inv_at es s'"
  using assms(1,2)
proof (induction es arbitrary: rs s' rule: rev_induct)
  case Nil
  with assms(3) show ?case by simp
next
  case (snoc e es)
  from snoc.prems(1) obtain rs0 s0 rs1 where
    "run_events step es s = (rs0, s0)" "step e s0 = (rs1, s')" by (rule run_events_snoc)
  with snoc assms(4,5) show ?case by blast
qed

lemma run_events_emitted:
  "run_events step es s = (rs, s') \<Longrightarrow> r \<in> set rs \<Longrightarrow>
     \<exists>es1 e es2 rs1 s1 rs2 s2. es = es1 @ e # es2 \<and> run_events step es1 s = (rs1, s1) \<and>
       step e s1 = (rs2, s2) \<and> r \<in> set rs2"
proof (induction es arbitrary: rs s' rule: rev_induct)
  case (snoc e es)
  from snoc.prems(1) obtain rs0 s0 rs1 where
    split: "run_events step es s = (rs0, s0)" "step e s0 = (rs1, s')" "rs = rs0 @ rs1"
    by (rule run_events_snoc)
  show ?case
  proof (cases "r \<in> set rs1")
    case True
    with split show ?thesis
      by (intro exI [of _ es] exI [of _ e] exI [of _ "[]"] exI [of _ rs0] exI [of _ s0]
            exI [of _ rs1] exI [of _ s']) simp
  next
    case False
    with split(3) snoc.prems(2) have "r \<in> set rs0" by simp
    from snoc.IH [OF split(1) this] show ?thesis by (metis append_Cons append_assoc)
  qed
qed simp

text \<open>
  A component that never emits two results with the same key, because it remembers the keys it has
  emitted. \<open>ok\<close> is the component's invariant.
\<close>

locale at_most_once =
  fixes step :: "'e \<Rightarrow> 's \<Rightarrow> 'r list \<times> 's"
    and key :: "'r \<Rightarrow> 'k"
    and seen :: "'s \<Rightarrow> 'k set"
  assumes step_distinct: "step e s = (rs, s') \<Longrightarrow> distinct (map key rs)"
    and step_fresh: "step e s = (rs, s') \<Longrightarrow> r \<in> set rs \<Longrightarrow> key r \<notin> seen s"
    and step_seen: "step e s = (rs, s') \<Longrightarrow> seen s' = seen s \<union> key ` set rs"
begin

lemma run_seen: "run_events step es s = (rs, s') \<Longrightarrow> seen s' = seen s \<union> key ` set rs"
  by (induction es arbitrary: s rs) (auto split: prod.splits dest!: step_seen)

lemma run_distinct:
  "run_events step es s = (rs, s') \<Longrightarrow> distinct (map key rs) \<and> (\<forall>r \<in> set rs. key r \<notin> seen s)"
proof (induction es arbitrary: s rs)
  case (Cons e es)
  obtain rs1 s1 where one: "step e s = (rs1, s1)" by fastforce
  obtain rs2 where two: "run_events step es s1 = (rs2, s')" "rs = rs1 @ rs2"
    using Cons.prems one by (auto split: prod.splits)
  have rest: "distinct (map key rs2)" "\<forall>r \<in> set rs2. key r \<notin> seen s1" using Cons.IH [OF two(1)] by auto
  then have "key ` set rs2 \<inter> (seen s \<union> key ` set rs1) = {}" unfolding step_seen [OF one] by blast
  then have "\<forall>r \<in> set rs2. key r \<notin> seen s" "key ` set rs1 \<inter> key ` set rs2 = {}" by blast+
  with two(2) step_distinct [OF one] step_fresh [OF one] rest(1) show ?case by auto
qed simp

end

end
