(* ===== verification/Py_Text.thy ===== *)
theory Py_Text
  imports Py_Prelude
begin

text \<open>
  Text operations the source applies to strings: decimal conversion in both directions, trimming,
  splitting, joining, case mapping and UTF-8 encoding. Strings hold characters below code point
  256; case mapping and white space follow the ASCII part of Python's tables. The lemmas give the
  round trip between \<open>int_str\<close> and \<open>parse_int\<close> and the injectivity facts used where a program
  glues fields together with a separator.
\<close>

section \<open>Decimal integers\<close>

definition digit_char :: "nat \<Rightarrow> char" where
  "digit_char n = char_of (48 + n)"

definition is_digit :: "char \<Rightarrow> bool" where
  "is_digit c \<longleftrightarrow> 48 \<le> (of_char c :: nat) \<and> (of_char c :: nat) \<le> 57"

definition digit_val :: "char \<Rightarrow> nat" where
  "digit_val c = of_char c - 48"

lemma is_digit_digit_char [simp]: "n < 10 \<Longrightarrow> is_digit (digit_char n)"
  by (simp add: is_digit_def digit_char_def)

lemma digit_val_digit_char [simp]: "n < 10 \<Longrightarrow> digit_val (digit_char n) = n"
  by (simp add: digit_val_def digit_char_def)

fun nat_str :: "nat \<Rightarrow> string" where
  "nat_str n = (if n < 10 then [digit_char n] else nat_str (n div 10) @ [digit_char (n mod 10)])"

declare nat_str.simps [simp del]

text \<open>\<open>str(i)\<close> for an integer.\<close>

definition int_str :: "int \<Rightarrow> string" where
  "int_str i = (if i < 0 then CHR ''-'' # nat_str (nat (- i)) else nat_str (nat i))"

lemma nat_str_digits: "c \<in> set (nat_str n) \<Longrightarrow> is_digit c"
proof (induction n rule: nat_str.induct)
  case (1 n)
  then show ?case by (subst (asm) nat_str.simps) (auto split: if_splits)
qed

lemma nat_str_nonempty [simp]: "nat_str n \<noteq> []"
  by (subst nat_str.simps) simp

text \<open>
  The body of \<open>int(s)\<close> after the sign: digits, with single underscores allowed between digits.
  \<open>d\<close> says whether the character before was a digit.
\<close>

fun parse_digits :: "bool \<Rightarrow> nat \<Rightarrow> string \<Rightarrow> nat option" where
  "parse_digits d acc [] = (if d then Some acc else None)"
| "parse_digits d acc (c # cs) =
     (if is_digit c then parse_digits True (10 * acc + digit_val c) cs
      else if c = CHR ''_'' \<and> d then parse_digits False acc cs
      else None)"

lemma parse_digits_True_append:
  "\<forall>c \<in> set xs. is_digit c \<Longrightarrow>
     parse_digits True acc (xs @ ys) = parse_digits True (foldl (\<lambda>a c. 10 * a + digit_val c) acc xs) ys"
  by (induction xs arbitrary: acc) auto

lemma parse_digits_append:
  "\<forall>c \<in> set xs. is_digit c \<Longrightarrow> xs \<noteq> [] \<Longrightarrow>
     parse_digits d acc (xs @ ys) = parse_digits True (foldl (\<lambda>a c. 10 * a + digit_val c) acc xs) ys"
  by (cases xs) (auto simp: parse_digits_True_append)

lemma foldl_nat_str: "foldl (\<lambda>a c. 10 * a + digit_val c) 0 (nat_str n) = n"
proof (induction n rule: nat_str.induct)
  case (1 n)
  then show ?case by (subst nat_str.simps) auto
qed

lemma parse_digits_nat_str: "parse_digits False 0 (nat_str n) = Some n"
  using parse_digits_append [of "nat_str n" False 0 "[]"] nat_str_digits [of _ n]
  by (auto simp: foldl_nat_str)

definition is_space :: "char \<Rightarrow> bool" where
  "is_space c \<longleftrightarrow> (of_char c :: nat) \<in> {9, 10, 11, 12, 13, 28, 29, 30, 31, 32, 133, 160}"

definition strip_by :: "(char \<Rightarrow> bool) \<Rightarrow> string \<Rightarrow> string" where
  "strip_by p s = rev (dropWhile p (rev (dropWhile p s)))"

abbreviation strip :: "string \<Rightarrow> string" where
  "strip \<equiv> strip_by is_space"

lemma strip_by_id:
  assumes "s \<noteq> []" "\<not> p (hd s)" "\<not> p (last s)"
  shows "strip_by p s = s"
proof -
  from assms have "dropWhile p s = s" by (cases s) auto
  moreover from assms have "dropWhile p (rev s) = rev s"
    by (cases "rev s") (auto simp: last_rev hd_rev dest: arg_cong [where f = hd])
  ultimately show ?thesis by (simp add: strip_by_def)
qed

lemma is_digit_not_space: "is_digit c \<Longrightarrow> \<not> is_space c"
  by (auto simp: is_digit_def is_space_def)

lemma is_digit_not_sign: "is_digit c \<Longrightarrow> c \<noteq> CHR ''-'' \<and> c \<noteq> CHR ''+'' \<and> c \<noteq> CHR '':'' \<and> c \<noteq> CHR ''_''"
  by (auto simp: is_digit_def)

text \<open>\<open>int(s)\<close> for a string; \<open>None\<close> is the \<open>ValueError\<close>.\<close>

definition parse_int :: "string \<Rightarrow> int option" where
  "parse_int s =
     (case strip s of
        [] \<Rightarrow> None
      | c # cs \<Rightarrow>
          if c = CHR ''-'' then map_option (\<lambda>n. - int n) (parse_digits False 0 cs)
          else if c = CHR ''+'' then map_option int (parse_digits False 0 cs)
          else map_option int (parse_digits False 0 (c # cs)))"

lemma last_nat_str_digit: "is_digit (last (nat_str n))" "is_digit (hd (nat_str n))"
  by (rule nat_str_digits [OF last_in_set], simp) (rule nat_str_digits [OF hd_in_set], simp)

lemma strip_int_str: "strip (int_str i) = int_str i"
proof (rule strip_by_id)
  show "int_str i \<noteq> []" by (simp add: int_str_def)
  show "\<not> is_space (hd (int_str i))"
    using is_digit_not_space [OF last_nat_str_digit(2)] by (simp add: int_str_def is_space_def)
  show "\<not> is_space (last (int_str i))"
    using is_digit_not_space [OF last_nat_str_digit(1)] by (simp add: int_str_def)
qed

lemma parse_int_int_str: "parse_int (int_str i) = Some i"
proof (cases "i < 0")
  case True
  then show ?thesis
    by (simp add: parse_int_def strip_int_str) (simp add: int_str_def parse_digits_nat_str)
next
  case False
  obtain c cs where c: "nat_str (nat i) = c # cs" by (cases "nat_str (nat i)") auto
  from last_nat_str_digit(2) [of "nat i"] c have "is_digit c" by simp
  with False c parse_digits_nat_str [of "nat i"] show ?thesis
    by (simp add: parse_int_def strip_int_str) (auto simp: int_str_def is_digit_not_sign)
qed

lemma int_str_inject: "int_str i = int_str j \<longleftrightarrow> i = j"
  by (metis option.inject parse_int_int_str)

lemma int_str_no_colon: "CHR '':'' \<notin> set (int_str i)"
  using nat_str_digits is_digit_not_sign by (auto simp: int_str_def)

section \<open>Conversions of values\<close>

text \<open>\<open>int(v)\<close>; a float is truncated towards zero.\<close>

fun py_int :: "pyval \<Rightarrow> int result" where
  "py_int (VInt i) = Inr i"
| "py_int (VBool b) = Inr (if b then 1 else 0)"
| "py_int (VFloat q) = Inr (if q < 0 then - \<lfloor>- q\<rfloor> else \<lfloor>q\<rfloor>)"
| "py_int (VStr s) =
     (case parse_int s of None \<Rightarrow> Inl (ValueError ''invalid literal for int() with base 10'') | Some i \<Rightarrow> Inr i)"
| "py_int (VBytes bs) =
     (case parse_int (map (\<lambda>b. char_of (unat b)) bs) of
        None \<Rightarrow> Inl (ValueError ''invalid literal for int() with base 10'') | Some i \<Rightarrow> Inr i)"
| "py_int _ = Inl (TypeError ''int() argument must be a string, a bytes-like object or a real number'')"

text \<open>\<open>str(v)\<close>. The text of floats, bytes and containers is outside the model.\<close>

fun py_str :: "pyval \<Rightarrow> string result" where
  "py_str VNone = Inr ''None''"
| "py_str (VBool b) = Inr (if b then ''True'' else ''False'')"
| "py_str (VInt i) = Inr (int_str i)"
| "py_str (VStr s) = Inr s"
| "py_str _ = Inl Unmodelled"

section \<open>Splitting, joining, case\<close>

text \<open>\<open>s.split(sep)\<close> for a one-character separator.\<close>

fun split_on :: "char \<Rightarrow> string \<Rightarrow> string list" where
  "split_on sep [] = [[]]"
| "split_on sep (c # cs) =
     (if c = sep then [] # split_on sep cs
      else (case split_on sep cs of [] \<Rightarrow> [[c]] | w # ws \<Rightarrow> (c # w) # ws))"

fun join :: "string \<Rightarrow> string list \<Rightarrow> string" where
  "join sep [] = []"
| "join sep [w] = w"
| "join sep (w # ws) = w @ sep @ join sep ws"

lemma split_on_nonempty [simp]: "split_on sep s \<noteq> []"
  by (induction s) (auto split: list.splits)

lemma join_split_on: "join [sep] (split_on sep s) = s"
proof (induction s)
  case (Cons c cs)
  obtain w ws where w: "split_on sep cs = w # ws" by (cases "split_on sep cs") auto
  with Cons show ?case by (cases ws) auto
qed simp

lemma split_on_no_sep: "w \<in> set (split_on sep s) \<Longrightarrow> sep \<notin> set w"
  by (induction s arbitrary: w) (auto split: list.splits if_splits)

lemma split_on_append_sep:
  "sep \<notin> set w \<Longrightarrow> split_on sep (w @ sep # s) = w # split_on sep s"
  by (induction w) auto

lemma split_on_append: "split_on sep (a @ sep # b) = split_on sep a @ split_on sep b"
  by (induction a) (auto split: list.splits)

lemma split_on_word: "sep \<notin> set w \<Longrightarrow> split_on sep w = [w]"
  by (induction w) auto

lemma split_on_join: "ws \<noteq> [] \<Longrightarrow> \<forall>w \<in> set ws. sep \<notin> set w \<Longrightarrow> split_on sep (join [sep] ws) = ws"
  by (induction "[sep]" ws rule: join.induct) (auto simp: split_on_word split_on_append_sep)

text \<open>Two texts with separator-free first fields agree only field by field.\<close>

lemma sep_field_inject:
  fixes sep :: char
  assumes "a @ sep # s = b @ sep # t" "sep \<notin> set a" "sep \<notin> set b"
  shows "a = b \<and> s = t"
proof -
  from assms(1) have "split_on sep (a @ sep # s) = split_on sep (b @ sep # t)" by simp
  with assms(2,3) have "a = b" by (simp add: split_on_append_sep)
  with assms(1) show ?thesis by simp
qed

definition upper_char :: "char \<Rightarrow> char" where
  "upper_char c = (let n = (of_char c :: nat) in if 97 \<le> n \<and> n \<le> 122 then char_of (n - 32) else c)"

definition lower_char :: "char \<Rightarrow> char" where
  "lower_char c = (let n = (of_char c :: nat) in if 65 \<le> n \<and> n \<le> 90 then char_of (n + 32) else c)"

abbreviation upper :: "string \<Rightarrow> string" where
  "upper \<equiv> map upper_char"

abbreviation lower :: "string \<Rightarrow> string" where
  "lower \<equiv> map lower_char"

definition starts_with :: "string \<Rightarrow> string \<Rightarrow> bool" where
  "starts_with pre s \<longleftrightarrow> take (length pre) s = pre"

definition ends_with :: "string \<Rightarrow> string \<Rightarrow> bool" where
  "ends_with suf s \<longleftrightarrow> starts_with (rev suf) (rev s)"

text \<open>\<open>needle in s\<close>.\<close>

fun contains_sub :: "string \<Rightarrow> string \<Rightarrow> bool" where
  "contains_sub needle [] = (needle = [])"
| "contains_sub needle (c # cs) = (starts_with needle (c # cs) \<or> contains_sub needle cs)"

text \<open>\<open>s.encode()\<close>: UTF-8, for code points below 256.\<close>

definition utf8_char :: "char \<Rightarrow> 8 word list" where
  "utf8_char c = (let n = (of_char c :: nat) in
     if n < 128 then [of_nat n] else [of_nat (192 + n div 64), of_nat (128 + n mod 64)])"

definition utf8 :: "string \<Rightarrow> 8 word list" where
  "utf8 s = concat (map utf8_char s)"

lemma utf8_simps: "utf8 [] = []" "utf8 (c # s) = utf8_char c @ utf8 s"
  by (simp_all add: utf8_def)

lemma byte_of_nat: "k < 256 \<Longrightarrow> unat (of_nat k :: 8 word) = k"
  by (simp add: unat_of_nat)

lemma utf8_char_cases:
  obtains (one) x where "utf8_char c = [x]" "unat x = (of_char c :: nat)" "(of_char c :: nat) < 128"
    | (two) x y where "utf8_char c = [x, y]" "unat x = 192 + (of_char c :: nat) div 64"
        "unat y = 128 + (of_char c :: nat) mod 64"
proof (cases "(of_char c :: nat) < 128")
  case True
  with one [of "of_nat (of_char c)"] byte_of_nat [of "of_char c"] show thesis
    by (simp add: utf8_char_def Let_def)
next
  case False
  have "(of_char c :: nat) < 256" by simp
  then have "(of_char c :: nat) div 64 < 4" by (simp add: less_mult_imp_div_less)
  then have "192 + (of_char c :: nat) div 64 < 256" by simp
  with False two [of "of_nat (192 + of_char c div 64)" "of_nat (128 + of_char c mod 64)"]
    byte_of_nat [of "192 + of_char c div 64"] byte_of_nat [of "128 + of_char c mod 64"]
  show thesis by (simp add: utf8_char_def Let_def del: of_nat_add)
qed

lemma utf8_inject: "utf8 s = utf8 t \<longleftrightarrow> s = t"
proof
  show "utf8 s = utf8 t \<Longrightarrow> s = t"
  proof (induction s arbitrary: t)
    case Nil
    then show ?case by (cases t) (auto simp: utf8_simps utf8_char_def Let_def split: if_splits)
  next
    case (Cons c s)
    then obtain d t' where t: "t = d # t'"
      by (cases t) (auto simp: utf8_simps utf8_char_def Let_def split: if_splits)
    let ?n = "of_char c :: nat" and ?m = "of_char d :: nat"
    have eq: "utf8_char c @ utf8 s = utf8_char d @ utf8 t'" using Cons.prems t by (simp add: utf8_simps)
    have "?n = ?m \<and> utf8 s = utf8 t'"
    proof (cases c rule: utf8_char_cases)
      case (one x)
      with eq show ?thesis by (cases d rule: utf8_char_cases) auto
    next
      case c: (two x y)
      show ?thesis
      proof (cases d rule: utf8_char_cases)
        case (two x' y')
        with c eq have "?n div 64 = ?m div 64" "?n mod 64 = ?m mod 64" "utf8 s = utf8 t'" by auto
        moreover from this(1,2) have "?n = ?m" by (metis div_mult_mod_eq)
        ultimately show ?thesis by simp
      qed (use c eq in auto)
    qed
    then have "c = d" "utf8 s = utf8 t'" by simp_all
    with Cons.IH t show ?case by simp
  qed
qed simp

end
