(* ===== verification/Crt_Decode.thy ===== *)
theory Crt_Decode
  imports Py_Text
begin

text \<open>
  \<open>gateway/crt_decode.py\<close>: encoding a reading as residues modulo 97, 101 and 103, normalising the
  shapes a caller may pass, and decoding by the Chinese Remainder Theorem. The locale
  \<open>residue_codec\<close> states what the receiver relies on; it is interpreted on the decoder below.
\<close>

section \<open>Encoding\<close>

definition MODULI :: "int list" where
  "MODULI = [97, 101, 103]"

definition MAX_VALUE :: int where
  "MAX_VALUE = 97 * 101 * 103"

definition encode_int :: "int \<Rightarrow> (int, int) dict result" where
  "encode_int value =
     (if value < 0 \<or> value \<ge> MAX_VALUE
      then Inl (ValueError (''value must be in range 0..'' @ int_str (MAX_VALUE - 1)))
      else Inr (map (\<lambda>modulus. (modulus, value mod modulus)) MODULI))"

fun encode :: "pyval \<Rightarrow> (int, int) dict result" where
  "encode (VInt value) = encode_int value"
| "encode (VBool b) = encode_int (if b then 1 else 0)"
| "encode _ = Inl (ValueError ''value must be an integer'')"

section \<open>Normalising residues\<close>

text \<open>The argument of \<open>decode\<close>: a mapping, or a sequence of residues in several notations.\<close>

datatype residues = ResMapping pydict | ResSequence "pyval list"

text \<open>One step of the loop over a sequence; \<open>None\<close> is the \<open>continue\<close>.\<close>

definition positional_item :: "nat \<Rightarrow> pyval \<Rightarrow> (pyval \<times> pyval) option result" where
  "positional_item index item =
     bind_result (py_index MODULI (int index)) (\<lambda>m. Inr (Some (VInt m, item)))"

fun residue_item :: "nat \<Rightarrow> pyval \<Rightarrow> (pyval \<times> pyval) option result" where
  "residue_item index VNone = Inr None"
| "residue_item index (VDict d) =
     Inr (Some (get_default d ''modulus'' (get_default d ''m'' VNone),
                get_default d ''residue'' (get_default d ''r'' VNone)))"
| "residue_item index (VList [modulus, residue]) = Inr (Some (modulus, residue))"
| "residue_item index (VTuple [modulus, residue]) = Inr (Some (modulus, residue))"
| "residue_item index item = positional_item index item"

fun residue_items :: "nat \<Rightarrow> pyval list \<Rightarrow> (pyval \<times> pyval) list result" where
  "residue_items index [] = Inr []"
| "residue_items index (item # rest) =
     bind_result (residue_item index item) (\<lambda>p.
       bind_result (residue_items (Suc index) rest) (\<lambda>ps.
         Inr (case p of None \<Rightarrow> ps | Some q \<Rightarrow> q # ps)))"

fun normalise_items :: "(pyval \<times> pyval) list \<Rightarrow> (int, int) dict \<Rightarrow> (int, int) dict result" where
  "normalise_items [] normalised = Inr normalised"
| "normalise_items ((vm, vr) # items) normalised =
     (if vm = VNone \<or> vr = VNone then normalise_items items normalised
      else bind_result (py_int vm) (\<lambda>modulus.
        bind_result (py_int vr) (\<lambda>residue.
          if modulus \<notin> set MODULI
          then Inl (ValueError (''unsupported CRT modulus: '' @ int_str modulus))
          else if residue < 0 \<or> residue \<ge> modulus
          then Inl (ValueError (''residue for modulus '' @ int_str modulus @
                 '' must be in range 0..'' @ int_str (modulus - 1)))
          else normalise_items items (dict_set modulus residue normalised))))"

definition normalise_residues :: "residues \<Rightarrow> (int, int) dict result" where
  "normalise_residues residues =
     (case residues of
        ResMapping d \<Rightarrow> normalise_items d []
      | ResSequence items \<Rightarrow> bind_result (residue_items 0 items) (\<lambda>ps. normalise_items ps []))"

section \<open>Modular inverse\<close>

text \<open>
  \<open>pow(a, -1, modulus)\<close>. CPython runs the extended Euclidean algorithm on \<open>(a, modulus)\<close>, raises
  \<open>ValueError\<close> unless it ends with gcd 1, and reduces the inverse into \<open>[0, modulus)\<close>.
\<close>

function invmod_loop :: "int \<Rightarrow> int \<Rightarrow> int \<Rightarrow> int \<Rightarrow> int \<times> int" where
  "invmod_loop a n b c =
     (if n = 0 then (a, b) else invmod_loop n (a mod n) c (b - (a div n) * c))"
  by pat_completeness auto
termination
  by (relation "measure (\<lambda>(a, n, b, c). nat \<bar>n\<bar>)") (auto simp: abs_mod_less)

declare invmod_loop.simps [simp del]

definition mod_inverse :: "int \<Rightarrow> int \<Rightarrow> int result" where
  "mod_inverse a modulus =
     (case invmod_loop a modulus 1 0 of (g, x) \<Rightarrow>
        if g = 1 then Inr (x mod modulus)
        else Inl (ValueError ''base is not invertible for the given modulus''))"

section \<open>Decoding\<close>

fun product_of :: "int list \<Rightarrow> int \<Rightarrow> int" where
  "product_of [] modulus_product = modulus_product"
| "product_of (modulus # ms) modulus_product = product_of ms (modulus_product * modulus)"

fun decode_sum :: "int \<Rightarrow> (int, int) dict \<Rightarrow> int \<Rightarrow> int result" where
  "decode_sum modulus_product [] value = Inr value"
| "decode_sum modulus_product ((modulus, residue) # rest) value =
     (let partial = modulus_product div modulus
      in bind_result (mod_inverse partial modulus) (\<lambda>inv.
           decode_sum modulus_product rest (value + residue * partial * inv)))"

definition decode :: "residues \<Rightarrow> int result" where
  "decode residues =
     bind_result (normalise_residues residues) (\<lambda>normalised.
       if length normalised < 2 then Inl (ValueError ''at least two CRT residues are required'')
       else
         let modulus_product = product_of (dict_keys normalised) 1
         in bind_result (decode_sum modulus_product normalised 0) (\<lambda>total.
              let value = total mod modulus_product
              in if value < 0 \<or> value \<ge> MAX_VALUE
                 then Inl (ValueError (''decoded value outside supported range 0..'' @ int_str (MAX_VALUE - 1)))
                 else Inr value))"

text \<open>A dictionary of integers, as the receiver and \<open>encode\<close> build them.\<close>

definition int_mapping :: "(int, int) dict \<Rightarrow> residues" where
  "int_mapping d = ResMapping (map (\<lambda>(m, r). (VInt m, VInt r)) d)"

section \<open>Correctness of the inverse\<close>

lemma invmod_loop_stop: "invmod_loop a 0 b c = (a, b)"
  by (subst invmod_loop.simps) simp

lemma invmod_loop_step:
  "n \<noteq> 0 \<Longrightarrow> invmod_loop a n b c = invmod_loop n (a mod n) c (b - a div n * c)"
  by (subst invmod_loop.simps) simp

lemma invmod_loop_gcd:
  "0 \<le> a \<Longrightarrow> 0 \<le> n \<Longrightarrow> fst (invmod_loop a n b c) = gcd a n"
proof (induction a n b c rule: invmod_loop.induct)
  case (1 a n b c)
  show ?case
  proof (cases "n = 0")
    case True
    with "1.prems" show ?thesis by (simp add: invmod_loop_stop)
  next
    case False
    with "1.prems" have "fst (invmod_loop n (a mod n) c (b - a div n * c)) = gcd n (a mod n)"
      by (intro "1.IH") auto
    with False show ?thesis by (simp add: invmod_loop_step gcd_red_int [of a n])
  qed
qed

lemma invmod_loop_bezout:
  "N dvd a - b * A \<Longrightarrow> N dvd n - c * A \<Longrightarrow>
     N dvd fst (invmod_loop a n b c) - snd (invmod_loop a n b c) * A"
proof (induction a n b c rule: invmod_loop.induct)
  case (1 a n b c)
  show ?case
  proof (cases "n = 0")
    case True
    with "1.prems" show ?thesis by (simp add: invmod_loop_stop)
  next
    case False
    have "(a - b * A) - (a div n) * (n - c * A) = a mod n - (b - a div n * c) * A"
      by (simp add: algebra_simps minus_div_mult_eq_mod [symmetric])
    with "1.prems" have "N dvd a mod n - (b - a div n * c) * A"
      by (metis dvd_diff dvd_mult)
    with False "1.prems"(2) show ?thesis
      by (simp add: invmod_loop_step "1.IH")
  qed
qed

lemma mod_inverse_coprime:
  assumes "0 \<le> a" "1 < m" "coprime a m"
  obtains x where "mod_inverse a m = Inr x" "0 \<le> x" "x < m" "(a * x) mod m = 1"
proof -
  obtain g x where gx: "invmod_loop a m 1 0 = (g, x)" by fastforce
  have "g = 1" using invmod_loop_gcd [of a m 1 0] gx assms by (simp add: coprime_iff_gcd_eq_1)
  moreover have "m dvd g - x * a" using invmod_loop_bezout [of m a 1 a m 0] gx by simp
  ultimately have "(a * x) mod m = 1 mod m"
    by (simp add: mod_eq_dvd_iff dvd_diff_commute mult.commute)
  with assms(2) have "(a * (x mod m)) mod m = 1" by (simp add: mod_mult_right_eq)
  moreover have "mod_inverse a m = Inr (x mod m)" using gx \<open>g = 1\<close> by (simp add: mod_inverse_def)
  ultimately show thesis using that assms(2) by simp
qed

section \<open>The contract of a residue code\<close>

text \<open>
  What a user of the decoder relies on: the moduli are pairwise coprime, and two or more valid
  residues always decode to a solution below the product of their moduli. Everything else the
  users need (uniqueness, independence of the order of the residues, reduction of a larger value)
  follows here once.
\<close>

definition residues_ok :: "int list \<Rightarrow> (int, int) dict \<Rightarrow> bool" where
  "residues_ok moduli d \<longleftrightarrow> wf_dict d \<and> (\<forall>(m, r) \<in> set d. m \<in> set moduli \<and> 0 \<le> r \<and> r < m)"

definition residues_of :: "int list \<Rightarrow> int \<Rightarrow> (int, int) dict" where
  "residues_of ms v = map (\<lambda>m. (m, v mod m)) ms"

lemma dict_keys_residues_of [simp]: "dict_keys (residues_of ms v) = ms"
  by (simp add: residues_of_def comp_def)

lemma length_residues_of [simp]: "length (residues_of ms v) = length ms"
  by (simp add: residues_of_def)

locale coprime_moduli =
  fixes moduli :: "int list"
  assumes moduli_gt_1: "m \<in> set moduli \<Longrightarrow> 1 < m"
    and moduli_coprime: "m \<in> set moduli \<Longrightarrow> n \<in> set moduli \<Longrightarrow> m \<noteq> n \<Longrightarrow> coprime m n"
begin

lemma prod_coprime:
  "m \<in> set moduli \<Longrightarrow> set ms \<subseteq> set moduli \<Longrightarrow> m \<notin> set ms \<Longrightarrow> coprime m (prod_list ms)"
  by (induction ms) (auto intro: moduli_coprime)

lemma prod_pos: "set ms \<subseteq> set moduli \<Longrightarrow> 0 < prod_list ms"
  by (induction ms) (auto dest: moduli_gt_1)

lemma prod_dvd:
  "distinct ms \<Longrightarrow> set ms \<subseteq> set moduli \<Longrightarrow> \<forall>m \<in> set ms. m dvd a \<Longrightarrow> prod_list ms dvd a"
  by (induction ms) (auto intro!: divides_mult prod_coprime)

lemma congruent_unique:
  assumes "distinct ms" "set ms \<subseteq> set moduli" "\<forall>m \<in> set ms. u mod m = v mod m"
  shows "u mod prod_list ms = v mod prod_list ms"
  using prod_dvd [OF assms(1,2), of "u - v"] assms(3) by (auto simp: mod_eq_dvd_iff)

lemma residues_of_ok: "distinct ms \<Longrightarrow> set ms \<subseteq> set moduli \<Longrightarrow> residues_ok moduli (residues_of ms v)"
  using moduli_gt_1
  by (fastforce simp: residues_ok_def residues_of_def comp_def dest: subsetD intro: less_trans [of 0 1])

lemma prod_remove: "m \<in> set ms \<Longrightarrow> prod_list (ms :: int list) = m * prod_list (remove1 m ms)"
  by (induction ms) (auto simp: mult.left_commute)

lemma prod_div: "m \<in> set ms \<Longrightarrow> set ms \<subseteq> set moduli \<Longrightarrow> prod_list ms div m = prod_list (remove1 m ms)"
  using prod_remove [of m ms] moduli_gt_1 [of m] by (auto dest: subsetD)

lemma prod_div_coprime:
  assumes "distinct ms" "set ms \<subseteq> set moduli" "m \<in> set ms"
  shows "coprime (prod_list ms div m) m" and "0 \<le> prod_list ms div m"
    and "n \<in> set ms \<Longrightarrow> n \<noteq> m \<Longrightarrow> n dvd prod_list ms div m"
proof -
  have sub: "set (remove1 m ms) \<subseteq> set moduli" using assms(2) by (auto dest: notin_set_remove1)
  show "coprime (prod_list ms div m) m"
    using assms sub by (auto simp: prod_div coprime_commute intro!: prod_coprime)
  show "0 \<le> prod_list ms div m"
    using prod_pos [OF sub] assms by (simp add: prod_div)
  show "n \<in> set ms \<Longrightarrow> n \<noteq> m \<Longrightarrow> n dvd prod_list ms div m"
    using assms by (simp add: prod_div prod_list_dvd)
qed

end

locale residue_codec = coprime_moduli +
  fixes dec :: "(int, int) dict \<Rightarrow> int result"
  assumes dec_solves: "residues_ok moduli d \<Longrightarrow> 2 \<le> length d \<Longrightarrow>
      \<exists>v. dec d = Inr v \<and> 0 \<le> v \<and> v < prod_list (dict_keys d) \<and> (\<forall>(m, r) \<in> set d. v mod m = r)"
begin

lemma dec_unique:
  assumes "residues_ok moduli d" "2 \<le> length d" "0 \<le> v" "v < prod_list (dict_keys d)"
    and "\<forall>(m, r) \<in> set d. v mod m = r"
  shows "dec d = Inr v"
proof -
  obtain u where u: "dec d = Inr u" "0 \<le> u" "u < prod_list (dict_keys d)" "\<forall>(m, r) \<in> set d. u mod m = r"
    using dec_solves [OF assms(1,2)] by blast
  have "u mod m = v mod m" if "(m, r) \<in> set d" for m r
    using bspec [OF assms(5) that] bspec [OF u(4) that] by simp
  then have "u mod prod_list (dict_keys d) = v mod prod_list (dict_keys d)"
    using assms(1) by (intro congruent_unique) (auto simp: residues_ok_def)
  with u assms(3,4) show ?thesis by simp
qed

lemma mod_prod_mod: "m \<in> set ms \<Longrightarrow> v mod prod_list ms mod m = v mod (m::int)"
  by (simp add: mod_mod_cancel prod_list_dvd)

lemma dec_of_value:
  assumes "distinct ms" "set ms \<subseteq> set moduli" "2 \<le> length ms"
  shows "dec (residues_of ms v) = Inr (v mod prod_list ms)"
proof (rule dec_unique)
  show "\<forall>(m, r) \<in> set (residues_of ms v). v mod prod_list ms mod m = r"
    by (auto simp: residues_of_def mod_prod_mod)
qed (use assms prod_pos [OF assms(2)] in \<open>simp_all add: residues_of_ok\<close>)

lemma dec_order:
  assumes "residues_ok moduli d" "residues_ok moduli d'" "set d = set d'" "2 \<le> length d"
  shows "dec d = dec d'"
proof -
  from assms have keys: "set (dict_keys d) = set (dict_keys d')" by simp
  have prod: "prod_list (dict_keys e) = \<Prod> (set (dict_keys e))" if "residues_ok moduli e" for e
    using that prod.distinct_set_conv_list [of "dict_keys e" "\<lambda>m. m"] by (simp add: residues_ok_def)
  from prod [OF assms(1)] prod [OF assms(2)] keys
  have "prod_list (dict_keys d) = prod_list (dict_keys d')" by metis
  moreover have "length d = length d'"
    using assms keys unfolding residues_ok_def by (metis distinct_card length_map)
  moreover obtain v where "dec d = Inr v" "0 \<le> v" "v < prod_list (dict_keys d)" "\<forall>(m, r) \<in> set d. v mod m = r"
    using dec_solves [OF assms(1,4)] by blast
  ultimately show ?thesis using dec_unique [OF assms(2)] assms(3,4) by simp
qed

end

section \<open>The decoder meets the contract\<close>

lemma normalise_items_ok:
  "normalise_items items acc = Inr d \<Longrightarrow> residues_ok MODULI acc \<Longrightarrow> residues_ok MODULI d"
proof (induction items acc rule: normalise_items.induct)
  case (2 vm vr items acc)
  show ?case
  proof (cases "vm = VNone \<or> vr = VNone")
    case True
    with 2 show ?thesis by auto
  next
    case False
    with "2.prems"(1) obtain m r where mr: "py_int vm = Inr m" "py_int vr = Inr r" "m \<in> set MODULI"
      "0 \<le> r" "r < m" "normalise_items items (dict_set m r acc) = Inr d"
      by (auto simp: result_simps split: if_splits)
    moreover have "residues_ok MODULI (dict_set m r acc)"
      using mr "2.prems"(2) by (auto simp: residues_ok_def dict_set_mem_iff split: if_splits)
    ultimately show ?thesis using "2.IH"(2) [OF False mr(1,2)] by auto
  qed
qed auto

lemma normalise_items_valid:
  "residues_ok MODULI (acc @ d) \<Longrightarrow>
     normalise_items (map (\<lambda>(m, r). (VInt m, VInt r)) d) acc = Inr (acc @ d)"
proof (induction d arbitrary: acc)
  case (Cons p d)
  obtain m r where p: "p = (m, r)" by fastforce
  from Cons.prems p have "m \<notin> set (dict_keys acc)" "m \<in> set MODULI" "0 \<le> r" "r < m"
    by (auto simp: residues_ok_def)
  moreover from this have "dict_set m r acc = acc @ [(m, r)]"
    by (induction acc) auto
  ultimately show ?case using Cons.IH [of "acc @ [p]"] Cons.prems p by simp
qed simp

lemma product_of_prod_list: "product_of ms p = p * prod_list ms"
  by (induction ms arbitrary: p) simp_all

lemma decode_sum_spec:
  assumes "wf_dict d" "\<forall>m \<in> set (dict_keys d). 1 < m \<and> 0 \<le> P div m \<and> coprime (P div m) m"
  shows "\<exists>S. decode_sum P d acc = Inr (acc + S) \<and>
    (\<forall>n. (\<forall>m \<in> set (dict_keys d). m \<noteq> n \<longrightarrow> n dvd P div m) \<longrightarrow>
         S mod n = (case dict_get d n of None \<Rightarrow> 0 | Some r \<Rightarrow> r mod n))"
  using assms
proof (induction d arbitrary: acc)
  case (Cons p d)
  obtain m r where p: "p = (m, r)" by fastforce
  with Cons.prems obtain x where x: "mod_inverse (P div m) m = Inr x" "(P div m * x) mod m = 1"
    by (auto elim: mod_inverse_coprime [of "P div m" m])
  let ?t = "r * (P div m) * x"
  obtain S where S: "decode_sum P d (acc + ?t) = Inr (acc + ?t + S)"
    "\<And>n. \<forall>m \<in> set (dict_keys d). m \<noteq> n \<longrightarrow> n dvd P div m \<Longrightarrow>
         S mod n = (case dict_get d n of None \<Rightarrow> 0 | Some r \<Rightarrow> r mod n)"
    using Cons.IH [of "acc + ?t"] Cons.prems p by auto
  have t: "?t mod n = (if n = m then r mod n else 0)" if "n \<noteq> m \<longrightarrow> n dvd P div m" for n
  proof (cases "n = m")
    case True
    have "?t mod m = (r * ((P div m * x) mod m)) mod m" by (simp add: mod_mult_right_eq mult.assoc)
    with x(2) True show ?thesis by simp
  next
    case False
    with that show ?thesis by (auto intro!: dvd_imp_mod_0)
  qed
  have "(?t + S) mod n = (case dict_get (p # d) n of None \<Rightarrow> 0 | Some r \<Rightarrow> r mod n)"
    if "\<forall>m \<in> set (dict_keys (p # d)). m \<noteq> n \<longrightarrow> n dvd P div m" for n
  proof -
    have "S mod n = (case dict_get d n of None \<Rightarrow> 0 | Some r \<Rightarrow> r mod n)"
      using S(2) [of n] that by simp
    moreover have "?t mod n = (if n = m then r mod n else 0)" using that p by (intro t) auto
    moreover have "n = m \<Longrightarrow> dict_get d n = None" using Cons.prems p by (simp add: map_of_eq_None_iff)
    ultimately show ?thesis using p by (auto simp: mod_add_eq [of ?t n S, symmetric] split: option.splits)
  qed
  with S(1) x(1) p show ?case by (auto simp: add.assoc intro!: exI [of _ "?t + S"])
qed auto

interpretation crt_moduli: coprime_moduli MODULI
proof unfold_locales
  show "1 < m" if "m \<in> set MODULI" for m using that by (auto simp: MODULI_def)
  have "\<forall>m \<in> set MODULI. \<forall>n \<in> set MODULI. m \<noteq> n \<longrightarrow> coprime m n"
    by code_simp
  then show "coprime m n" if "m \<in> set MODULI" "n \<in> set MODULI" "m \<noteq> n" for m n
    using that by blast
qed

text \<open>The decoder on a dictionary of integers, the form in which the receiver calls it.\<close>

definition decode_ints :: "(int, int) dict \<Rightarrow> int result" where
  "decode_ints d = decode (int_mapping d)"

lemma normalise_int_mapping: "residues_ok MODULI d \<Longrightarrow> normalise_residues (int_mapping d) = Inr d"
  using normalise_items_valid [of "[]" d] by (simp add: normalise_residues_def int_mapping_def)

lemma prod_le_MAX: "distinct ms \<Longrightarrow> set ms \<subseteq> set MODULI \<Longrightarrow> prod_list ms \<le> MAX_VALUE"
proof (rule zdvd_imp_le)
  assume ms: "distinct ms" "set ms \<subseteq> set MODULI"
  have "\<forall>m \<in> set MODULI. m dvd MAX_VALUE" by (simp add: MODULI_def MAX_VALUE_def)
  with ms show "prod_list ms dvd MAX_VALUE" by (intro crt_moduli.prod_dvd) auto
qed (simp add: MAX_VALUE_def)

lemma decode_ints_solves:
  assumes ok: "residues_ok MODULI d" and len: "2 \<le> length d"
  shows "\<exists>v. decode_ints d = Inr v \<and> 0 \<le> v \<and> v < prod_list (dict_keys d) \<and> (\<forall>(m, r) \<in> set d. v mod m = r)"
proof -
  let ?P = "prod_list (dict_keys d)"
  from ok have keys: "wf_dict d" "set (dict_keys d) \<subseteq> set MODULI" by (auto simp: residues_ok_def)
  note div = crt_moduli.prod_div_coprime [OF keys]
  have pos: "0 < ?P" by (rule crt_moduli.prod_pos [OF keys(2)])
  have "\<forall>m \<in> set (dict_keys d). 1 < m \<and> 0 \<le> ?P div m \<and> coprime (?P div m) m"
    using keys(2) div(1,2) crt_moduli.moduli_gt_1 by blast
  from decode_sum_spec [OF keys(1) this, of 0] obtain S where
    S: "decode_sum ?P d 0 = Inr (0 + S)"
    and res: "\<forall>n. (\<forall>m \<in> set (dict_keys d). m \<noteq> n \<longrightarrow> n dvd ?P div m) \<longrightarrow>
         S mod n = (case dict_get d n of None \<Rightarrow> 0 | Some r \<Rightarrow> r mod n)"
    by (elim exE conjE) (rule that)
  have "S mod ?P mod m = r" if mr: "(m, r) \<in> set d" for m r
  proof -
    have m: "m \<in> set (dict_keys d)" using mr by force
    have "\<forall>k \<in> set (dict_keys d). k \<noteq> m \<longrightarrow> m dvd ?P div k"
      using div(3) m by blast
    moreover have "dict_get d m = Some r" using keys(1) mr by simp
    ultimately have "S mod m = r mod m" using res by (metis option.simps(5))
    moreover have "r mod m = r" using mr ok by (auto simp: residues_ok_def)
    ultimately show ?thesis using prod_list_dvd [OF m] by (simp add: mod_mod_cancel)
  qed
  moreover have "S mod ?P < MAX_VALUE"
    using pos_mod_bound [OF pos] prod_le_MAX [OF keys] by (rule less_le_trans)
  moreover have nonneg: "\<not> S mod ?P < 0" using pos by (simp add: not_less)
  ultimately show ?thesis using S pos len normalise_int_mapping [OF ok]
    by (auto simp: decode_ints_def decode_def product_of_prod_list Let_def nonneg)
qed

interpretation crt: residue_codec MODULI decode_ints
  by unfold_locales (rule decode_ints_solves)

section \<open>Decoding in every case\<close>

lemma decode_normalised:
  "normalise_residues res = Inr d \<Longrightarrow>
     decode res = (if length d < 2 then Inl (ValueError ''at least two CRT residues are required'')
                   else decode_ints d)"
proof -
  assume n: "normalise_residues res = Inr d"
  have ok: "residues_ok MODULI d"
    using n normalise_items_ok [of _ "[]" d]
    by (auto simp: normalise_residues_def residues_ok_def result_simps split: residues.splits)
  from n show ?thesis
    by (simp add: decode_def decode_ints_def normalise_int_mapping [OF ok])
qed

lemma normalise_residues_ok: "normalise_residues res = Inr d \<Longrightarrow> residues_ok MODULI d"
  using normalise_items_ok [of _ "[]" d]
  by (auto simp: normalise_residues_def residues_ok_def result_simps split: residues.splits)

lemma decode_error_cases:
  "decode res = Inl e \<longleftrightarrow>
     normalise_residues res = Inl e \<or>
     (\<exists>d. normalise_residues res = Inr d \<and> length d < 2 \<and>
          e = ValueError ''at least two CRT residues are required'')"
proof (cases "normalise_residues res")
  case (Inl a)
  then show ?thesis by (auto simp: decode_def)
next
  case (Inr d)
  then show ?thesis
    using decode_ints_solves [OF normalise_residues_ok [OF Inr]] by (auto simp: decode_normalised)
qed

lemma normalise_items_ints:
  "normalise_items (map (\<lambda>(m, r). (VInt m, VInt r)) d) acc = Inr d' \<Longrightarrow> wf_dict (acc @ d) \<Longrightarrow> d' = acc @ d"
proof (induction d arbitrary: acc)
  case (Cons p d)
  obtain m r where p: "p = (m, r)" by fastforce
  from Cons.prems(2) p have "m \<notin> set (dict_keys acc)" by auto
  then have "dict_set m r acc = acc @ [(m, r)]" by (induction acc) auto
  with Cons.IH [of "acc @ [p]"] Cons.prems p show ?case by (auto split: if_splits)
qed simp

text \<open>A dictionary of integers that decodes is a valid one, and the value solves it.\<close>

lemma decode_ints_sound:
  assumes "decode_ints d = Inr v" "wf_dict d"
  shows "residues_ok MODULI d" and "2 \<le> length d" and "0 \<le> v" and "v < prod_list (dict_keys d)"
    and "\<forall>(m, r) \<in> set d. v mod m = r"
proof -
  from assms(1) obtain d' where n: "normalise_residues (int_mapping d) = Inr d'"
    by (cases "normalise_residues (int_mapping d)") (auto simp: decode_ints_def decode_def)
  with normalise_items_ints [of d "[]" d'] assms(2) have "d' = d"
    by (simp add: normalise_residues_def int_mapping_def)
  with n normalise_residues_ok show ok: "residues_ok MODULI d" by blast
  from decode_normalised [OF n] assms(1) \<open>d' = d\<close> show len: "2 \<le> length d"
    by (auto simp: decode_ints_def split: if_splits)
  from decode_ints_solves [OF ok len] assms(1) show "0 \<le> v" "v < prod_list (dict_keys d)"
    "\<forall>(m, r) \<in> set d. v mod m = r" by auto
qed

lemma encode_int_residues: "0 \<le> v \<Longrightarrow> v < MAX_VALUE \<Longrightarrow> encode_int v = Inr (residues_of MODULI v)"
  by (simp add: encode_int_def residues_of_def)

lemma distinct_MODULI: "distinct MODULI" and prod_MODULI: "prod_list MODULI = MAX_VALUE"
  and length_MODULI: "length MODULI = 3"
  by (simp_all add: MODULI_def MAX_VALUE_def)

section \<open>Properties\<close>

text \<open>
  C1. Encoding any reading in \<open>[0, MAX_VALUE)\<close> and decoding the three residues gives the reading
  back; readings outside the range, and values that are not integers, are rejected with
  \<open>ValueError\<close>.
\<close>

theorem encode_decode_roundtrip:
  "(if 0 \<le> v \<and> v < MAX_VALUE
    then \<exists>d. encode (VInt v) = Inr d \<and> dict_keys d = [97, 101, 103] \<and> decode (int_mapping d) = Inr v
    else encode (VInt v) =
      Inl (ValueError (''value must be in range 0..'' @ int_str 1009090)))"
proof (cases "0 \<le> v \<and> v < MAX_VALUE")
  case True
  have "decode_ints (residues_of MODULI v) = Inr (v mod prod_list MODULI)"
    by (rule crt.dec_of_value) (simp_all add: distinct_MODULI length_MODULI)
  with True show ?thesis
    by (simp add: encode_int_residues prod_MODULI decode_ints_def) (simp add: MODULI_def)
next
  case False
  then show ?thesis by (auto simp: encode_int_def MAX_VALUE_def)
qed

text \<open>
  C2. From any two or three distinct moduli the decoder returns the reading reduced modulo the
  product of the moduli received, in whatever order the residues arrive: a reading is recovered
  exactly when it lies below that product.
\<close>

theorem decode_partial_residues:
  assumes "distinct ms" "set ms \<subseteq> set MODULI" "2 \<le> length ms" "0 \<le> v"
  shows "decode (int_mapping (residues_of ms v)) = Inr (v mod prod_list ms) \<and>
    (decode (int_mapping (residues_of ms v)) = Inr v \<longleftrightarrow> v < prod_list ms)"
proof -
  have eq: "decode (int_mapping (residues_of ms v)) = Inr (v mod prod_list ms)"
    using crt.dec_of_value [OF assms(1-3), of v] by (simp add: decode_ints_def)
  from crt_moduli.prod_pos [OF assms(2)] have "v mod prod_list ms < prod_list ms" by simp
  with eq assms(4) show ?thesis by (metis mod_pos_pos_trivial sum.inject(2))
qed

theorem decode_partial_residues_witness:
  "decode (int_mapping (residues_of [103, 97] 823295)) = Inr (823295 mod (103 * 97)) \<and>
   decode (int_mapping (residues_of [103, 97] 823295)) \<noteq> Inr 823295"
  using decode_partial_residues [of "[103, 97]" 823295] by (simp add: MODULI_def)

text \<open>
  C3. Decoding is total and sound on every argument: the only failures are those of normalising
  the argument and of having fewer than two distinct moduli (the final range check and the
  inverse computation never raise), and a value that is returned lies below the product of the
  moduli received and agrees with every residue.
\<close>

theorem decode_total_sound:
  "(case decode res of
      Inl e \<Rightarrow> normalise_residues res = Inl e \<or>
        (\<exists>d. normalise_residues res = Inr d \<and> length d < 2 \<and>
             e = ValueError ''at least two CRT residues are required'')
    | Inr v \<Rightarrow> (\<exists>d. normalise_residues res = Inr d \<and> 2 \<le> length d \<and> 0 \<le> v \<and>
          v < prod_list (dict_keys d) \<and> v < MAX_VALUE \<and> (\<forall>(m, r) \<in> set d. v mod m = r)))"
proof (cases "decode res")
  case (Inl e)
  then show ?thesis using decode_error_cases [of res e] by simp
next
  case (Inr v)
  then obtain d where d: "normalise_residues res = Inr d"
    by (cases "normalise_residues res") (auto simp: decode_def)
  note ok = normalise_residues_ok [OF d]
  from Inr d have len: "2 \<le> length d" and v: "decode_ints d = Inr v"
    by (auto simp: decode_normalised split: if_splits)
  from decode_ints_solves [OF ok len] v have sol: "0 \<le> v" "v < prod_list (dict_keys d)"
    "\<forall>(m, r) \<in> set d. v mod m = r" by auto
  moreover have "prod_list (dict_keys d) \<le> MAX_VALUE"
    using ok by (intro prod_le_MAX) (auto simp: residues_ok_def)
  ultimately show ?thesis using Inr d len by auto
qed

theorem decode_total_sound_witness:
  "\<exists>v. decode (ResSequence [VInt 53, VStr ''51'']) = Inr v \<and> v mod 97 = 53 \<and> v mod 101 = 51 \<and> v < 97 * 101"
proof -
  have "parse_int ''51'' = Some 51" by code_simp
  then have n: "normalise_residues (ResSequence [VInt 53, VStr ''51'']) = Inr [(97, 53), (101, 51)]"
    by (simp add: normalise_residues_def positional_item_def py_index_def MODULI_def)
  with decode_total_sound [of "ResSequence [VInt 53, VStr ''51'']"] show ?thesis
    by (cases "decode (ResSequence [VInt 53, VStr ''51''])") auto
qed

end
