(* ===== verification/Lora_Rx.thy ===== *)
theory Lora_Rx
  imports Crt_Decode
begin

text \<open>
  \<open>gateway/lora_rx.py\<close>: collecting residue packets and assembling readings. The receiver's state is
  a record; every operation on it runs under one lock, so it is a function on the state. The clock
  is read up to twice in \<open>process_packet\<close>, and the two values are arguments. An exception is
  returned together with the state it leaves behind: \<open>process_packet\<close> raises after it has stored
  the residue. Packets are mappings with string keys, objects with attributes, or something else.

  The lemmas give the receiver's invariant, the provenance and age of the residues behind every
  emitted reading, the value it carries, and that no reading is emitted twice.
\<close>

section \<open>Readings and the receiver's state\<close>

record sensor_reading =
  device_id :: string
  reading_id :: string
  sr_value :: int
  sr_zone :: pyval
  sr_timestamp :: pyval
  sr_signature :: pyval
  sr_certificate :: pyval
  sr_residues :: "(int, int) dict"

definition hex_digit :: "nat \<Rightarrow> char" where
  "hex_digit n = (if n < 10 then digit_char n else char_of (87 + n))"

text \<open>\<open>bytes.hex\<close>.\<close>

definition bytes_hex :: "8 word list \<Rightarrow> string" where
  "bytes_hex bs = concat (map (\<lambda>b. [hex_digit (unat b div 16), hex_digit (unat b mod 16)]) bs)"

definition to_payload :: "sensor_reading \<Rightarrow> payload" where
  "to_payload r =
     [(''device_id'', VStr (device_id r)),
      (''reading_id'', VStr (reading_id r)),
      (''value'', VInt (sr_value r)),
      (''zone'', sr_zone r),
      (''timestamp'', sr_timestamp r),
      (''signature'', (case sr_signature r of VBytes bs \<Rightarrow> VStr (bytes_hex bs) | s \<Rightarrow> s)),
      (''certificate'', sr_certificate r),
      (''residues'', VDict (map (\<lambda>(m, x). (VInt m, VInt x)) (sr_residues r)))]"

record assembly =
  first_seen :: rat
  as_packets :: "payload list"
  as_residues :: "(int, int) dict"

type_synonym reading_key = "string \<times> string"

record lora_receiver =
  channels :: "rat list"
  timeout_seconds :: rat
  assemblies :: "(reading_key, assembly) dict"
  assembled :: "reading_key set"
  readings :: "sensor_reading list"
  rx_stop :: bool

definition DEFAULT_CHANNELS :: "rat list" where
  "DEFAULT_CHANNELS = [8681 / 10, 8683 / 10, 8685 / 10]"

definition ASSEMBLY_TIMEOUT_SECONDS :: rat where
  "ASSEMBLY_TIMEOUT_SECONDS = 60"

definition lora_init :: "rat list \<Rightarrow> rat \<Rightarrow> lora_receiver result" where
  "lora_init chs timeout =
     (if length chs \<noteq> 3 then Inl (ValueError ''LoRaReceiver must listen on exactly three channels'')
      else Inr \<lparr>channels = chs, timeout_seconds = timeout, assemblies = [], assembled = {},
                readings = [], rx_stop = False\<rparr>)"

section \<open>Packets\<close>

datatype packet = PMapping payload | PObject payload | POther

fun packet_to_dict :: "packet \<Rightarrow> payload result" where
  "packet_to_dict (PMapping d) = Inr d"
| "packet_to_dict (PObject attrs) = Inr attrs"
| "packet_to_dict POther = Inl (ValueError ''packet must be a mapping or object with attributes'')"

text \<open>\<open>isinstance(channel, int) and channel in range(3)\<close>; a bool is an int.\<close>

fun small_channel :: "pyval \<Rightarrow> int option" where
  "small_channel (VInt i) = (if 0 \<le> i \<and> i < 3 then Some i else None)"
| "small_channel (VBool b) = Some (if b then 1 else 0)"
| "small_channel _ = None"

definition packet_modulus :: "payload \<Rightarrow> int result" where
  "packet_modulus pkt =
     bind_result
       (case dict_get pkt ''modulus'' of
          Some m \<Rightarrow> py_int m
        | None \<Rightarrow>
            (case dict_get pkt ''modulus_index'' of
               Some i \<Rightarrow> bind_result (py_int i) (\<lambda>i. py_index MODULI i)
             | None \<Rightarrow>
                 (case dict_get pkt ''channel'' of
                    Some channel \<Rightarrow>
                      (case small_channel channel of
                         Some i \<Rightarrow> py_index MODULI i
                       | None \<Rightarrow> py_int channel)
                  | None \<Rightarrow> Inl (ValueError ''packet must include modulus, modulus_index, or channel''))))
       (\<lambda>modulus.
          if modulus \<notin> set MODULI
          then Inl (ValueError (''unsupported CRT modulus: '' @ int_str modulus))
          else Inr modulus)"

text \<open>What \<open>process_packet\<close> reads from a packet before it takes the lock.\<close>

definition packet_header :: "packet \<Rightarrow> (payload \<times> reading_key \<times> int \<times> int) result" where
  "packet_header packet =
     bind_result (packet_to_dict packet) (\<lambda>pkt.
     bind_result (bind_result (payload_index pkt ''device_id'') py_str) (\<lambda>device.
     bind_result (bind_result (payload_index pkt ''reading_id'') py_str) (\<lambda>reading.
     bind_result (packet_modulus pkt) (\<lambda>modulus.
     bind_result (bind_result (payload_index pkt ''residue'') py_int) (\<lambda>residue.
       Inr (pkt, (device, reading), modulus, residue))))))"

section \<open>Operations\<close>

definition expired_keys :: "rat \<Rightarrow> lora_receiver \<Rightarrow> reading_key list" where
  "expired_keys now st = [key. (key, a) \<leftarrow> assemblies st, now - first_seen a \<ge> timeout_seconds st]"

definition expire_locked :: "rat \<Rightarrow> lora_receiver \<Rightarrow> lora_receiver" where
  "expire_locked now st = st\<lparr>assemblies := fold dict_pop (expired_keys now st) (assemblies st)\<rparr>"

definition store_residue ::
  "rat \<Rightarrow> reading_key \<Rightarrow> int \<Rightarrow> int \<Rightarrow> payload \<Rightarrow> lora_receiver \<Rightarrow> assembly \<times> lora_receiver" where
  "store_residue now key modulus residue pkt st =
     (let a = (case dict_get (assemblies st) key of
                 Some a \<Rightarrow> a
               | None \<Rightarrow> \<lparr>first_seen = now, as_packets = [], as_residues = []\<rparr>);
          a' = a\<lparr>as_residues := dict_set modulus residue (as_residues a),
                 as_packets := as_packets a @ [pkt]\<rparr>
      in (a', st\<lparr>assemblies := dict_set key a' (assemblies st)\<rparr>))"

text \<open>
  The part of \<open>process_packet\<close> under the lock; the result is the decoded value with the residues
  it came from, or \<open>None\<close> for a packet that completes nothing.
\<close>

definition process_locked ::
  "rat \<Rightarrow> rat \<Rightarrow> reading_key \<Rightarrow> int \<Rightarrow> int \<Rightarrow> payload \<Rightarrow> lora_receiver \<Rightarrow>
     (int \<times> (int, int) dict) option result \<times> lora_receiver" where
  "process_locked now1 now2 key modulus residue pkt st =
     (let st1 = expire_locked now1 st
      in if key \<in> assembled st1 then (Inr None, st1)
         else
           (case store_residue now2 key modulus residue pkt st1 of (a, st2) \<Rightarrow>
              if length (as_residues a) < 2 then (Inr None, st2)
              else
                (case decode_ints (as_residues a) of
                   Inl e \<Rightarrow> (Inl e, st2)
                 | Inr value \<Rightarrow>
                     (Inr (Some (value, as_residues a)),
                      st2\<lparr>assemblies := dict_pop key (assemblies st2),
                          assembled := insert key (assembled st2)\<rparr>))))"

definition make_reading :: "payload \<Rightarrow> reading_key \<Rightarrow> int \<Rightarrow> (int, int) dict \<Rightarrow> sensor_reading" where
  "make_reading pkt key value residues =
     \<lparr>device_id = fst key, reading_id = snd key, sr_value = value,
      sr_zone = payload_get pkt ''zone'', sr_timestamp = payload_get pkt ''timestamp'',
      sr_signature = payload_get pkt ''signature'', sr_certificate = payload_get pkt ''certificate'',
      sr_residues = residues\<rparr>"

definition process_packet ::
  "rat \<Rightarrow> rat \<Rightarrow> packet \<Rightarrow> lora_receiver \<Rightarrow> sensor_reading option result \<times> lora_receiver" where
  "process_packet now1 now2 packet st =
     (case packet_header packet of
        Inl e \<Rightarrow> (Inl e, st)
      | Inr (pkt, key, modulus, residue) \<Rightarrow>
          (case process_locked now1 now2 key modulus residue pkt st of
             (Inl e, st') \<Rightarrow> (Inl e, st')
           | (Inr None, st') \<Rightarrow> (Inr None, st')
           | (Inr (Some (value, residues)), st') \<Rightarrow>
               let reading = make_reading pkt key value residues
               in (Inr (Some reading), st'\<lparr>readings := readings st' @ [reading]\<rparr>)))"

definition receive :: "rat \<Rightarrow> rat \<Rightarrow> packet \<Rightarrow> lora_receiver \<Rightarrow> sensor_reading option result \<times> lora_receiver" where
  "receive now1 now2 packet st = process_packet now1 now2 packet st"

definition ingest_packet :: "rat \<Rightarrow> rat \<Rightarrow> packet \<Rightarrow> lora_receiver \<Rightarrow> sensor_reading option result \<times> lora_receiver" where
  "ingest_packet now1 now2 packet st = process_packet now1 now2 packet st"

text \<open>A queue read; on an empty queue the call ends with \<open>None\<close> once its timeout is over.\<close>

definition next_reading :: "lora_receiver \<Rightarrow> sensor_reading option \<times> lora_receiver" where
  "next_reading st =
     (case readings st of [] \<Rightarrow> (None, st) | r # rs \<Rightarrow> (Some r, st\<lparr>readings := rs\<rparr>))"

definition expire_incomplete :: "rat \<Rightarrow> lora_receiver \<Rightarrow> lora_receiver" where
  "expire_incomplete now st = expire_locked now st"

definition rx_request_stop :: "lora_receiver \<Rightarrow> lora_receiver" where
  "rx_request_stop st = st\<lparr>rx_stop := True\<rparr>"

text \<open>
  One turn of a source thread after the stop event was found clear: a packet of the source is
  processed and the finished reading is handed to the callback, which works on a state of its own.
  An exception of either leaves the loop, and with it the thread ends.
\<close>

definition source_turn ::
  "(sensor_reading \<Rightarrow> 'g \<Rightarrow> unit result \<times> 'g) option \<Rightarrow> rat \<Rightarrow> rat \<Rightarrow> packet option \<Rightarrow>
     lora_receiver \<times> 'g \<Rightarrow> unit result \<times> lora_receiver \<times> 'g" where
  "source_turn on_reading now1 now2 packet s =
     (case (packet, s) of
        (None, st, g) \<Rightarrow> (Inr (), st, g)
      | (Some pkt, st, g) \<Rightarrow>
          (case process_packet now1 now2 pkt st of
             (Inl e, st') \<Rightarrow> (Inl e, st', g)
           | (Inr None, st') \<Rightarrow> (Inr (), st', g)
           | (Inr (Some r), st') \<Rightarrow>
               (case on_reading of
                  None \<Rightarrow> (Inr (), st', g)
                | Some f \<Rightarrow> (case f r g of (res, g') \<Rightarrow> (res, st', g')))))"

text \<open>The loop over what a source yields, with the clock readings of each turn.\<close>

fun source_loop ::
  "(sensor_reading \<Rightarrow> 'g \<Rightarrow> unit result \<times> 'g) option \<Rightarrow> (rat \<times> rat \<times> packet option) list \<Rightarrow>
     lora_receiver \<times> 'g \<Rightarrow> unit result \<times> lora_receiver \<times> 'g" where
  "source_loop on_reading [] s = (Inr (), s)"
| "source_loop on_reading ((now1, now2, packet) # turns) s =
     (if rx_stop (fst s) then (Inr (), s)
      else (case source_turn on_reading now1 now2 packet s of
              (Inl e, s') \<Rightarrow> (Inl e, s')
            | (Inr _, s') \<Rightarrow> source_loop on_reading turns s'))"

section \<open>What one packet does\<close>

lemma expire_locked_fields [simp]:
  "timeout_seconds (expire_locked now st) = timeout_seconds st"
  "assembled (expire_locked now st) = assembled st"
  "readings (expire_locked now st) = readings st"
  by (simp_all add: expire_locked_def)

lemma wf_expire_locked: "wf_dict (assemblies st) \<Longrightarrow> wf_dict (assemblies (expire_locked now st))"
  by (simp add: expire_locked_def wf_dict_pop_all)

lemma expired_keys_iff:
  assumes "wf_dict (assemblies st)"
  shows "k \<in> set (expired_keys now st) \<longleftrightarrow>
    (\<exists>a. dict_get (assemblies st) k = Some a \<and> now - first_seen a \<ge> timeout_seconds st)"
proof -
  have "k \<in> set (expired_keys now st) \<longleftrightarrow>
      (\<exists>a. (k, a) \<in> set (assemblies st) \<and> now - first_seen a \<ge> timeout_seconds st)"
    by (cases k) (fastforce simp: expired_keys_def)
  with assms show ?thesis by simp
qed

lemma expire_locked_get:
  assumes "wf_dict (assemblies st)"
  shows "dict_get (assemblies (expire_locked now st)) k =
    (case dict_get (assemblies st) k of
       None \<Rightarrow> None
     | Some a \<Rightarrow> if now - first_seen a \<ge> timeout_seconds st then None else Some a)"
  using expired_keys_iff [OF assms, of k now]
  by (auto simp: expire_locked_def pydict.lookup_drop_all split: option.splits)

lemma store_residue_fields [simp]:
  "timeout_seconds (snd (store_residue now k m x pkt st)) = timeout_seconds st"
  "assembled (snd (store_residue now k m x pkt st)) = assembled st"
  "readings (snd (store_residue now k m x pkt st)) = readings st"
  by (simp_all add: store_residue_def Let_def)

lemma store_residue_assemblies:
  "assemblies (snd (store_residue now k m x pkt st)) =
     dict_set k (fst (store_residue now k m x pkt st)) (assemblies st)"
  by (simp add: store_residue_def Let_def)

text \<open>
  The five ways a packet is dealt with: malformed, late for a finished reading, stored, stored with
  a failing decode, and completing its reading.
\<close>

lemma process_packet_cases [consumes 1, case_names malformed late stored failed emitted]:
  assumes "process_packet now1 now2 p st = (res, st')"
  obtains
    e where "packet_header p = Inl e" "res = Inl e" "st' = st"
  | pkt k m x where "packet_header p = Inr (pkt, k, m, x)" "k \<in> assembled st" "res = Inr None"
      "st' = expire_locked now1 st"
  | pkt k m x a st2 where "packet_header p = Inr (pkt, k, m, x)" "k \<notin> assembled st"
      "store_residue now2 k m x pkt (expire_locked now1 st) = (a, st2)"
      "length (as_residues a) < 2" "res = Inr None" "st' = st2"
  | pkt k m x a st2 e where "packet_header p = Inr (pkt, k, m, x)" "k \<notin> assembled st"
      "store_residue now2 k m x pkt (expire_locked now1 st) = (a, st2)"
      "2 \<le> length (as_residues a)" "decode_ints (as_residues a) = Inl e" "res = Inl e" "st' = st2"
  | pkt k m x a st2 v where "packet_header p = Inr (pkt, k, m, x)" "k \<notin> assembled st"
      "store_residue now2 k m x pkt (expire_locked now1 st) = (a, st2)"
      "2 \<le> length (as_residues a)" "decode_ints (as_residues a) = Inr v"
      "res = Inr (Some (make_reading pkt k v (as_residues a)))"
      "st' = st2\<lparr>assemblies := dict_pop k (assemblies st2), assembled := insert k (assembled st2),
                readings := readings st2 @ [make_reading pkt k v (as_residues a)]\<rparr>"
proof (cases "packet_header p")
  case (Inl e)
  with assms that(1) show ?thesis by (simp add: process_packet_def)
next
  case (Inr h)
  obtain pkt k m x where h: "packet_header p = Inr (pkt, k, m, x)" using Inr by (cases h) auto
  obtain a st2 where s: "store_residue now2 k m x pkt (expire_locked now1 st) = (a, st2)" by fastforce
  have "k \<in> assembled st \<or> k \<notin> assembled st \<and> length (as_residues a) < 2 \<or>
    k \<notin> assembled st \<and> 2 \<le> length (as_residues a) \<and>
      ((\<exists>e. decode_ints (as_residues a) = Inl e) \<or> (\<exists>v. decode_ints (as_residues a) = Inr v))"
    by (cases "decode_ints (as_residues a)") auto
  then consider "k \<in> assembled st" | "k \<notin> assembled st" "length (as_residues a) < 2"
    | e where "k \<notin> assembled st" "2 \<le> length (as_residues a)" "decode_ints (as_residues a) = Inl e"
    | v where "k \<notin> assembled st" "2 \<le> length (as_residues a)" "decode_ints (as_residues a) = Inr v"
    by blast
  then show ?thesis
  proof cases
    case 1
    with assms h that(2) show ?thesis by (simp add: process_packet_def process_locked_def Let_def)
  next
    case 2
    with assms h s that(3) show ?thesis by (simp add: process_packet_def process_locked_def Let_def)
  next
    case 3
    with assms h s that(4) show ?thesis by (simp add: process_packet_def process_locked_def Let_def)
  next
    case 4
    with assms h s that(5) show ?thesis by (simp add: process_packet_def process_locked_def Let_def)
  qed
qed

section \<open>Runs of the receiver\<close>

datatype rx_event = Packet rat rat packet | Expire rat | TakeReading

fun rx_step :: "rx_event \<Rightarrow> lora_receiver \<Rightarrow> sensor_reading list \<times> lora_receiver" where
  "rx_step (Packet now1 now2 p) st =
     (case process_packet now1 now2 p st of
        (Inr (Some r), st') \<Rightarrow> ([r], st')
      | (_, st') \<Rightarrow> ([], st'))"
| "rx_step (Expire now) st = ([], expire_incomplete now st)"
| "rx_step TakeReading st = ([], snd (next_reading st))"

fun event_times :: "rx_event \<Rightarrow> rat list" where
  "event_times (Packet now1 now2 p) = [now1, now2]"
| "event_times (Expire now) = [now]"
| "event_times TakeReading = []"

abbreviation clock_times :: "rx_event list \<Rightarrow> rat list" where
  "clock_times es \<equiv> concat (map event_times es)"

definition key_of :: "sensor_reading \<Rightarrow> reading_key" where
  "key_of r = (device_id r, reading_id r)"

lemma key_of_make_reading [simp]: "key_of (make_reading pkt k v rs) = k"
  by (simp add: key_of_def make_reading_def)

lemma make_reading_fields [simp]:
  "sr_value (make_reading pkt k v rs) = v" "sr_residues (make_reading pkt k v rs) = rs"
  by (simp_all add: make_reading_def)

text \<open>
  \<open>heard es k m x t\<close>: a packet of the history carried residue \<open>x\<close> modulo \<open>m\<close> for the reading \<open>k\<close>, and
  was stored at clock time \<open>t\<close>.
\<close>

definition heard :: "rx_event list \<Rightarrow> reading_key \<Rightarrow> int \<Rightarrow> int \<Rightarrow> rat \<Rightarrow> bool" where
  "heard es k m x t \<longleftrightarrow>
     (\<exists>t1 p pkt. Packet t1 t p \<in> set es \<and> packet_header p = Inr (pkt, k, m, x))"

lemma heard_mono: "heard es k m x t \<Longrightarrow> set es \<subseteq> set es' \<Longrightarrow> heard es' k m x t"
  unfolding heard_def by blast

definition assembly_ok :: "rx_event list \<Rightarrow> reading_key \<Rightarrow> assembly \<Rightarrow> bool" where
  "assembly_ok es k a \<longleftrightarrow>
     wf_dict (as_residues a) \<and> as_residues a \<noteq> [] \<and> first_seen a \<in> set (clock_times es) \<and>
     (\<forall>m x. (m, x) \<in> set (as_residues a) \<longrightarrow>
        m \<in> set MODULI \<and> (\<exists>t. heard es k m x t \<and> first_seen a \<le> t))"

text \<open>
  The receiver's invariant over its history: assemblies are keyed by unfinished readings, hold
  supported moduli once each, and every residue was heard no earlier than the assembly began.
\<close>

definition rx_inv :: "rx_event list \<Rightarrow> lora_receiver \<Rightarrow> bool" where
  "rx_inv es st \<longleftrightarrow>
     wf_dict (assemblies st) \<and>
     (\<forall>k a. dict_get (assemblies st) k = Some a \<longrightarrow> k \<notin> assembled st \<and> assembly_ok es k a) \<and>
     (\<forall>r \<in> set (readings st). key_of r \<in> assembled st)"

lemma packet_modulus_mem: "packet_modulus pkt = Inr m \<Longrightarrow> m \<in> set MODULI"
  by (auto simp: packet_modulus_def result_simps split: if_splits)

lemma packet_header_modulus: "packet_header p = Inr (pkt, k, m, x) \<Longrightarrow> m \<in> set MODULI"
  by (auto simp: packet_header_def result_simps dest: packet_modulus_mem)

lemma assembly_ok_mono:
  "assembly_ok es k a \<Longrightarrow> set es \<subseteq> set es' \<Longrightarrow> assembly_ok es' k a"
  unfolding assembly_ok_def using heard_mono [of es k _ _ _ es'] by (fastforce simp del: split_paired_All)

lemma store_residue_ok:
  assumes inv: "rx_inv es st" and h: "packet_header p = Inr (pkt, k, m, x)"
    and times: "sorted (clock_times (es @ [Packet now1 now2 p]))"
    and s: "store_residue now2 k m x pkt (expire_locked now1 st) = (a, st2)"
  shows "assembly_ok (es @ [Packet now1 now2 p]) k a"
proof -
  let ?es = "es @ [Packet now1 now2 p]"
  have new: "heard ?es k m x now2" using h by (auto simp: heard_def)
  have m: "m \<in> set MODULI" using h by (rule packet_header_modulus)
  show ?thesis
  proof (cases "dict_get (assemblies (expire_locked now1 st)) k")
    case None
    with s new m show ?thesis by (auto simp: store_residue_def Let_def assembly_ok_def)
  next
    case (Some b)
    then have "dict_get (assemblies st) k = Some b"
      using inv by (auto simp: expire_locked_get rx_inv_def split: option.splits if_splits)
    with inv have "assembly_ok es k b" unfolding rx_inv_def by blast
    then have b: "assembly_ok ?es k b" by (rule assembly_ok_mono) auto
    then have "first_seen b \<le> now2"
      using times by (auto simp: assembly_ok_def sorted_append)
    moreover have "(n, y) \<in> set (as_residues a) \<longleftrightarrow> (if n = m then y = x else (n, y) \<in> set (as_residues b))" for n y
      using s Some b by (auto simp: store_residue_def Let_def assembly_ok_def dict_set_mem_iff)
    moreover have "as_residues a = dict_set m x (as_residues b)" "first_seen a = first_seen b"
      using s Some by (auto simp: store_residue_def Let_def)
    ultimately show ?thesis using b new m by (auto simp: assembly_ok_def split: if_splits)
  qed
qed

lemma rx_inv_expire:
  assumes "rx_inv es st"
  shows "rx_inv es (expire_locked now st)"
  using assms wf_expire_locked [of st now] expire_locked_get [of st now]
  by (auto simp: rx_inv_def split: option.splits if_splits)

lemma rx_inv_mono: "rx_inv es st \<Longrightarrow> set es \<subseteq> set es' \<Longrightarrow> rx_inv es' st"
  unfolding rx_inv_def using assembly_ok_mono by blast

lemma rx_inv_store:
  assumes "rx_inv es st" "assembly_ok es k a" "k \<notin> assembled st"
  shows "rx_inv es (st\<lparr>assemblies := dict_set k a (assemblies st)\<rparr>)"
  using assms by (auto simp: rx_inv_def dict_simps)

lemma rx_inv_finish:
  assumes "rx_inv es st" "key_of r = k"
  shows "rx_inv es (st\<lparr>assemblies := dict_pop k (assemblies st), assembled := insert k (assembled st),
    readings := readings st @ [r]\<rparr>)"
  using assms by (auto simp: rx_inv_def dict_simps)

lemma store_residue_update:
  "store_residue now k m x pkt st = (a, st2) \<Longrightarrow> st2 = st\<lparr>assemblies := dict_set k a (assemblies st)\<rparr>"
  by (auto simp: store_residue_def Let_def)

lemma rx_inv_packet:
  assumes inv: "rx_inv es st" and times: "sorted (clock_times (es @ [Packet now1 now2 p]))"
    and step: "process_packet now1 now2 p st = (res, st')"
  shows "rx_inv (es @ [Packet now1 now2 p]) st'"
proof -
  let ?es = "es @ [Packet now1 now2 p]"
  have e: "rx_inv ?es (expire_locked now1 st)"
    using rx_inv_mono [OF rx_inv_expire [OF inv]] by (simp add: subset_insertI)
  have keep: "rx_inv ?es st2"
    if "packet_header p = Inr (pkt, k, m, x)" "k \<notin> assembled st"
      "store_residue now2 k m x pkt (expire_locked now1 st) = (a, st2)" for pkt k m x a st2
    using rx_inv_store [OF e store_residue_ok [OF inv that(1) times that(3)]] that(2)
    by (simp add: store_residue_update [OF that(3)])
  show ?thesis using step
  proof (cases rule: process_packet_cases)
    case malformed
    then show ?thesis using rx_inv_mono [OF inv] by (simp add: subset_insertI)
  next
    case late
    then show ?thesis using e by simp
  next
    case (stored pkt k m x a st2)
    then show ?thesis using keep by simp
  next
    case (failed pkt k m x a st2 err)
    then show ?thesis using keep by simp
  next
    case (emitted pkt k m x a st2 v)
    then show ?thesis using rx_inv_finish [OF keep] by simp
  qed
qed

lemma rx_inv_step:
  assumes "sorted (clock_times (es @ [e]))" "rx_inv es st" "rx_step e st = (rs, st')"
  shows "rx_inv (es @ [e]) st'"
proof (cases e)
  case (Packet now1 now2 p)
  then show ?thesis
    using rx_inv_packet assms by (auto split: prod.splits sum.splits option.splits)
next
  case (Expire now)
  then show ?thesis using rx_inv_mono [OF rx_inv_expire [OF assms(2)], of "es @ [e]"] assms(3)
    by (auto simp: expire_incomplete_def)
next
  case TakeReading
  have "rx_inv es st'" using TakeReading assms(2,3)
    by (auto simp: next_reading_def rx_inv_def split: list.splits)
  then show ?thesis by (rule rx_inv_mono) auto
qed

lemma rx_inv_init: "lora_init chs timeout = Inr st \<Longrightarrow> rx_inv [] st"
  by (auto simp: lora_init_def rx_inv_def split: if_splits)

lemma rx_inv_run:
  assumes "lora_init chs timeout = Inr st0" "run_events rx_step es st0 = (rs, st)" "sorted (clock_times es)"
  shows "rx_inv es st"
  using assms(2,3) rx_inv_init [OF assms(1)]
proof (rule run_events_invariant [where good = "\<lambda>es. sorted (clock_times es)" and inv_at = rx_inv])
  show "sorted (clock_times (es @ [e])) \<Longrightarrow> sorted (clock_times es)" for es e
    by (simp add: sorted_append)
qed (rule rx_inv_step)

section \<open>Emitted readings\<close>

lemma packet_emission:
  assumes inv: "rx_inv es st" and times: "sorted (clock_times (es @ [Packet now1 now2 p]))"
    and step: "process_packet now1 now2 p st = (Inr (Some r), st')"
  obtains a where "assembly_ok (es @ [Packet now1 now2 p]) (key_of r) a" "as_residues a = sr_residues r"
    "decode_ints (sr_residues r) = Inr (sr_value r)" "now1 - first_seen a < timeout_seconds st"
    "\<exists>b. dict_get (assemblies st) (key_of r) = Some b \<and> length (sr_residues r) \<le> Suc (length (as_residues b))"
  using step
proof (cases rule: process_packet_cases)
  case (emitted pkt k m x a st2 v)
  note 5 = emitted
  from 5 have r: "key_of r = k" "sr_residues r = as_residues a" "sr_value r = v" by simp_all
  have ok: "assembly_ok (es @ [Packet now1 now2 p]) k a"
    by (rule store_residue_ok [OF inv 5(1) times 5(3)])
  have wf: "wf_dict (assemblies st)" using inv by (simp add: rx_inv_def)
  have "dict_get (assemblies (expire_locked now1 st)) k \<noteq> None"
  proof
    assume "dict_get (assemblies (expire_locked now1 st)) k = None"
    with 5(3) have "as_residues a = [(m, x)]" by (auto simp: store_residue_def Let_def)
    with 5(4) show False by simp
  qed
  then obtain b where b: "dict_get (assemblies (expire_locked now1 st)) k = Some b" by blast
  then have st_b: "dict_get (assemblies st) k = Some b" and "now1 - first_seen b < timeout_seconds st"
    using expire_locked_get [OF wf, of now1 k] by (auto split: option.splits if_splits)
  moreover from b 5(3) have ab: "first_seen a = first_seen b" "as_residues a = dict_set m x (as_residues b)"
    by (auto simp: store_residue_def Let_def)
  moreover have "length (as_residues a) \<le> Suc (length (as_residues b))"
    using dict_set_length_new [of m "as_residues b" x] dict_set_length_old [of m "as_residues b" x]
    by (cases "m \<in> set (dict_keys (as_residues b))") (simp_all add: ab)
  ultimately show ?thesis using that [of a] ok r 5(5) by simp
qed simp_all

lemma rx_step_emission:
  assumes "rx_step e st = (rs, st')" "r \<in> set rs"
  obtains now1 now2 p where "e = Packet now1 now2 p" "process_packet now1 now2 p st = (Inr (Some r), st')" "rs = [r]"
  using assms by (cases e) (auto split: prod.splits sum.splits option.splits)

lemma timeout_process_packet:
  "process_packet now1 now2 p st = (res, st') \<Longrightarrow> timeout_seconds st' = timeout_seconds st"
  by (erule process_packet_cases) (auto dest: store_residue_update)

lemma timeout_step: "rx_step e st = (rs, st') \<Longrightarrow> timeout_seconds st' = timeout_seconds st"
  by (cases e)
     (auto simp: expire_incomplete_def next_reading_def dest: timeout_process_packet
           split: prod.splits sum.splits option.splits list.splits)

lemma timeout_run: "run_events rx_step es st = (rs, st') \<Longrightarrow> timeout_seconds st' = timeout_seconds st"
  by (induction es arbitrary: st rs) (auto split: prod.splits dest: timeout_step)

lemma run_emission:
  assumes init: "lora_init chs timeout = Inr st0" and run: "run_events rx_step es st0 = (rs, st)"
    and times: "sorted (clock_times es)" and r: "r \<in> set rs"
  obtains es1 now1 now2 p es2 rs1 st1 st2 where "es = es1 @ Packet now1 now2 p # es2"
    "run_events rx_step es1 st0 = (rs1, st1)" "rx_inv es1 st1" "timeout_seconds st1 = timeout"
    "sorted (clock_times (es1 @ [Packet now1 now2 p]))"
    "process_packet now1 now2 p st1 = (Inr (Some r), st2)"
proof -
  from run_events_emitted [OF run r] obtain es1 e es2 rs1 st1 rs2 st2 where
    e: "es = es1 @ e # es2" "run_events rx_step es1 st0 = (rs1, st1)" "rx_step e st1 = (rs2, st2)" "r \<in> set rs2"
    by blast
  obtain now1 now2 pkt where
    p: "e = Packet now1 now2 pkt" "process_packet now1 now2 pkt st1 = (Inr (Some r), st2)"
    by (rule rx_step_emission [OF e(3,4)])
  have "clock_times es = clock_times (es1 @ [Packet now1 now2 pkt]) @ clock_times es2" using e(1) p(1) by simp
  with times have s: "sorted (clock_times (es1 @ [Packet now1 now2 pkt]))" by (simp only: sorted_append)
  then have s1: "sorted (clock_times es1)" by (simp only: map_append concat_append sorted_append)
  have "timeout_seconds st1 = timeout"
    using timeout_run [OF e(2)] init by (auto simp: lora_init_def split: if_splits)
  from that [OF e(1) [unfolded p(1)] e(2) rx_inv_run [OF init e(2) s1] this s p(2)] show ?thesis .
qed

text \<open>Concrete packets and a concrete run for the instances of the properties.\<close>

definition demo_packet :: "string \<Rightarrow> string \<Rightarrow> int \<Rightarrow> int \<Rightarrow> packet" where
  "demo_packet d i m x =
     PMapping [(''device_id'', VStr d), (''reading_id'', VStr i), (''modulus'', VInt m), (''residue'', VInt x)]"

definition demo_rx :: lora_receiver where
  "demo_rx = \<lparr>channels = DEFAULT_CHANNELS, timeout_seconds = 60, assemblies = [], assembled = {},
     readings = [], rx_stop = False\<rparr>"

lemma demo_rx_init: "lora_init DEFAULT_CHANNELS ASSEMBLY_TIMEOUT_SECONDS = Inr demo_rx"
  by (simp add: lora_init_def DEFAULT_CHANNELS_def ASSEMBLY_TIMEOUT_SECONDS_def demo_rx_def)

lemma demo_packet_header [simp]:
  "m \<in> set MODULI \<Longrightarrow> packet_header (demo_packet d i m x) =
     Inr ([(''device_id'', VStr d), (''reading_id'', VStr i), (''modulus'', VInt m), (''residue'', VInt x)],
          (d, i), m, x)"
  by (simp add: packet_header_def demo_packet_def payload_index_def packet_modulus_def)

text \<open>Two packets of the reading 5000 and one of another device.\<close>

definition demo_run :: "rx_event list" where
  "demo_run = [Packet 1 1 (demo_packet ''d'' ''1'' 97 53), Packet 2 2 (demo_packet ''e'' ''1'' 97 0),
     Packet 3 3 (demo_packet ''d'' ''1'' 101 51)]"

definition demo_reading :: sensor_reading where
  "demo_reading = make_reading
     [(''device_id'', VStr ''d''), (''reading_id'', VStr ''1''), (''modulus'', VInt 101), (''residue'', VInt 51)]
     (''d'', ''1'') 5000 [(97, 53), (101, 51)]"

lemma demo_decode: "decode_ints [(97, 53), (101, 51)] = Inr 5000"
  by (rule crt.dec_unique) (auto simp: residues_ok_def MODULI_def)

lemma demo_run_emits: "\<exists>st. run_events rx_step demo_run demo_rx = ([demo_reading], st)"
  by (simp add: demo_run_def demo_rx_def process_packet_def process_locked_def store_residue_def expire_locked_def
      expired_keys_def MODULI_def demo_decode demo_reading_def Let_def)

text \<open>
  C9. Provenance and age. In any run of the receiver under a clock that never goes back, every
  residue of an emitted reading was carried by a packet of that run for the same device and reading
  that was stored less than the assembly timeout before the completing packet was handled; the
  reading has at least two distinct supported moduli, and its value is the one below their product
  that agrees with every residue.
\<close>

theorem lora_provenance:
  assumes "lora_init chs timeout = Inr st0" "run_events rx_step es st0 = (rs, st)"
    "sorted (clock_times es)" "r \<in> set rs"
  shows "\<exists>es1 now1 now2 p es2. es = es1 @ Packet now1 now2 p # es2 \<and>
    2 \<le> length (sr_residues r) \<and> wf_dict (sr_residues r) \<and>
    0 \<le> sr_value r \<and> sr_value r < prod_list (dict_keys (sr_residues r)) \<and>
    (\<forall>(m, x) \<in> set (sr_residues r). m \<in> {97, 101, 103} \<and> sr_value r mod m = x \<and>
       (\<exists>t. heard (es1 @ [Packet now1 now2 p]) (key_of r) m x t \<and> now1 - t < timeout))"
proof -
  obtain es1 now1 now2 p es2 rs1 st1 st2 where run: "es = es1 @ Packet now1 now2 p # es2"
    "run_events rx_step es1 st0 = (rs1, st1)" "rx_inv es1 st1" "timeout_seconds st1 = timeout"
    "sorted (clock_times (es1 @ [Packet now1 now2 p]))"
    "process_packet now1 now2 p st1 = (Inr (Some r), st2)"
    by (rule run_emission [OF assms])
  obtain a where a: "assembly_ok (es1 @ [Packet now1 now2 p]) (key_of r) a" "as_residues a = sr_residues r"
    "decode_ints (sr_residues r) = Inr (sr_value r)" "now1 - first_seen a < timeout_seconds st1"
    by (rule packet_emission [OF run(3,5,6)])
  have wf: "wf_dict (sr_residues r)" using a(1,2) by (simp add: assembly_ok_def)
  note sound = decode_ints_sound [OF a(3) wf]
  have "m \<in> {97, 101, 103} \<and> (\<exists>t. heard (es1 @ [Packet now1 now2 p]) (key_of r) m x t \<and> now1 - t < timeout)"
    if "(m, x) \<in> set (sr_residues r)" for m x
    using a(1,4) that run(4) unfolding assembly_ok_def a(2) by (force simp: MODULI_def)
  with sound(5) have "\<forall>(m, x) \<in> set (sr_residues r). m \<in> {97, 101, 103} \<and> sr_value r mod m = x \<and>
       (\<exists>t. heard (es1 @ [Packet now1 now2 p]) (key_of r) m x t \<and> now1 - t < timeout)"
    by (intro ballI) (force split: prod.splits)
  with sound(2-4) wf run(1) show ?thesis
    by (intro exI [of _ es1] exI [of _ now1] exI [of _ now2] exI [of _ p] exI [of _ es2] conjI)
qed

theorem lora_provenance_witness:
  "\<exists>es1 now1 now2 p es2. demo_run = es1 @ Packet now1 now2 p # es2 \<and>
    2 \<le> length (sr_residues demo_reading) \<and> wf_dict (sr_residues demo_reading) \<and>
    0 \<le> sr_value demo_reading \<and> sr_value demo_reading < prod_list (dict_keys (sr_residues demo_reading)) \<and>
    (\<forall>(m, x) \<in> set (sr_residues demo_reading). m \<in> {97, 101, 103} \<and> sr_value demo_reading mod m = x \<and>
       (\<exists>t. heard (es1 @ [Packet now1 now2 p]) (key_of demo_reading) m x t \<and>
            now1 - t < ASSEMBLY_TIMEOUT_SECONDS))"
proof -
  obtain st where "run_events rx_step demo_run demo_rx = ([demo_reading], st)" using demo_run_emits by blast
  then show ?thesis by (rule lora_provenance [OF demo_rx_init]) (simp_all add: demo_run_def)
qed

section \<open>No reading twice\<close>

lemma assembled_process:
  assumes "process_packet now1 now2 p st = (res, st')"
  shows "assembled st' = assembled st \<union> (case res of Inr (Some r) \<Rightarrow> {key_of r} | _ \<Rightarrow> {})"
  using assms by (cases rule: process_packet_cases) (auto dest: store_residue_update)

interpretation rx: at_most_once rx_step key_of assembled
proof (unfold_locales, goal_cases)
  case (1 e s rs s')
  then show ?case by (cases e) (auto split: prod.splits sum.splits option.splits)
next
  case (2 e s rs s' r)
  then obtain now1 now2 p where "process_packet now1 now2 p s = (Inr (Some r), s')"
    by (rule rx_step_emission)
  then show ?case by (cases rule: process_packet_cases) auto
next
  case (3 e s rs s')
  then show ?case
  proof (cases e)
    case (Packet now1 now2 p)
    obtain res st' where step: "process_packet now1 now2 p s = (res, st')" by fastforce
    with 3 Packet have "s' = st'" "rs = (case res of Inr (Some r) \<Rightarrow> [r] | _ \<Rightarrow> [])"
      by (simp_all split: sum.splits option.splits)
    with assembled_process [OF step] show ?thesis by (simp split: sum.splits option.splits)
  qed (auto simp: expire_incomplete_def next_reading_def split: list.splits)
qed

text \<open>
  C10. At most once: whatever packets arrive, in whatever order and repetition, and whatever expires
  or is taken from the queue in between, a receiver emits no two readings with the same device and
  reading id.
\<close>

theorem lora_at_most_once:
  "distinct (map (\<lambda>r. (device_id r, reading_id r)) (fst (run_events rx_step es st)))"
proof -
  obtain rs st' where "run_events rx_step es st = (rs, st')" by fastforce
  with rx.run_distinct [OF this] show ?thesis by (simp add: key_of_def [abs_def])
qed

section \<open>Readings of an honest sender\<close>

text \<open>
  A sender transmits residues of one value \<open>v\<close> for the reading \<open>k\<close>. Then an assembly of \<open>k\<close> never
  holds more than one residue between packets: the second distinct modulus completes the reading.
\<close>

definition honest :: "rx_event list \<Rightarrow> reading_key \<Rightarrow> int \<Rightarrow> bool" where
  "honest es k v \<longleftrightarrow>
     (\<forall>now1 now2 p pkt m x. Packet now1 now2 p \<in> set es \<longrightarrow> packet_header p = Inr (pkt, k, m, x) \<longrightarrow> x = v mod m)"

lemma honest_prefix: "honest (es @ es') k v \<Longrightarrow> honest es k v"
  unfolding honest_def by simp

lemma honest_heard: "honest es k v \<Longrightarrow> heard es k m x t \<Longrightarrow> x = v mod m"
  unfolding honest_def heard_def by blast

lemma honest_residues_ok:
  assumes "honest es k v" "assembly_ok es k a"
  shows "residues_ok MODULI (as_residues a)" and "as_residues a = residues_of (dict_keys (as_residues a)) v"
proof -
  have x: "x = v mod m" "m \<in> set MODULI" if "(m, x) \<in> set (as_residues a)" for m x
    using assms that honest_heard unfolding assembly_ok_def by blast+
  then show "residues_ok MODULI (as_residues a)"
    using assms(2) crt_moduli.moduli_gt_1 by (fastforce simp: residues_ok_def assembly_ok_def)
  show "as_residues a = residues_of (dict_keys (as_residues a)) v"
    unfolding residues_of_def map_map by (rule map_idI [symmetric]) (auto dest: x(1))
qed

definition single_inv :: "reading_key \<Rightarrow> rx_event list \<Rightarrow> lora_receiver \<Rightarrow> bool" where
  "single_inv k es st \<longleftrightarrow>
     rx_inv es st \<and> (\<forall>a. dict_get (assemblies st) k = Some a \<longrightarrow> length (as_residues a) = 1)"

lemma single_inv_expire:
  "rx_inv es st \<Longrightarrow> \<forall>a. dict_get (assemblies st) k = Some a \<longrightarrow> length (as_residues a) = 1 \<Longrightarrow>
     dict_get (assemblies (expire_locked now st)) k = Some a \<Longrightarrow> length (as_residues a) = 1"
  by (auto simp: expire_locked_get rx_inv_def split: option.splits if_splits)

lemma single_inv_packet:
  assumes inv: "single_inv k es st" and times: "sorted (clock_times (es @ [Packet now1 now2 p]))"
    and honest: "honest (es @ [Packet now1 now2 p]) k v"
    and step: "process_packet now1 now2 p st = (res, st')"
    and a: "dict_get (assemblies st') k = Some a"
  shows "length (as_residues a) = 1"
proof -
  let ?es = "es @ [Packet now1 now2 p]"
  from inv have rx: "rx_inv es st" and one: "\<forall>a. dict_get (assemblies st) k = Some a \<longrightarrow> length (as_residues a) = 1"
    by (simp_all add: single_inv_def)
  note exp = single_inv_expire [OF rx one]
  have ok: "assembly_ok ?es k' b" if "packet_header p = Inr (pkt, k', m, x)"
      "store_residue now2 k' m x pkt (expire_locked now1 st) = (b, st2)" for pkt k' m x b st2
    using store_residue_ok [OF rx that(1) times that(2)] .
  show ?thesis using step
  proof (cases rule: process_packet_cases)
    case (stored pkt k' m x b st2)
    show ?thesis
    proof (cases "k' = k")
      case True
      with stored a have "a = b" by (auto dest!: store_residue_update simp: dict_simps)
      moreover have "as_residues b \<noteq> []" using ok [OF stored(1,3)] by (simp add: assembly_ok_def)
      ultimately show ?thesis using stored(4) by (cases "as_residues b") auto
    next
      case False
      with stored a exp show ?thesis by (auto dest!: store_residue_update simp: dict_simps)
    qed
  next
    case (failed pkt k' m x b st2 e)
    show ?thesis
    proof (cases "k' = k")
      case True
      with failed decode_ints_solves [OF honest_residues_ok(1) [OF honest]] ok [OF failed(1,3)]
      show ?thesis by fastforce
    next
      case False
      with failed a exp show ?thesis by (auto dest!: store_residue_update simp: dict_simps)
    qed
  next
    case (emitted pkt k' m x b st2 w)
    with a exp show ?thesis
      by (auto dest!: store_residue_update simp: dict_simps split: if_splits)
  qed (use one exp a in auto)
qed

lemma single_inv_step:
  assumes "sorted (clock_times (es @ [e])) \<and> honest (es @ [e]) k v" "single_inv k es st" "rx_step e st = (rs, st')"
  shows "single_inv k (es @ [e]) st'"
proof -
  have rx: "rx_inv es st" and one: "\<forall>a. dict_get (assemblies st) k = Some a \<longrightarrow> length (as_residues a) = 1"
    using assms(2) by (simp_all add: single_inv_def)
  have "length (as_residues a) = 1" if "dict_get (assemblies st') k = Some a" for a
  proof (cases e)
    case (Packet now1 now2 p)
    obtain res st'' where step: "process_packet now1 now2 p st = (res, st'')" by fastforce
    with assms(3) Packet have "st'' = st'" by (simp split: sum.splits option.splits)
    with single_inv_packet [OF assms(2) _ _ step] assms(1) Packet that show ?thesis by blast
  qed (use assms(3) that one single_inv_expire [OF rx one] in
        \<open>auto simp: expire_incomplete_def next_reading_def split: list.splits\<close>)
  with rx_inv_step [OF _ rx assms(3)] assms(1) show ?thesis by (simp add: single_inv_def)
qed

lemma single_inv_run:
  assumes "lora_init chs timeout = Inr st0" "run_events rx_step es st0 = (rs, st)"
    "sorted (clock_times es)" "honest es k v"
  shows "single_inv k es st"
proof (rule run_events_invariant [OF assms(2), where good = "\<lambda>es. sorted (clock_times es) \<and> honest es k v"])
  show "single_inv k [] st0"
    using rx_inv_init [OF assms(1)] assms(1) by (auto simp: single_inv_def lora_init_def split: if_splits)
  show "sorted (clock_times (es @ [e])) \<and> honest (es @ [e]) k v \<Longrightarrow> sorted (clock_times es) \<and> honest es k v" for es e
    using honest_prefix [of es "[e]" k v] by (auto simp: sorted_append)
qed (use assms(3,4) in \<open>auto intro: single_inv_step\<close>)

text \<open>
  Truncated readings. When every packet of a reading carries a residue of the same value \<open>v\<close>,
  the reading is completed by the second distinct modulus, with exactly two residues: its value is
  \<open>v\<close> modulo the product of those two moduli. So a value is delivered intact only if it lies below
  that product, and no value of 10403 or more is ever delivered intact, although the three moduli
  together would carry values up to 1009090.
\<close>

theorem lora_two_residues_only:
  assumes "lora_init chs timeout = Inr st0" "run_events rx_step es st0 = (rs, st)"
    "sorted (clock_times es)" "r \<in> set rs" "honest es (device_id r, reading_id r) v" "0 \<le> v"
  shows "\<exists>m1 m2. m1 \<noteq> m2 \<and> {m1, m2} \<subseteq> {97, 101, 103} \<and>
    dict_keys (sr_residues r) = [m1, m2] \<and> sr_value r = v mod (m1 * m2) \<and>
    (sr_value r = v \<longleftrightarrow> v < m1 * m2) \<and> sr_value r < 10403"
proof -
  let ?k = "key_of r"
  have honest: "honest es ?k v" using assms(5) by (simp add: key_of_def)
  obtain es1 now1 now2 p es2 rs1 st1 st2 where run: "es = es1 @ Packet now1 now2 p # es2"
    "run_events rx_step es1 st0 = (rs1, st1)" "rx_inv es1 st1" "timeout_seconds st1 = timeout"
    "sorted (clock_times (es1 @ [Packet now1 now2 p]))"
    "process_packet now1 now2 p st1 = (Inr (Some r), st2)"
    by (rule run_emission [OF assms(1-4)])
  have honest1: "honest (es1 @ [Packet now1 now2 p]) ?k v" "honest es1 ?k v"
    using honest honest_prefix [of "es1 @ [Packet now1 now2 p]" es2] honest_prefix [of es1 "Packet now1 now2 p # es2"]
    by (simp_all add: run(1))
  obtain a b where a: "assembly_ok (es1 @ [Packet now1 now2 p]) ?k a" "as_residues a = sr_residues r"
    "decode_ints (sr_residues r) = Inr (sr_value r)" and
    b: "dict_get (assemblies st1) ?k = Some b" "length (sr_residues r) \<le> Suc (length (as_residues b))"
    using packet_emission [OF run(3,5,6)] by metis
  let ?ms = "dict_keys (sr_residues r)"
  have ok: "residues_ok MODULI (sr_residues r)" "sr_residues r = residues_of ?ms v"
    using honest_residues_ok [OF honest1(1) a(1)] by (simp_all add: a(2))
  have "sorted (clock_times es1)" using run(5) by (simp only: map_append concat_append sorted_append)
  with single_inv_run [OF assms(1) run(2) _ honest1(2)] b have le: "length (sr_residues r) \<le> 2"
    by (simp add: single_inv_def)
  note sound = decode_ints_sound [OF a(3)]
  have wf: "wf_dict (sr_residues r)" using ok(1) by (simp add: residues_ok_def)
  have "length ?ms = 2" using sound(2) [OF wf] le by simp
  then obtain m1 m2 where ms: "?ms = [m1, m2]" by (auto simp: numeral_2_eq_2 length_Suc_conv)
  have sub: "{m1, m2} \<subseteq> {97, 101, 103}" "m1 \<noteq> m2"
    using ok(1) ms wf arg_cong [OF ms, of set] by (auto simp: residues_ok_def MODULI_def)
  have "decode_ints (residues_of ?ms v) = Inr (v mod prod_list ?ms)"
    using ms sub by (intro crt.dec_of_value) (auto simp: MODULI_def)
  with a(3) ok(2) have "sr_value r = v mod prod_list ?ms" by simp
  with ms have v: "sr_value r = v mod (m1 * m2)" by simp
  have "0 < m1 * m2" "m1 * m2 \<le> 10403" using sub by auto
  then have "v mod (m1 * m2) < m1 * m2" by simp
  then have lt: "sr_value r < m1 * m2" by (simp only: v)
  have same: "v < m1 * m2 \<Longrightarrow> sr_value r = v" unfolding v by (rule mod_pos_pos_trivial [OF assms(6)])
  have "sr_value r < 10403" using lt \<open>m1 * m2 \<le> 10403\<close> by (rule less_le_trans)
  moreover have "sr_value r = v \<longleftrightarrow> v < m1 * m2"
    by (rule iffI [OF subst [where P = "\<lambda>z. z < m1 * m2", OF _ lt] same])
  ultimately show ?thesis using ms sub v
    by (intro exI [of _ m1] exI [of _ m2] conjI)
qed

theorem lora_two_residues_only_witness:
  "\<exists>m1 m2. m1 \<noteq> m2 \<and> {m1, m2} \<subseteq> {97, 101, 103} \<and>
    dict_keys (sr_residues demo_reading) = [m1, m2] \<and> sr_value demo_reading = 788760 mod (m1 * m2) \<and>
    (sr_value demo_reading = 788760 \<longleftrightarrow> 788760 < m1 * m2) \<and> sr_value demo_reading < 10403"
proof -
  obtain st where "run_events rx_step demo_run demo_rx = ([demo_reading], st)" using demo_run_emits by blast
  then show ?thesis
    by (rule lora_two_residues_only [OF demo_rx_init])
       (auto simp: demo_run_def honest_def demo_reading_def make_reading_def MODULI_def)
qed

section \<open>Two packets complete a reading\<close>

lemma process_late:
  "packet_header p = Inr (pkt, k, m, x) \<Longrightarrow> k \<in> assembled st \<Longrightarrow>
     process_packet now1 now2 p st = (Inr None, expire_locked now1 st)"
  by (simp add: process_packet_def process_locked_def Let_def)

lemma process_first:
  assumes "packet_header p = Inr (pkt, k, m, x)" "k \<notin> assembled st" "wf_dict (assemblies st)"
    and "dict_get (assemblies st) k = None"
  shows "process_packet now1 now2 p st =
    (Inr None, (expire_locked now1 st)\<lparr>assemblies := dict_set k \<lparr>first_seen = now2, as_packets = [pkt],
       as_residues = [(m, x)]\<rparr> (assemblies (expire_locked now1 st))\<rparr>)"
  using assms by (simp add: process_packet_def process_locked_def store_residue_def expire_locked_get Let_def)

lemma process_second:
  assumes "packet_header p = Inr (pkt, k, m2, v mod m2)" "k \<notin> assembled st" "wf_dict (assemblies st)"
    and "dict_get (assemblies st) k = Some a" "as_residues a = [(m1, v mod m1)]"
    and "now1 - first_seen a < timeout_seconds st" "m1 \<noteq> m2" "{m1, m2} \<subseteq> set MODULI" "0 \<le> v"
  shows "\<exists>st'. process_packet now1 now2 p st =
    (Inr (Some (make_reading pkt k (v mod (m1 * m2)) [(m1, v mod m1), (m2, v mod m2)])), st') \<and>
    assembled st' = insert k (assembled st) \<and>
    readings st' = readings st @ [make_reading pkt k (v mod (m1 * m2)) [(m1, v mod m1), (m2, v mod m2)]]"
proof -
  have "decode_ints (residues_of [m1, m2] v) = Inr (v mod prod_list [m1, m2])"
    using assms(7,8) by (intro crt.dec_of_value) auto
  then have "decode_ints [(m1, v mod m1), (m2, v mod m2)] = Inr (v mod (m1 * m2))" by (simp add: residues_of_def)
  with assms show ?thesis
    by (simp add: process_packet_def process_locked_def store_residue_def expire_locked_get Let_def)
qed

text \<open>
  C11. Completion. For a reading not seen before, the first residue is stored, and the second one
  with another modulus, arriving before the timeout, emits exactly one reading whose other fields
  come from that second packet; a third residue, or any later packet of the reading, is dropped.
\<close>

theorem lora_completes:
  assumes "wf_dict (assemblies st)" "k \<notin> assembled st" "dict_get (assemblies st) k = None" "0 \<le> v"
    and "packet_header p1 = Inr (pkt1, k, m1, v mod m1)" "packet_header p2 = Inr (pkt2, k, m2, v mod m2)"
    and "packet_header p3 = Inr (pkt3, k, m3, x3)" "m1 \<noteq> m2" "t2 - t1 < timeout_seconds st"
  shows "\<exists>st1 st2 st3 r. process_packet t0 t1 p1 st = (Inr None, st1) \<and> readings st1 = readings st \<and>
    process_packet t2 t3 p2 st1 = (Inr (Some r), st2) \<and> readings st2 = readings st @ [r] \<and>
    r = make_reading pkt2 k (v mod (m1 * m2)) [(m1, v mod m1), (m2, v mod m2)] \<and>
    process_packet t4 t5 p3 st2 = (Inr None, st3) \<and> readings st3 = readings st2"
proof -
  let ?a = "\<lparr>first_seen = t1, as_packets = [pkt1], as_residues = [(m1, v mod m1)]\<rparr>"
  let ?st1 = "(expire_locked t0 st)\<lparr>assemblies := dict_set k ?a (assemblies (expire_locked t0 st))\<rparr>"
  have one: "process_packet t0 t1 p1 st = (Inr None, ?st1)"
    by (rule process_first [OF assms(5,2,1,3)])
  have mods: "{m1, m2} \<subseteq> set MODULI" using assms(5,6) packet_header_modulus by blast
  obtain st2 where two: "process_packet t2 t3 p2 ?st1 =
      (Inr (Some (make_reading pkt2 k (v mod (m1 * m2)) [(m1, v mod m1), (m2, v mod m2)])), st2)"
    "assembled st2 = insert k (assembled ?st1)"
    "readings st2 = readings ?st1 @ [make_reading pkt2 k (v mod (m1 * m2)) [(m1, v mod m1), (m2, v mod m2)]]"
    using process_second [OF assms(6), of ?st1 ?a m1 t2 t3] assms(1,2,4,8,9) mods
    by (auto simp: dict_simps wf_expire_locked)
  have "process_packet t4 t5 p3 st2 = (Inr None, expire_locked t4 st2)"
    using process_late [OF assms(7), of st2 t4 t5] two(2) by simp
  with one two show ?thesis by (intro exI conjI) (assumption | simp)+
qed

theorem lora_completes_witness:
  "\<exists>st1 st2 st3 r. process_packet 1 1 (demo_packet ''d'' ''1'' 97 53) demo_rx = (Inr None, st1) \<and>
    readings st1 = readings demo_rx \<and>
    process_packet 3 3 (demo_packet ''d'' ''1'' 101 51) st1 = (Inr (Some r), st2) \<and>
    readings st2 = readings demo_rx @ [r] \<and> r = demo_reading \<and>
    process_packet 4 4 (demo_packet ''d'' ''1'' 103 56) st2 = (Inr None, st3) \<and> readings st3 = readings st2"
  using lora_completes [of demo_rx "(''d'', ''1'')" 5000 "demo_packet ''d'' ''1'' 97 53" _ 97
      "demo_packet ''d'' ''1'' 101 51" _ 101 "demo_packet ''d'' ''1'' 103 56" _ 103 56 3 1 1 3 4 4]
  by (simp add: demo_rx_def MODULI_def demo_reading_def)

section \<open>A residue out of range blocks its reading\<close>

definition poisoned :: "reading_key \<Rightarrow> int \<Rightarrow> int \<Rightarrow> rat \<Rightarrow> lora_receiver \<Rightarrow> bool" where
  "poisoned k m x t st \<longleftrightarrow>
     wf_dict (assemblies st) \<and> k \<notin> assembled st \<and>
     (\<exists>a. dict_get (assemblies st) k = Some a \<and> first_seen a = t \<and> wf_dict (as_residues a) \<and>
        dict_get (as_residues a) m = Some x)"

text \<open>Packets that do not bring a new residue for modulus \<open>m\<close> of \<open>k\<close>, before the assembly expires.\<close>

definition spares :: "reading_key \<Rightarrow> int \<Rightarrow> rat \<Rightarrow> rx_event \<Rightarrow> bool" where
  "spares k m limit e \<longleftrightarrow>
     (case e of
        Packet now1 now2 p \<Rightarrow> now1 < limit \<and> (\<forall>pkt x. packet_header p \<noteq> Inr (pkt, k, m, x))
      | Expire now \<Rightarrow> now < limit
      | TakeReading \<Rightarrow> True)"

lemma poisoned_expire:
  "poisoned k m x t st \<Longrightarrow> now - t < timeout_seconds st \<Longrightarrow> poisoned k m x t (expire_locked now st)"
  by (auto simp: poisoned_def expire_locked_get wf_expire_locked)

lemma poisoned_packet:
  assumes bad: "poisoned k m x t st" "x < 0 \<or> m \<le> x"
    and e: "spares k m (t + timeout_seconds st) (Packet now1 now2 p)"
    and step: "process_packet now1 now2 p st = (res, st')"
  shows "poisoned k m x t st' \<and> (\<forall>r. res = Inr (Some r) \<longrightarrow> key_of r \<noteq> k)"
proof -
  have "now1 - t < timeout_seconds st" using e by (simp add: spares_def algebra_simps)
  with bad(1) have exp: "poisoned k m x t (expire_locked now1 st)" by (rule poisoned_expire)
  have nodecode: "decode_ints (as_residues a) \<noteq> Inr v"
    if "dict_get (as_residues a) m = Some x" "wf_dict (as_residues a)" for a v
    using decode_ints_sound(1) [of "as_residues a" v] that bad(2)
    by (fastforce simp: residues_ok_def)
  have own: "dict_get (as_residues a) m = Some x" "wf_dict (as_residues a)" "first_seen a = t"
    if h: "packet_header p = Inr (pkt, k, n, y)"
      and s: "store_residue now2 k n y pkt (expire_locked now1 st) = (a, st2)" for pkt n y a st2
  proof -
    have "n \<noteq> m" using e h by (auto simp: spares_def)
    with exp s show "dict_get (as_residues a) m = Some x" "wf_dict (as_residues a)" "first_seen a = t"
      by (auto simp: poisoned_def store_residue_def Let_def dict_simps)
  qed
  show ?thesis using step
  proof (cases rule: process_packet_cases)
    case (stored pkt k' n y a st2)
    have "poisoned k m x t st'"
      using exp own [of pkt n y a st2] stored
      by (cases "k' = k") (auto simp: poisoned_def dict_simps dest!: store_residue_update)
    with stored show ?thesis by simp
  next
    case (failed pkt k' n y a st2 err)
    have "poisoned k m x t st'"
      using exp own [of pkt n y a st2] failed
      by (cases "k' = k") (auto simp: poisoned_def dict_simps dest!: store_residue_update)
    with failed show ?thesis by simp
  next
    case (emitted pkt k' n y a st2 v)
    have "k' \<noteq> k" using own [of pkt n y a st2] emitted nodecode by blast
    with exp emitted show ?thesis
      by (auto simp: poisoned_def dict_simps dest!: store_residue_update)
  qed (use bad exp in auto)
qed

text \<open>
  C12. A residue out of range blocks its reading. The receiver checks a residue only when it
  decodes, after storing it: from then on, until the assembly expires or a new residue arrives for
  the same modulus, no sequence of packets makes the receiver emit that reading.
\<close>

theorem lora_poisoned_blocks:
  assumes "poisoned k m x t st" "x < 0 \<or> m \<le> x" "\<forall>e \<in> set es. spares k m (t + timeout_seconds st) e"
    and "run_events rx_step es st = (rs, st')"
  shows "poisoned k m x t st' \<and> k \<notin> key_of ` set rs"
  using assms(1,3,4)
proof (induction es arbitrary: st rs)
  case (Cons e es)
  obtain rs1 st1 where one: "rx_step e st = (rs1, st1)" by fastforce
  obtain rs2 where two: "run_events rx_step es st1 = (rs2, st')" "rs = rs1 @ rs2"
    using Cons.prems(3) one by (auto split: prod.splits)
  have e: "spares k m (t + timeout_seconds st) e" using Cons.prems(2) by simp
  have "poisoned k m x t st1 \<and> k \<notin> key_of ` set rs1"
  proof (cases e)
    case (Packet now1 now2 p)
    obtain res st'' where step: "process_packet now1 now2 p st = (res, st'')" by fastforce
    with one Packet poisoned_packet [OF Cons.prems(1) assms(2) e [unfolded Packet] step] show ?thesis
      by (auto split: sum.splits option.splits)
  next
    case (Expire now)
    with e one poisoned_expire [OF Cons.prems(1), of now] show ?thesis
      by (auto simp: spares_def expire_incomplete_def algebra_simps)
  next
    case TakeReading
    with one Cons.prems(1) show ?thesis by (auto simp: poisoned_def next_reading_def split: list.splits)
  qed
  with Cons.IH [OF _ _ two(1)] Cons.prems(2) timeout_step [OF one] two(2) show ?case by auto
qed simp

theorem lora_poisoned_blocks_witness:
  "\<exists>st. process_packet 1 1 (demo_packet ''d'' ''1'' 97 200) demo_rx = (Inr None, st) \<and>
     (''d'', ''1'') \<notin> key_of ` set (fst (run_events rx_step
        [Packet 2 2 (demo_packet ''d'' ''1'' 101 51), Packet 3 3 (demo_packet ''d'' ''1'' 103 56)] st))"
proof -
  obtain st where st: "process_packet 1 1 (demo_packet ''d'' ''1'' 97 200) demo_rx = (Inr None, st)"
    "poisoned (''d'', ''1'') 97 200 1 st" "timeout_seconds st = 60"
    by (simp add: process_first [of _ _ "(''d'', ''1'')" 97 200] demo_rx_def MODULI_def poisoned_def
        expire_locked_def expired_keys_def)
  obtain rs st' where "run_events rx_step
      [Packet 2 2 (demo_packet ''d'' ''1'' 101 51), Packet 3 3 (demo_packet ''d'' ''1'' 103 56)] st = (rs, st')"
    by fastforce
  with lora_poisoned_blocks [OF st(2) _ _ this] st show ?thesis by (auto simp: spares_def MODULI_def)
qed

end
