(* ===== verification/Policy_Cache.thy ===== *)
theory Policy_Cache
  imports Py_Text
begin

text \<open>
  \<open>gateway/policy_cache.py\<close>: the in-memory cache of access decisions with a time to live. Every
  operation runs under the cache's lock, so concurrent use is some sequence of whole operations;
  the value of the clock inside an operation is an argument \<open>now\<close>. The abstract specification is
  \<open>last_write\<close>, a function of the history of operations alone; \<open>decision_cache\<close> is the contract
  the gateway uses.
\<close>

section \<open>State and operations\<close>

record cache_entry =
  ce_value :: pyval
  ce_expires_at :: rat

record policy_cache =
  ttl_seconds :: rat
  cache_entries :: "(string, cache_entry) dict"

definition cache_init :: "rat \<Rightarrow> policy_cache result" where
  "cache_init ttl =
     (if ttl \<le> 0 then Inl (ValueError ''ttl_seconds must be positive'')
      else Inr \<lparr>ttl_seconds = ttl, cache_entries = []\<rparr>)"

definition cache_get :: "rat \<Rightarrow> string \<Rightarrow> policy_cache \<Rightarrow> pyval \<times> policy_cache" where
  "cache_get now key c =
     (case dict_get (cache_entries c) key of
        None \<Rightarrow> (VNone, c)
      | Some entry \<Rightarrow>
          if ce_expires_at entry \<le> now
          then (VNone, c\<lparr>cache_entries := dict_pop key (cache_entries c)\<rparr>)
          else (ce_value entry, c))"

definition cache_set ::
  "rat \<Rightarrow> string \<Rightarrow> pyval \<Rightarrow> rat option \<Rightarrow> policy_cache \<Rightarrow> unit result \<times> policy_cache" where
  "cache_set now key value ttl_arg c =
     (let ttl = (case ttl_arg of None \<Rightarrow> ttl_seconds c | Some t \<Rightarrow> t)
      in if ttl \<le> 0 then (Inl (ValueError ''ttl_seconds must be positive''), c)
         else (Inr (), c\<lparr>cache_entries :=
                dict_set key \<lparr>ce_value = value, ce_expires_at = now + ttl\<rparr> (cache_entries c)\<rparr>))"

definition cache_invalidate :: "string \<Rightarrow> policy_cache \<Rightarrow> policy_cache" where
  "cache_invalidate key c = c\<lparr>cache_entries := dict_pop key (cache_entries c)\<rparr>"

definition cache_invalidate_all :: "policy_cache \<Rightarrow> policy_cache" where
  "cache_invalidate_all c = c\<lparr>cache_entries := []\<rparr>"

section \<open>Runs of operations\<close>

datatype cache_op =
    OpGet string
  | OpSet string pyval "rat option"
  | OpInvalidate string
  | OpInvalidateAll

fun cache_step :: "rat \<times> cache_op \<Rightarrow> policy_cache \<Rightarrow> policy_cache" where
  "cache_step (now, OpGet k) c = snd (cache_get now k c)"
| "cache_step (now, OpSet k v ttl) c = snd (cache_set now k v ttl c)"
| "cache_step (now, OpInvalidate k) c = cache_invalidate k c"
| "cache_step (now, OpInvalidateAll) c = cache_invalidate_all c"

lemma timed_op_cases [case_names Get Set Invalidate InvalidateAll]:
  fixes a :: "rat \<times> cache_op"
  obtains t k where "a = (t, OpGet k)" | t k v d where "a = (t, OpSet k v d)"
    | t k where "a = (t, OpInvalidate k)" | t where "a = (t, OpInvalidateAll)"
  by (cases a; cases "snd a") auto

text \<open>A history lists the operations with the most recent one first.\<close>

fun cache_after :: "(rat \<times> cache_op) list \<Rightarrow> policy_cache \<Rightarrow> policy_cache" where
  "cache_after [] c = c"
| "cache_after (x # earlier) c = cache_step x (cache_after earlier c)"

text \<open>
  Specification: the write that is in force for a key after a history, with its expiry time; reads
  do not matter, and an invalid time to live is no write.
\<close>

definition time_to_live :: "rat \<Rightarrow> rat option \<Rightarrow> rat" where
  "time_to_live dflt ttl_arg = (case ttl_arg of None \<Rightarrow> dflt | Some t \<Rightarrow> t)"

fun last_write :: "rat \<Rightarrow> (rat \<times> cache_op) list \<Rightarrow> string \<Rightarrow> (pyval \<times> rat) option" where
  "last_write dflt [] k = None"
| "last_write dflt ((t, OpGet k') # h) k = last_write dflt h k"
| "last_write dflt ((t, OpSet k' v ttl) # h) k =
     (let d = time_to_live dflt ttl
      in if k' = k \<and> 0 < d then Some (v, t + d) else last_write dflt h k)"
| "last_write dflt ((t, OpInvalidate k') # h) k = (if k' = k then None else last_write dflt h k)"
| "last_write dflt ((t, OpInvalidateAll) # h) k = None"

definition spec_get :: "rat \<Rightarrow> (rat \<times> cache_op) list \<Rightarrow> rat \<Rightarrow> string \<Rightarrow> pyval" where
  "spec_get dflt h now k =
     (case last_write dflt h k of
        None \<Rightarrow> VNone
      | Some (v, e) \<Rightarrow> if now < e then v else VNone)"

definition cache_view :: "policy_cache \<Rightarrow> string \<Rightarrow> (pyval \<times> rat) option" where
  "cache_view c k = map_option (\<lambda>e. (ce_value e, ce_expires_at e)) (dict_get (cache_entries c) k)"

lemma cache_view_get:
  "cache_view (snd (cache_get now k c)) k' =
     (case cache_view c k' of
        None \<Rightarrow> None
      | Some (v, e) \<Rightarrow> if k' = k \<and> e \<le> now then None else Some (v, e))"
  by (auto simp: cache_get_def cache_view_def dict_simps split: option.splits)

lemma cache_get_view:
  "fst (cache_get now k c) =
     (case cache_view c k of None \<Rightarrow> VNone | Some (v, e) \<Rightarrow> if now < e then v else VNone)"
  by (auto simp: cache_get_def cache_view_def split: option.splits)

lemma cache_view_set:
  "cache_view (snd (cache_set now k v ttl c)) k' =
     (let d = time_to_live (ttl_seconds c) ttl
      in if k' = k \<and> 0 < d then Some (v, now + d) else cache_view c k')"
  by (auto simp: cache_set_def time_to_live_def cache_view_def dict_simps Let_def not_le)

lemma cache_view_invalidate:
  "cache_view (cache_invalidate k c) k' = (if k' = k then None else cache_view c k')"
  "cache_view (cache_invalidate_all c) k' = None"
  by (simp_all add: cache_invalidate_def cache_invalidate_all_def cache_view_def dict_simps)

lemma cache_step_ttl [simp]: "ttl_seconds (cache_step x c) = ttl_seconds c"
  by (cases x rule: timed_op_cases)
     (auto simp: cache_get_def cache_set_def cache_invalidate_def cache_invalidate_all_def Let_def
           split: option.splits)

lemma cache_after_ttl [simp]: "ttl_seconds (cache_after h c) = ttl_seconds c"
  by (induction h) auto

lemma cache_init_Inr:
  "cache_init ttl = Inr c \<longleftrightarrow> 0 < ttl \<and> c = \<lparr>ttl_seconds = ttl, cache_entries = []\<rparr>"
  by (auto simp: cache_init_def)

lemma cache_view_init: "cache_init ttl = Inr c \<Longrightarrow> cache_view c k = None"
  by (auto simp: cache_init_Inr cache_view_def)

lemmas cache_view_simps = cache_view_get cache_view_set cache_view_invalidate

section \<open>The contract the gateway uses\<close>

text \<open>
  The gateway reads a decision, asks the ledger when the read gives \<open>None\<close>, and stores the answer
  under the default time to live. The contract says that a stored answer is what a later read
  returns, for less than one time to live. Its consequence for the gateway is stated over a log of
  the stored answers: as long as every entry of the cache is backed by the log, a read returns only
  logged answers that are younger than the time to live.
\<close>

definition backed_by ::
  "('c \<Rightarrow> string \<Rightarrow> (pyval \<times> rat) option) \<Rightarrow> rat \<Rightarrow> (rat \<times> string \<times> pyval) set \<Rightarrow> 'c \<Rightarrow> bool" where
  "backed_by view ttl written c \<longleftrightarrow>
     (\<forall>k v e. view c k = Some (v, e) \<longrightarrow> (\<exists>t. (t, k, v) \<in> written \<and> e = t + ttl))"

locale decision_cache =
  fixes get :: "rat \<Rightarrow> string \<Rightarrow> 'c \<Rightarrow> pyval \<times> 'c"
    and put :: "rat \<Rightarrow> string \<Rightarrow> pyval \<Rightarrow> 'c \<Rightarrow> 'c"
    and view :: "'c \<Rightarrow> string \<Rightarrow> (pyval \<times> rat) option"
    and ttl :: "'c \<Rightarrow> rat"
  assumes get_fresh: "get now k c = (v, c') \<Longrightarrow> v \<noteq> VNone \<Longrightarrow> \<exists>e. view c k = Some (v, e) \<and> now < e"
    and get_keeps: "get now k c = (v, c') \<Longrightarrow> view c' k' = Some x \<Longrightarrow> view c k' = Some x"
    and get_ttl: "get now k c = (v, c') \<Longrightarrow> ttl c' = ttl c"
    and put_ttl: "ttl (put now k v c) = ttl c"
    and put_view: "0 < ttl c \<Longrightarrow>
      view (put now k v c) k' = (if k' = k then Some (v, now + ttl c) else view c k')"
begin

lemma backed_get: "backed_by view (ttl c) written c \<Longrightarrow> get now k c = (v, c') \<Longrightarrow> backed_by view (ttl c') written c'"
  unfolding backed_by_def by (metis get_keeps get_ttl)

lemma backed_put:
  "0 < ttl c \<Longrightarrow> backed_by view (ttl c) written c \<Longrightarrow>
     backed_by view (ttl (put now k v c)) (insert (now, k, v) written) (put now k v c)"
  by (auto simp: backed_by_def put_view put_ttl split: if_splits)

lemma backed_mono: "backed_by view d written c \<Longrightarrow> written \<subseteq> written' \<Longrightarrow> backed_by view d written' c"
  unfolding backed_by_def by (meson subsetD)

lemma backed_hit:
  assumes "backed_by view (ttl c) written c" "get now k c = (v, c')" "v \<noteq> VNone"
  shows "\<exists>t. (t, k, v) \<in> written \<and> now < t + ttl c"
  using get_fresh [OF assms(2,3)] assms(1) unfolding backed_by_def by blast

end

abbreviation cache_put :: "rat \<Rightarrow> string \<Rightarrow> pyval \<Rightarrow> policy_cache \<Rightarrow> policy_cache" where
  "cache_put now k v c \<equiv> snd (cache_set now k v None c)"

interpretation pc: decision_cache cache_get cache_put cache_view ttl_seconds
proof unfold_locales
  fix now k c v c' k' x
  assume get: "cache_get now k c = (v, c')"
  show "v \<noteq> VNone \<Longrightarrow> \<exists>e. cache_view c k = Some (v, e) \<and> now < e"
    using cache_get_view [of now k c] get by (auto split: option.splits if_splits)
  show "cache_view c' k' = Some x \<Longrightarrow> cache_view c k' = Some x"
    using cache_view_get [of now k c k'] get by (auto split: option.splits if_splits)
  show "ttl_seconds c' = ttl_seconds c"
    using get by (auto simp: cache_get_def split: option.splits if_splits)
qed (simp_all add: cache_view_set time_to_live_def Let_def, simp add: cache_set_def Let_def)

section \<open>The cache refines the specification\<close>

text \<open>
  Whatever the clock does, an entry in the cache is the write in force. With a clock that never
  goes back, a write in force that is missing from the cache has expired: only a read after its
  expiry removes it.
\<close>

lemma cache_view_sound:
  assumes "cache_init ttl = Inr c" "cache_view (cache_after h c) k = Some x"
  shows "last_write ttl h k = Some x"
  using assms(2)
proof (induction h arbitrary: k x)
  case Nil
  with assms(1) show ?case by (simp add: cache_view_init)
next
  case (Cons a h)
  have t: "ttl_seconds (cache_after h c) = ttl" using assms(1) by (auto simp: cache_init_Inr)
  show ?case
    using Cons t
    by (cases a rule: timed_op_cases)
       (auto simp: cache_view_simps Let_def split: option.splits if_splits prod.splits)
qed

lemma cache_view_complete:
  assumes "cache_init ttl = Inr c" "sorted_wrt (\<lambda>a b. fst b \<le> fst a) h"
    and "last_write ttl h k = Some (v, e)" "\<forall>x \<in> set h. fst x < e"
  shows "cache_view (cache_after h c) k = Some (v, e)"
  using assms(2-4)
proof (induction h arbitrary: k)
  case (Cons a h)
  have t: "ttl_seconds (cache_after h c) = ttl" using assms(1) by (auto simp: cache_init_Inr)
  show ?case
    using Cons t
    by (cases a rule: timed_op_cases)
       (auto simp: cache_view_simps Let_def split: option.splits if_splits prod.splits)
qed simp

text \<open>
  C6. With a clock that never goes back, a read after any history of reads, writes and
  invalidations returns what the specification says: the value of the write in force for the key
  if that write has not expired, and \<open>None\<close> otherwise.
\<close>

theorem cache_get_refines_spec:
  assumes "cache_init ttl = Inr c" "sorted_wrt (\<lambda>a b. fst b \<le> fst a) ((now, OpGet k) # h)"
  shows "fst (cache_get now k (cache_after h c)) = spec_get ttl h now k"
proof (cases "cache_view (cache_after h c) k")
  case (Some x)
  then have "last_write ttl h k = Some x" by (rule cache_view_sound [OF assms(1)])
  with Some show ?thesis by (simp add: cache_get_view spec_get_def)
next
  case None
  have "\<not> now < e" if "last_write ttl h k = Some (v, e)" for v e
    using cache_view_complete [OF assms(1) _ that] None assms(2) by force
  with None show ?thesis by (auto simp: cache_get_view spec_get_def split: option.splits)
qed

theorem cache_get_refines_spec_witness:
  "fst (cache_get 106 ''k'' (cache_after
      [(103, OpGet ''k''), (102, OpSet ''j'' (VBool False) (Some 9)), (100, OpSet ''k'' (VStr ''GRANT'') None)]
      \<lparr>ttl_seconds = 5, cache_entries = []\<rparr>)) = VNone"
  using cache_get_refines_spec [of 5 "\<lparr>ttl_seconds = 5, cache_entries = []\<rparr>" 106 "''k''"
    "[(103, OpGet ''k''), (102, OpSet ''j'' (VBool False) (Some 9)), (100, OpSet ''k'' (VStr ''GRANT'') None)]"]
  by (simp add: cache_init_def spec_get_def time_to_live_def)

text \<open>
  C7. Revocation exposure is bounded by the time to live, whatever the clock does: a decision that
  a read returns at time \<open>now\<close> was written at some earlier point of the history, with an expiry
  after \<open>now\<close>, and since that write the key was neither rewritten nor invalidated.
\<close>

theorem cache_exposure_bounded:
  assumes "cache_init ttl = Inr c" "fst (cache_get now k (cache_after h c)) = v" "v \<noteq> VNone"
  shows "\<exists>later t d earlier. h = later @ (t, OpSet k v d) # earlier \<and>
    now < t + time_to_live ttl d \<and>
    (\<forall>x \<in> set later. snd x \<noteq> OpInvalidate k \<and> snd x \<noteq> OpInvalidateAll \<and>
       (\<forall>w d'. snd x = OpSet k w d' \<longrightarrow> time_to_live ttl d' \<le> 0))"
proof -
  from assms(2,3) obtain e where "cache_view (cache_after h c) k = Some (v, e)" "now < e"
    by (auto simp: cache_get_view split: option.splits if_splits)
  moreover from this(1) have "last_write ttl h k = Some (v, e)" by (rule cache_view_sound [OF assms(1)])
  moreover have "0 < ttl" using assms(1) by (simp add: cache_init_Inr)
  moreover have "last_write ttl h k = Some (v, e) \<Longrightarrow> 0 < ttl \<Longrightarrow>
    \<exists>later t d earlier. h = later @ (t, OpSet k v d) # earlier \<and>
      e = t + time_to_live ttl d \<and>
      (\<forall>x \<in> set later. snd x \<noteq> OpInvalidate k \<and> snd x \<noteq> OpInvalidateAll \<and>
       (\<forall>w d'. snd x = OpSet k w d' \<longrightarrow> time_to_live ttl d' \<le> 0))"
    (is "_ \<Longrightarrow> _ \<Longrightarrow> ?P h")
  proof (induction h)
    case (Cons a h)
    consider (here) d t where "a = (t, OpSet k v d)" "e = t + time_to_live ttl d"
      | (older) "last_write ttl h k = Some (v, e)" "snd a \<noteq> OpInvalidate k" "snd a \<noteq> OpInvalidateAll"
          "\<forall>w d'. snd a = OpSet k w d' \<longrightarrow> time_to_live ttl d' \<le> 0"
      using Cons.prems
      by (cases a rule: timed_op_cases) (auto simp: Let_def split: if_splits option.splits)
    then show ?case
    proof cases
      case here
      then show ?thesis by (intro exI [of _ "[]"]) auto
    next
      case older
      with Cons.IH Cons.prems(2) obtain later t d earlier where
        "h = later @ (t, OpSet k v d) # earlier" "e = t + time_to_live ttl d"
        "\<forall>x \<in> set later. snd x \<noteq> OpInvalidate k \<and> snd x \<noteq> OpInvalidateAll \<and>
       (\<forall>w d'. snd x = OpSet k w d' \<longrightarrow> time_to_live ttl d' \<le> 0)"
        by blast
      with older(2-4) show ?thesis by (intro exI [of _ "a # later"]) auto
    qed
  qed simp
  ultimately show ?thesis by blast
qed

theorem cache_exposure_bounded_witness:
  "\<exists>later t d earlier. [(102, OpGet ''k''), (100, OpSet ''k'' (VStr ''GRANT'') None)] =
      later @ (t, OpSet ''k'' (VStr ''GRANT'') d) # earlier \<and>
    104 < t + time_to_live 5 d \<and>
    (\<forall>x \<in> set later. snd x \<noteq> OpInvalidate ''k'' \<and> snd x \<noteq> OpInvalidateAll \<and>
       (\<forall>w d'. snd x = OpSet ''k'' w d' \<longrightarrow> time_to_live 5 d' \<le> 0))"
  by (rule cache_exposure_bounded [where c = "\<lparr>ttl_seconds = 5, cache_entries = []\<rparr>"])
     (simp_all add: cache_init_def cache_get_def cache_set_def)

end
