(* ===== verification/Fabric_Client.thy ===== *)
theory Fabric_Client
  imports Py_Text
begin

text \<open>
  \<open>gateway/fabric_client.py\<close>: invoking chaincode transactions with a nonce and bounded retries.
  The Fabric SDK adapter (\<open>invoker\<close>), \<open>random.uniform\<close>, the sleep function and \<open>uuid.uuid4\<close> are
  the client's environment: functions on a world state of any type \<open>'w\<close>. An observer wraps an
  environment and records its calls and sleeps; it changes no result, which is proved.
\<close>

section \<open>Environment and client state\<close>

record 'w fabric_env =
  invoker :: "'w \<Rightarrow> string \<Rightarrow> payload \<Rightarrow> pyval result \<times> 'w"
  uniform :: "'w \<Rightarrow> rat \<Rightarrow> rat \<Rightarrow> rat \<times> 'w"
  sleeper :: "'w \<Rightarrow> rat \<Rightarrow> 'w"
  uuid4 :: "'w \<Rightarrow> string \<times> 'w"

record fabric_client =
  initial_backoff :: rat
  backoff_multiplier :: rat
  max_backoff :: rat
  jitter :: rat
  max_attempts :: int
  fixed_nonce_value :: "string option"

text \<open>The constructor's defaults, and the invoker used when none is given.\<close>

definition default_client :: fabric_client where
  "default_client = \<lparr>initial_backoff = 1, backoff_multiplier = 2, max_backoff = 60, jitter = 1 / 10,
     max_attempts = 3, fixed_nonce_value = None\<rparr>"

definition not_configured_invoker :: "'w \<Rightarrow> string \<Rightarrow> payload \<Rightarrow> pyval result \<times> 'w" where
  "not_configured_invoker w transaction_name p =
     (Inl (RuntimeError ''Fabric invoker is not configured''), w)"

definition choose_invoker ::
  "('w \<Rightarrow> string \<Rightarrow> payload \<Rightarrow> pyval result \<times> 'w) option \<Rightarrow> 'w \<Rightarrow> string \<Rightarrow> payload \<Rightarrow> pyval result \<times> 'w" where
  "choose_invoker inv_arg = (case inv_arg of None \<Rightarrow> not_configured_invoker | Some f \<Rightarrow> f)"

section \<open>Nonces\<close>

definition new_nonce :: "'w fabric_env \<Rightarrow> fabric_client \<Rightarrow> 'w \<Rightarrow> string \<times> 'w" where
  "new_nonce env cl w =
     (case fixed_nonce_value cl of
        Some n \<Rightarrow> if n \<noteq> [] then (n, w) else uuid4 env w
      | None \<Rightarrow> uuid4 env w)"

text \<open>
  The context manager \<open>fixed_nonce\<close>: the body runs with the nonce forced, and the previous value is
  restored whether the body returns or raises.
\<close>

definition with_fixed_nonce ::
  "string \<Rightarrow> (fabric_client \<Rightarrow> 'w \<Rightarrow> 'a result \<times> fabric_client \<times> 'w) \<Rightarrow>
     fabric_client \<Rightarrow> 'w \<Rightarrow> 'a result \<times> fabric_client \<times> 'w" where
  "with_fixed_nonce nonce body cl w =
     (case body (cl\<lparr>fixed_nonce_value := Some nonce\<rparr>) w of (r, cl', w') \<Rightarrow>
        (r, cl'\<lparr>fixed_nonce_value := fixed_nonce_value cl\<rparr>, w'))"

section \<open>Invocation with retries\<close>

text \<open>\<open>except Exception\<close>: everything modelled but \<open>SystemExit\<close>, which is a \<open>BaseException\<close> only.\<close>

definition is_exception :: "pyerr \<Rightarrow> bool" where
  "is_exception e \<longleftrightarrow> (case e of SystemExit message \<Rightarrow> False | _ \<Rightarrow> True)"

function retry ::
  "'w fabric_env \<Rightarrow> fabric_client \<Rightarrow> string \<Rightarrow> payload \<Rightarrow> int \<Rightarrow> rat \<Rightarrow> pyerr option \<Rightarrow> 'w \<Rightarrow>
     pyval result \<times> 'w" where
  "retry env cl name p attempt delay last_error w =
     (if attempt > max_attempts cl
      then (case last_error of None \<Rightarrow> (Inl AssertionError, w) | Some e \<Rightarrow> (Inl e, w))
      else
        case invoker env w name p of
          (Inr v, w1) \<Rightarrow> (Inr v, w1)
        | (Inl e, w1) \<Rightarrow>
            if \<not> is_exception e then (Inl e, w1)
            else if attempt \<ge> max_attempts cl then (Inl e, w1)
            else
              let (jitter_delta, w2) =
                    (if jitter cl \<noteq> 0 then uniform env w1 (- jitter cl) (jitter cl) else (0, w1));
                  sleep_for = max 0 (min (max_backoff cl) (delay + jitter_delta))
              in retry env cl name p (attempt + 1)
                   (min (max_backoff cl) (delay * backoff_multiplier cl)) (Some e)
                   (sleeper env w2 sleep_for))"
  by pat_completeness auto
termination
  by (relation "measure (\<lambda>(env, cl, name, p, attempt, delay, last_error, w). nat (max_attempts cl + 1 - attempt))")
     auto

declare retry.simps [simp del]

definition invoke_tx ::
  "'w fabric_env \<Rightarrow> fabric_client \<Rightarrow> string \<Rightarrow> payload \<Rightarrow> bool \<Rightarrow> 'w \<Rightarrow> pyval result \<times> 'w" where
  "invoke_tx env cl name p add_nonce w =
     (let (request_payload, w1) =
        (if add_nonce
         then (case new_nonce env cl w of (n, w') \<Rightarrow> (dict_set ''nonce'' (VStr n) p, w'))
         else (p, w))
      in retry env cl name request_payload 1 (initial_backoff cl) None w1)"

definition invoke_with_nonce ::
  "'w fabric_env \<Rightarrow> fabric_client \<Rightarrow> string \<Rightarrow> payload \<Rightarrow> string \<Rightarrow> 'w \<Rightarrow> pyval result \<times> 'w" where
  "invoke_with_nonce env cl name p nonce w =
     invoke_tx env cl name (dict_set ''nonce'' (VStr nonce) p) False w"

definition check_access ::
  "'w fabric_env \<Rightarrow> fabric_client \<Rightarrow> string \<Rightarrow> pyval \<Rightarrow> string \<Rightarrow> 'w \<Rightarrow> pyval result \<times> 'w" where
  "check_access env cl device_id zone action w =
     invoke_tx env cl ''CheckAccess''
       [(''device_id'', VStr device_id), (''zone'', zone), (''action'', VStr action)] True w"

text \<open>The shapes of a reading that \<open>submit_sensor_reading\<close> tells apart.\<close>

datatype submission =
    WithToPayload payload
  | WithAttributes payload
  | AsMapping payload
  | NotAMapping

fun submission_payload :: "submission \<Rightarrow> payload result" where
  "submission_payload (WithToPayload p) = Inr p"
| "submission_payload (WithAttributes attrs) = Inr attrs"
| "submission_payload (AsMapping d) = Inr d"
| "submission_payload NotAMapping = Inl (TypeError ''object is not iterable'')"

definition submit_sensor_reading ::
  "'w fabric_env \<Rightarrow> fabric_client \<Rightarrow> submission \<Rightarrow> 'w \<Rightarrow> pyval result \<times> 'w" where
  "submit_sensor_reading env cl reading w =
     (case submission_payload reading of
        Inl e \<Rightarrow> (Inl e, w)
      | Inr p \<Rightarrow> invoke_tx env cl ''SubmitSensorReading'' p True w)"

definition revoke_certificate ::
  "'w fabric_env \<Rightarrow> fabric_client \<Rightarrow> string \<Rightarrow> string \<Rightarrow> 'w \<Rightarrow> pyval result \<times> 'w" where
  "revoke_certificate env cl certificate_id reason w =
     invoke_tx env cl ''RevokeCertificate''
       [(''certificate_id'', VStr certificate_id), (''reason'', VStr reason)] True w"

section \<open>Observing an environment\<close>

datatype fabric_event = Called string payload "pyval result" | Slept rat

definition observed :: "'w fabric_env \<Rightarrow> ('w \<times> fabric_event list) fabric_env" where
  "observed env =
     \<lparr>invoker = (\<lambda>(w, l) name p. case invoker env w name p of (r, w') \<Rightarrow> (r, (w', l @ [Called name p r]))),
      uniform = (\<lambda>(w, l) a b. case uniform env w a b of (x, w') \<Rightarrow> (x, (w', l))),
      sleeper = (\<lambda>(w, l) s. (sleeper env w s, l @ [Slept s])),
      uuid4 = (\<lambda>(w, l). case uuid4 env w of (n, w') \<Rightarrow> (n, (w', l)))\<rparr>"

lemma observed_simps [simp]:
  "invoker (observed env) (w, l) name p =
     (case invoker env w name p of (r, w') \<Rightarrow> (r, (w', l @ [Called name p r])))"
  "uniform (observed env) (w, l) a b = (case uniform env w a b of (x, w') \<Rightarrow> (x, (w', l)))"
  "sleeper (observed env) (w, l) s = (sleeper env w s, l @ [Slept s])"
  "uuid4 (observed env) (w, l) = (case uuid4 env w of (n, w') \<Rightarrow> (n, (w', l)))"
  by (simp_all add: observed_def)

text \<open>
  The events of one invocation: calls that raise an exception, each followed by a sleep, and a last call
  whose outcome is the outcome of the invocation. The indices count the calls and list the sleeps.
\<close>

inductive retry_shape ::
  "string \<Rightarrow> payload \<Rightarrow> pyval result \<Rightarrow> nat \<Rightarrow> rat list \<Rightarrow> fabric_event list \<Rightarrow> bool"
  for name p r where
  shape_last: "retry_shape name p r 1 [] [Called name p r]"
| shape_again: "retry_shape name p r n ss evs \<Longrightarrow> is_exception e \<Longrightarrow>
     retry_shape name p r (Suc n) (s # ss) (Called name p (Inl e) # Slept s # evs)"

inductive_cases retry_shape_NilE: "retry_shape name p r n ss []"
inductive_simps retry_shape_Cons: "retry_shape name p r n ss (ev # evs)"

lemma retry_shape_length: "retry_shape name p r n ss evs \<Longrightarrow> n = Suc (length ss)"
  by (induction rule: retry_shape.induct) auto

text \<open>
  \<open>random.uniform(a, b)\<close> lies between its bounds (documented behaviour, a hypothesis where it is
  used); \<open>sleeps_ok\<close> says what a list of sleeps looks like when the next unjittered delay is \<open>d\<close>.
\<close>

definition uniform_law :: "'w fabric_env \<Rightarrow> bool" where
  "uniform_law env \<longleftrightarrow> (\<forall>w a b. a \<le> b \<longrightarrow> a \<le> fst (uniform env w a b) \<and> fst (uniform env w a b) \<le> b)"

lemma uniform_lawD:
  "uniform_law env \<Longrightarrow> a \<le> b \<Longrightarrow> a \<le> fst (uniform env w a b) \<and> fst (uniform env w a b) \<le> b"
  by (simp add: uniform_law_def)

fun sleeps_ok :: "fabric_client \<Rightarrow> rat \<Rightarrow> rat list \<Rightarrow> bool" where
  "sleeps_ok cl d [] = True"
| "sleeps_ok cl d (s # ss) =
     ((\<exists>jd. \<bar>jd\<bar> \<le> jitter cl \<and> s = max 0 (min (max_backoff cl) (d + jd))) \<and>
      sleeps_ok cl (min (max_backoff cl) (d * backoff_multiplier cl)) ss)"

lemma retry_observed:
  "attempt \<le> max_attempts cl \<Longrightarrow>
   \<exists>r w' n ss evs. retry (observed env) cl name p attempt delay last_error (w, l) = (r, (w', l @ evs)) \<and>
     retry env cl name p attempt delay last_error w = (r, w') \<and>
     retry_shape name p r n ss evs \<and> int n \<le> max_attempts cl + 1 - attempt \<and>
     ((\<exists>e. r = Inl e \<and> is_exception e) \<longrightarrow> int n = max_attempts cl + 1 - attempt) \<and>
     (\<forall>s \<in> set ss. 0 \<le> s) \<and> (0 \<le> max_backoff cl \<longrightarrow> (\<forall>s \<in> set ss. s \<le> max_backoff cl)) \<and>
     (uniform_law env \<longrightarrow> 0 \<le> jitter cl \<longrightarrow> sleeps_ok cl delay ss)"
proof (induction env cl name p attempt delay last_error w arbitrary: l rule: retry.induct)
  case (1 env cl name p attempt delay last_error w)
  obtain r1 w1 where inv: "invoker env w name p = (r1, w1)" by fastforce
  show ?case
  proof (cases "\<forall>e. r1 = Inl e \<longrightarrow> \<not> is_exception e \<or> attempt \<ge> max_attempts cl")
    case True
    with inv "1.prems" have "retry env cl name p attempt delay last_error w = (r1, w1)"
      by (subst retry.simps) (auto split: sum.splits)
    moreover from True inv "1.prems"
    have "retry (observed env) cl name p attempt delay last_error (w, l) = (r1, (w1, l @ [Called name p r1]))"
      by (subst retry.simps) (auto split: sum.splits)
    moreover have "retry_shape name p r1 1 [] [Called name p r1]" by (rule shape_last)
    moreover have "(\<exists>e. r1 = Inl e \<and> is_exception e) \<longrightarrow> int 1 = max_attempts cl + 1 - attempt" using True "1.prems" by auto
    ultimately show ?thesis using "1.prems"
      by (intro exI [of _ r1] exI [of _ w1] exI [of _ "1::nat"] exI [of _ "[]"] exI [of _ "[Called name p r1]"])
         simp
  next
    case False
    then obtain e where e: "r1 = Inl e" "is_exception e" by auto
    obtain jd w2 where jd:
      "(if jitter cl \<noteq> 0 then uniform env w1 (- jitter cl) (jitter cl) else (0, w1)) = (jd, w2)"
      by fastforce
    let ?s = "max 0 (min (max_backoff cl) (delay + jd))"
    from False "1.prems" have another: "attempt + 1 \<le> max_attempts cl" by auto
    have guards: "\<not> max_attempts cl < attempt" "\<not> max_attempts cl \<le> attempt" using False "1.prems" by auto
    from "1.IH" [OF guards(1) inv [symmetric] e(1) _ guards(2) refl jd [symmetric] refl another,
        of "l @ [Called name p (Inl e), Slept ?s]"]
    obtain r w' n ss evs where ih:
      "retry (observed env) cl name p (attempt + 1) (min (max_backoff cl) (delay * backoff_multiplier cl))
         (Some e) (sleeper env w2 ?s, l @ [Called name p (Inl e), Slept ?s]) =
         (r, (w', (l @ [Called name p (Inl e), Slept ?s]) @ evs))"
      "retry env cl name p (attempt + 1) (min (max_backoff cl) (delay * backoff_multiplier cl))
         (Some e) (sleeper env w2 ?s) = (r, w')"
      "retry_shape name p r n ss evs" "int n \<le> max_attempts cl + 1 - (attempt + 1)"
      "(\<exists>e. r = Inl e \<and> is_exception e) \<longrightarrow> int n = max_attempts cl + 1 - (attempt + 1)"
      "\<forall>s \<in> set ss. 0 \<le> s" "0 \<le> max_backoff cl \<longrightarrow> (\<forall>s \<in> set ss. s \<le> max_backoff cl)"
      "uniform_law env \<longrightarrow> 0 \<le> jitter cl \<longrightarrow>
         sleeps_ok cl (min (max_backoff cl) (delay * backoff_multiplier cl)) ss"
      using e(2) by blast
    have "\<bar>jd\<bar> \<le> jitter cl" if "uniform_law env" "0 \<le> jitter cl"
      using that jd uniform_lawD [of env "- jitter cl" "jitter cl" w1] by (auto split: if_splits)
    then have "uniform_law env \<longrightarrow> 0 \<le> jitter cl \<longrightarrow> sleeps_ok cl delay (?s # ss)"
      using ih(8) by auto
    moreover have "retry (observed env) cl name p attempt delay last_error (w, l) =
        (r, (w', l @ (Called name p (Inl e) # Slept ?s # evs)))"
      using ih(1) inv e jd False "1.prems"
      by (subst retry.simps) (auto simp: Let_def split: if_splits prod.splits)
    moreover have "retry env cl name p attempt delay last_error w = (r, w')"
      using ih(2) inv e jd False "1.prems"
      by (subst retry.simps) (auto simp: Let_def split: if_splits prod.splits)
    moreover have "retry_shape name p r (Suc n) (?s # ss) (Called name p (Inl e) # Slept ?s # evs)"
      using ih(3) e(2) by (rule shape_again)
    moreover have "int (Suc n) \<le> max_attempts cl + 1 - attempt"
      "(\<exists>e. r = Inl e \<and> is_exception e) \<longrightarrow> int (Suc n) = max_attempts cl + 1 - attempt"
      "\<forall>s \<in> set (?s # ss). 0 \<le> s" "0 \<le> max_backoff cl \<longrightarrow> (\<forall>s \<in> set (?s # ss). s \<le> max_backoff cl)"
      using ih(4-7) by auto
    ultimately show ?thesis by blast
  qed
qed

section \<open>The contract the gateway uses\<close>

text \<open>
  Seen from its callers a client turns a request into calls of one transaction, all with the
  request's payload up to the nonce, and hands back an answer only if the ledger gave it.
\<close>

definition same_request :: "payload \<Rightarrow> payload \<Rightarrow> bool" where
  "same_request p req \<longleftrightarrow> (\<forall>k. k \<noteq> ''nonce'' \<longrightarrow> dict_get req k = dict_get p k)"

fun calls_of :: "string \<Rightarrow> fabric_event list \<Rightarrow> (payload \<times> pyval result) list" where
  "calls_of name [] = []"
| "calls_of name (Called n req r # evs) = (if n = name then (req, r) # calls_of name evs else calls_of name evs)"
| "calls_of name (Slept s # evs) = calls_of name evs"

lemma calls_of_append [simp]: "calls_of name (xs @ ys) = calls_of name xs @ calls_of name ys"
  by (induction name xs rule: calls_of.induct) auto

locale ledger_client =
  fixes call :: "string \<Rightarrow> payload \<Rightarrow> 'w \<Rightarrow> pyval result \<times> 'w"
    and trace :: "'w \<Rightarrow> fabric_event list"
  assumes extends: "call name p w = (r, w') \<Longrightarrow>
      \<exists>evs. trace w' = trace w @ evs \<and> (\<forall>n. n \<noteq> name \<longrightarrow> calls_of n evs = []) \<and>
        (\<forall>(req, x) \<in> set (calls_of name evs). same_request p req)"
    and answered: "call name p w = (Inr v, w') \<Longrightarrow>
      \<exists>req evs. same_request p req \<and> calls_of name (trace w') = calls_of name (trace w) @ evs @ [(req, Inr v)] \<and>
        (\<forall>(q, x) \<in> set evs. isl x)"
    and refused: "call name p w = (Inl e, w') \<Longrightarrow>
      \<exists>evs. calls_of name (trace w') = calls_of name (trace w) @ evs \<and> (\<forall>(q, x) \<in> set evs. isl x)"
begin

lemma other_calls: "call name p w = (r, w') \<Longrightarrow> n \<noteq> name \<Longrightarrow> calls_of n (trace w') = calls_of n (trace w)"
  using extends by fastforce

lemma calls_mono: "call name p w = (r, w') \<Longrightarrow> set (calls_of n (trace w)) \<subseteq> set (calls_of n (trace w'))"
  using extends by fastforce

lemma answer_in_trace:
  "call name p w = (Inr v, w') \<Longrightarrow> \<exists>req. same_request p req \<and> (req, Inr v) \<in> set (calls_of name (trace w'))"
  using answered by fastforce

lemma new_calls_same:
  "call name p w = (r, w') \<Longrightarrow> (req, x) \<in> set (calls_of name (trace w')) \<Longrightarrow>
     (req, x) \<in> set (calls_of name (trace w)) \<or> same_request p req"
  using extends by fastforce

text \<open>At most one accepted call per request: an accepted call ends it.\<close>

lemma accepted_count:
  "call name p w = (r, w') \<Longrightarrow>
     length (filter (\<lambda>(q, x). \<not> isl x) (calls_of name (trace w'))) =
     length (filter (\<lambda>(q, x). \<not> isl x) (calls_of name (trace w))) + (if isl r then 0 else 1)"
proof -
  assume c: "call name p w = (r, w')"
  have none: "filter (\<lambda>(q, x). \<not> isl x) evs = []" if "\<forall>(q, x) \<in> set evs. isl x"
    for evs :: "(payload \<times> pyval result) list"
    using that by (auto simp: filter_empty_conv)
  show ?thesis
  proof (cases r)
    case (Inl e)
    with c refused [of name p w e w'] none show ?thesis by force
  next
    case (Inr v)
    with c answered [of name p w v w'] none show ?thesis by force
  qed
qed

end

lemma retry_shape_calls:
  "retry_shape name p r n ss evs \<Longrightarrow>
     (\<forall>m. m \<noteq> name \<longrightarrow> calls_of m evs = []) \<and>
     (\<exists>fs. calls_of name evs = fs @ [(p, r)] \<and> (\<forall>(q, x) \<in> set fs. q = p \<and> isl x))"
  by (induction rule: retry_shape.induct) force+

lemma retry_no_attempts:
  "max_attempts cl < attempt \<Longrightarrow>
     retry env cl name p attempt delay None w = (Inl AssertionError, w)"
  by (subst retry.simps) simp

text \<open>The request an invocation sends, and the world once its nonce is drawn.\<close>

definition request_of :: "'w fabric_env \<Rightarrow> fabric_client \<Rightarrow> payload \<Rightarrow> bool \<Rightarrow> 'w \<Rightarrow> payload" where
  "request_of env cl p add_nonce w =
     (if add_nonce then dict_set ''nonce'' (VStr (fst (new_nonce env cl w))) p else p)"

lemma request_same: "same_request p (request_of env cl p add_nonce w)"
  by (simp add: same_request_def request_of_def dict_simps)

lemma new_nonce_observed:
  "new_nonce (observed env) cl (w, l) = (fst (new_nonce env cl w), (snd (new_nonce env cl w), l))"
  by (auto simp: new_nonce_def split: option.splits prod.splits)

lemma invoke_tx_retry:
  "invoke_tx env cl name p add_nonce w =
     retry env cl name (request_of env cl p add_nonce w) 1 (initial_backoff cl) None
       (if add_nonce then snd (new_nonce env cl w) else w)"
  by (simp add: invoke_tx_def request_of_def split: prod.splits)

lemma request_of_observed: "request_of (observed env) cl p add_nonce (w, l) = request_of env cl p add_nonce w"
  by (simp add: request_of_def new_nonce_observed)

lemma invoke_observed:
  assumes "1 \<le> max_attempts cl"
  obtains r w' n ss evs where
    "invoke_tx (observed env) cl name p add_nonce (w, l) = (r, (w', l @ evs))"
    "invoke_tx env cl name p add_nonce w = (r, w')"
    "retry_shape name (request_of env cl p add_nonce w) r n ss evs" "int n \<le> max_attempts cl"
    "(\<exists>e. r = Inl e \<and> is_exception e) \<longrightarrow> int n = max_attempts cl"
    "\<forall>s \<in> set ss. 0 \<le> s" "0 \<le> max_backoff cl \<longrightarrow> (\<forall>s \<in> set ss. s \<le> max_backoff cl)"
    "uniform_law env \<longrightarrow> 0 \<le> jitter cl \<longrightarrow> sleeps_ok cl (initial_backoff cl) ss"
proof -
  let ?w = "if add_nonce then snd (new_nonce env cl w) else w"
  have "(if add_nonce then snd (new_nonce (observed env) cl (w, l)) else (w, l)) = (?w, l)"
    by (simp add: new_nonce_observed)
  then have "invoke_tx (observed env) cl name p add_nonce (w, l) =
      retry (observed env) cl name (request_of env cl p add_nonce w) 1 (initial_backoff cl) None (?w, l)"
    by (simp only: invoke_tx_retry request_of_observed)
  with retry_observed [OF assms, of env name "request_of env cl p add_nonce w" "initial_backoff cl" None ?w l]
    invoke_tx_retry [of env cl name p add_nonce w]
  show ?thesis by (auto intro: that)
qed

lemma invoke_trace:
  "\<exists>r w' evs. invoke_tx (observed env) cl name p add_nonce (w, l) = (r, (w', l @ evs)) \<and>
     (\<forall>m. m \<noteq> name \<longrightarrow> calls_of m evs = []) \<and>
     (\<exists>fs. (\<forall>(q, x) \<in> set fs. q = request_of env cl p add_nonce w \<and> isl x) \<and>
        (calls_of name evs = fs @ [(request_of env cl p add_nonce w, r)] \<or> calls_of name evs = fs \<and> isl r))"
  (is "\<exists>r w' evs. ?P r w' evs")
proof (cases "1 \<le> max_attempts cl")
  case True
  obtain r w' n ss evs where i: "invoke_tx (observed env) cl name p add_nonce (w, l) = (r, (w', l @ evs))"
    "retry_shape name (request_of env cl p add_nonce w) r n ss evs"
    by (rule invoke_observed [OF True])
  from i(1) retry_shape_calls [OF i(2)] have "?P r w' evs" by blast
  then show ?thesis by blast
next
  case False
  then have "?P (Inl AssertionError) (if add_nonce then snd (new_nonce env cl w) else w) []"
    by (simp add: invoke_tx_retry retry_no_attempts new_nonce_observed request_of_observed)
  then show ?thesis by blast
qed

interpretation fc: ledger_client "\<lambda>name p w. invoke_tx (observed env) cl name p add_nonce w" snd
  for env cl add_nonce
proof (unfold_locales, goal_cases)
  case (1 name p w r w')
  obtain u l where w: "w = (u, l)" by fastforce
  with 1 invoke_trace [of env cl name p add_nonce u l] request_same [of p env cl add_nonce u]
  show ?case by fastforce
next
  case (2 name p w v w')
  obtain u l where w: "w = (u, l)" by fastforce
  with 2 invoke_trace [of env cl name p add_nonce u l] request_same [of p env cl add_nonce u]
  show ?case by fastforce
next
  case (3 name p w e w')
  obtain u l where w: "w = (u, l)" by fastforce
  with 3 invoke_trace [of env cl name p add_nonce u l] request_same [of p env cl add_nonce u]
  show ?case by fastforce
qed

section \<open>Correctness of the retry loop\<close>

text \<open>A small environment for the concrete instances: the ledger is down for the first two calls.\<close>

definition flaky_env :: "nat fabric_env" where
  "flaky_env =
     \<lparr>invoker = (\<lambda>w name p. (if w < 2 then Inl (InvokerError ''down'') else Inr (VStr ''ok''), w + 1)),
      uniform = (\<lambda>w a b. ((a + b) / 2, w)), sleeper = (\<lambda>w s. w), uuid4 = (\<lambda>w. (''u1'', w))\<rparr>"

lemma flaky_env_simps [simp]:
  "invoker flaky_env w name p = (if w < 2 then Inl (InvokerError ''down'') else Inr (VStr ''ok''), w + 1)"
  "uniform flaky_env w a b = ((a + b) / 2, w)" "sleeper flaky_env w s = w" "uuid4 flaky_env w = (''u1'', w)"
  by (simp_all add: flaky_env_def)

lemma uniform_law_flaky: "uniform_law flaky_env"
  by (simp add: uniform_law_def field_simps)

text \<open>
  C8. An invocation with at least one permitted attempt makes between one and \<open>max_attempts\<close> calls
  of its transaction, all with the same payload and the same nonce; it sleeps exactly between two
  calls, after a call that raised an exception; it stops at the first call that succeeds and returns its
  answer; it raises an exception only after \<open>max_attempts\<close> failures, and then the last one's. (A
  \<open>SystemExit\<close> of the invoker is no \<open>Exception\<close>: it ends the invocation at once.) Observing the environment changes neither
  the outcome nor the final state.
\<close>

theorem invoke_retry_protocol:
  assumes "1 \<le> max_attempts cl"
  shows "\<exists>r w' n ss evs.
    invoke_tx (observed env) cl name p add_nonce (w, []) = (r, (w', evs)) \<and>
    invoke_tx env cl name p add_nonce w = (r, w') \<and>
    retry_shape name (request_of env cl p add_nonce w) r n ss evs \<and>
    1 \<le> n \<and> int n \<le> max_attempts cl \<and> length ss = n - 1 \<and>
    ((\<exists>e. r = Inl e \<and> is_exception e) \<longrightarrow> int n = max_attempts cl)"
proof -
  obtain r w' n ss evs where
    "invoke_tx (observed env) cl name p add_nonce (w, []) = (r, (w', [] @ evs))"
    "invoke_tx env cl name p add_nonce w = (r, w')"
    "retry_shape name (request_of env cl p add_nonce w) r n ss evs" "int n \<le> max_attempts cl"
    "(\<exists>e. r = Inl e \<and> is_exception e) \<longrightarrow> int n = max_attempts cl"
    by (rule invoke_observed [OF assms])
  moreover from this(3) have "n = Suc (length ss)" by (rule retry_shape_length)
  ultimately show ?thesis by (intro exI [of _ r] exI [of _ w'] exI [of _ n] exI [of _ ss] exI [of _ evs]) simp
qed

theorem invoke_retry_protocol_witness:
  "\<exists>r w' n ss evs.
    invoke_tx (observed flaky_env) default_client ''CheckAccess'' [] True (0, []) = (r, (w', evs)) \<and>
    invoke_tx flaky_env default_client ''CheckAccess'' [] True 0 = (r, w') \<and>
    retry_shape ''CheckAccess'' (request_of flaky_env default_client [] True 0) r n ss evs \<and>
    1 \<le> n \<and> int n \<le> max_attempts default_client \<and> length ss = n - 1 \<and>
    ((\<exists>e. r = Inl e \<and> is_exception e) \<longrightarrow> int n = max_attempts default_client)"
  by (rule invoke_retry_protocol) (simp add: default_client_def)

lemma clamp_mono:
  assumes "x \<le> (y :: rat)" "min b y \<le> min b x"
  shows "min b x - j \<le> t \<Longrightarrow> min b y - j \<le> t"
    and "t \<le> min b (max 0 (x + j)) \<Longrightarrow> t \<le> min b (max 0 (y + j))"
  using assms by (auto simp: min_def max_def split: if_splits)

lemma sleeps_ok_nth:
  assumes "sleeps_ok cl d ss" "0 \<le> d" "1 \<le> backoff_multiplier cl" "0 \<le> max_backoff cl" "i < length ss"
  shows "min (max_backoff cl) (d * backoff_multiplier cl ^ i) - jitter cl \<le> ss ! i \<and>
    ss ! i \<le> min (max_backoff cl) (max 0 (d * backoff_multiplier cl ^ i + jitter cl))"
  using assms(1,2,5)
proof (induction ss arbitrary: d i)
  case (Cons s ss)
  let ?m = "backoff_multiplier cl" and ?M = "max_backoff cl"
  show ?case
  proof (cases i)
    case 0
    with Cons.prems assms(4) show ?thesis by (auto simp: min_def max_def abs_le_iff)
  next
    case (Suc j)
    let ?d = "min ?M (d * ?m)"
    have one: "1 \<le> ?m ^ j" using assms(3) by simp
    have up: "?d * ?m ^ j \<le> d * ?m ^ i"
      using one mult_right_mono [of ?d "d * ?m" "?m ^ j"] by (simp add: Suc ac_simps)
    have "?M \<le> ?M * ?m ^ j" using one assms(4) mult_left_mono [of 1 "?m ^ j" ?M] by simp
    then have low: "min ?M (d * ?m ^ i) \<le> min ?M (?d * ?m ^ j)"
      using one by (auto simp: min_def Suc ac_simps)
    have "0 \<le> ?d" using Cons.prems(2) assms(3,4) by simp
    with Cons.IH [of ?d j] Cons.prems Suc have
      "min ?M (?d * ?m ^ j) - jitter cl \<le> ss ! j" "ss ! j \<le> min ?M (max 0 (?d * ?m ^ j + jitter cl))"
      by auto
    then have "min ?M (d * ?m ^ i) - jitter cl \<le> ss ! j" "ss ! j \<le> min ?M (max 0 (d * ?m ^ i + jitter cl))"
      using clamp_mono [OF up low] by blast+
    then show ?thesis by (simp only: Suc nth_Cons_Suc)
  qed
qed simp

lemma sum_list_bound: "(\<forall>s \<in> set ss. s \<le> (b :: rat)) \<Longrightarrow> sum_list ss \<le> of_nat (length ss) * b"
  by (induction ss) (auto simp: algebra_simps add_mono)

text \<open>
  Backoff: the wait after the (i+1)-th failure is the exponential delay
  \<open>initial_backoff * backoff_multiplier ^ i\<close>, capped at \<open>max_backoff\<close>, up to the jitter; no wait is
  negative or above the cap, and one invocation waits at most \<open>(max_attempts - 1) * max_backoff\<close> in
  all. \<open>uniform_law\<close> is the documented range of \<open>random.uniform\<close>.
\<close>

theorem backoff_bounds:
  assumes "1 \<le> max_attempts cl" "uniform_law env" "0 \<le> initial_backoff cl"
    "1 \<le> backoff_multiplier cl" "0 \<le> max_backoff cl" "0 \<le> jitter cl"
  shows "\<exists>r w' n ss evs.
    invoke_tx (observed env) cl name p add_nonce (w, []) = (r, (w', evs)) \<and>
    retry_shape name (request_of env cl p add_nonce w) r n ss evs \<and>
    (\<forall>i < length ss.
       min (max_backoff cl) (initial_backoff cl * backoff_multiplier cl ^ i) - jitter cl \<le> ss ! i \<and>
       ss ! i \<le> min (max_backoff cl) (initial_backoff cl * backoff_multiplier cl ^ i + jitter cl) \<and>
       0 \<le> ss ! i) \<and>
    sum_list ss \<le> of_int (max_attempts cl - 1) * max_backoff cl"
proof -
  obtain r w' n ss evs where i:
    "invoke_tx (observed env) cl name p add_nonce (w, []) = (r, (w', [] @ evs))"
    "retry_shape name (request_of env cl p add_nonce w) r n ss evs" "int n \<le> max_attempts cl"
    "\<forall>s \<in> set ss. 0 \<le> s" "0 \<le> max_backoff cl \<longrightarrow> (\<forall>s \<in> set ss. s \<le> max_backoff cl)"
    "uniform_law env \<longrightarrow> 0 \<le> jitter cl \<longrightarrow> sleeps_ok cl (initial_backoff cl) ss"
    by (rule invoke_observed [OF assms(1)])
  have "n = Suc (length ss)" using i(2) by (rule retry_shape_length)
  then have "int (length ss) \<le> max_attempts cl - 1" using i(3) by simp
  then have "(of_int (int (length ss)) :: rat) \<le> of_int (max_attempts cl - 1)" by (simp only: of_int_le_iff)
  then have "sum_list ss \<le> of_int (max_attempts cl - 1) * max_backoff cl"
    using order_trans [OF sum_list_bound [of ss "max_backoff cl"] mult_right_mono] i(5) assms(5) by simp
  moreover have "min (max_backoff cl) (initial_backoff cl * backoff_multiplier cl ^ k) - jitter cl \<le> ss ! k"
    "ss ! k \<le> min (max_backoff cl) (initial_backoff cl * backoff_multiplier cl ^ k + jitter cl)"
    "0 \<le> ss ! k" if "k < length ss" for k
    using sleeps_ok_nth [of cl "initial_backoff cl" ss k] i(4,6) assms that
    by (auto simp: max_def split: if_splits)
  ultimately show ?thesis using i(1,2)
    by (intro exI [of _ r] exI [of _ w'] exI [of _ n] exI [of _ ss] exI [of _ evs]) simp
qed

theorem backoff_bounds_witness:
  "\<exists>r w' n ss evs.
    invoke_tx (observed flaky_env) default_client ''CheckAccess'' [] True (0, []) = (r, (w', evs)) \<and>
    retry_shape ''CheckAccess'' (request_of flaky_env default_client [] True 0) r n ss evs \<and>
    (\<forall>i < length ss. min 60 (1 * 2 ^ i) - 1 / 10 \<le> ss ! i \<and> ss ! i \<le> min 60 (1 * 2 ^ i + 1 / 10) \<and> 0 \<le> ss ! i) \<and>
    sum_list ss \<le> of_int (3 - 1) * 60"
  using backoff_bounds [of default_client flaky_env "''CheckAccess''" "[]" True 0] uniform_law_flaky
  by (simp add: default_client_def)

section \<open>Forced nonces\<close>

text \<open>The tests' use of the context manager: one invocation inside the block.\<close>

definition invoke_under_nonce ::
  "'w fabric_env \<Rightarrow> fabric_client \<Rightarrow> string \<Rightarrow> string \<Rightarrow> payload \<Rightarrow> 'w \<Rightarrow>
     pyval result \<times> fabric_client \<times> 'w" where
  "invoke_under_nonce env cl nonce name p w =
     with_fixed_nonce nonce
       (\<lambda>cl' w. case invoke_tx env cl' name p True w of (r, w') \<Rightarrow> (r, cl', w')) cl w"

text \<open>
  Inside \<open>fixed_nonce\<close> with a non-empty nonce every call of an invocation carries that nonce and
  otherwise the caller's payload, and afterwards the client is as before, also when the invocation
  raised. The invocation agrees with \<open>invoke_with_nonce\<close> on the same nonce.
\<close>

theorem fixed_nonce_forces:
  assumes "nonce \<noteq> []"
  shows "fst (snd (invoke_under_nonce (observed env) cl nonce name p (w, []))) = cl \<and>
    fst (invoke_under_nonce (observed env) cl nonce name p (w, [])) =
      fst (invoke_with_nonce (observed env) cl name p nonce (w, [])) \<and>
    (\<forall>(req, r) \<in> set (calls_of name (snd (snd (snd (invoke_under_nonce (observed env) cl nonce name p (w, [])))))).
       req = dict_set ''nonce'' (VStr nonce) p)"
proof -
  let ?cl = "cl\<lparr>fixed_nonce_value := Some nonce\<rparr>"
  have upd: "retry env' (cl\<lparr>fixed_nonce_value := v\<rparr>) name q a d le u = retry env' cl name q a d le u"
    for env' v q a d le u
    by (induction env' cl name q a d le u rule: retry.induct)
       (subst (1 2) retry.simps, auto simp: Let_def split: sum.splits prod.splits)
  have req: "request_of env ?cl p True w = dict_set ''nonce'' (VStr nonce) p"
    using assms by (simp add: request_of_def new_nonce_def)
  obtain r w' evs fs where t: "invoke_tx (observed env) ?cl name p True (w, []) = (r, (w', evs))"
    "\<forall>(q, x) \<in> set (calls_of name evs). q = dict_set ''nonce'' (VStr nonce) p"
    using invoke_trace [of env ?cl name p True w "[]"] unfolding req by fastforce
  have "invoke_tx (observed env) ?cl name p True (w, []) =
      invoke_tx (observed env) cl name (dict_set ''nonce'' (VStr nonce) p) False (w, [])"
    using assms by (simp add: invoke_tx_def new_nonce_def upd)
  with t show ?thesis
    by (simp add: invoke_under_nonce_def with_fixed_nonce_def invoke_with_nonce_def)
qed

theorem fixed_nonce_forces_witness:
  "fst (snd (invoke_under_nonce (observed flaky_env) default_client ''n-1'' ''CheckAccess'' [] (0, []))) = default_client \<and>
    list_all (\<lambda>x. fst x = [(''nonce'', VStr ''n-1'')]) (calls_of ''CheckAccess'' (snd (snd (snd
        (invoke_under_nonce (observed flaky_env) default_client ''n-1'' ''CheckAccess'' [] (0, []))))))"
  using fixed_nonce_forces [of "''n-1''" flaky_env default_client "''CheckAccess''" "[]" 0]
  by (auto simp: list_all_iff)

end
