(* ===== verification/Gateway.thy ===== *)
theory Gateway
  imports Lora_Rx Policy_Cache Fabric_Client
begin

text \<open>
  \<open>gateway/gateway.py\<close>: the gateway verifies a reading, takes an access decision from its cache or
  from the ledger, and submits what was granted. The cryptography library is a parameter
  (\<open>crypto_lib\<close>); the Fabric client works on the environment of \<open>Fabric_Client\<close>; the clock values read
  by the cache are arguments. Logging, the start of the Flask thread and signal handling are left
  out. \<open>handle_reading\<close> and \<open>handle_all\<close> handle one reading after the other; the threads that call
  \<open>handle_reading\<close> at the same time are in \<open>Gateway_Threads\<close>. The lemmas show what backs a live reading, what the two
  deliveries of each reading (queue and callback) cause, and what signatures and policy keys bind.
\<close>

section \<open>Signatures\<close>

datatype crypto_error = BadValue | BadSignature | OtherFailure string

datatype 'k public_key = Ed25519 'k | EllipticCurve 'k | RSA 'k | OtherKey 'k

record 'k crypto_lib =
  load_pem_public_key :: "8 word list \<Rightarrow> crypto_error + 'k public_key"
  ed25519_verify :: "'k \<Rightarrow> 8 word list \<Rightarrow> 8 word list \<Rightarrow> crypto_error + unit"
  ecdsa_sha256_verify :: "'k \<Rightarrow> 8 word list \<Rightarrow> 8 word list \<Rightarrow> crypto_error + unit"
  rsa_pkcs1_sha256_verify :: "'k \<Rightarrow> 8 word list \<Rightarrow> 8 word list \<Rightarrow> crypto_error + unit"

definition load_gateway_zone :: "string option \<Rightarrow> string result" where
  "load_gateway_zone env_zone =
     (case env_zone of
        None \<Rightarrow> Inl (RuntimeError ''GATEWAY_ZONE environment variable is required'')
      | Some zone \<Rightarrow> if zone = [] then Inl (RuntimeError ''GATEWAY_ZONE environment variable is required'')
                    else Inr zone)"

text \<open>\<open>bytes.fromhex\<close>: pairs of hexadecimal digits, white space between the pairs.\<close>

definition hex_val :: "char \<Rightarrow> nat option" where
  "hex_val c = (let n = (of_char c :: nat) in
     if 48 \<le> n \<and> n \<le> 57 then Some (n - 48)
     else if 97 \<le> n \<and> n \<le> 102 then Some (n - 87)
     else if 65 \<le> n \<and> n \<le> 70 then Some (n - 55) else None)"

fun bytes_fromhex :: "string \<Rightarrow> 8 word list option" where
  "bytes_fromhex [] = Some []"
| "bytes_fromhex [c] = (if (of_char c :: nat) \<in> {9, 10, 11, 12, 13, 32} then Some [] else None)"
| "bytes_fromhex (c # d # cs) =
     (if (of_char c :: nat) \<in> {9, 10, 11, 12, 13, 32} then bytes_fromhex (d # cs)
      else (case (hex_val c, hex_val d) of
              (Some a, Some b) \<Rightarrow> map_option (\<lambda>bs. of_nat (16 * a + b) # bs) (bytes_fromhex cs)
            | _ \<Rightarrow> None))"

definition signature_payload :: "sensor_reading \<Rightarrow> 8 word list result" where
  "signature_payload reading =
     bind_result (py_str (py_or (sr_zone reading) (VStr [])))
       (\<lambda>zone. Inr (utf8 (device_id reading @ '':'' @ reading_id reading @ '':'' @
                           int_str (sr_value reading) @ '':'' @ zone)))"

text \<open>A text is decoded before the key is loaded; anything else is passed on as it is and meets its type check in \<open>verify\<close>.\<close>

definition signature_bytes :: "pyval \<Rightarrow> pyval result" where
  "signature_bytes s =
     (case s of
        VStr t \<Rightarrow> (case bytes_fromhex t of
                     None \<Rightarrow> Inl (ValueError ''non-hexadecimal number found in fromhex() arg'')
                   | Some bs \<Rightarrow> Inr (VBytes bs))
      | _ \<Rightarrow> Inr s)"

definition key_bytes :: "pyval \<Rightarrow> 8 word list result" where
  "key_bytes m =
     (case m of
        VStr t \<Rightarrow> Inr (utf8 t)
      | VBytes bs \<Rightarrow> Inr bs
      | _ \<Rightarrow> Inl (TypeError ''a bytes-like object is required''))"

text \<open>\<open>except (ValueError, InvalidSignature): return False\<close>; any other failure propagates.\<close>

fun catch_crypto :: "crypto_error + bool \<Rightarrow> bool result" where
  "catch_crypto (Inr b) = Inr b"
| "catch_crypto (Inl BadValue) = Inr False"
| "catch_crypto (Inl BadSignature) = Inr False"
| "catch_crypto (Inl (OtherFailure s)) = Inl (RuntimeError s)"

text \<open>The check against the key of either supported kind; \<open>None\<close> for a key of another kind.\<close>

fun verify_with ::
  "'k crypto_lib \<Rightarrow> 'k public_key \<Rightarrow> (8 word list \<Rightarrow> 8 word list \<Rightarrow> crypto_error + unit) option" where
  "verify_with lib (Ed25519 k) = Some (ed25519_verify lib k)"
| "verify_with lib (EllipticCurve k) = Some (ecdsa_sha256_verify lib k)"
| "verify_with lib (RSA k) = Some (rsa_pkcs1_sha256_verify lib k)"
| "verify_with lib (OtherKey k) = None"

definition verify_pem ::
  "'k crypto_lib \<Rightarrow> sensor_reading \<Rightarrow> 8 word list \<Rightarrow> pyval \<Rightarrow> bool result" where
  "verify_pem lib reading pem signature =
     (case load_pem_public_key lib pem of
        Inl e \<Rightarrow> catch_crypto (Inl e)
      | Inr key \<Rightarrow>
          (case verify_with lib key of
             None \<Rightarrow> Inr False
           | Some verify \<Rightarrow>
               bind_result (signature_payload reading) (\<lambda>msg.
                 case signature of
                   VBytes sig \<Rightarrow> (case verify sig msg of Inl e \<Rightarrow> catch_crypto (Inl e) | Inr _ \<Rightarrow> Inr True)
                 | _ \<Rightarrow> Inl (TypeError ''a bytes-like object is required''))))"

definition verify_signature :: "'k crypto_lib \<Rightarrow> sensor_reading \<Rightarrow> pyval \<Rightarrow> bool result" where
  "verify_signature lib reading public_key_pem =
     (if sr_signature reading = VNone then Inr True
      else
        let key_material = py_or public_key_pem (sr_certificate reading) in
        if \<not> truthy key_material then Inr False
        else bind_result (signature_bytes (sr_signature reading)) (\<lambda>signature.
          bind_result (key_bytes key_material) (\<lambda>pem. verify_pem lib reading pem signature)))"

section \<open>The gateway's state and operations\<close>

record gateway_config =
  gw_zone :: string
  gw_client :: fabric_client

record 'w gateway_state =
  gw_cache :: policy_cache
  live_readings :: "payload list"
  gw_world :: 'w
  gw_stop :: bool

definition gateway_init ::
  "string option \<Rightarrow> string option \<Rightarrow> fabric_client option \<Rightarrow> policy_cache option \<Rightarrow> 'w \<Rightarrow>
     (gateway_config \<times> 'w gateway_state) result" where
  "gateway_init zone env_zone client cache w =
     bind_result (case zone of Some z \<Rightarrow> if z \<noteq> [] then Inr z else load_gateway_zone env_zone
                             | None \<Rightarrow> load_gateway_zone env_zone) (\<lambda>z.
     bind_result (case cache of Some c \<Rightarrow> Inr c | None \<Rightarrow> cache_init 300) (\<lambda>c.
       Inr (\<lparr>gw_zone = z, gw_client = (case client of Some cl \<Rightarrow> cl | None \<Rightarrow> default_client)\<rparr>,
            \<lparr>gw_cache = c, live_readings = [], gw_world = w, gw_stop = False\<rparr>)))"

definition effective_zone :: "gateway_config \<Rightarrow> sensor_reading \<Rightarrow> pyval" where
  "effective_zone cfg reading = py_or (sr_zone reading) (VStr (gw_zone cfg))"

definition policy_key :: "gateway_config \<Rightarrow> sensor_reading \<Rightarrow> string result" where
  "policy_key cfg reading =
     bind_result (py_str (effective_zone cfg reading))
       (\<lambda>zone. Inr (device_id reading @ '':'' @ zone @ '':submit_reading''))"

text \<open>
  The text of a float, of bytes or of a container is never \<open>GRANT\<close>, whatever its case, so a failing
  \<open>py_str\<close> counts as not granted.
\<close>

fun decision_is_grant :: "pyval \<Rightarrow> bool" where
  "decision_is_grant (VBool b) = b"
| "decision_is_grant (VStr s) = (upper s = ''GRANT'')"
| "decision_is_grant (VDict d) =
     (case py_str (get_default d ''decision'' (get_default d ''result'' (VStr []))) of
        Inl _ \<Rightarrow> False
      | Inr s \<Rightarrow> upper s = ''GRANT'')"
| "decision_is_grant _ = False"

text \<open>The decision for a reading: the cached one, or the ledger's, which is then cached.\<close>

definition obtain_decision ::
  "'w fabric_env \<Rightarrow> gateway_config \<Rightarrow> rat \<Rightarrow> rat \<Rightarrow> string \<Rightarrow> sensor_reading \<Rightarrow> 'w gateway_state \<Rightarrow>
     pyval result \<times> 'w gateway_state" where
  "obtain_decision env cfg now1 now2 key reading s =
     (case cache_get now1 key (gw_cache s) of (decision, cache) \<Rightarrow>
        let s1 = s\<lparr>gw_cache := cache\<rparr> in
        if decision \<noteq> VNone then (Inr decision, s1)
        else
          (case check_access env (gw_client cfg) (device_id reading) (effective_zone cfg reading)
                  ''submit_reading'' (gw_world s1) of (answer, w) \<Rightarrow>
             let s2 = s1\<lparr>gw_world := w\<rparr> in
             case answer of
               Inl e \<Rightarrow> (Inl e, s2)
             | Inr v \<Rightarrow>
                 (case cache_set now2 key v None (gw_cache s2) of (res, cache') \<Rightarrow>
                    (bind_result res (\<lambda>_. Inr v), s2\<lparr>gw_cache := cache'\<rparr>))))"

definition handle_reading ::
  "'k crypto_lib \<Rightarrow> 'w fabric_env \<Rightarrow> gateway_config \<Rightarrow> rat \<Rightarrow> rat \<Rightarrow> sensor_reading \<Rightarrow> 'w gateway_state \<Rightarrow>
     unit result \<times> 'w gateway_state" where
  "handle_reading lib env cfg now1 now2 reading s =
     (case verify_signature lib reading VNone of
        Inl e \<Rightarrow> (Inl e, s)
      | Inr False \<Rightarrow> (Inr (), s)
      | Inr True \<Rightarrow>
          (case policy_key cfg reading of
             Inl e \<Rightarrow> (Inl e, s)
           | Inr key \<Rightarrow>
               (case obtain_decision env cfg now1 now2 key reading s of
                  (Inl e, s1) \<Rightarrow> (Inl e, s1)
                | (Inr decision, s1) \<Rightarrow>
                    if decision_is_grant decision then
                      (case submit_sensor_reading env (gw_client cfg) (WithToPayload (to_payload reading))
                              (gw_world s1) of
                         (Inl e, w) \<Rightarrow> (Inl e, s1\<lparr>gw_world := w\<rparr>)
                       | (Inr _, w) \<Rightarrow>
                           (Inr (), s1\<lparr>gw_world := w, live_readings := live_readings s1 @ [to_payload reading]\<rparr>))
                    else (Inr (), s1))))"

text \<open>One turn of the main loop: take a reading off the queue, if there is one, and handle it.\<close>

definition main_turn ::
  "'k crypto_lib \<Rightarrow> 'w fabric_env \<Rightarrow> gateway_config \<Rightarrow> rat \<Rightarrow> rat \<Rightarrow> lora_receiver \<times> 'w gateway_state \<Rightarrow>
     unit result \<times> lora_receiver \<times> 'w gateway_state" where
  "main_turn lib env cfg now1 now2 rs =
     (case rs of (rx, s) \<Rightarrow>
        if gw_stop s then (Inr (), rx, s)
        else (case next_reading rx of
                (None, rx') \<Rightarrow> (Inr (), rx', s)
              | (Some reading, rx') \<Rightarrow>
                  (case handle_reading lib env cfg now1 now2 reading s of (res, s') \<Rightarrow> (res, rx', s'))))"

definition gateway_stop :: "lora_receiver \<times> 'w gateway_state \<Rightarrow> lora_receiver \<times> 'w gateway_state" where
  "gateway_stop rs = (case rs of (rx, s) \<Rightarrow> (rx_request_stop rx, s\<lparr>gw_stop := True\<rparr>))"

section \<open>Runs of the gateway over an observed ledger\<close>

type_synonym handled = "rat \<times> rat \<times> sensor_reading"

fun handle_all ::
  "'k crypto_lib \<Rightarrow> 'w fabric_env \<Rightarrow> gateway_config \<Rightarrow> handled list \<Rightarrow> 'w gateway_state \<Rightarrow> 'w gateway_state" where
  "handle_all lib env cfg [] s = s"
| "handle_all lib env cfg ((now1, now2, r) # h) s =
     handle_all lib env cfg h (snd (handle_reading lib env cfg now1 now2 r s))"

lemma handle_all_snoc:
  "handle_all lib env cfg (h @ [(now1, now2, r)]) s =
     snd (handle_reading lib env cfg now1 now2 r (handle_all lib env cfg h s))"
  by (induction h arbitrary: s) auto

definition access_request :: "gateway_config \<Rightarrow> sensor_reading \<Rightarrow> payload" where
  "access_request cfg r =
     [(''device_id'', VStr (device_id r)), (''zone'', effective_zone cfg r), (''action'', VStr ''submit_reading'')]"

abbreviation ledger_trace :: "('w \<times> fabric_event list) gateway_state \<Rightarrow> fabric_event list" where
  "ledger_trace s \<equiv> snd (gw_world s)"

abbreviation access_calls :: "('w \<times> fabric_event list) gateway_state \<Rightarrow> (payload \<times> pyval result) list" where
  "access_calls s \<equiv> calls_of ''CheckAccess'' (ledger_trace s)"

abbreviation submit_calls :: "('w \<times> fabric_event list) gateway_state \<Rightarrow> (payload \<times> pyval result) list" where
  "submit_calls s \<equiv> calls_of ''SubmitSensorReading'' (ledger_trace s)"

lemma check_access_invoke:
  "check_access env cl (device_id r) (effective_zone cfg r) ''submit_reading'' w =
     invoke_tx env cl ''CheckAccess'' (access_request cfg r) True w"
  by (simp add: check_access_def access_request_def)

lemma submit_invoke:
  "submit_sensor_reading env cl (WithToPayload p) w = invoke_tx env cl ''SubmitSensorReading'' p True w"
  by (simp add: submit_sensor_reading_def)

text \<open>Every live reading has an accepted submission.\<close>

definition live_backed :: "('w \<times> fabric_event list) gateway_state \<Rightarrow> bool" where
  "live_backed s \<longleftrightarrow> (\<forall>p \<in> set (live_readings s). \<exists>req v. same_request p req \<and> (req, Inr v) \<in> set (submit_calls s))"

lemma live_backed_mono:
  "live_backed s \<Longrightarrow> live_readings s' = live_readings s \<Longrightarrow> set (submit_calls s) \<subseteq> set (submit_calls s') \<Longrightarrow> live_backed s'"
  unfolding live_backed_def by (simp, blast)

lemma obtain_decision_submits:
  assumes "obtain_decision (observed env) cfg now1 now2 key r s = (res, s1)"
  shows "submit_calls s1 = submit_calls s" "live_readings s1 = live_readings s"
proof -
  obtain a w where ca: "check_access (observed env) (gw_client cfg) (device_id r) (effective_zone cfg r)
      ''submit_reading'' (gw_world s) = (a, w)" by (rule prod.exhaust)
  have "calls_of ''SubmitSensorReading'' (snd w) = submit_calls s"
    using fc.other_calls [OF ca [unfolded check_access_invoke]] by simp
  moreover obtain d c where get: "cache_get now1 key (gw_cache s) = (d, c)" by fastforce
  moreover have "s1 = (if d \<noteq> VNone then s\<lparr>gw_cache := c\<rparr> else
      (case a of Inl e \<Rightarrow> s\<lparr>gw_cache := c, gw_world := w\<rparr> | Inr x \<Rightarrow> s\<lparr>gw_cache := cache_put now2 key x c, gw_world := w\<rparr>))"
    using assms get ca by (cases a; cases "d = VNone") (auto simp: obtain_decision_def Let_def split: prod.splits)
  ultimately show "submit_calls s1 = submit_calls s" "live_readings s1 = live_readings s"
    by (simp_all split: sum.splits)
qed

lemma handle_reading_live:
  assumes "live_backed s" "handle_reading lib (observed env) cfg now1 now2 r s = (res, s')"
  shows "live_backed s'"
proof (cases "\<exists>key d s1. verify_signature lib r VNone = Inr True \<and> policy_key cfg r = Inr key \<and>
    obtain_decision (observed env) cfg now1 now2 key r s = (d, s1)")
  case False
  then have "s' = s"
    using assms(2) by (auto simp: handle_reading_def split: sum.splits bool.splits)
  with assms(1) show ?thesis by simp
next
  case True
  then obtain key d s1 where o: "verify_signature lib r VNone = Inr True" "policy_key cfg r = Inr key"
    "obtain_decision (observed env) cfg now1 now2 key r s = (d, s1)" by blast
  have s1: "live_backed s1"
    by (rule live_backed_mono [OF assms(1)]) (simp_all add: obtain_decision_submits [OF o(3)])
  obtain a w where sub: "submit_sensor_reading (observed env) (gw_client cfg) (WithToPayload (to_payload r)) (gw_world s1) = (a, w)"
    by (rule prod.exhaust)
  note tx = sub [unfolded submit_invoke]
  have more: "set (submit_calls s1) \<subseteq> set (calls_of ''SubmitSensorReading'' (snd w))"
    by (rule fc.calls_mono [OF tx])
  consider "s' = s1" | e where "a = Inl e" "s' = s1\<lparr>gw_world := w\<rparr>"
    | v where "a = Inr v" "s' = s1\<lparr>gw_world := w, live_readings := live_readings s1 @ [to_payload r]\<rparr>"
    using assms(2) o sub by (auto simp: handle_reading_def split: sum.splits if_splits)
  then show ?thesis
  proof cases
    case (3 v)
    have "live_backed (s1\<lparr>gw_world := w\<rparr>)"
      using more by (intro live_backed_mono [OF s1]) simp_all
    with fc.answer_in_trace [OF tx [unfolded 3(1)]] show ?thesis
      unfolding live_backed_def 3(2) by auto
  next
    case (2 e)
    then show ?thesis
      using more by (intro live_backed_mono [OF s1]) simp_all
  qed (simp add: s1)
qed

lemma handle_all_live: "live_backed s \<Longrightarrow> live_backed (handle_all lib (observed env) cfg h s)"
proof (induction h rule: rev_induct)
  case (snoc x h)
  obtain now1 now2 r where x: "x = (now1, now2, r)" by (cases x)
  obtain res s' where "handle_reading lib (observed env) cfg now1 now2 r (handle_all lib (observed env) cfg h s) = (res, s')"
    by (rule prod.exhaust)
  with handle_reading_live [OF snoc.IH [OF snoc.prems] this] show ?case
    by (simp add: x handle_all_snoc)
qed simp

section \<open>A ledger that grants and accepts\<close>

definition granting :: "'w fabric_env \<Rightarrow> bool" where
  "granting env \<longleftrightarrow> (\<forall>w name p. fst (invoker env w name p) = Inr (VBool True))"

lemma invoke_granting:
  assumes "granting env" "1 \<le> max_attempts cl"
  shows "\<exists>w' req. invoke_tx (observed env) cl name p True (w, l) =
    (Inr (VBool True), (w', l @ [Called name req (Inr (VBool True))]))"
proof -
  obtain u where u: "invoker env (snd (new_nonce env cl w)) name (request_of env cl p True w) = (Inr (VBool True), u)"
    using assms(1) unfolding granting_def by (metis prod.exhaust_sel)
  with assms(2) show ?thesis
    by (simp add: invoke_tx_retry request_of_observed new_nonce_observed retry.simps)
qed

text \<open>A reading that passes: unsigned, or with a good signature, and with a policy key.\<close>

definition acceptable :: "'k crypto_lib \<Rightarrow> gateway_config \<Rightarrow> sensor_reading \<Rightarrow> bool" where
  "acceptable lib cfg r \<longleftrightarrow> verify_signature lib r VNone = Inr True \<and> isl (policy_key cfg r) = False"

definition only_grants :: "policy_cache \<Rightarrow> bool" where
  "only_grants c \<longleftrightarrow> 0 < ttl_seconds c \<and> (\<forall>k v e. cache_view c k = Some (v, e) \<longrightarrow> decision_is_grant v)"

lemma only_grants_get: "only_grants c \<Longrightarrow> cache_get now k c = (v, c') \<Longrightarrow> only_grants c' \<and> (v \<noteq> VNone \<longrightarrow> decision_is_grant v)"
  unfolding only_grants_def by (metis pc.get_fresh pc.get_keeps pc.get_ttl)

lemma only_grants_put: "only_grants c \<Longrightarrow> decision_is_grant v \<Longrightarrow> only_grants (cache_put now k v c)"
  by (auto simp: only_grants_def pc.put_view pc.put_ttl)

lemma handle_granted:
  assumes "granting env" "1 \<le> max_attempts (gw_client cfg)" "acceptable lib cfg r" "only_grants (gw_cache s)"
  shows "\<exists>s' req. handle_reading lib (observed env) cfg now1 now2 r s = (Inr (), s') \<and>
    live_readings s' = live_readings s @ [to_payload r] \<and> only_grants (gw_cache s') \<and> gw_stop s' = gw_stop s \<and>
    submit_calls s' = submit_calls s @ [(req, Inr (VBool True))]"
proof -
  obtain key where key: "policy_key cfg r = Inr key" "verify_signature lib r VNone = Inr True"
    using assms(3) by (cases "policy_key cfg r") (auto simp: acceptable_def)
  obtain d s1 where o: "obtain_decision (observed env) cfg now1 now2 key r s = (Inr d, s1)" "decision_is_grant d"
    "live_readings s1 = live_readings s" "only_grants (gw_cache s1)" "gw_stop s1 = gw_stop s"
    "submit_calls s1 = submit_calls s"
  proof -
    obtain d c where get: "cache_get now1 key (gw_cache s) = (d, c)" by fastforce
    note c = only_grants_get [OF assms(4) get]
    obtain w l where wl: "gw_world s = (w, l)" by fastforce
    obtain w' req where ca: "check_access (observed env) (gw_client cfg) (device_id r) (effective_zone cfg r)
        ''submit_reading'' (gw_world s) =
        (Inr (VBool True), (w', l @ [Called ''CheckAccess'' req (Inr (VBool True))]))"
      using invoke_granting [OF assms(1,2)] unfolding check_access_invoke wl by blast
    have set: "fst (cache_set now2 key v None c) = Inr ()" for v
      using c by (simp add: cache_set_def only_grants_def Let_def)
    show thesis
    proof (cases "d = VNone")
      case True
      have "only_grants (cache_put now2 key (VBool True) c)" using c by (intro only_grants_put) auto
      with True get ca set wl show thesis
        by (intro that [of "VBool True" "s\<lparr>gw_cache := cache_put now2 key (VBool True) c,
              gw_world := (w', l @ [Called ''CheckAccess'' req (Inr (VBool True))])\<rparr>"])
           (simp_all add: obtain_decision_def case_prod_beta)
    next
      case False
      with get c show thesis
        by (intro that [of d "s\<lparr>gw_cache := c\<rparr>"]) (simp_all add: obtain_decision_def)
    qed
  qed
  obtain w l where wl: "gw_world s1 = (w, l)" by fastforce
  obtain w' req where "submit_sensor_reading (observed env) (gw_client cfg) (WithToPayload (to_payload r)) (gw_world s1) =
      (Inr (VBool True), (w', l @ [Called ''SubmitSensorReading'' req (Inr (VBool True))]))"
    using invoke_granting [OF assms(1,2)] unfolding submit_invoke wl by blast
  with key o wl show ?thesis
    by (intro exI [of _ "s1\<lparr>gw_world := (w', l @ [Called ''SubmitSensorReading'' req (Inr (VBool True))]),
          live_readings := live_readings s1 @ [to_payload r]\<rparr>"] exI [of _ req])
       (simp add: handle_reading_def)
qed

text \<open>Concrete instances: an unsigned reading, a library that loads no key, a ledger that grants.\<close>

definition reading_in_zone :: "string \<Rightarrow> string \<Rightarrow> sensor_reading" where
  "reading_in_zone d z =
     \<lparr>device_id = d, reading_id = ''1'', sr_value = 0, sr_zone = VStr z, sr_timestamp = VNone,
      sr_signature = VNone, sr_certificate = VNone, sr_residues = []\<rparr>"

definition no_keys :: "unit crypto_lib" where
  "no_keys = \<lparr>load_pem_public_key = (\<lambda>_. Inl BadValue), ed25519_verify = (\<lambda>_ _ _. Inl BadSignature),
     ecdsa_sha256_verify = (\<lambda>_ _ _. Inl BadSignature), rsa_pkcs1_sha256_verify = (\<lambda>_ _ _. Inl BadSignature)\<rparr>"

definition yes_env :: "unit fabric_env" where
  "yes_env = \<lparr>invoker = (\<lambda>w name p. (Inr (VBool True), w)), uniform = (\<lambda>w a b. (a, w)),
     sleeper = (\<lambda>w s. w), uuid4 = (\<lambda>w. (''u1'', w))\<rparr>"

definition demo_cfg :: gateway_config where
  "demo_cfg = \<lparr>gw_zone = ''a'', gw_client = default_client\<rparr>"

definition demo_cache :: policy_cache where
  "demo_cache = \<lparr>ttl_seconds = 300, cache_entries = []\<rparr>"

lemma demo_gateway:
  "granting yes_env" "1 \<le> max_attempts (gw_client demo_cfg)" "cache_init 300 = Inr demo_cache"
  "acceptable no_keys demo_cfg (reading_in_zone d z)" "only_grants demo_cache"
  by (simp_all add: granting_def yes_env_def demo_cfg_def default_client_def cache_init_def demo_cache_def
      acceptable_def verify_signature_def reading_in_zone_def policy_key_def effective_zone_def py_or_def
      only_grants_def cache_view_def)

definition fresh_gateway :: "policy_cache \<Rightarrow> 'w \<Rightarrow> ('w \<times> fabric_event list) gateway_state" where
  "fresh_gateway c w = \<lparr>gw_cache = c, live_readings = [], gw_world = (w, []), gw_stop = False\<rparr>"

lemma demo_fresh: "only_grants (gw_cache (fresh_gateway demo_cache ()))"
  using demo_gateway(5) by (simp add: fresh_gateway_def)

lemma demo_completion:
  "\<exists>rx rx'. process_packet 3 3 (demo_packet ''d'' ''1'' 101 51) rx = (Inr (Some demo_reading), rx') \<and> readings rx = []"
proof -
  obtain rx :: lora_receiver and a :: assembly where "readings rx = []" "assembled rx = {}" "wf_dict (assemblies rx)" "timeout_seconds rx = 60"
    "dict_get (assemblies rx) (''d'', ''1'') = Some a" "first_seen a = 1" "as_residues a = [(97, 53)]"
    using that [of "demo_rx\<lparr>assemblies := [((''d'', ''1''),
      \<lparr>first_seen = 1, as_packets = [], as_residues = [(97, 53)]\<rparr>)]\<rparr>"] by (simp add: demo_rx_def)
  moreover from this process_second [of "demo_packet ''d'' ''1'' 101 51"
      "[(''device_id'', VStr ''d''), (''reading_id'', VStr ''1''), (''modulus'', VInt 101), (''residue'', VInt 51)]"
      "(''d'', ''1'')" 101 5000 rx a 97 3 3]
  obtain rx' where "process_packet 3 3 (demo_packet ''d'' ''1'' 101 51) rx = (Inr (Some demo_reading), rx')"
    by (auto simp: MODULI_def demo_reading_def)
  ultimately show ?thesis by blast
qed

section \<open>Live readings\<close>

text \<open>
  C21. The live readings shown by the API are exactly backed by the ledger: each of them was
  submitted and accepted, with the same fields (the request adds the nonce).
\<close>

theorem live_readings_submitted:
  assumes "cache_init ttl = Inr c" "p \<in> set (live_readings (handle_all lib (observed env) cfg h (fresh_gateway c w)))"
  shows "\<exists>req v. (req, Inr v) \<in> set (submit_calls (handle_all lib (observed env) cfg h (fresh_gateway c w))) \<and>
    (\<forall>k. k \<noteq> ''nonce'' \<longrightarrow> dict_get req k = dict_get p k)"
proof -
  have "live_backed (fresh_gateway c w)"
    by (simp add: live_backed_def fresh_gateway_def)
  from handle_all_live [OF this, of lib env cfg h] assms(2) show ?thesis
    unfolding live_backed_def same_request_def by blast
qed

theorem live_readings_submitted_witness:
  "\<exists>req v. (req, Inr v) \<in> set (submit_calls (handle_all no_keys (observed yes_env) demo_cfg
      [(10, 11, reading_in_zone ''d1'' ''a'')] (fresh_gateway demo_cache ()))) \<and>
    (\<forall>k. k \<noteq> ''nonce'' \<longrightarrow> dict_get req k = dict_get (to_payload (reading_in_zone ''d1'' ''a'')) k)"
proof (rule live_readings_submitted [OF demo_gateway(3)])
  show "to_payload (reading_in_zone ''d1'' ''a'') \<in> set (live_readings (handle_all no_keys (observed yes_env) demo_cfg
      [(10, 11, reading_in_zone ''d1'' ''a'')] (fresh_gateway demo_cache ())))"
    using handle_granted [OF demo_gateway(1,2,4), of "fresh_gateway demo_cache ()" 10 11 "''d1''" "''a''"]
      demo_gateway(5) by (auto simp: fresh_gateway_def)
qed

section \<open>Both deliveries of a reading\<close>

text \<open>
  The receiver hands a completed reading to the callback and also queues it, and the main loop
  handles the queue with the same function: with a ledger that grants and accepts, every reading
  that passes the signature check is submitted to the ledger twice and listed twice.
\<close>

theorem reading_handled_twice:
  assumes "granting env" "1 \<le> max_attempts (gw_client cfg)" "acceptable lib cfg r" "only_grants (gw_cache s)"
    and "process_packet now1 now2 p rx = (Inr (Some r), rx')" "readings rx = []" "\<not> gw_stop s"
  shows "\<exists>s1 rx2 s2 req1 req2.
    source_turn (Some (handle_reading lib (observed env) cfg t1 t2)) now1 now2 (Some p) (rx, s) = (Inr (), rx', s1) \<and>
    main_turn lib (observed env) cfg t3 t4 (rx', s1) = (Inr (), rx2, s2) \<and>
    submit_calls s2 = submit_calls s @ [(req1, Inr (VBool True)), (req2, Inr (VBool True))] \<and>
    live_readings s2 = live_readings s @ [to_payload r, to_payload r] \<and> readings rx2 = []"
proof -
  obtain s1 req1 where one: "handle_reading lib (observed env) cfg t1 t2 r s = (Inr (), s1)"
    "live_readings s1 = live_readings s @ [to_payload r]" "only_grants (gw_cache s1)" "gw_stop s1 = gw_stop s"
    "submit_calls s1 = submit_calls s @ [(req1, Inr (VBool True))]"
    using handle_granted [OF assms(1-4)] by blast
  obtain s2 req2 where two: "handle_reading lib (observed env) cfg t3 t4 r s1 = (Inr (), s2)"
    "live_readings s2 = live_readings s1 @ [to_payload r]"
    "submit_calls s2 = submit_calls s1 @ [(req2, Inr (VBool True))]"
    using handle_granted [OF assms(1-3) one(3)] by blast
  have "readings rx' = [r]"
    using assms(5,6) by (cases rule: process_packet_cases) (auto dest!: store_residue_update)
  with one two assms(5,7) show ?thesis
    by (simp add: source_turn_def main_turn_def next_reading_def)
qed

theorem reading_handled_twice_witness:
  "\<exists>rx rx' r s1 rx2 s2 req1 req2.
    source_turn (Some (handle_reading no_keys (observed yes_env) demo_cfg 4 4)) 3 3
      (Some (demo_packet ''d'' ''1'' 101 51)) (rx, fresh_gateway demo_cache ()) = (Inr (), rx', s1) \<and>
    main_turn no_keys (observed yes_env) demo_cfg 5 5 (rx', s1) = (Inr (), rx2, s2) \<and>
    submit_calls s2 = [(req1, Inr (VBool True)), (req2, Inr (VBool True))] \<and>
    live_readings s2 = [to_payload r, to_payload r] \<and> readings rx2 = []"
proof -
  obtain rx rx' where rx: "process_packet 3 3 (demo_packet ''d'' ''1'' 101 51) rx = (Inr (Some demo_reading), rx')"
      "readings rx = []" using demo_completion by blast
  have "acceptable no_keys demo_cfg demo_reading"
    by (simp add: acceptable_def verify_signature_def demo_reading_def make_reading_def payload_get_def
        policy_key_def effective_zone_def py_or_def demo_cfg_def)
  from reading_handled_twice [OF demo_gateway(1,2) this demo_fresh rx, of 4 4 5 5]
  show ?thesis by (fastforce simp: fresh_gateway_def)
qed

section \<open>Policy keys and signed fields\<close>

text \<open>
  Two readings with the same policy key, whose device ids contain no colon, are of the same
  device and the same zone: under that condition a cached grant is never used for another device or
  zone. (With a colon in a device id the key is ambiguous, see \<open>policy_key_collision\<close>.)
\<close>

theorem policy_key_binds:
  assumes "policy_key cfg r = Inr key" "policy_key cfg r' = Inr key"
    "CHR '':'' \<notin> set (device_id r)" "CHR '':'' \<notin> set (device_id r')"
  shows "device_id r = device_id r' \<and> py_str (effective_zone cfg r) = py_str (effective_zone cfg r')"
proof -
  from assms(1,2) obtain z z' where z: "py_str (effective_zone cfg r) = Inr z" "py_str (effective_zone cfg r') = Inr z'"
    "device_id r @ CHR '':'' # (z @ '':submit_reading'') = device_id r' @ CHR '':'' # (z' @ '':submit_reading'')"
    by (auto simp: policy_key_def result_simps)
  from sep_field_inject [OF z(3) assms(3,4)] have "device_id r = device_id r'" "z = z'" by auto
  with z(1,2) show ?thesis by simp
qed

theorem policy_key_binds_witness:
  "device_id (reading_in_zone ''d1'' ''a'') = device_id (reading_in_zone ''d1'' ''a'') \<and>
   py_str (effective_zone \<lparr>gw_zone = ''a'', gw_client = default_client\<rparr> (reading_in_zone ''d1'' ''a'')) =
   py_str (effective_zone \<lparr>gw_zone = ''a'', gw_client = default_client\<rparr> (reading_in_zone ''d1'' ''a''))"
  by (rule policy_key_binds [where key = "''d1:a:submit_reading''"])
     (simp_all add: policy_key_def effective_zone_def reading_in_zone_def py_or_def)

lemma policy_key_collision:
  "policy_key cfg (reading_in_zone ''a:b'' ''c'') = policy_key cfg (reading_in_zone ''a'' ''b:c'')"
  by (simp add: policy_key_def effective_zone_def reading_in_zone_def py_or_def)

text \<open>
  A signed reading is accepted exactly when it carries or is given key material, its signature
  decodes to bytes, the library loads the key, the key is of a supported kind, and the library's
  verification of the signature over the reading's payload succeeds; an unsigned reading is always
  accepted.
\<close>

theorem verify_signature_accepts_iff:
  "verify_signature lib r pem = Inr True \<longleftrightarrow>
     sr_signature r = VNone \<or>
     (\<exists>sig bytes key verify msg. truthy (py_or pem (sr_certificate r)) \<and>
        signature_bytes (sr_signature r) = Inr (VBytes sig) \<and> key_bytes (py_or pem (sr_certificate r)) = Inr bytes \<and>
        load_pem_public_key lib bytes = Inr key \<and> verify_with lib key = Some verify \<and>
        signature_payload r = Inr msg \<and> verify sig msg = Inr ())"
proof -
  have caught: "catch_crypto (Inl e) \<noteq> Inr True" for e by (cases e) auto
  have verified: "(case x of Inl e \<Rightarrow> catch_crypto (Inl e) | Inr _ \<Rightarrow> Inr True) = Inr True \<longleftrightarrow> x = Inr ()"
    for x :: "crypto_error + unit" by (cases x) (simp_all add: caught)
  show ?thesis
  proof (cases "sr_signature r = VNone \<or> \<not> truthy (py_or pem (sr_certificate r))")
    case False
    then have v: "verify_signature lib r pem =
        bind_result (signature_bytes (sr_signature r)) (\<lambda>sig.
          bind_result (key_bytes (py_or pem (sr_certificate r))) (\<lambda>bytes. verify_pem lib r bytes sig))"
      by (simp add: verify_signature_def verify_pem_def)
    have "verify_pem lib r bytes sig = Inr True \<longleftrightarrow>
        (\<exists>key verify msg bs. load_pem_public_key lib bytes = Inr key \<and> verify_with lib key = Some verify \<and>
           signature_payload r = Inr msg \<and> sig = VBytes bs \<and> verify bs msg = Inr ())" for bytes sig
      by (cases "load_pem_public_key lib bytes"; cases sig)
         (simp_all add: verify_pem_def caught result_simps verified split: option.split)
    with False show ?thesis unfolding v result_simps by (simp, blast)
  qed (auto simp: verify_signature_def)
qed

text \<open>
  The signed text binds all four fields: two readings with the same signed text, whose device
  and reading ids contain no colon, agree on device, reading id, value and zone.
\<close>

theorem signature_payload_binds:
  assumes "signature_payload r = Inr msg" "signature_payload r' = Inr msg"
    "CHR '':'' \<notin> set (device_id r) \<union> set (reading_id r)" "CHR '':'' \<notin> set (device_id r') \<union> set (reading_id r')"
  shows "device_id r = device_id r' \<and> reading_id r = reading_id r' \<and> sr_value r = sr_value r' \<and>
    py_str (py_or (sr_zone r) (VStr [])) = py_str (py_or (sr_zone r') (VStr []))"
proof -
  from assms(1,2) obtain z z' where z: "py_str (py_or (sr_zone r) (VStr [])) = Inr z"
    "py_str (py_or (sr_zone r') (VStr [])) = Inr z'"
    "device_id r @ CHR '':'' # (reading_id r @ CHR '':'' # (int_str (sr_value r) @ CHR '':'' # z)) =
     device_id r' @ CHR '':'' # (reading_id r' @ CHR '':'' # (int_str (sr_value r') @ CHR '':'' # z'))"
    by (auto simp: signature_payload_def result_simps utf8_inject dest!: utf8_inject [THEN iffD1])
  from sep_field_inject [OF z(3)] assms(3,4) have d: "device_id r = device_id r'"
    "reading_id r @ CHR '':'' # (int_str (sr_value r) @ CHR '':'' # z) =
     reading_id r' @ CHR '':'' # (int_str (sr_value r') @ CHR '':'' # z')" by auto
  from sep_field_inject [OF d(2)] assms(3,4) have i: "reading_id r = reading_id r'"
    "int_str (sr_value r) @ CHR '':'' # z = int_str (sr_value r') @ CHR '':'' # z'" by auto
  from sep_field_inject [OF i(2) int_str_no_colon int_str_no_colon] d i z show ?thesis
    by (simp add: int_str_inject)
qed

theorem signature_payload_binds_witness:
  "device_id (reading_in_zone ''d1'' ''a'') = device_id (reading_in_zone ''d1'' ''a'') \<and>
   reading_id (reading_in_zone ''d1'' ''a'') = reading_id (reading_in_zone ''d1'' ''a'') \<and>
   sr_value (reading_in_zone ''d1'' ''a'') = sr_value (reading_in_zone ''d1'' ''a'') \<and>
   py_str (py_or (sr_zone (reading_in_zone ''d1'' ''a'')) (VStr [])) =
   py_str (py_or (sr_zone (reading_in_zone ''d1'' ''a'')) (VStr []))"
  by (rule signature_payload_binds [where msg = "utf8 (''d1:1:'' @ int_str 0 @ '':a'')"])
     (simp_all add: signature_payload_def reading_in_zone_def py_or_def)

lemma malformed_signature_raises:
  "sr_signature r = VStr s \<Longrightarrow> bytes_fromhex s = None \<Longrightarrow> truthy (py_or pem (sr_certificate r)) \<Longrightarrow>
     verify_signature lib r pem = Inl (ValueError ''non-hexadecimal number found in fromhex() arg'')"
  by (simp add: verify_signature_def signature_bytes_def)

end
