(* ===== verification/Flask_Fallback.thy ===== *)
theory Flask_Fallback
  imports Py_Text
begin

text \<open>
  \<open>gateway/flask.py\<close>: the fallback web framework the gateway's routes run on. A handler is a function
  of the request, the path parameters and the application's state. The module's global request
  object is set by \<open>_dispatch\<close> and read by the handler it calls, so it is an argument here. The JSON
  text of a response (\<open>get_data\<close>) is in \<open>Json_Endpoints\<close>. The lemmas describe path matching, the choice of
  the route, and the round trip from a route pattern and its parameters to a path and back.
\<close>

section \<open>Requests and responses\<close>

record request =
  rq_json :: pyval
  remote_addr :: string

record response =
  body :: pyval
  status_code :: pyval

datatype view_item = IsResponse response | IsValue pyval

text \<open>What a handler returns: one item, or a tuple of items.\<close>

datatype view_result = Single view_item | ViewTuple "view_item list"

definition jsonify :: "pyval \<Rightarrow> payload \<Rightarrow> response" where
  "jsonify obj kwargs =
     \<lparr>body = (if kwargs \<noteq> [] then payload_value kwargs else obj), status_code = VInt 200\<rparr>"

definition item_status :: "view_item \<Rightarrow> pyval" where
  "item_status i = (case i of IsValue v \<Rightarrow> v | IsResponse r \<Rightarrow> VNone)"

fun coerce_response :: "view_result \<Rightarrow> response result" where
  "coerce_response (Single (IsResponse r)) = Inr r"
| "coerce_response (Single (IsValue (VStr s))) = Inr \<lparr>body = VStr s, status_code = VInt 200\<rparr>"
| "coerce_response (Single (IsValue (VTuple (b # s # rest)))) = Inr ((jsonify b [])\<lparr>status_code := s\<rparr>)"
| "coerce_response (Single (IsValue (VTuple _))) = Inl (IndexError ''tuple index out of range'')"
| "coerce_response (Single (IsValue v)) = Inr (jsonify v [])"
| "coerce_response (ViewTuple (IsResponse r # s # rest)) = Inr (r\<lparr>status_code := item_status s\<rparr>)"
| "coerce_response (ViewTuple (IsValue v # s # rest)) = Inr ((jsonify v [])\<lparr>status_code := item_status s\<rparr>)"
| "coerce_response (ViewTuple _) = Inl (IndexError ''tuple index out of range'')"

section \<open>Matching a path against a route\<close>

abbreviation strip_slashes :: "string \<Rightarrow> string" where
  "strip_slashes \<equiv> strip_by (\<lambda>c. c = CHR ''/'')"

definition path_parts :: "string \<Rightarrow> string list" where
  "path_parts path = (if path = ''/'' then [] else split_on CHR ''/'' (strip_slashes path))"

definition is_param :: "string \<Rightarrow> bool" where
  "is_param part \<longleftrightarrow> starts_with ''<'' part \<and> ends_with ''>'' part"

definition param_name :: "string \<Rightarrow> string" where
  "param_name part = butlast (tl part)"

fun match_parts :: "(string \<times> string) list \<Rightarrow> (string, string) dict \<Rightarrow> (string, string) dict option" where
  "match_parts [] params = Some params"
| "match_parts ((route_part, path_part) # rest) params =
     (if is_param route_part then match_parts rest (dict_set (param_name route_part) path_part params)
      else if route_part \<noteq> path_part then None
      else match_parts rest params)"

definition match_route :: "string \<Rightarrow> string \<Rightarrow> string \<Rightarrow> string \<Rightarrow> (string, string) dict option" where
  "match_route route_method route_path http_method path =
     (if route_method \<noteq> http_method then None
      else
        let route_parts = path_parts route_path; parts = path_parts path
        in if length route_parts \<noteq> length parts then None
           else match_parts (zip route_parts parts) [])"

section \<open>Applications\<close>

type_synonym 's handler = "request \<Rightarrow> (string, string) dict \<Rightarrow> 's \<Rightarrow> view_result result \<times> 's"
type_synonym 's route = "string \<times> string \<times> 's handler"

definition add_route :: "string \<Rightarrow> string list \<Rightarrow> 's handler \<Rightarrow> 's route list \<Rightarrow> 's route list" where
  "add_route path methods func routes =
     routes @ map (\<lambda>m. (upper m, path, func)) (if methods = [] then [''GET''] else methods)"

definition app_get :: "string \<Rightarrow> 's handler \<Rightarrow> 's route list \<Rightarrow> 's route list" where
  "app_get path func routes = add_route path [''GET''] func routes"

definition app_post :: "string \<Rightarrow> 's handler \<Rightarrow> 's route list \<Rightarrow> 's route list" where
  "app_post path func routes = add_route path [''POST''] func routes"

definition app_delete :: "string \<Rightarrow> 's handler \<Rightarrow> 's route list \<Rightarrow> 's route list" where
  "app_delete path func routes = add_route path [''DELETE''] func routes"

fun dispatch_routes ::
  "'s route list \<Rightarrow> string \<Rightarrow> string \<Rightarrow> request \<Rightarrow> 's \<Rightarrow> response result \<times> 's" where
  "dispatch_routes [] http_method path rq s =
     (Inr \<lparr>body = VDict [(VStr ''error'', VStr ''not found'')], status_code = VInt 404\<rparr>, s)"
| "dispatch_routes ((route_method, route_path, func) # routes) http_method path rq s =
     (case match_route route_method route_path (upper http_method) path of
        None \<Rightarrow> dispatch_routes routes http_method path rq s
      | Some params \<Rightarrow>
          (case func rq params s of (r, s') \<Rightarrow> (bind_result r coerce_response, s')))"

definition dispatch ::
  "'s route list \<Rightarrow> string \<Rightarrow> string \<Rightarrow> pyval \<Rightarrow> string \<Rightarrow> 's \<Rightarrow> response result \<times> 's" where
  "dispatch routes http_method path json_payload addr s =
     dispatch_routes routes http_method path \<lparr>rq_json = json_payload, remote_addr = addr\<rparr> s"

definition client_get :: "'s route list \<Rightarrow> string \<Rightarrow> 's \<Rightarrow> response result \<times> 's" where
  "client_get routes path s = dispatch routes ''GET'' path VNone ''127.0.0.1'' s"

definition client_post :: "'s route list \<Rightarrow> string \<Rightarrow> pyval \<Rightarrow> 's \<Rightarrow> response result \<times> 's" where
  "client_post routes path json s = dispatch routes ''POST'' path json ''127.0.0.1'' s"

definition client_delete :: "'s route list \<Rightarrow> string \<Rightarrow> 's \<Rightarrow> response result \<times> 's" where
  "client_delete routes path s = dispatch routes ''DELETE'' path VNone ''127.0.0.1'' s"

text \<open>\<open>Flask.run\<close> is not implemented by the fallback.\<close>

definition app_run :: "unit result" where
  "app_run = Inl (RuntimeError ''The lightweight Flask fallback does not implement a network server'')"

section \<open>Matching as a specification\<close>

text \<open>A path matches when literals agree and parameters take whatever stands in their place.\<close>

definition parts_agree :: "string list \<Rightarrow> string list \<Rightarrow> bool" where
  "parts_agree rs ps \<longleftrightarrow> list_all2 (\<lambda>r p. is_param r \<or> r = p) rs ps"

definition bindings :: "string list \<Rightarrow> string list \<Rightarrow> (string \<times> string) list" where
  "bindings rs ps = map (\<lambda>(r, p). (param_name r, p)) (filter (\<lambda>(r, p). is_param r) (zip rs ps))"

lemma match_parts_spec:
  "length rs = length ps \<Longrightarrow>
     match_parts (zip rs ps) params =
       (if parts_agree rs ps then Some (fold (\<lambda>(n, v). dict_set n v) (bindings rs ps) params) else None)"
  by (induction rs ps arbitrary: params rule: list_induct2) (auto simp: parts_agree_def bindings_def)

lemma fold_dict_set_fresh:
  "distinct (map fst bs) \<Longrightarrow> set (map fst bs) \<inter> set (dict_keys d) = {} \<Longrightarrow>
     fold (\<lambda>(n, v). dict_set n v) bs d = d @ bs"
proof (induction bs arbitrary: d)
  case (Cons b bs)
  obtain n v where b: "b = (n, v)" by fastforce
  with Cons.prems have "n \<notin> set (dict_keys d)" by auto
  then have "dict_set n v d = d @ [(n, v)]" by (induction d) auto
  with Cons.IH [of "d @ [(n, v)]"] Cons.prems b show ?case by auto
qed simp

text \<open>The route of a path: the first one whose method and parts match.\<close>

definition route_matches :: "string \<Rightarrow> string \<Rightarrow> 's route \<Rightarrow> bool" where
  "route_matches http_method path rt \<longleftrightarrow>
     (case rt of (m, p, f) \<Rightarrow> match_route m p (upper http_method) path \<noteq> None)"

lemma dispatch_skip:
  "\<forall>rt \<in> set rts. \<not> route_matches http_method path rt \<Longrightarrow>
     dispatch_routes (rts @ rts') http_method path rq s = dispatch_routes rts' http_method path rq s"
proof (induction rts)
  case (Cons rt rts)
  then show ?case by (cases rt) (auto simp: route_matches_def)
qed simp

section \<open>Building paths\<close>

text \<open>The path of a route pattern with values for its parameters.\<close>

fun fill_parts :: "string list \<Rightarrow> string list \<Rightarrow> string list" where
  "fill_parts [] vs = []"
| "fill_parts (r # rs) vs =
     (if is_param r then (case vs of [] \<Rightarrow> r # fill_parts rs [] | v # vs' \<Rightarrow> v # fill_parts rs vs')
      else r # fill_parts rs vs)"

definition build_path :: "string list \<Rightarrow> string" where
  "build_path parts = CHR ''/'' # join ''/'' parts"

definition plain_part :: "string \<Rightarrow> bool" where
  "plain_part p \<longleftrightarrow> p \<noteq> [] \<and> CHR ''/'' \<notin> set p"

lemma join_last_plain: "ps \<noteq> [] \<Longrightarrow> \<forall>p \<in> set ps. plain_part p \<Longrightarrow> join ''/'' ps \<noteq> [] \<and> last (join ''/'' ps) \<noteq> CHR ''/'' \<and>
    hd (join ''/'' ps) \<noteq> CHR ''/''"
proof (induction ps rule: list_nonempty_induct)
  case (single p)
  then show ?case by (auto simp: plain_part_def dest: last_in_set hd_in_set)
next
  case (cons p ps)
  then obtain q qs where ps: "ps = q # qs" by (cases ps) auto
  with cons show ?case by (auto simp: plain_part_def dest: hd_in_set)
qed

lemma path_parts_build:
  assumes "ps \<noteq> []" "\<forall>p \<in> set ps. plain_part p"
  shows "path_parts (build_path ps) = ps"
proof -
  note j = join_last_plain [OF assms]
  have "strip_slashes (build_path ps) = strip_slashes (join ''/'' ps)"
    by (simp add: strip_by_def build_path_def)
  also have "\<dots> = join ''/'' ps" using j by (intro strip_by_id) auto
  finally have "path_parts (build_path ps) = split_on CHR ''/'' (join ''/'' ps)"
    using j by (auto simp: path_parts_def build_path_def)
  with split_on_join [OF assms(1), of "CHR ''/''"] assms(2) show ?thesis by (simp add: plain_part_def)
qed

lemma fill_parts_shape:
  "length vs = length (filter is_param rs) \<Longrightarrow>
     length (fill_parts rs vs) = length rs \<and> parts_agree rs (fill_parts rs vs) \<and>
     bindings rs (fill_parts rs vs) = zip (map param_name (filter is_param rs)) vs"
proof (induction rs arbitrary: vs)
  case Nil
  then show ?case by (simp add: parts_agree_def bindings_def)
next
  case (Cons r rs)
  show ?case
  proof (cases "is_param r")
    case True
    with Cons.prems obtain v vs' where "vs = v # vs'" by (cases vs) auto
    with True Cons.prems Cons.IH [of vs'] show ?thesis by (simp add: parts_agree_def bindings_def)
  next
    case False
    with Cons.prems Cons.IH [of vs] show ?thesis by (simp add: parts_agree_def bindings_def)
  qed
qed

lemma fill_parts_all: "list_all P rs \<Longrightarrow> list_all P vs \<Longrightarrow> list_all P (fill_parts rs vs)"
proof (induction rs arbitrary: vs)
  case (Cons r rs)
  then show ?case by (cases vs) simp_all
qed simp

lemma fill_parts_plain:
  "\<forall>r \<in> set rs. plain_part r \<Longrightarrow> \<forall>v \<in> set vs. plain_part v \<Longrightarrow> \<forall>p \<in> set (fill_parts rs vs). plain_part p"
  using fill_parts_all [of plain_part rs vs] unfolding list_all_iff .

text \<open>
  Paths round trip: filling a route pattern's parameters with non-empty values that contain no
  slash gives a path that the route matches, and matching returns exactly those values under the
  parameters' names.
\<close>

theorem route_path_roundtrip:
  assumes "rs \<noteq> []" "\<forall>r \<in> set rs. plain_part r" "\<forall>v \<in> set vs. plain_part v"
    "length vs = length (filter is_param rs)" "distinct (map param_name (filter is_param rs))"
  shows "match_route m (build_path rs) m (build_path (fill_parts rs vs)) =
    Some (zip (map param_name (filter is_param rs)) vs)"
proof -
  note f = fill_parts_shape [OF assms(4)]
  then have "fill_parts rs vs \<noteq> []" using assms(1) by auto
  note parts = path_parts_build [OF assms(1,2)] path_parts_build [OF this fill_parts_plain [OF assms(2,3)]]
  have "distinct (map fst (zip (map param_name (filter is_param rs)) vs))"
    using assms(4,5) by (simp add: map_fst_zip)
  with f show ?thesis
    using fold_dict_set_fresh [of "zip (map param_name (filter is_param rs)) vs" "[]"]
    by (simp add: match_route_def parts match_parts_spec)
qed

theorem route_path_roundtrip_witness:
  "match_route ''DELETE'' (build_path [''api'', ''roles'', ''<user_id>'']) ''DELETE''
     (build_path [''api'', ''roles'', ''alice'']) = Some [(''user_id'', ''alice'')]"
  using route_path_roundtrip [of "[''api'', ''roles'', ''<user_id>'']" "[''alice'']" "''DELETE''"]
  by (simp add: plain_part_def is_param_def starts_with_def ends_with_def param_name_def)

text \<open>
  Dispatch. The first route whose method and pattern match decides the response, with the
  parameters of the match; when no route matches, the answer is 404 and the state is unchanged.
\<close>

theorem dispatch_first_match:
  assumes "\<forall>rt \<in> set earlier. \<not> route_matches http_method path rt"
  shows "dispatch (earlier @ later) http_method path json addr s =
    (case later of
       [] \<Rightarrow> (Inr \<lparr>body = VDict [(VStr ''error'', VStr ''not found'')], status_code = VInt 404\<rparr>, s)
     | (m, p, f) # rest \<Rightarrow>
         (case match_route m p (upper http_method) path of
            Some params \<Rightarrow>
              (bind_result (fst (f \<lparr>rq_json = json, remote_addr = addr\<rparr> params s)) coerce_response,
               snd (f \<lparr>rq_json = json, remote_addr = addr\<rparr> params s))
          | None \<Rightarrow> dispatch rest http_method path json addr s))"
  using dispatch_skip [OF assms, of later]
  by (auto simp: dispatch_def case_prod_beta split: list.splits option.splits)

theorem dispatch_first_match_witness:
  "dispatch [(''GET'', ''/a'', \<lambda>rq ps n. (Inr (Single (IsValue VNone)), n)),
             (''GET'', ''/b/<x>'', \<lambda>rq ps n. (Inr (Single (IsValue (VStr ''hit''))), n + (1 :: nat)))]
     ''get'' ''/b/1'' VNone ''h'' 0 = (Inr \<lparr>body = VStr ''hit'', status_code = VInt 200\<rparr>, 1)"
proof -
  have "match_route ''GET'' ''/a'' (upper ''get'') ''/b/1'' = None"
    "match_route ''GET'' ''/b/<x>'' (upper ''get'') ''/b/1'' = Some [(''x'', ''1'')]"
    by code_simp+
  then show ?thesis
    using dispatch_first_match [of "[(''GET'', ''/a'', \<lambda>rq ps n. (Inr (Single (IsValue VNone)), n))]" "''get''" "''/b/1''"
      "[(''GET'', ''/b/<x>'', \<lambda>rq ps n. (Inr (Single (IsValue (VStr ''hit''))), n + (1 :: nat)))]" VNone "''h''" 0]
    by (simp add: route_matches_def)
qed

end
