(* ===== verification/Paper_Benchmarks.thy ===== *)
theory Paper_Benchmarks
  imports Py_Text
begin

text \<open>
  \<open>gateway/paper_benchmarks.py\<close>: look-ups in the benchmark summary file and the validation of its
  cross-field invariants. The parsed content of the file is an argument (a dictionary of categories; \<open>Json_Endpoints\<close> loads it);
  every call reads the file again, so a copy (\<open>deepcopy\<close>) of a value is that value.
  Comparisons and sums are modelled for numbers; other operands give \<open>Unmodelled\<close> where Python
  would compare strings or raise.
\<close>

section \<open>Look-ups\<close>

definition get_all_benchmarks :: "pydict \<Rightarrow> pydict" where
  "get_all_benchmarks loaded = loaded"

definition get_benchmark_category :: "pydict \<Rightarrow> string \<Rightarrow> pyval" where
  "get_benchmark_category loaded category = get_default loaded category VNone"

text \<open>\<open>metric_name in metrics\<close> for the values a category can have.\<close>

fun has_metric :: "string \<Rightarrow> pyval \<Rightarrow> bool result" where
  "has_metric k (VDict d) = Inr (dict_get d (VStr k) \<noteq> None)"
| "has_metric k (VStr s) = Inr (contains_sub k s)"
| "has_metric k (VList xs) = Inr (VStr k \<in> set xs)"
| "has_metric k v = Inl (TypeError ''argument is not iterable'')"

fun metric_at :: "string \<Rightarrow> pyval \<Rightarrow> pyval result" where
  "metric_at k (VDict d) = (case dict_get d (VStr k) of None \<Rightarrow> Inl (KeyError k) | Some v \<Rightarrow> Inr v)"
| "metric_at k v = Inl (TypeError ''indices must be integers'')"

fun find_metric :: "pyval list \<Rightarrow> string \<Rightarrow> pyval result" where
  "find_metric [] metric_name = Inr VNone"
| "find_metric (metrics # rest) metric_name =
     bind_result (has_metric metric_name metrics) (\<lambda>found.
       if found then metric_at metric_name metrics else find_metric rest metric_name)"

definition get_metric :: "pydict \<Rightarrow> string \<Rightarrow> pyval result" where
  "get_metric loaded metric_name = find_metric (map snd loaded) metric_name"

section \<open>Validation\<close>

fun py_num :: "pyval \<Rightarrow> rat result" where
  "py_num (VInt i) = Inr (of_int i)"
| "py_num (VFloat q) = Inr q"
| "py_num (VBool b) = Inr (if b then 1 else 0)"
| "py_num _ = Inl Unmodelled"

text \<open>\<open>v == q\<close> for a number on the right: a value that is no number is unequal.\<close>

definition equals_num :: "pyval \<Rightarrow> rat \<Rightarrow> bool" where
  "equals_num v q = (case py_num v of Inr x \<Rightarrow> x = q | Inl _ \<Rightarrow> False)"

definition field :: "pyval \<Rightarrow> string \<Rightarrow> pyval result" where
  "field category k = metric_at k category"

definition num_field :: "pyval \<Rightarrow> string \<Rightarrow> rat result" where
  "num_field category k = bind_result (field category k) py_num"

definition check_nodes :: "pyval \<Rightarrow> bool result" where
  "check_nodes deployment =
     bind_result (field deployment ''fabric_total_nodes'') (\<lambda>total.
     bind_result (num_field deployment ''fabric_peers'') (\<lambda>peers.
     bind_result (num_field deployment ''raft_orderers'') (\<lambda>orderers.
     bind_result (num_field deployment ''fabric_ca_count'') (\<lambda>cas.
       Inr (equals_num total (peers + orderers + cas))))))"

definition check_attempts :: "pyval \<Rightarrow> bool result" where
  "check_attempts security =
     bind_result (num_field security ''security_vectors'') (\<lambda>vectors.
     bind_result (num_field security ''attempts_per_vector'') (\<lambda>per_vector.
     bind_result (field security ''security_test_attempts'') (\<lambda>total.
       Inr (equals_num total (vectors * per_vector)))))"

definition check_crt :: "pyval \<Rightarrow> bool result" where
  "check_crt crt = bind_result (field crt ''crt_max_value'') (\<lambda>v. Inr (equals_num v (97 * 101 * 103)))"

text \<open>A chained comparison stops at the first part that fails.\<close>

definition check_tps :: "pyval \<Rightarrow> bool result" where
  "check_tps throughput =
     bind_result (num_field throughput ''expected_hrbac_tps_min'') (\<lambda>lo.
     bind_result (num_field throughput ''hrbac_tps'') (\<lambda>tps.
       if lo \<le> tps then bind_result (num_field throughput ''expected_hrbac_tps_max'') (\<lambda>hi. Inr (tps \<le> hi))
       else Inr False))"

definition check_latency :: "pyval \<Rightarrow> bool result" where
  "check_latency latency =
     bind_result (num_field latency ''sensor_write_total_latency_ms'') (\<lambda>t.
     bind_result (num_field latency ''expected_sensor_write_p95_max_ms'') (\<lambda>limit. Inr (t < limit)))"

definition check_block_rate :: "pyval \<Rightarrow> bool result" where
  "check_block_rate security = bind_result (field security ''block_rate_percent'') (\<lambda>v. Inr (equals_num v 100))"

definition category_at :: "pydict \<Rightarrow> string \<Rightarrow> pyval result" where
  "category_at benchmarks k = metric_at k (VDict benchmarks)"

definition benchmark_checks :: "pydict \<Rightarrow> (string \<times> bool) list result" where
  "benchmark_checks benchmarks =
     bind_result (category_at benchmarks ''deployment'') (\<lambda>deployment.
     bind_result (category_at benchmarks ''security'') (\<lambda>security.
     bind_result (category_at benchmarks ''crt'') (\<lambda>crt.
     bind_result (category_at benchmarks ''throughput'') (\<lambda>throughput.
     bind_result (category_at benchmarks ''latency'') (\<lambda>latency.
     bind_result (map_result id [check_nodes deployment, check_attempts security, check_crt crt,
                    check_tps throughput, check_latency latency, check_block_rate security]) (\<lambda>passed.
       Inr (zip [''fabric_total_nodes'', ''security_attempts'', ''crt_max_value'', ''hrbac_tps_range'',
                 ''sensor_write_latency'', ''block_rate''] passed)))))))"

definition validate_paper_benchmarks :: "pydict \<Rightarrow> bool result" where
  "validate_paper_benchmarks benchmarks =
     bind_result (benchmark_checks benchmarks) (\<lambda>checks.
       let failed_checks = map fst (filter (\<lambda>(name, passed). \<not> passed) checks)
       in if failed_checks \<noteq> []
          then Inl (ValueError (''Invalid paper benchmark dataset: '' @ join '', '' failed_checks))
          else Inr True)"

text \<open>The fields of the shipped summary file that the validation and the live report read.\<close>

definition shipped_benchmarks :: pydict where
  "shipped_benchmarks =
     [(VStr ''deployment'', VDict [(VStr ''fabric_peers'', VInt 4), (VStr ''raft_orderers'', VInt 3),
         (VStr ''fabric_ca_count'', VInt 1), (VStr ''fabric_total_nodes'', VInt 8)]),
      (VStr ''throughput'', VDict [(VStr ''hrbac_tps'', VInt 63), (VStr ''expected_hrbac_tps_min'', VInt 55),
         (VStr ''expected_hrbac_tps_max'', VInt 70)]),
      (VStr ''latency'', VDict [(VStr ''sensor_write_total_latency_ms'', VInt 1220),
         (VStr ''p95_latency_4_peers_ms'', VInt 1480),
         (VStr ''expected_sensor_write_p95_max_ms'', VInt 2000)]),
      (VStr ''security'', VDict [(VStr ''security_test_attempts'', VInt 8000), (VStr ''security_vectors'', VInt 8),
         (VStr ''attempts_per_vector'', VInt 1000), (VStr ''block_rate_percent'', VInt 100)]),
      (VStr ''crt'', VDict [(VStr ''crt_max_value'', VInt 1009091)])]"

section \<open>What a passing validation means\<close>

lemma zip_all_pass: "map fst (filter (\<lambda>(name, passed). \<not> passed) (zip ns bs)) = [] \<longleftrightarrow>
    (\<forall>i < min (length ns) (length bs). bs ! i)"
  by (auto simp: filter_empty_conv set_zip)

lemma validate_Inr_iff:
  "validate_paper_benchmarks benchmarks = Inr True \<longleftrightarrow>
     (\<exists>checks. benchmark_checks benchmarks = Inr checks \<and> (\<forall>(name, passed) \<in> set checks. passed))"
  by (auto simp: validate_paper_benchmarks_def result_simps Let_def filter_empty_conv split: if_splits)

lemma checks_pass:
  "benchmark_checks b = Inr checks \<Longrightarrow> \<forall>(name, passed) \<in> set checks. passed \<Longrightarrow>
     \<exists>deployment security crt throughput latency.
       category_at b ''deployment'' = Inr deployment \<and> category_at b ''security'' = Inr security \<and>
       category_at b ''crt'' = Inr crt \<and> category_at b ''throughput'' = Inr throughput \<and>
       category_at b ''latency'' = Inr latency \<and>
       check_nodes deployment = Inr True \<and> check_attempts security = Inr True \<and> check_crt crt = Inr True \<and>
       check_tps throughput = Inr True \<and> check_latency latency = Inr True \<and> check_block_rate security = Inr True"
  by (auto simp: benchmark_checks_def result_simps)

lemma equals_num_Inr: "equals_num v q \<longleftrightarrow> py_num v = Inr q"
  by (auto simp: equals_num_def split: sum.splits)

text \<open>
  Validation is sound: a dataset that passes is consistent, whatever else it contains: the node
  total is the sum of its parts, the attempts are vectors times attempts per vector, the CRT range
  is the product of the moduli, the throughput lies in its range, the write latency is below its
  limit, and the block rate is 100 per cent.
\<close>

theorem validate_sound:
  assumes "validate_paper_benchmarks b = Inr ok"
  shows "ok \<and> (\<exists>deployment security crt throughput latency peers orderers cas vectors per lo tps hi t limit.
    category_at b ''deployment'' = Inr deployment \<and> category_at b ''security'' = Inr security \<and>
    category_at b ''crt'' = Inr crt \<and> category_at b ''throughput'' = Inr throughput \<and>
    category_at b ''latency'' = Inr latency \<and>
    num_field deployment ''fabric_peers'' = Inr peers \<and> num_field deployment ''raft_orderers'' = Inr orderers \<and>
    num_field deployment ''fabric_ca_count'' = Inr cas \<and>
    num_field deployment ''fabric_total_nodes'' = Inr (peers + orderers + cas) \<and>
    num_field security ''security_vectors'' = Inr vectors \<and> num_field security ''attempts_per_vector'' = Inr per \<and>
    num_field security ''security_test_attempts'' = Inr (vectors * per) \<and>
    num_field security ''block_rate_percent'' = Inr 100 \<and>
    num_field crt ''crt_max_value'' = Inr 1009091 \<and>
    num_field throughput ''expected_hrbac_tps_min'' = Inr lo \<and> num_field throughput ''hrbac_tps'' = Inr tps \<and>
    num_field throughput ''expected_hrbac_tps_max'' = Inr hi \<and> lo \<le> tps \<and> tps \<le> hi \<and>
    num_field latency ''sensor_write_total_latency_ms'' = Inr t \<and>
    num_field latency ''expected_sensor_write_p95_max_ms'' = Inr limit \<and> t < limit)"
proof -
  have ok: "ok" using assms
    by (auto simp: validate_paper_benchmarks_def result_simps Let_def split: if_splits)
  with assms obtain checks where c: "benchmark_checks b = Inr checks" "\<forall>(name, passed) \<in> set checks. passed"
    using validate_Inr_iff by auto
  from checks_pass [OF c] obtain deployment security crt throughput latency where cat:
    "category_at b ''deployment'' = Inr deployment" "category_at b ''security'' = Inr security"
    "category_at b ''crt'' = Inr crt" "category_at b ''throughput'' = Inr throughput"
    "category_at b ''latency'' = Inr latency" and pass:
    "check_nodes deployment = Inr True" "check_attempts security = Inr True" "check_crt crt = Inr True"
    "check_tps throughput = Inr True" "check_latency latency = Inr True" "check_block_rate security = Inr True"
    by blast
  from pass(1) obtain peers orderers cas where n:
    "num_field deployment ''fabric_peers'' = Inr peers" "num_field deployment ''raft_orderers'' = Inr orderers"
    "num_field deployment ''fabric_ca_count'' = Inr cas"
    "num_field deployment ''fabric_total_nodes'' = Inr (peers + orderers + cas)"
    unfolding check_nodes_def result_simps by (fastforce simp: num_field_def equals_num_Inr)
  from pass(2) obtain vectors per where a:
    "num_field security ''security_vectors'' = Inr vectors" "num_field security ''attempts_per_vector'' = Inr per"
    "num_field security ''security_test_attempts'' = Inr (vectors * per)"
    unfolding check_attempts_def result_simps by (fastforce simp: num_field_def equals_num_Inr)
  from pass(4) obtain lo tps hi where t:
    "num_field throughput ''expected_hrbac_tps_min'' = Inr lo" "num_field throughput ''hrbac_tps'' = Inr tps"
    "num_field throughput ''expected_hrbac_tps_max'' = Inr hi" "lo \<le> tps" "tps \<le> hi"
    by (auto simp: check_tps_def result_simps split: if_splits)
  from pass(5) obtain lat limit where l:
    "num_field latency ''sensor_write_total_latency_ms'' = Inr lat"
    "num_field latency ''expected_sensor_write_p95_max_ms'' = Inr limit" "lat < limit"
    by (auto simp: check_latency_def result_simps)
  from pass(3,6) have r: "num_field crt ''crt_max_value'' = Inr 1009091"
    "num_field security ''block_rate_percent'' = Inr 100"
    by (auto simp: check_crt_def check_block_rate_def num_field_def result_simps equals_num_Inr)
  show ?thesis
    by (rule conjI [OF ok], intro exI conjI) (fact cat n a t l r)+
qed

theorem validate_sound_witness:
  "validate_paper_benchmarks shipped_benchmarks = Inr True \<and>
   (\<exists>security vectors per. category_at shipped_benchmarks ''security'' = Inr security \<and>
      num_field security ''security_vectors'' = Inr vectors \<and> num_field security ''attempts_per_vector'' = Inr per \<and>
      num_field security ''security_test_attempts'' = Inr (vectors * per))"
proof -
  have v: "validate_paper_benchmarks shipped_benchmarks = Inr True"
    by (simp add: validate_paper_benchmarks_def benchmark_checks_def shipped_benchmarks_def category_at_def
        check_nodes_def check_attempts_def check_crt_def check_tps_def check_latency_def check_block_rate_def
        num_field_def field_def equals_num_def)
  from validate_sound [OF v] v show ?thesis by blast
qed

end
