(* ===== verification/Enrollment_Server.thy ===== *)
theory Enrollment_Server
  imports Flask_Fallback Paper_Benchmarks
begin

text \<open>
  \<open>gateway/enrollment_server.py\<close>: enrolment with a rate limit, the audit log, roles, zones and the
  read-only endpoints, as handlers on one application state. Clock values are arguments (a handler
  reads the clock for the rate limit and once per audit entry). The benchmark file's content is an
  argument; the endpoints of \<open>raw_data_api\<close> are in \<open>Raw_Data_Api\<close>. \<open>app_routes\<close> lists the routes in
  the order of registration, and requests go through the dispatcher of \<open>Flask_Fallback\<close>.
\<close>

section \<open>Dictionary keys\<close>

text \<open>
  Python finds a key by equality, and \<open>1\<close>, \<open>1.0\<close> and \<open>True\<close> are equal; lists and dictionaries are not
  hashable. \<open>key_norm\<close> gives equal keys one normal form; an entry keeps the key it was stored under.
\<close>

definition key_norm :: "pyval \<Rightarrow> pyval" where
  "key_norm k = (case k of VBool b \<Rightarrow> VFloat (if b then 1 else 0) | VInt i \<Rightarrow> VFloat (of_int i) | _ \<Rightarrow> k)"

fun hashable :: "pyval \<Rightarrow> bool" where
  "hashable (VList _) = False"
| "hashable (VDict _) = False"
| "hashable (VTuple xs) = list_all hashable xs"
| "hashable _ = True"

fun pykey_get :: "pydict \<Rightarrow> pyval \<Rightarrow> pyval option" where
  "pykey_get [] k = None"
| "pykey_get ((k', v) # d) k = (if key_norm k' = key_norm k then Some v else pykey_get d k)"

fun pykey_set :: "pyval \<Rightarrow> pyval \<Rightarrow> pydict \<Rightarrow> pydict" where
  "pykey_set k v [] = [(k, v)]"
| "pykey_set k v ((k', v') # d) = (if key_norm k' = key_norm k then (k', v) # d else (k', v') # pykey_set k v d)"

fun pykey_pop :: "pyval \<Rightarrow> pydict \<Rightarrow> pydict" where
  "pykey_pop k [] = []"
| "pykey_pop k ((k', v') # d) = (if key_norm k' = key_norm k then pykey_pop k d else (k', v') # pykey_pop k d)"

section \<open>Application state\<close>

definition ENROLL_LIMIT :: nat where
  "ENROLL_LIMIT = 10"

definition ENROLL_WINDOW_SECONDS :: rat where
  "ENROLL_WINDOW_SECONDS = 3600"

record audit_entry =
  ae_event :: string
  ae_payload :: pyval
  ae_timestamp :: rat

record app_config =
  cfg_zone :: string
  cfg_public_key :: string
  cfg_ca_cert :: string

record app_state =
  app_live :: "pyval list"
  app_audit :: "audit_entry list"
  app_roles :: pydict
  app_zones :: "string list"
  enroll_attempts :: "(string, rat list) dict"

definition require_zone :: "string option \<Rightarrow> string option \<Rightarrow> string result" where
  "require_zone zone env_zone =
     (let selected = (case zone of Some z \<Rightarrow> if z \<noteq> [] then Some z else env_zone | None \<Rightarrow> env_zone)
      in case selected of
           Some z \<Rightarrow> if z \<noteq> [] then Inr z else Inl (RuntimeError ''GATEWAY_ZONE environment variable is required'')
         | None \<Rightarrow> Inl (RuntimeError ''GATEWAY_ZONE environment variable is required''))"

definition or_default :: "string option \<Rightarrow> string \<Rightarrow> string" where
  "or_default s dflt = (case s of Some t \<Rightarrow> if t \<noteq> [] then t else dflt | None \<Rightarrow> dflt)"

definition create_app ::
  "string option \<Rightarrow> string option \<Rightarrow> string option \<Rightarrow> string option \<Rightarrow> (app_config \<times> app_state) result" where
  "create_app zone env_zone gateway_public_key ca_cert =
     bind_result (require_zone zone env_zone) (\<lambda>gateway_zone.
       Inr (\<lparr>cfg_zone = gateway_zone,
             cfg_public_key = or_default gateway_public_key ''gateway-public-key-placeholder'',
             cfg_ca_cert = or_default ca_cert ''ca-cert-placeholder''\<rparr>,
            \<lparr>app_live = [], app_audit = [], app_roles = [], app_zones = [gateway_zone], enroll_attempts = []\<rparr>))"

definition audit :: "rat \<Rightarrow> string \<Rightarrow> pyval \<Rightarrow> app_state \<Rightarrow> app_state" where
  "audit now event p s =
     s\<lparr>app_audit := app_audit s @ [\<lparr>ae_event = event, ae_payload = p, ae_timestamp = now\<rparr>]\<rparr>"

section \<open>Rate limit\<close>

definition prune :: "rat \<Rightarrow> rat list \<Rightarrow> rat list" where
  "prune now attempts = dropWhile (\<lambda>t. now - t \<ge> ENROLL_WINDOW_SECONDS) attempts"

definition attempts_of :: "string \<Rightarrow> app_state \<Rightarrow> rat list" where
  "attempts_of identity s = (case dict_get (enroll_attempts s) identity of None \<Rightarrow> [] | Some ts \<Rightarrow> ts)"

definition rate_limited :: "rat \<Rightarrow> string \<Rightarrow> app_state \<Rightarrow> bool \<times> app_state" where
  "rate_limited now identity s =
     (let attempts = prune now (attempts_of identity s)
      in if length attempts \<ge> ENROLL_LIMIT
         then (True, s\<lparr>enroll_attempts := dict_set identity attempts (enroll_attempts s)\<rparr>)
         else (False, s\<lparr>enroll_attempts := dict_set identity (attempts @ [now]) (enroll_attempts s)\<rparr>))"

section \<open>Handlers\<close>

definition reply :: "payload \<Rightarrow> view_result" where
  "reply d = Single (IsResponse (jsonify (payload_value d) []))"

definition reply_status :: "payload \<Rightarrow> int \<Rightarrow> view_result" where
  "reply_status d status = ViewTuple [IsResponse (jsonify (payload_value d) []), IsValue (VInt status)]"

text \<open>\<open>request.get_json(silent=True) or {}\<close>, used as a dictionary.\<close>

definition json_dict :: "request \<Rightarrow> pydict result" where
  "json_dict rq =
     (case py_or (rq_json rq) (VDict []) of
        VDict d \<Rightarrow> Inr d
      | _ \<Rightarrow> Inl (AttributeError ''object has no attribute get''))"

definition health :: "app_config \<Rightarrow> app_state handler" where
  "health cfg rq ps s = (Inr (reply [(''status'', VStr ''ok''), (''zone'', VStr (cfg_zone cfg))]), s)"

definition enroll_body ::
  "app_config \<Rightarrow> rat \<Rightarrow> pydict \<Rightarrow> app_state \<Rightarrow> view_result result \<times> app_state" where
  "enroll_body cfg now p s =
     (if get_default p ''zone'' VNone \<noteq> VStr (cfg_zone cfg)
      then (Inr (reply_status [(''error'', VStr ''zone does not match gateway zone'')] 403),
            audit now ''enroll_rejected_zone'' (VDict p) s)
      else
        let sensor_id = py_or (get_default p ''sensor_id'' VNone) (get_default p ''device_id'' VNone)
        in if \<not> truthy sensor_id
           then (Inr (reply_status [(''error'', VStr ''sensor_id is required'')] 400), s)
           else
             case py_str sensor_id of
               Inl e \<Rightarrow> (Inl e, s)
             | Inr text \<Rightarrow>
                 (Inr (reply
                    [(''gateway_public_key'', VStr (cfg_public_key cfg)),
                     (''ca_cert'', VStr (cfg_ca_cert cfg)),
                     (''sensor_certificate'', VStr (''sensor-certificate-for-'' @ text)),
                     (''sensor_id'', sensor_id),
                     (''zone'', VStr (cfg_zone cfg))]),
                  audit now ''enroll_granted''
                    (payload_value [(''sensor_id'', sensor_id), (''zone'', VStr (cfg_zone cfg))]) s))"

definition enroll :: "app_config \<Rightarrow> rat \<Rightarrow> rat \<Rightarrow> app_state handler" where
  "enroll cfg now1 now2 rq ps s =
     (let caller = (if remote_addr rq \<noteq> [] then remote_addr rq else ''unknown'')
      in case rate_limited now1 caller s of
           (True, s1) \<Rightarrow> (Inr (reply_status [(''error'', VStr ''enrollment rate limit exceeded'')] 429), s1)
         | (False, s1) \<Rightarrow>
             (case json_dict rq of
                Inl e \<Rightarrow> (Inl e, s1)
              | Inr p \<Rightarrow> enroll_body cfg now2 p s1))"

definition live_sensors :: "app_state handler" where
  "live_sensors rq ps s = (Inr (reply [(''readings'', VList (app_live s))]), s)"

definition audit_value :: "audit_entry \<Rightarrow> pyval" where
  "audit_value e = payload_value [(''event'', VStr (ae_event e)), (''payload'', ae_payload e),
     (''timestamp'', VFloat (ae_timestamp e))]"

definition audit_log :: "app_state handler" where
  "audit_log rq ps s = (Inr (reply [(''events'', VList (map audit_value (app_audit s)))]), s)"

definition paper_benchmarks :: "pydict \<Rightarrow> app_state handler" where
  "paper_benchmarks file rq ps s =
     (Inr (Single (IsResponse (jsonify (VDict (get_all_benchmarks file)) []))), s)"

definition path_param :: "(string, string) dict \<Rightarrow> string \<Rightarrow> string result" where
  "path_param ps k =
     (case dict_get ps k of None \<Rightarrow> Inl (TypeError ''missing required argument'') | Some v \<Rightarrow> Inr v)"

definition paper_benchmark_category :: "pydict \<Rightarrow> app_state handler" where
  "paper_benchmark_category file rq ps s =
     (bind_result (path_param ps ''category'') (\<lambda>category.
        let category_data = get_benchmark_category file category
        in if category_data = VNone
           then Inr (reply_status [(''error'', VStr ''unknown benchmark category'')] 404)
           else Inr (Single (IsResponse (jsonify category_data [])))), s)"

definition get_roles :: "app_state handler" where
  "get_roles rq ps s = (Inr (reply [(''roles'', VDict (app_roles s))]), s)"

definition post_role :: "app_config \<Rightarrow> rat \<Rightarrow> app_state handler" where
  "post_role cfg now rq ps s =
     (case json_dict rq of
        Inl e \<Rightarrow> (Inl e, s)
      | Inr p \<Rightarrow>
          let user_id = get_default p ''user_id'' VNone; role = get_default p ''role'' VNone
          in if \<not> truthy user_id \<or> \<not> truthy role
             then (Inr (reply_status [(''error'', VStr ''user_id and role are required'')] 400), s)
             else if \<not> hashable user_id then (Inl (TypeError ''unhashable type''), s)
             else
               let zone = get_default p ''zone'' (VStr (cfg_zone cfg));
                   entry = payload_value [(''role'', role), (''zone'', zone)];
                   s1 = s\<lparr>app_roles := pykey_set user_id entry (app_roles s)\<rparr>
               in (Inr (reply_status [(''user_id'', user_id), (''role'', role), (''zone'', zone)] 201),
                   audit now ''role_set'' (payload_value [(''user_id'', user_id), (''role'', role)]) s1))"

definition delete_role :: "rat \<Rightarrow> app_state handler" where
  "delete_role now rq ps s =
     (case path_param ps ''user_id'' of
        Inl e \<Rightarrow> (Inl e, s)
      | Inr user_id \<Rightarrow>
          let removed = pykey_get (app_roles s) (VStr user_id);
              s1 = audit now ''role_deleted'' (payload_value [(''user_id'', VStr user_id)])
                     (s\<lparr>app_roles := pykey_pop (VStr user_id) (app_roles s)\<rparr>)
          in (case removed of
                None \<Rightarrow> (Inr (reply_status [(''error'', VStr ''role not found'')] 404), s1)
              | Some _ \<Rightarrow> (Inr (ViewTuple [IsValue (VStr []), IsValue (VInt 204)]), s1)))"

definition zones :: "app_state handler" where
  "zones rq ps s = (Inr (reply [(''zones'', VList (map VStr (app_zones s)))]), s)"

text \<open>The routes in the order of registration; \<open>now1\<close> and \<open>now2\<close> are the clock values of the request.\<close>

definition app_routes :: "app_config \<Rightarrow> pydict \<Rightarrow> rat \<Rightarrow> rat \<Rightarrow> app_state route list" where
  "app_routes cfg file now1 now2 =
     fold (\<lambda>add. add)
       [app_get ''/health'' (health cfg),
        app_post ''/enroll'' (enroll cfg now1 now2),
        app_get ''/api/sensors/live'' live_sensors,
        app_get ''/api/audit'' audit_log,
        app_get ''/api/benchmarks/paper'' (paper_benchmarks file),
        app_get ''/api/benchmarks/paper/<category>'' (paper_benchmark_category file),
        app_get ''/api/roles'' get_roles,
        app_post ''/api/roles'' (post_role cfg now1),
        app_delete ''/api/roles/<user_id>'' (delete_role now1),
        app_get ''/api/zones'' zones] []"

section \<open>The rate limit over runs\<close>

fun rate_step :: "rat \<times> string \<Rightarrow> app_state \<Rightarrow> (rat \<times> string) list \<times> app_state" where
  "rate_step (now, identity) s =
     (case rate_limited now identity s of (limited, s') \<Rightarrow> (if limited then [] else [(now, identity)], s'))"

definition accepted_of :: "string \<Rightarrow> (rat \<times> string) list \<Rightarrow> rat list" where
  "accepted_of i rs = map fst (filter (\<lambda>x. snd x = i) rs)"

lemma accepted_of_append [simp]: "accepted_of i (xs @ ys) = accepted_of i xs @ accepted_of i ys"
  by (simp add: accepted_of_def)

lemma accepted_of_simps [simp]: "accepted_of i [] = []" "accepted_of i [(t, j)] = (if j = i then [t] else [])"
  by (simp_all add: accepted_of_def)

lemma attempts_of_set:
  "attempts_of i (s\<lparr>enroll_attempts := dict_set j ts (enroll_attempts s)\<rparr>) = (if i = j then ts else attempts_of i s)"
  by (auto simp: attempts_of_def dict_simps)

lemma attempts_after:
  "attempts_of i (snd (rate_limited now j s)) =
     (if i \<noteq> j then attempts_of i s
      else if fst (rate_limited now j s) then prune now (attempts_of i s)
      else prune now (attempts_of i s) @ [now])"
  by (simp add: rate_limited_def Let_def attempts_of_set)

lemma rate_limited_iff: "fst (rate_limited now i s) \<longleftrightarrow> ENROLL_LIMIT \<le> length (prune now (attempts_of i s))"
  by (simp add: rate_limited_def Let_def)

lemma prune_sorted: "sorted ts \<Longrightarrow> prune now ts = filter (\<lambda>t. now - t < ENROLL_WINDOW_SECONDS) ts"
proof (induction ts)
  case (Cons t ts)
  show ?case
  proof (cases "now - t \<ge> ENROLL_WINDOW_SECONDS")
    case True
    with Cons show ?thesis by (simp add: prune_def)
  next
    case False
    with Cons.prems have "\<forall>u \<in> set (t # ts). now - u < ENROLL_WINDOW_SECONDS" by force
    then have "filter (\<lambda>t. now - t < ENROLL_WINDOW_SECONDS) (t # ts) = t # ts" by (simp add: filter_id_conv)
    moreover have "prune now (t # ts) = t # ts" using False by (simp add: prune_def)
    ultimately show ?thesis by simp
  qed
qed (simp add: prune_def)

text \<open>
  The invariant of a run under a clock that never goes back: the deque of an identity is its list of
  accepted requests without those that had left the window by the latest request.
\<close>

definition rate_inv :: "(rat \<times> string) list \<Rightarrow> (rat \<times> string) list \<Rightarrow> app_state \<Rightarrow> bool" where
  "rate_inv es rs s \<longleftrightarrow>
     (\<forall>i. sorted (accepted_of i rs) \<and> set (accepted_of i rs) \<subseteq> set (map fst es) \<and>
        (\<exists>limit. (limit \<in> set (map fst es) \<or> attempts_of i s = accepted_of i rs) \<and>
           (attempts_of i s = accepted_of i rs \<or>
            attempts_of i s = filter (\<lambda>t. limit - t < ENROLL_WINDOW_SECONDS) (accepted_of i rs))))"

lemma rate_inv_prune:
  assumes inv: "rate_inv es rs s" and now: "\<forall>t \<in> set (map fst es). t \<le> now"
  shows "prune now (attempts_of i s) = filter (\<lambda>t. now - t < ENROLL_WINDOW_SECONDS) (accepted_of i rs)"
proof -
  from inv obtain limit where l: "limit \<in> set (map fst es) \<or> attempts_of i s = accepted_of i rs"
    "attempts_of i s = accepted_of i rs \<or>
     attempts_of i s = filter (\<lambda>t. limit - t < ENROLL_WINDOW_SECONDS) (accepted_of i rs)"
    and s: "sorted (accepted_of i rs)"
    unfolding rate_inv_def by blast
  show ?thesis
  proof (cases "attempts_of i s = accepted_of i rs")
    case True
    with s show ?thesis by (simp add: prune_sorted)
  next
    case False
    with l now have "limit \<le> now"
      and f: "attempts_of i s = filter (\<lambda>t. limit - t < ENROLL_WINDOW_SECONDS) (accepted_of i rs)" by auto
    then have "now - t < ENROLL_WINDOW_SECONDS \<Longrightarrow> limit - t < ENROLL_WINDOW_SECONDS" for t by simp
    then have "filter (\<lambda>t. now - t < ENROLL_WINDOW_SECONDS) (attempts_of i s) =
        filter (\<lambda>t. now - t < ENROLL_WINDOW_SECONDS) (accepted_of i rs)"
      unfolding f filter_filter by (intro filter_cong) auto
    moreover have "sorted (attempts_of i s)" unfolding f using s sorted_filter [of id] by simp
    ultimately show ?thesis by (simp add: prune_sorted)
  qed
qed

lemma rate_inv_run:
  assumes "run_events rate_step es s0 = (rs, s)" "enroll_attempts s0 = []" "sorted (map fst es)"
  shows "rate_inv es rs s"
  using assms(1,3)
proof (induction es arbitrary: rs s rule: rev_induct)
  case Nil
  with assms(2) show ?case by (auto simp: rate_inv_def attempts_of_def)
next
  case (snoc e es)
  obtain now j where e: "e = (now, j)" by fastforce
  from snoc.prems(1) obtain rs0 s1 rs1 where
    run: "run_events rate_step es s0 = (rs0, s1)" "rate_step e s1 = (rs1, s)" "rs = rs0 @ rs1"
    by (rule run_events_snoc)
  have times: "sorted (map fst es)" "\<forall>t \<in> set (map fst es). t \<le> now"
    using snoc.prems(2) e by (auto simp: sorted_append)
  note inv = snoc.IH [OF run(1) times(1)]
  note p = rate_inv_prune [OF inv times(2)]
  have s: "s = snd (rate_limited now j s1)"
    "rs1 = (if fst (rate_limited now j s1) then [] else [(now, j)])"
    using run(2) e by (auto simp: case_prod_beta)
  have acc: "sorted (accepted_of i rs)" "set (accepted_of i rs) \<subseteq> set (map fst (es @ [e]))" for i
    using inv times(2) unfolding rate_inv_def run(3) s(2) by (auto simp: sorted_append e)
  have new: "filter (\<lambda>t. now - t < ENROLL_WINDOW_SECONDS) [now] = [now]" by (simp add: ENROLL_WINDOW_SECONDS_def)
  have "\<exists>limit. (limit \<in> set (map fst (es @ [e])) \<or> attempts_of i s = accepted_of i rs) \<and>
      (attempts_of i s = accepted_of i rs \<or>
       attempts_of i s = filter (\<lambda>t. limit - t < ENROLL_WINDOW_SECONDS) (accepted_of i rs))" for i
  proof (cases "i = j")
    case True
    have "attempts_of i s = filter (\<lambda>t. now - t < ENROLL_WINDOW_SECONDS) (accepted_of i rs)"
      unfolding s(1) attempts_after run(3) s(2) p using True new by auto
    then show ?thesis by (intro exI [of _ now]) (simp add: e)
  next
    case False
    then have "attempts_of i s = attempts_of i s1" "accepted_of i rs = accepted_of i rs0"
      unfolding s(1) attempts_after run(3) s(2) by auto
    with inv show ?thesis unfolding rate_inv_def by (metis UnCI map_append set_append)
  qed
  with acc show ?case unfolding rate_inv_def by blast
qed

text \<open>
  The rate limit is exact: under a clock that never goes back, an enrolment request of a caller
  is refused if and only if ten of that caller's requests were let through during the last 3600
  seconds, whatever other callers do.
\<close>

theorem rate_limit_exact:
  assumes "run_events rate_step es s0 = (rs, s)" "enroll_attempts s0 = []" "sorted (map fst es @ [now])"
  shows "fst (rate_limited now caller s) \<longleftrightarrow>
    10 \<le> length (filter (\<lambda>t. now - t < 3600) (map fst (filter (\<lambda>x. snd x = caller) rs)))"
proof -
  have "rate_inv es rs s" by (rule rate_inv_run [OF assms(1,2)]) (use assms(3) in \<open>simp add: sorted_append\<close>)
  from rate_inv_prune [OF this, of now caller] assms(3) show ?thesis
    by (simp add: rate_limited_iff sorted_append accepted_of_def ENROLL_LIMIT_def ENROLL_WINDOW_SECONDS_def)
qed

definition no_state :: app_state where
  "no_state = \<lparr>app_live = [], app_audit = [], app_roles = [], app_zones = [], enroll_attempts = []\<rparr>"

theorem rate_limit_exact_witness:
  "\<exists>rs s. run_events rate_step (replicate 12 (7, ''10.0.0.1'')) no_state = (rs, s) \<and>
     (fst (rate_limited 8 ''10.0.0.1'' s) \<longleftrightarrow>
        10 \<le> length (filter (\<lambda>t. 8 - t < 3600) (map fst (filter (\<lambda>x. snd x = ''10.0.0.1'') rs))))"
proof -
  obtain rs s where "run_events rate_step (replicate 12 (7, ''10.0.0.1'')) no_state = (rs, s)" by fastforce
  with rate_limit_exact [OF this, of 8 "''10.0.0.1''"] show ?thesis
    by (auto simp: no_state_def sorted_append map_replicate_const sorted_replicate)
qed

lemma window_full:
  assumes "sorted ts" "j + 10 = length ts" "length (filter (\<lambda>t. now - t < ENROLL_WINDOW_SECONDS) ts) < 10"
  shows "ts ! j + ENROLL_WINDOW_SECONDS \<le> now"
proof (rule ccontr)
  assume "\<not> ts ! j + ENROLL_WINDOW_SECONDS \<le> now"
  then have young: "now - ts ! j < ENROLL_WINDOW_SECONDS" by simp
  have "\<forall>t \<in> set (drop j ts). now - t < ENROLL_WINDOW_SECONDS"
  proof
    fix t assume "t \<in> set (drop j ts)"
    then obtain k where k: "k < length (drop j ts)" "drop j ts ! k = t" by (auto simp: in_set_conv_nth)
    then have "t = ts ! (j + k)" "j + k < length ts" by auto
    with assms(1) have "ts ! j \<le> t" by (simp add: sorted_iff_nth_mono)
    with young show "now - t < ENROLL_WINDOW_SECONDS" by simp
  qed
  then have "filter (\<lambda>t. now - t < ENROLL_WINDOW_SECONDS) (drop j ts) = drop j ts" by (simp add: filter_id_conv)
  moreover have "filter (\<lambda>t. now - t < ENROLL_WINDOW_SECONDS) ts =
      filter (\<lambda>t. now - t < ENROLL_WINDOW_SECONDS) (take j ts) @ filter (\<lambda>t. now - t < ENROLL_WINDOW_SECONDS) (drop j ts)"
    by (metis append_take_drop_id filter_append)
  ultimately have "10 \<le> length (filter (\<lambda>t. now - t < ENROLL_WINDOW_SECONDS) ts)" using assms(2) by simp
  with assms(3) show False by simp
qed

text \<open>
  No caller gets more than ten enrolment requests through in any window of 3600 seconds: of any
  caller's accepted requests, the eleventh after a given one comes at least 3600 seconds later.
\<close>

theorem rate_limit_window:
  assumes "run_events rate_step es s0 = (rs, s)" "enroll_attempts s0 = []" "sorted (map fst es)"
    and "ts = map fst (filter (\<lambda>x. snd x = caller) rs)" "j + 10 < length ts"
  shows "ts ! j + 3600 \<le> ts ! (j + 10)"
proof -
  have "\<forall>j. j + 10 < length (accepted_of caller rs) \<longrightarrow>
      accepted_of caller rs ! j + ENROLL_WINDOW_SECONDS \<le> accepted_of caller rs ! (j + 10)"
    using assms(1,3)
  proof (induction es arbitrary: rs s rule: rev_induct)
    case (snoc e es)
    obtain now i where e: "e = (now, i)" by fastforce
    from snoc.prems(1) obtain rs0 s1 rs1 where
      run: "run_events rate_step es s0 = (rs0, s1)" "rate_step e s1 = (rs1, s)" "rs = rs0 @ rs1"
      by (rule run_events_snoc)
    have times: "sorted (map fst es)" "\<forall>t \<in> set (map fst es). t \<le> now"
      using snoc.prems(2) e by (auto simp: sorted_append)
    note inv = rate_inv_run [OF run(1) assms(2) times(1)]
    let ?ts = "accepted_of caller rs0"
    show ?case
    proof (cases "i = caller \<and> \<not> fst (rate_limited now i s1)")
      case False
      with run(2,3) e have "accepted_of caller rs = ?ts" by (auto simp: case_prod_beta split: if_splits)
      with snoc.IH [OF run(1) times(1)] show ?thesis by simp
    next
      case True
      with run(2,3) e have ts: "accepted_of caller rs = ?ts @ [now]" by (auto simp: case_prod_beta)
      from True have few: "length (filter (\<lambda>t. now - t < ENROLL_WINDOW_SECONDS) ?ts) < 10"
        using rate_inv_prune [OF inv times(2), of caller] by (auto simp: rate_limited_iff ENROLL_LIMIT_def)
      have sorted: "sorted ?ts" using inv by (simp add: rate_inv_def)
      show ?thesis
      proof (intro allI impI)
        fix j assume j: "j + 10 < length (accepted_of caller rs)"
        show "accepted_of caller rs ! j + ENROLL_WINDOW_SECONDS \<le> accepted_of caller rs ! (j + 10)"
        proof (cases "j + 10 = length ?ts")
          case True
          with window_full [OF sorted True few] show ?thesis by (simp add: ts nth_append)
        next
          case False
          with j have "j + 10 < length ?ts" by (simp add: ts)
          with snoc.IH [OF run(1) times(1)] show ?thesis by (simp add: ts nth_append)
        qed
      qed
    qed
  qed simp
  with assms(4,5) show ?thesis by (simp add: accepted_of_def ENROLL_WINDOW_SECONDS_def)
qed

theorem rate_limit_window_witness:
  "\<exists>ts. map fst (filter (\<lambda>x. snd x = ''h'') (fst (run_events rate_step
      (replicate 11 (7, ''h'') @ [(3607, ''h'')]) no_state))) = ts \<and> ts ! 0 + 3600 \<le> ts ! 10"
proof -
  let ?es = "replicate 11 (7, ''h'') @ [(3607, ''h'')]"
  let ?ts = "map fst (filter (\<lambda>x. snd x = ''h'') (fst (run_events rate_step ?es no_state)))"
  obtain rs s where run: "run_events rate_step ?es no_state = (rs, s)" by fastforce
  have "length ?ts = 11"
    by (simp add: numeral_eq_Suc rate_limited_def prune_def attempts_of_def no_state_def ENROLL_LIMIT_def
        ENROLL_WINDOW_SECONDS_def Let_def)
  with run have "0 + 10 < length (map fst (filter (\<lambda>x. snd x = ''h'') rs))" by simp
  from rate_limit_window [OF run _ _ refl this] run show ?thesis
    by (simp add: no_state_def sorted_append map_replicate_const sorted_replicate)
qed

section \<open>Enrolment over HTTP\<close>

lemma route_list:
  "app_routes cfg file now1 now2 =
     [(''GET'', ''/health'', health cfg),
      (''POST'', ''/enroll'', enroll cfg now1 now2),
      (''GET'', ''/api/sensors/live'', live_sensors),
      (''GET'', ''/api/audit'', audit_log),
      (''GET'', ''/api/benchmarks/paper'', paper_benchmarks file),
      (''GET'', ''/api/benchmarks/paper/<category>'', paper_benchmark_category file),
      (''GET'', ''/api/roles'', get_roles),
      (''POST'', ''/api/roles'', post_role cfg now1),
      (''DELETE'', ''/api/roles/<user_id>'', delete_role now1),
      (''GET'', ''/api/zones'', zones)]"
proof -
  have "upper ''GET'' = ''GET''" "upper ''POST'' = ''POST''" "upper ''DELETE'' = ''DELETE''" by code_simp+
  then show ?thesis
    by (simp add: app_routes_def app_get_def app_post_def app_delete_def add_route_def)
qed

lemma other_method: "m \<noteq> http_method \<Longrightarrow> match_route m p http_method path = None"
  by (simp add: match_route_def)

lemma upper_method_chars:
  "upper_char CHR ''G'' = CHR ''G''" "upper_char CHR ''E'' = CHR ''E''" "upper_char CHR ''T'' = CHR ''T''"
  "upper_char CHR ''P'' = CHR ''P''" "upper_char CHR ''O'' = CHR ''O''" "upper_char CHR ''S'' = CHR ''S''"
  "upper_char CHR ''D'' = CHR ''D''" "upper_char CHR ''L'' = CHR ''L''"
  by code_simp+






definition demo_app :: app_config where
  "demo_app = \<lparr>cfg_zone = ''a'', cfg_public_key = ''k'', cfg_ca_cert = ''c''\<rparr>"


section \<open>Roles over HTTP\<close>

lemma pykey_get_set: "pykey_get (pykey_set k v d) k' = (if key_norm k = key_norm k' then Some v else pykey_get d k')"
  by (induction k v d rule: pykey_set.induct) auto

lemma pykey_get_pop: "pykey_get (pykey_pop k d) k' = (if key_norm k = key_norm k' then None else pykey_get d k')"
  by (induction k d rule: pykey_pop.induct) auto

text \<open>Python's dictionary operations meet the interface of the prelude, for keys up to equality.\<close>

interpretation pykeys: keyed_store "\<lambda>d k. pykey_get d (VStr k)" "\<lambda>k v d. pykey_set (VStr k) v d" "\<lambda>k d. pykey_pop (VStr k) d"
  by unfold_locales (auto simp: pykey_get_set pykey_get_pop key_norm_def)

lemma dispatch_post_role:
  "dispatch (app_routes cfg file now1 now2) ''POST'' ''/api/roles'' json addr s =
     (case post_role cfg now1 \<lparr>rq_json = json, remote_addr = addr\<rparr> [] s of
        (r, s') \<Rightarrow> (bind_result r coerce_response, s'))"
proof -
  have "match_route ''POST'' ''/api/roles'' ''POST'' ''/api/roles'' = Some []"
    "match_route ''POST'' ''/enroll'' ''POST'' ''/api/roles'' = None" by code_simp+
  then show ?thesis by (simp add: dispatch_def route_list other_method upper_method_chars)
qed

lemma dispatch_delete:
  "dispatch (app_routes cfg file now1 now2) ''DELETE'' path json addr s =
     (case match_route ''DELETE'' ''/api/roles/<user_id>'' ''DELETE'' path of
        None \<Rightarrow> (Inr \<lparr>body = VDict [(VStr ''error'', VStr ''not found'')], status_code = VInt 404\<rparr>, s)
      | Some ps \<Rightarrow>
          (case delete_role now1 \<lparr>rq_json = json, remote_addr = addr\<rparr> ps s of
             (r, s') \<Rightarrow> (bind_result r coerce_response, s')))"
  by (simp add: dispatch_def route_list other_method upper_method_chars split: option.split)

lemma match_role_path:
  assumes "plain_part u"
  shows "match_route ''DELETE'' ''/api/roles/<user_id>'' ''DELETE'' (''/api/roles/'' @ u) = Some [(''user_id'', u)]"
proof -
  have "path_parts ''/api/roles/<user_id>'' = [''api'', ''roles'', ''<user_id>'']" by code_simp
  moreover have "path_parts (''/api/roles/'' @ u) = [''api'', ''roles'', u]"
    using path_parts_build [of "[''api'', ''roles'', u]"] assms by (simp add: build_path_def plain_part_def)
  moreover have "is_param ''<user_id>''" "\<not> is_param ''api''" "\<not> is_param ''roles''" "param_name ''<user_id>'' = ''user_id''"
    by code_simp+
  ultimately show ?thesis by (simp add: match_route_def)
qed

text \<open>
  The life of a role: posting a role for a user answers 201 and makes it the user's entry, in
  the zone given or this gateway's; deleting it answers 204 and removes that entry only; deleting
  again answers 404. Every step is audited, the failed deletion included.
\<close>

theorem role_lifecycle:
  assumes "get_default p ''user_id'' VNone = VStr u" "plain_part u"
    "get_default p ''role'' VNone = role" "truthy role"
    "dispatch (app_routes cfg file t1 t2) ''POST'' ''/api/roles'' (VDict p) addr s = (r1, s1)"
    "dispatch (app_routes cfg file t3 t4) ''DELETE'' (''/api/roles/'' @ u) VNone addr s1 = (r2, s2)"
    "dispatch (app_routes cfg file t5 t6) ''DELETE'' (''/api/roles/'' @ u) VNone addr s2 = (r3, s3)"
  shows "map_sum id status_code r1 = Inr (VInt 201) \<and>
    pykey_get (app_roles s1) (VStr u) =
      Some (VDict [(VStr ''role'', role), (VStr ''zone'', get_default p ''zone'' (VStr (cfg_zone cfg)))]) \<and>
    map_sum id status_code r2 = Inr (VInt 204) \<and> pykey_get (app_roles s2) (VStr u) = None \<and>
    map_sum id status_code r3 = Inr (VInt 404) \<and>
    (\<forall>v. v \<noteq> u \<longrightarrow> pykey_get (app_roles s3) (VStr v) = pykey_get (app_roles s) (VStr v)) \<and>
    map ae_event (app_audit s3) = map ae_event (app_audit s) @ [''role_set'', ''role_deleted'', ''role_deleted'']"
proof -
  have jd: "json_dict \<lparr>rq_json = VDict p, remote_addr = addr\<rparr> = Inr p" by (simp add: json_dict_def py_or_def)
  have u: "u \<noteq> []" using assms(2) by (simp add: plain_part_def)
  have one: "s1 = audit t1 ''role_set'' (payload_value [(''user_id'', VStr u), (''role'', role)])
      (s\<lparr>app_roles := pykey_set (VStr u)
         (VDict [(VStr ''role'', role), (VStr ''zone'', get_default p ''zone'' (VStr (cfg_zone cfg)))]) (app_roles s)\<rparr>)"
    "map_sum id status_code r1 = Inr (VInt 201)"
    using assms(5) u by (auto simp: dispatch_post_role post_role_def jd assms(1,3,4) Let_def payload_value_def
        reply_status_def jsonify_def item_status_def)
  have two: "s2 = audit t3 ''role_deleted'' (payload_value [(''user_id'', VStr u)])
      (s1\<lparr>app_roles := pykey_pop (VStr u) (app_roles s1)\<rparr>)" "map_sum id status_code r2 = Inr (VInt 204)"
    using assms(6) by (auto simp: dispatch_delete match_role_path [OF assms(2), simplified] delete_role_def path_param_def Let_def
        one(1) audit_def pykey_get_set jsonify_def item_status_def)
  have three: "s3 = audit t5 ''role_deleted'' (payload_value [(''user_id'', VStr u)])
      (s2\<lparr>app_roles := pykey_pop (VStr u) (app_roles s2)\<rparr>)" "map_sum id status_code r3 = Inr (VInt 404)"
    using assms(7) by (auto simp: dispatch_delete match_role_path [OF assms(2), simplified] delete_role_def path_param_def Let_def
        two(1) audit_def pykey_get_pop reply_status_def jsonify_def item_status_def)
  have norm: "key_norm (VStr v) = key_norm (VStr u) \<longleftrightarrow> v = u" for v by (simp add: key_norm_def)
  show ?thesis
    using one(2) two(2) three(2)
    by (simp add: one(1) two(1) three(1) audit_def pykey_get_set pykey_get_pop norm eq_commute [of "key_norm (VStr u)"])
qed

theorem role_lifecycle_witness:
  "\<exists>r1 s1 r2 s2. dispatch (app_routes demo_app [] 1 1) ''POST'' ''/api/roles''
       (VDict [(VStr ''user_id'', VStr ''alice''), (VStr ''role'', VStr ''farmer'')]) ''h'' no_state = (r1, s1) \<and>
     dispatch (app_routes demo_app [] 2 2) ''DELETE'' ''/api/roles/alice'' VNone ''h'' s1 = (r2, s2) \<and>
     map_sum id status_code r1 = Inr (VInt 201) \<and> map_sum id status_code r2 = Inr (VInt 204) \<and>
     pykey_get (app_roles s2) (VStr ''alice'') = None"
proof -
  let ?p = "[(VStr ''user_id'', VStr ''alice''), (VStr ''role'', VStr ''farmer'')]"
  obtain r1 s1 where d1: "dispatch (app_routes demo_app [] 1 1) ''POST'' ''/api/roles'' (VDict ?p) ''h'' no_state = (r1, s1)"
    by fastforce
  obtain r2 s2 where d2: "dispatch (app_routes demo_app [] 2 2) ''DELETE'' (''/api/roles/'' @ ''alice'') VNone ''h'' s1 = (r2, s2)"
    by fastforce
  obtain r3 s3 where d3: "dispatch (app_routes demo_app [] 3 3) ''DELETE'' (''/api/roles/'' @ ''alice'') VNone ''h'' s2 = (r3, s3)"
    by fastforce
  from role_lifecycle [OF _ _ _ _ d1 d2 d3, of "VStr ''farmer''"] d1 d2 show ?thesis
    by (simp add: get_default_def plain_part_def)
qed

text \<open>
  Roles of non-string user ids are permanent: \<open>post_role\<close> accepts any hashable JSON value as a
  user id, but the route hands \<open>delete_role\<close> a string, so no DELETE request, on any path, removes or
  changes an entry whose key is not a string.
\<close>

theorem non_string_role_permanent:
  assumes "dispatch (app_routes cfg file t1 t2) ''DELETE'' path json addr s = (res, s')" "\<forall>u. k \<noteq> VStr u"
  shows "pykey_get (app_roles s') k = pykey_get (app_roles s) k"
proof -
  have norm: "key_norm (VStr u) \<noteq> key_norm k" for u using assms(2) by (cases k) (auto simp: key_norm_def)
  show ?thesis using assms(1)
    by (auto simp: dispatch_delete delete_role_def audit_def Let_def pykey_get_pop norm
        split: option.splits sum.splits prod.splits)
qed

theorem non_string_role_permanent_witness:
  "\<exists>s'. snd (dispatch (app_routes demo_app [] 1 1) ''DELETE'' ''/api/roles/7'' VNone ''h''
       (no_state\<lparr>app_roles := [(VInt 7, VStr ''r'')]\<rparr>)) = s' \<and>
     pykey_get (app_roles s') (VInt 7) = Some (VStr ''r'')"
proof -
  obtain r s' where "dispatch (app_routes demo_app [] 1 1) ''DELETE'' ''/api/roles/7'' VNone ''h''
      (no_state\<lparr>app_roles := [(VInt 7, VStr ''r'')]\<rparr>) = (r, s')" by fastforce
  from non_string_role_permanent [OF this, of "VInt 7"] this show ?thesis by simp
qed

end
