(* ===== verification/Py_Number.thy ===== *)
theory Py_Number
  imports Py_Text
begin

text \<open>
  Numbers and their texts: rounding, \<open>float(s)\<close>, and the fixed-point formats \<open>.nf\<close> and \<open>,.nf\<close>. A float
  is an exact rational, so \<open>float(s)\<close> is the number the text denotes; the texts of infinities and NaN
  give \<open>Unmodelled\<close>. Rounding and formatting take halves to the even neighbour, as Python does on the
  exact value of a float. The lemmas read a printed number back.
\<close>

section \<open>Rounding\<close>

definition round_half_even :: "rat \<Rightarrow> int" where
  "round_half_even q =
     (let f = \<lfloor>q\<rfloor>; r = q - of_int f
      in if r < 1 / 2 then f else if 1 / 2 < r then f + 1 else if even f then f else f + 1)"

text \<open>\<open>round(x, nd)\<close> for a float.\<close>

definition round_to :: "nat \<Rightarrow> rat \<Rightarrow> rat" where
  "round_to nd q = of_int (round_half_even (q * 10 ^ nd)) / 10 ^ nd"

lemma round_half_even_of_int [simp]: "round_half_even (of_int i) = i"
  by (simp add: round_half_even_def)

lemma round_half_even_error: "\<bar>of_int (round_half_even q) - q\<bar> \<le> 1 / 2"
proof -
  define f where "f = \<lfloor>q\<rfloor>"
  have "of_int f \<le> q" "q < of_int f + 1" unfolding f_def by linarith+
  then show ?thesis by (auto simp: round_half_even_def Let_def abs_if f_def [symmetric])
qed

lemma round_half_even_mono:
  assumes "p \<le> q"
  shows "round_half_even p \<le> round_half_even q"
proof (cases "\<lfloor>p\<rfloor> = \<lfloor>q\<rfloor>")
  case True
  with assms show ?thesis by (auto simp: round_half_even_def Let_def)
next
  case False
  with assms have "\<lfloor>p\<rfloor> + 1 \<le> \<lfloor>q\<rfloor>" using floor_mono [OF assms] by linarith
  moreover have "round_half_even p \<le> \<lfloor>p\<rfloor> + 1" "\<lfloor>q\<rfloor> \<le> round_half_even q"
    by (auto simp: round_half_even_def Let_def)
  ultimately show ?thesis by linarith
qed

lemma round_to_error: "\<bar>round_to nd q - q\<bar> \<le> 1 / (2 * 10 ^ nd)"
proof -
  have "round_to nd q - q = (of_int (round_half_even (q * 10 ^ nd)) - q * 10 ^ nd) / 10 ^ nd"
    by (simp add: round_to_def field_simps)
  then have "\<bar>round_to nd q - q\<bar> = \<bar>of_int (round_half_even (q * 10 ^ nd)) - q * 10 ^ nd\<bar> / 10 ^ nd"
    by (simp add: abs_divide)
  also have "\<dots> \<le> (1 / 2) / 10 ^ nd"
    by (intro divide_right_mono round_half_even_error) simp
  finally show ?thesis by simp
qed

lemma round_to_mono: "p \<le> q \<Longrightarrow> round_to nd p \<le> round_to nd q"
  unfolding round_to_def
  by (intro divide_right_mono) (simp_all add: round_half_even_mono mult_right_mono)

lemma round_to_exact: "round_to nd (of_int i / 10 ^ nd) = of_int i / 10 ^ nd"
  by (simp add: round_to_def)

section \<open>Reading a float\<close>

definition nat_of_digits :: "string \<Rightarrow> nat" where
  "nat_of_digits s = foldl (\<lambda>a c. 10 * a + digit_val c) 0 s"

text \<open>An underscore must stand between two digits.\<close>

fun underscores_ok :: "bool \<Rightarrow> string \<Rightarrow> bool" where
  "underscores_ok d [] = True"
| "underscores_ok d (c # cs) =
     (if c = CHR ''_'' then d \<and> (case cs of [] \<Rightarrow> False | c' # _ \<Rightarrow> is_digit c') \<and> underscores_ok False cs
      else underscores_ok (is_digit c) cs)"

definition split_sign :: "string \<Rightarrow> bool \<times> string" where
  "split_sign s =
     (case s of [] \<Rightarrow> (False, [])
      | c # cs \<Rightarrow> if c = CHR ''-'' then (True, cs) else if c = CHR ''+'' then (False, cs) else (False, s))"

text \<open>The exponent: nothing, or \<open>e\<close>, a sign and digits.\<close>

definition parse_exponent :: "string \<Rightarrow> int option" where
  "parse_exponent s =
     (case s of [] \<Rightarrow> Some 0
      | c # cs \<Rightarrow>
          if c = CHR ''e'' \<or> c = CHR ''E'' then
            (case split_sign cs of (neg, ds) \<Rightarrow>
               if ds \<noteq> [] \<and> list_all is_digit ds
               then Some (if neg then - int (nat_of_digits ds) else int (nat_of_digits ds)) else None)
          else None)"

definition scale10 :: "rat \<Rightarrow> int \<Rightarrow> rat" where
  "scale10 q e = (if 0 \<le> e then q * 10 ^ nat e else q / 10 ^ nat (- e))"

definition parse_decimal :: "string \<Rightarrow> rat option" where
  "parse_decimal s =
     (let ip = takeWhile is_digit s; r = dropWhile is_digit s;
          fp = (case r of c # cs \<Rightarrow> if c = CHR ''.'' then takeWhile is_digit cs else [] | [] \<Rightarrow> []);
          r' = (case r of c # cs \<Rightarrow> if c = CHR ''.'' then dropWhile is_digit cs else r | [] \<Rightarrow> [])
      in if ip = [] \<and> fp = [] then None
         else map_option (scale10 (of_nat (nat_of_digits (ip @ fp)) / 10 ^ length fp)) (parse_exponent r'))"

definition is_special :: "string \<Rightarrow> bool" where
  "is_special s \<longleftrightarrow> lower s \<in> {''inf'', ''infinity'', ''nan''}"

text \<open>\<open>float(s)\<close> for a string.\<close>

definition py_float_str :: "string \<Rightarrow> rat result" where
  "py_float_str s =
     (let t = strip s
      in if is_special (snd (split_sign t)) then Inl Unmodelled
         else if \<not> underscores_ok False t then Inl (ValueError ''could not convert string to float'')
         else case split_sign (filter (\<lambda>c. c \<noteq> CHR ''_'') t) of (neg, u) \<Rightarrow>
                (case parse_decimal u of
                   None \<Rightarrow> Inl (ValueError ''could not convert string to float'')
                 | Some q \<Rightarrow> Inr (if neg then - q else q)))"

text \<open>Rules that evaluate \<open>float\<close> on a literal.\<close>

lemmas float_eval = py_float_str_def parse_decimal_def is_digit_def Let_def nat_of_digits_def digit_val_def
  parse_exponent_def scale10_def split_sign_def strip_by_def is_space_def is_special_def lower_char_def

text \<open>\<open>float(v)\<close>.\<close>

fun py_float :: "pyval \<Rightarrow> rat result" where
  "py_float (VInt i) = Inr (of_int i)"
| "py_float (VBool b) = Inr (if b then 1 else 0)"
| "py_float (VFloat q) = Inr q"
| "py_float (VStr s) = py_float_str s"
| "py_float (VBytes bs) = py_float_str (map (\<lambda>b. char_of (unat b)) bs)"
| "py_float _ = Inl (TypeError ''float() argument must be a string or a real number'')"

section \<open>Fixed-point formats\<close>

text \<open>The last \<open>n\<close> decimal digits of a number, with leading zeros.\<close>

fun last_digits :: "nat \<Rightarrow> nat \<Rightarrow> string" where
  "last_digits 0 k = []"
| "last_digits (Suc n) k = last_digits n (k div 10) @ [digit_char (k mod 10)]"

definition frac_str :: "nat \<Rightarrow> nat \<Rightarrow> string" where
  "frac_str nd k = (if nd = 0 then [] else CHR ''.'' # last_digits nd k)"

text \<open>\<open>format(q, ".{nd}f")\<close>; the sign stays when a negative number rounds to zero.\<close>

definition fixed_str :: "nat \<Rightarrow> rat \<Rightarrow> string" where
  "fixed_str nd q =
     (let k = nat (round_half_even (\<bar>q\<bar> * 10 ^ nd))
      in (if q < 0 then ''-'' else []) @ nat_str (k div 10 ^ nd) @ frac_str nd k)"

text \<open>\<open>group3 s\<close> puts a comma before every third digit from the right.\<close>

fun group3_rev :: "string \<Rightarrow> string" where
  "group3_rev (a # b # c # d # cs) = a # b # c # CHR '','' # group3_rev (d # cs)"
| "group3_rev cs = cs"

definition group3 :: "string \<Rightarrow> string" where
  "group3 s = rev (group3_rev (rev s))"

text \<open>\<open>format(q, ",.{nd}f")\<close> and \<open>format(i, ",")\<close>.\<close>

definition comma_fixed_str :: "nat \<Rightarrow> rat \<Rightarrow> string" where
  "comma_fixed_str nd q =
     (let k = nat (round_half_even (\<bar>q\<bar> * 10 ^ nd))
      in (if q < 0 then ''-'' else []) @ group3 (nat_str (k div 10 ^ nd)) @ frac_str nd k)"

definition comma_int_str :: "int \<Rightarrow> string" where
  "comma_int_str i = (if i < 0 then ''-'' else []) @ group3 (nat_str (nat \<bar>i\<bar>))"

section \<open>Reading back a printed number\<close>

lemma nat_of_digits_append:
  "nat_of_digits (s @ t) = nat_of_digits s * 10 ^ length t + nat_of_digits t"
proof (induction t rule: rev_induct)
  case (snoc c t)
  then show ?case by (simp add: nat_of_digits_def algebra_simps)
qed (simp add: nat_of_digits_def)

lemma nat_of_digits_nat_str [simp]: "nat_of_digits (nat_str n) = n"
  by (simp add: nat_of_digits_def foldl_nat_str)

lemma last_digits_length [simp]: "length (last_digits n k) = n"
  by (induction n arbitrary: k) auto

lemma last_digits_digits: "c \<in> set (last_digits n k) \<Longrightarrow> is_digit c"
  by (induction n arbitrary: k) auto

lemma nat_of_digits_last_digits: "nat_of_digits (last_digits n k) = k mod 10 ^ n"
proof (induction n arbitrary: k)
  case (Suc n)
  have "k mod 10 ^ Suc n = (k div 10 mod 10 ^ n) * 10 + k mod 10"
    by (simp add: mod_mult2_eq)
  with Suc show ?case
    by (simp add: nat_of_digits_append) (simp add: nat_of_digits_def)
qed (simp add: nat_of_digits_def)

definition dec_text :: "string \<Rightarrow> string \<Rightarrow> string" where
  "dec_text ip fp = ip @ (if fp = [] then [] else CHR ''.'' # fp)"

lemma dot_not_digit [simp]: "\<not> is_digit CHR ''.''"
  by (simp add: is_digit_def)

lemma parse_dec_text:
  assumes "ip \<noteq> []" "\<And>c. c \<in> set ip \<Longrightarrow> is_digit c" "\<And>c. c \<in> set fp \<Longrightarrow> is_digit c"
  shows "parse_decimal (dec_text ip fp) = Some (of_nat (nat_of_digits (ip @ fp)) / 10 ^ length fp)"
proof -
  have tw: "takeWhile is_digit (dec_text ip fp) = ip"
    "dropWhile is_digit (dec_text ip fp) = (if fp = [] then [] else CHR ''.'' # fp)"
    using assms by (auto simp: dec_text_def takeWhile_append dropWhile_append)
  have tw': "takeWhile is_digit fp = fp" "dropWhile is_digit fp = []"
    using assms(3) by (auto simp: takeWhile_eq_all_conv dropWhile_eq_Nil_conv)
  show ?thesis
    using assms(1) by (simp add: parse_decimal_def Let_def parse_exponent_def scale10_def tw tw')
qed

definition dec_char :: "char \<Rightarrow> bool" where
  "dec_char c \<longleftrightarrow> is_digit c \<or> c = CHR ''.'' \<or> c = CHR ''-''"

lemma dec_char_not: "dec_char c \<Longrightarrow> \<not> is_space c \<and> c \<noteq> CHR ''_''"
  using is_digit_not_space is_digit_not_sign by (auto simp: dec_char_def is_space_def)

lemma underscores_ok_dec: "(\<And>c. c \<in> set s \<Longrightarrow> dec_char c) \<Longrightarrow> underscores_ok d s"
proof (induction s arbitrary: d)
  case (Cons c s)
  from dec_char_not [of c] Cons.prems have "c \<noteq> CHR ''_''" by simp
  with Cons show ?case by simp
qed simp

lemma strip_no_space: "(\<And>c. c \<in> set s \<Longrightarrow> \<not> is_space c) \<Longrightarrow> strip s = s"
  by (cases "s = []") (auto simp: strip_by_def [of is_space "[]"] intro!: strip_by_id)

text \<open>Reading a signed decimal text.\<close>

lemma py_float_dec_text:
  assumes "ip \<noteq> []" "\<And>c. c \<in> set ip \<Longrightarrow> is_digit c" "\<And>c. c \<in> set fp \<Longrightarrow> is_digit c"
  shows "py_float_str ((if neg then ''-'' else []) @ dec_text ip fp) =
     Inr ((if neg then - 1 else 1) * (of_nat (nat_of_digits (ip @ fp)) / 10 ^ length fp))"
proof -
  let ?t = "(if neg then ''-'' else []) @ dec_text ip fp"
  obtain c cs where ip: "ip = c # cs" using assms(1) by (cases ip) auto
  with assms(2) have c: "is_digit c" by simp
  have dec: "dec_char x" if "x \<in> set ?t" for x
    using that assms(2,3) by (auto simp: dec_text_def dec_char_def split: if_splits)
  have strip: "strip ?t = ?t" by (rule strip_no_space) (use dec dec_char_not in blast)
  have filter: "filter (\<lambda>c. c \<noteq> CHR ''_'') ?t = ?t"
    by (rule filter_True) (use dec dec_char_not in blast)
  have sign: "split_sign ?t = (neg, dec_text ip fp)"
    using is_digit_not_sign [OF c] by (simp add: split_sign_def dec_text_def ip)
  have "lower_char c = c" using c by (auto simp: lower_char_def is_digit_def Let_def)
  then have special: "\<not> is_special (dec_text ip fp)"
    using c by (auto simp: is_special_def dec_text_def ip is_digit_def)
  show ?thesis
    unfolding py_float_str_def strip
    using special underscores_ok_dec [OF dec, where d = False]
    by (simp only: Let_def filter sign) (simp add: parse_dec_text [OF assms])
qed

text \<open>The text of the format \<open>.nf\<close> denotes the rounded number.\<close>

lemma fixed_str_dec_text:
  "fixed_str nd q = (if q < 0 then ''-'' else []) @
     dec_text (nat_str (nat (round_half_even (\<bar>q\<bar> * 10 ^ nd)) div 10 ^ nd))
       (last_digits nd (nat (round_half_even (\<bar>q\<bar> * 10 ^ nd))))"
proof -
  have "last_digits nd k = [] \<longleftrightarrow> nd = 0" for k by (cases nd) auto
  then show ?thesis by (simp add: fixed_str_def frac_str_def dec_text_def Let_def)
qed

lemma round_half_even_nonneg: "0 \<le> q \<Longrightarrow> 0 \<le> round_half_even q"
  using round_half_even_mono [of 0 q] round_half_even_of_int [of 0] by simp

definition round_abs :: "nat \<Rightarrow> rat \<Rightarrow> rat" where
  "round_abs nd q = (if q < 0 then - round_to nd (- q) else round_to nd q)"

lemma round_abs_error: "\<bar>round_abs nd q - q\<bar> \<le> 1 / (2 * 10 ^ nd)"
  using round_to_error [of nd q] round_to_error [of nd "- q"] by (auto simp: round_abs_def abs_minus_commute)

lemma py_float_fixed_str: "py_float_str (fixed_str nd q) = Inr (round_abs nd q)"
proof -
  let ?k = "nat (round_half_even (\<bar>q\<bar> * 10 ^ nd))"
  have k: "(of_nat ?k :: rat) = of_int (round_half_even (\<bar>q\<bar> * 10 ^ nd))"
    using round_half_even_nonneg [of "\<bar>q\<bar> * 10 ^ nd"] by (simp add: of_nat_nat)
  have "nat_of_digits (nat_str (?k div 10 ^ nd) @ last_digits nd ?k) = ?k"
    by (simp add: nat_of_digits_append nat_of_digits_last_digits div_mult_mod_eq)
  with py_float_dec_text [of "nat_str (?k div 10 ^ nd)" "last_digits nd ?k" "q < 0"]
  show ?thesis unfolding fixed_str_dec_text
    by (auto simp: nat_str_digits last_digits_digits k round_abs_def round_to_def)
qed

text \<open>Reading back an integer, and a decimal text without its trailing zeros.\<close>

lemma int_str_dec_text: "int_str i = (if i < 0 then ''-'' else []) @ dec_text (nat_str (nat \<bar>i\<bar>)) []"
  by (simp add: int_str_def dec_text_def)

lemma py_float_int_str: "py_float_str (int_str i) = Inr (of_int i)"
proof -
  have "(of_nat (nat \<bar>i\<bar>) :: rat) = of_int \<bar>i\<bar>" by (simp add: of_nat_nat)
  with py_float_dec_text [of "nat_str (nat \<bar>i\<bar>)" "[]" "i < 0"] show ?thesis
    unfolding int_str_dec_text by (auto simp: nat_str_digits)
qed

text \<open>\<open>s.rstrip(chars)\<close>.\<close>

definition rstrip_by :: "(char \<Rightarrow> bool) \<Rightarrow> string \<Rightarrow> string" where
  "rstrip_by p s = rev (dropWhile p (rev s))"

lemma rstrip_by_append:
  "rstrip_by p (xs @ ys) = (if \<forall>y \<in> set ys. p y then rstrip_by p xs else xs @ rstrip_by p ys)"
  by (auto simp: rstrip_by_def dropWhile_append)

lemma rstrip_by_last: "xs = [] \<or> \<not> p (last xs) \<Longrightarrow> rstrip_by p xs = xs"
  by (cases xs rule: rev_cases) (auto simp: rstrip_by_def)

lemma rstrip_by_split:
  obtains zs where "s = rstrip_by p s @ zs" "\<forall>z \<in> set zs. p z" "rstrip_by p s = [] \<or> \<not> p (last (rstrip_by p s))"
proof
  have "rev s = takeWhile p (rev s) @ dropWhile p (rev s)" by simp
  then show "s = rstrip_by p s @ rev (takeWhile p (rev s))"
    unfolding rstrip_by_def by (metis rev_append rev_rev_ident)
  show "\<forall>z \<in> set (rev (takeWhile p (rev s))). p z" by (auto dest: set_takeWhileD)
  show "rstrip_by p s = [] \<or> \<not> p (last (rstrip_by p s))"
    using hd_dropWhile [of p "rev s"] by (auto simp: rstrip_by_def last_rev)
qed

lemma nat_of_digits_zeros: "\<forall>z \<in> set zs. z = CHR ''0'' \<Longrightarrow> nat_of_digits zs = 0"
  by (induction zs rule: rev_induct) (auto simp: nat_of_digits_append nat_of_digits_def digit_val_def)

definition strip_zeros :: "string \<Rightarrow> string" where
  "strip_zeros s = rstrip_by (\<lambda>c. c = CHR ''.'') (rstrip_by (\<lambda>c. c = CHR ''0'') s)"

lemma py_float_strip_zeros:
  assumes "ip \<noteq> []" "\<And>c. c \<in> set ip \<Longrightarrow> is_digit c" "\<And>c. c \<in> set fp \<Longrightarrow> is_digit c" "fp \<noteq> []"
  shows "py_float_str (strip_zeros ((if neg then ''-'' else []) @ dec_text ip fp)) =
     py_float_str ((if neg then ''-'' else []) @ dec_text ip fp)"
proof -
  let ?z = "\<lambda>c. c = CHR ''0''" and ?dot = "\<lambda>c. c = CHR ''.''" and ?sg = "if neg then ''-'' else []"
  obtain zs where zs: "fp = rstrip_by ?z fp @ zs" "\<forall>z \<in> set zs. ?z z"
    by (rule rstrip_by_split [of fp ?z]) blast
  define fp' where "fp' = rstrip_by ?z fp"
  have fp: "fp = fp' @ zs" using zs(1) by (simp add: fp'_def)
  have digits: "is_digit c" if "c \<in> set fp'" for c using that assms(3) fp by simp
  have last: "\<not> ?dot (last (?sg @ ip))" using assms(1) assms(2) [of "last ip"] by auto
  let ?head = "(?sg @ ip) @ ''.''"
  have "rstrip_by ?z (?head @ fp) = ?head @ fp'"
  proof (cases "\<forall>y \<in> set fp. ?z y")
    case True
    then have "fp' = []" by (simp add: fp'_def rstrip_by_def dropWhile_eq_Nil_conv)
    with True rstrip_by_append [of ?z ?head fp] rstrip_by_last [of ?head ?z] show ?thesis by simp
  next
    case False
    with rstrip_by_append [of ?z ?head fp] show ?thesis by (auto simp: fp'_def)
  qed
  then have "rstrip_by ?z ((?sg @ ip) @ CHR ''.'' # fp) = (?sg @ ip) @ CHR ''.'' # fp'" by simp
  moreover have "rstrip_by ?dot ((?sg @ ip) @ CHR ''.'' # fp') = ?sg @ dec_text ip fp'"
  proof (cases "fp' = []")
    case True
    with rstrip_by_append [of ?dot "?sg @ ip" "''.''"] rstrip_by_last [of "?sg @ ip" ?dot] last
    show ?thesis by (simp add: dec_text_def)
  next
    case False
    then have "\<not> ?dot (last fp')" using digits [of "last fp'"] by auto
    with False rstrip_by_last [of "(?sg @ ip) @ CHR ''.'' # fp'" ?dot] show ?thesis by (simp add: dec_text_def)
  qed
  ultimately have strip: "strip_zeros (?sg @ dec_text ip fp) = ?sg @ dec_text ip fp'"
    using assms(4) by (simp add: strip_zeros_def dec_text_def)
  have "nat_of_digits (ip @ fp) = nat_of_digits (ip @ fp') * 10 ^ length zs"
    using nat_of_digits_append [of "ip @ fp'" zs] nat_of_digits_zeros [OF zs(2)] by (simp add: fp)
  then have "(of_nat (nat_of_digits (ip @ fp)) / 10 ^ length fp :: rat) = of_nat (nat_of_digits (ip @ fp')) / 10 ^ length fp'"
    by (simp add: fp power_add)
  then show ?thesis
    unfolding strip using py_float_dec_text [OF assms(1-3)] py_float_dec_text [OF assms(1,2) digits] by simp
qed

lemma py_float_strip_fixed:
  assumes "0 < nd"
  shows "py_float_str (strip_zeros (fixed_str nd q)) = Inr (round_abs nd q)"
proof -
  have "last_digits nd k \<noteq> []" for k using assms last_digits_length [of nd k] by (metis length_0_conv neq0_conv)
  then show ?thesis
    unfolding py_float_fixed_str [of nd q, symmetric] unfolding fixed_str_dec_text
    by (intro py_float_strip_zeros) (auto intro: nat_str_digits last_digits_digits)
qed

lemma round_abs_exact: "round_abs nd (of_int i / 10 ^ nd) = of_int i / 10 ^ nd"
proof -
  have "- (of_int i / 10 ^ nd) = (of_int (- i) / 10 ^ nd :: rat)" by simp
  then show ?thesis by (simp only: round_abs_def round_to_exact split: if_split) simp
qed

lemma round_abs_of_int: "round_abs nd (of_int i) = of_int i"
  using round_abs_exact [of nd "i * 10 ^ nd"] by simp

text \<open>Thousands separators: dropping the commas gives the plain text back.\<close>

lemma filter_group3_rev: "filter (\<lambda>c. c \<noteq> CHR '','') (group3_rev s) = filter (\<lambda>c. c \<noteq> CHR '','') s"
  by (induction s rule: group3_rev.induct) auto

lemma filter_group3: "CHR '','' \<notin> set s \<Longrightarrow> filter (\<lambda>c. c \<noteq> CHR '','') (group3 s) = s"
  by (auto simp: group3_def rev_filter [symmetric] filter_group3_rev intro!: filter_True)

lemma is_digit_not_comma: "is_digit c \<Longrightarrow> c \<noteq> CHR '',''"
  by (auto simp: is_digit_def)

lemma filter_digits: "(\<And>c. c \<in> set s \<Longrightarrow> is_digit c) \<Longrightarrow> filter (\<lambda>c. c \<noteq> CHR '','') s = s"
  by (rule filter_True) (use is_digit_not_comma in blast)

lemma no_comma_nat_str: "CHR '','' \<notin> set (nat_str n)"
  using nat_str_digits is_digit_not_comma by blast

lemma filter_comma_fixed_str: "filter (\<lambda>c. c \<noteq> CHR '','') (comma_fixed_str nd q) = fixed_str nd q"
  using filter_digits [OF last_digits_digits]
  by (simp add: comma_fixed_str_def fixed_str_def frac_str_def Let_def filter_group3 no_comma_nat_str)

lemma filter_comma_int_str: "filter (\<lambda>c. c \<noteq> CHR '','') (comma_int_str i) = int_str i"
  by (simp add: comma_int_str_def int_str_def filter_group3 no_comma_nat_str)

end
