(* ===== verification/Py_Frame.thy ===== *)
theory Py_Frame
  imports Py_Number "HOL-Library.List_Lexorder" "HOL-Library.Char_ord" "HOL-Library.Product_Lexorder"
    "HOL-Library.Multiset"
begin

text \<open>
  Data frames as the analysis scripts use them: a frame is a list of rows, a mask is a filter, a group is
  the rows with one key. Means, counts, extrema, distinct values and groups are computed exactly. A result
  that would be infinite or not a number (the mean of nothing, a division by zero) is \<open>Unmodelled\<close>.
  Statistics the scripts only call are the parameter \<open>stats_lib\<close>.
\<close>

section \<open>Columns\<close>

definition mean_of :: "rat list \<Rightarrow> rat result" where
  "mean_of xs = (if xs = [] then Inl Unmodelled else Inr (sum_list xs / of_nat (length xs)))"

definition divide_by :: "rat \<Rightarrow> rat \<Rightarrow> rat result" where
  "divide_by a b = (if b = 0 then Inl Unmodelled else Inr (a / b))"

definition min_of :: "'a::linorder list \<Rightarrow> 'a result" where
  "min_of xs = (if xs = [] then Inl Unmodelled else Inr (Min (set xs)))"

definition max_of :: "'a::linorder list \<Rightarrow> 'a result" where
  "max_of xs = (if xs = [] then Inl Unmodelled else Inr (Max (set xs)))"

text \<open>\<open>(mask).mean() * 100\<close> and \<open>(mask).sum()\<close>.\<close>

definition pct_where :: "('r \<Rightarrow> bool) \<Rightarrow> 'r list \<Rightarrow> rat result" where
  "pct_where p rows =
     bind_result (mean_of (map (\<lambda>r. if p r then 1 else 0) rows)) (\<lambda>m. Inr (m * 100))"

definition count_where :: "('r \<Rightarrow> bool) \<Rightarrow> 'r list \<Rightarrow> nat" where
  "count_where p rows = length (filter p rows)"

text \<open>\<open>unique()\<close>, in the order of first appearance, and \<open>nunique()\<close>.\<close>

definition unique :: "'a list \<Rightarrow> 'a list" where
  "unique xs = rev (remdups (rev xs))"

definition nunique :: "'a list \<Rightarrow> nat" where
  "nunique xs = length (remdups xs)"

text \<open>
  \<open>value_counts().to_dict()\<close>: the distinct values with their counts, most frequent first (ties in the
  order of first appearance).
\<close>

definition value_counts :: "'a list \<Rightarrow> ('a, nat) dict" where
  "value_counts xs = sort_key (\<lambda>(x, n). - int n) (map (\<lambda>x. (x, count_list xs x)) (unique xs))"

text \<open>\<open>groupby\<close>: the groups in the order of their keys.\<close>

definition groups :: "('r \<Rightarrow> 'k::linorder) \<Rightarrow> 'r list \<Rightarrow> ('k \<times> 'r list) list" where
  "groups key rows = map (\<lambda>k. (k, filter (\<lambda>r. key r = k) rows)) (sort (remdups (map key rows)))"

text \<open>\<open>pd.crosstab\<close>: the rows and columns in the order of their values.\<close>

definition crosstab :: "('r \<Rightarrow> 'a::linorder) \<Rightarrow> ('r \<Rightarrow> 'b::linorder) \<Rightarrow> 'r list \<Rightarrow> ('a \<times> ('b \<times> nat) list) list" where
  "crosstab f g rows =
     (let cols = sort (remdups (map g rows))
      in map (\<lambda>a. (a, map (\<lambda>b. (b, count_where (\<lambda>r. f r = a \<and> g r = b) rows)) cols)) (sort (remdups (map f rows))))"

section \<open>Statistics that are only called\<close>

record stats_lib =
  lib_std :: "rat list \<Rightarrow> rat"
  lib_quantile :: "rat list \<Rightarrow> rat \<Rightarrow> rat"

definition sd_of :: "stats_lib \<Rightarrow> rat list \<Rightarrow> rat result" where
  "sd_of lib xs = (if length xs < 2 then Inl Unmodelled else Inr (lib_std lib xs))"

definition quantile_of :: "stats_lib \<Rightarrow> rat list \<Rightarrow> rat \<Rightarrow> rat result" where
  "quantile_of lib xs q = (if xs = [] then Inl Unmodelled else Inr (lib_quantile lib xs q))"

section \<open>Values for the output files\<close>

abbreviation count_val :: "nat \<Rightarrow> pyval" where
  "count_val n \<equiv> VInt (int n)"

definition counts_val :: "('a \<Rightarrow> string) \<Rightarrow> ('a, nat) dict \<Rightarrow> pyval" where
  "counts_val name d = payload_value (map (\<lambda>(x, n). (name x, count_val n)) d)"

text \<open>\<open>(b - a).days + 1\<close> for times in nanoseconds.\<close>

definition day_ns :: int where
  "day_ns = 86400 * 10 ^ 9"

definition span_days :: "int \<Rightarrow> int \<Rightarrow> int" where
  "span_days a b = (b - a) div day_ns + 1"

section \<open>Lemmas\<close>

lemma map_result_mem: "map_result f xs = Inr ys \<Longrightarrow> y \<in> set ys \<Longrightarrow> \<exists>x \<in> set xs. f x = Inr y"
  by (induction xs arbitrary: ys) (auto simp: result_simps)

lemma mean_of_Inr: "mean_of xs = Inr m \<longleftrightarrow> xs \<noteq> [] \<and> m = sum_list xs / of_nat (length xs)"
  by (auto simp: mean_of_def)

lemma min_of_Inr: "min_of xs = Inr m \<longleftrightarrow> xs \<noteq> [] \<and> m = Min (set xs)"
  by (auto simp: min_of_def)

lemma max_of_Inr: "max_of xs = Inr m \<longleftrightarrow> xs \<noteq> [] \<and> m = Max (set xs)"
  by (auto simp: max_of_def)

lemma divide_by_Inr: "divide_by a b = Inr q \<longleftrightarrow> b \<noteq> 0 \<and> q = a / b"
  by (auto simp: divide_by_def)

lemma sd_of_Inr: "sd_of lib xs = Inr s \<longleftrightarrow> 2 \<le> length xs \<and> s = lib_std lib xs"
  by (auto simp: sd_of_def)

lemma quantile_of_Inr: "quantile_of lib xs q = Inr s \<longleftrightarrow> xs \<noteq> [] \<and> s = lib_quantile lib xs q"
  by (auto simp: quantile_of_def)

lemmas frame_Inr = mean_of_Inr min_of_Inr max_of_Inr divide_by_Inr sd_of_Inr quantile_of_Inr

lemma sum_indicator: "sum_list (map (\<lambda>r. if p r then 1 else 0) rows) = (of_nat (count_where p rows) :: rat)"
  by (induction rows) (simp_all add: count_where_def)

lemma pct_where_Inr:
  "pct_where p rows = Inr q \<longleftrightarrow> rows \<noteq> [] \<and> q = of_nat (count_where p rows) / of_nat (length rows) * 100"
  by (auto simp: pct_where_def frame_Inr result_simps sum_indicator)

lemma count_where_le: "count_where p rows \<le> length rows"
  by (simp add: count_where_def)

lemma pct_where_bounds: "pct_where p rows = Inr q \<Longrightarrow> 0 \<le> q \<and> q \<le> 100"
  using count_where_le [of p rows] by (auto simp: pct_where_Inr field_simps of_nat_0_less_iff)

lemma set_unique [simp]: "set (unique xs) = set xs" "distinct (unique xs)"
  by (simp_all add: unique_def)

lemma nunique_card: "nunique xs = card (set xs)"
  by (simp add: nunique_def length_remdups_card_conv)

lemma value_counts_mset: "mset (value_counts xs) = mset (map (\<lambda>x. (x, count_list xs x)) (unique xs))"
  by (simp only: value_counts_def mset_sort)

lemma value_counts_keys: "distinct (map fst (value_counts xs))" "set (map fst (value_counts xs)) = set xs"
proof -
  have "mset (map fst (value_counts xs)) = mset (unique xs)"
    by (simp add: value_counts_mset image_mset.compositionality comp_def)
  then show "distinct (map fst (value_counts xs))" "set (map fst (value_counts xs)) = set xs"
    by (metis set_unique(2) mset_eq_imp_distinct_iff, metis set_unique(1) mset_eq_setD)
qed

lemma value_counts_get: "dict_get (value_counts xs) x = (if x \<in> set xs then Some (count_list xs x) else None)"
proof (cases "x \<in> set xs")
  case True
  then have "(x, count_list xs x) \<in> set (value_counts xs)"
    by (auto simp: value_counts_def)
  then show ?thesis using True value_counts_keys(1) [of xs] by (simp add: map_of_eq_Some_iff)
next
  case False
  then show ?thesis using value_counts_keys(2) [of xs] by (simp add: map_of_eq_None_iff)
qed

lemma value_counts_total: "sum_list (map snd (value_counts xs)) = length xs"
proof -
  have "sum_list (map snd (value_counts xs)) = sum_mset (mset (map snd (value_counts xs)))"
    by (simp only: sum_mset_sum_list)
  also have "\<dots> = sum_mset (mset (map (count_list xs) (unique xs)))"
    by (simp only: mset_map value_counts_mset) (simp add: image_mset.compositionality comp_def)
  also have "\<dots> = sum_list (map (count_list xs) (unique xs))"
    by (simp only: sum_mset_sum_list)
  also have "\<dots> = (\<Sum>x \<in> set xs. count_list xs x)"
    by (simp add: sum_list_distinct_conv_sum_set)
  also have "\<dots> = length xs"
    by (simp add: sum_count_set)
  finally show ?thesis .
qed

lemma groups_keys: "map fst (groups key rows) = sort (remdups (map key rows))"
  by (simp add: groups_def comp_def)

lemma groups_distinct: "distinct (map fst (groups key rows))"
  by (simp add: groups_keys)

lemma groups_mem: "(k, rs) \<in> set (groups key rows) \<longleftrightarrow> k \<in> key ` set rows \<and> rs = filter (\<lambda>r. key r = k) rows"
  by (auto simp: groups_def)

lemma groups_get:
  "dict_get (groups key rows) k = (if k \<in> key ` set rows then Some (filter (\<lambda>r. key r = k) rows) else None)"
proof (cases "k \<in> key ` set rows")
  case True
  then show ?thesis
    using groups_distinct [of key rows] by (simp add: map_of_eq_Some_iff groups_mem)
next
  case False
  then have "k \<notin> fst ` set (groups key rows)"
    by (force simp: groups_mem)
  then show ?thesis using False by (simp add: map_of_eq_None_iff)
qed

lemma sum_one_key: "distinct ks \<Longrightarrow> (\<Sum>k \<leftarrow> ks. if a = k then c else 0) = (if a \<in> set ks then c else (0 :: nat))"
  by (induction ks) auto

lemma sum_by_keys:
  assumes "distinct ks" "key ` set rows \<subseteq> set ks"
  shows "(\<Sum>k \<leftarrow> ks. count_where p (filter (\<lambda>r. key r = k) rows)) = count_where p rows"
  using assms(2)
proof (induction rows)
  case (Cons r rows)
  have "count_where p (filter (\<lambda>r. key r = k) (r # rows)) =
      (if key r = k then (if p r then 1 else 0) else 0) + count_where p (filter (\<lambda>r. key r = k) rows)" for k
    by (simp add: count_where_def)
  then have "(\<Sum>k \<leftarrow> ks. count_where p (filter (\<lambda>r. key r = k) (r # rows))) = (if p r then 1 else 0) + count_where p rows"
    using Cons sum_one_key [OF assms(1), of "key r"] by (simp only: sum_list_addf) simp
  then show ?case
    by (simp add: count_where_def)
qed (simp add: count_where_def)

lemma groups_total: "(\<Sum>(k, rs) \<leftarrow> groups key rows. count_where p rs) = count_where p rows"
  using sum_by_keys [of "sort (remdups (map key rows))" key rows p]
  by (simp add: groups_def comp_def)

text \<open>The cells of a row of a cross table add up to the rows with its value.\<close>

lemma crosstab_row:
  assumes "(a, cells) \<in> set (crosstab f g rows)"
  shows "a \<in> f ` set rows" "map fst cells = sort (remdups (map g rows))"
    "(b, n) \<in> set cells \<Longrightarrow> n = count_where (\<lambda>r. f r = a \<and> g r = b) rows"
    "sum_list (map snd cells) = count_where (\<lambda>r. f r = a) rows"
proof -
  let ?cols = "sort (remdups (map g rows))"
  from assms have a: "a \<in> f ` set rows"
    and cells: "cells = map (\<lambda>b. (b, count_where (\<lambda>r. f r = a \<and> g r = b) rows)) ?cols"
    by (auto simp: crosstab_def Let_def)
  show "a \<in> f ` set rows"
    by (rule a)
  show "map fst cells = ?cols" "(b, n) \<in> set cells \<Longrightarrow> n = count_where (\<lambda>r. f r = a \<and> g r = b) rows"
    by (auto simp: cells comp_def)
  have "sum_list (map snd cells) = (\<Sum>b \<leftarrow> ?cols. count_where (\<lambda>r. f r = a) (filter (\<lambda>r. g r = b) rows))"
    by (simp add: cells comp_def count_where_def conj_commute)
  also have "\<dots> = count_where (\<lambda>r. f r = a) rows"
    by (rule sum_by_keys) auto
  finally show "sum_list (map snd cells) = count_where (\<lambda>r. f r = a) rows" .
qed

lemma crosstab_keys: "map fst (crosstab f g rows) = sort (remdups (map f rows))"
  by (simp add: crosstab_def Let_def comp_def)

end
