(* ===== verification/Role_Model.thy ===== *)
theory Role_Model
  imports Py_Frame
begin

text \<open>
  The role and permission models: the enumerations and tables of \<open>tests/security/role_model.py\<close>, the
  oracle of \<open>paper_iot/V10/analysis/scripts/06_security_oracle.py\<close> over the deployed and the intended
  tables, and the role guards of the chaincode transactions that the security tests attack
  (\<open>chaincode/hrbac/contract.go\<close>). \<open>role_tables\<close> is the contract of a table of ancestors and direct
  permissions; all three pairs of tables are interpretations of it. The oracle script takes
  the rows of its CSV file as a list; an absent \<open>deny_reason\<close> (NaN in pandas) is \<open>None\<close>. Its report
  is modelled but for the two constant entries (the mapping and the note).
\<close>

section \<open>Roles and permissions\<close>

datatype role = ADMIN | GATEWAY | FARMER | AGRONOMIST | CERTIFIER | SUPPLY_CHAIN | SENSOR

datatype permission =
    READ_OWN | READ_ZONE | READ_ALL | WRITE_SENSOR | CONTROL_ZONE | CONTROL_ALL | READ_AUDIT
  | MANAGE_ROLES | ISSUE_CROSS_ZONE | ADMIN_ALL

definition all_roles :: "role list" where
  "all_roles = [ADMIN, GATEWAY, FARMER, AGRONOMIST, CERTIFIER, SUPPLY_CHAIN, SENSOR]"

definition all_permissions :: "permission list" where
  "all_permissions = [READ_OWN, READ_ZONE, READ_ALL, WRITE_SENSOR, CONTROL_ZONE, CONTROL_ALL, READ_AUDIT,
     MANAGE_ROLES, ISSUE_CROSS_ZONE, ADMIN_ALL]"

fun role_value :: "role \<Rightarrow> string" where
  "role_value ADMIN = ''Admin''"
| "role_value GATEWAY = ''Gateway''"
| "role_value FARMER = ''Farmer''"
| "role_value AGRONOMIST = ''Agronomist''"
| "role_value CERTIFIER = ''Certifier''"
| "role_value SUPPLY_CHAIN = ''SupplyChain''"
| "role_value SENSOR = ''Sensor''"

fun permission_value :: "permission \<Rightarrow> string" where
  "permission_value READ_OWN = ''ReadOwn''"
| "permission_value READ_ZONE = ''ReadZone''"
| "permission_value READ_ALL = ''ReadAll''"
| "permission_value WRITE_SENSOR = ''WriteSensor''"
| "permission_value CONTROL_ZONE = ''ControlZone''"
| "permission_value CONTROL_ALL = ''ControlAll''"
| "permission_value READ_AUDIT = ''ReadAudit''"
| "permission_value MANAGE_ROLES = ''ManageRoles''"
| "permission_value ISSUE_CROSS_ZONE = ''IssueCrossZone''"
| "permission_value ADMIN_ALL = ''AdminAll''"

definition DIRECT_PERMISSIONS :: "(role, permission list) dict" where
  "DIRECT_PERMISSIONS =
     [(SUPPLY_CHAIN, [READ_OWN]), (CERTIFIER, [READ_ZONE, READ_AUDIT]),
      (AGRONOMIST, [CONTROL_ZONE, ISSUE_CROSS_ZONE]), (FARMER, [WRITE_SENSOR]), (SENSOR, [WRITE_SENSOR]),
      (GATEWAY, [READ_ZONE, CONTROL_ZONE]), (ADMIN, [READ_ALL, CONTROL_ALL, MANAGE_ROLES, ADMIN_ALL])]"

definition ROLE_ANCESTORS :: "(role, role list) dict" where
  "ROLE_ANCESTORS =
     [(SUPPLY_CHAIN, [SUPPLY_CHAIN]), (CERTIFIER, [CERTIFIER, SUPPLY_CHAIN]),
      (AGRONOMIST, [AGRONOMIST, CERTIFIER, SUPPLY_CHAIN]),
      (FARMER, [FARMER, AGRONOMIST, CERTIFIER, SUPPLY_CHAIN]), (SENSOR, [SENSOR]),
      (GATEWAY, [GATEWAY, SENSOR]),
      (ADMIN, [ADMIN, FARMER, AGRONOMIST, CERTIFIER, SUPPLY_CHAIN, GATEWAY, SENSOR])]"

definition ZONE_SCOPED_PERMISSIONS :: "permission list" where
  "ZONE_SCOPED_PERMISSIONS = [WRITE_SENSOR, CONTROL_ZONE, READ_ZONE]"

text \<open>The loop with its \<open>seen\<close> set, which holds the elements of the list built so far.\<close>

fun add_unseen :: "'p list \<Rightarrow> 'p list \<Rightarrow> 'p list" where
  "add_unseen [] acc = acc"
| "add_unseen (p # ps) acc = add_unseen ps (if p \<in> set acc then acc else acc @ [p])"

fun collect_permissions :: "('r, 'p list) dict \<Rightarrow> 'r list \<Rightarrow> 'p list \<Rightarrow> 'p list" where
  "collect_permissions direct [] acc = acc"
| "collect_permissions direct (a # as) acc =
     collect_permissions direct as (add_unseen (case dict_get direct a of None \<Rightarrow> [] | Some ps \<Rightarrow> ps) acc)"

definition effective_permissions :: "role \<Rightarrow> permission list" where
  "effective_permissions r =
     collect_permissions DIRECT_PERMISSIONS (case dict_get ROLE_ANCESTORS r of None \<Rightarrow> [] | Some as \<Rightarrow> as) []"

definition is_allowed :: "role \<Rightarrow> permission \<Rightarrow> bool" where
  "is_allowed r p \<longleftrightarrow> p \<in> set (effective_permissions r)"

definition denied_permission_matrix :: "(role \<times> permission) list" where
  "denied_permission_matrix =
     [(r, p). r \<leftarrow> all_roles, p \<leftarrow> all_permissions, p \<notin> set (effective_permissions r)]"

record escalation_case =
  actor_role :: role
  transaction :: string
  case_args :: "string list"
  case_reason :: string

definition privilege_escalation_cases :: "string \<Rightarrow> escalation_case list" where
  "privilege_escalation_cases expiry =
     map (\<lambda>r. \<lparr>actor_role = r, transaction = ''AssignRole'',
                case_args = [''escalate-'' @ lower (role_value r), role_value ADMIN, ''North'', expiry],
                case_reason = ''non-admin role assignment''\<rparr>)
       (filter (\<lambda>r. r \<noteq> ADMIN) all_roles) @
     [\<lparr>actor_role = SENSOR, transaction = ''IssueCrossZoneToken'', case_args = [''sensor-1'', ''South'', expiry],
       case_reason = ''sensor token issuance''\<rparr>,
      \<lparr>actor_role = SUPPLY_CHAIN, transaction = ''RevokeCrossZoneToken'', case_args = [''missing-token''],
       case_reason = ''supply-chain token revocation''\<rparr>,
      \<lparr>actor_role = FARMER, transaction = ''PruneNonces'', case_args = [''1''], case_reason = ''farmer nonce pruning''\<rparr>,
      \<lparr>actor_role = CERTIFIER, transaction = ''RevokeRole'', case_args = [''sensor-1''],
       case_reason = ''certifier role revocation''\<rparr>]"

section \<open>The oracle\<close>

definition ROLE_PERMISSIONS_DEPLOYED :: "(string, string list) dict" where
  "ROLE_PERMISSIONS_DEPLOYED =
     [(''SupplyChain'', [''ReadOwn'']), (''Certifier'', [''ReadZone'', ''ReadAudit'']),
      (''Agronomist'', [''ControlZone'', ''IssueCrossZone'']), (''Farmer'', [''WriteSensor'']),
      (''Sensor'', [''WriteSensor'']), (''Gateway'', [''ReadZone'', ''ControlZone'']),
      (''Admin'', [''ReadAll'', ''ControlAll'', ''ManageRoles'', ''AdminAll''])]"

definition ROLE_ANCESTORS_DEPLOYED :: "(string, string list) dict" where
  "ROLE_ANCESTORS_DEPLOYED =
     [(''SupplyChain'', [''SupplyChain'']), (''Certifier'', [''Certifier'', ''SupplyChain'']),
      (''Agronomist'', [''Agronomist'', ''Certifier'', ''SupplyChain'']),
      (''Farmer'', [''Farmer'', ''Agronomist'', ''Certifier'', ''SupplyChain'']), (''Sensor'', [''Sensor'']),
      (''Gateway'', [''Gateway'', ''Sensor'']),
      (''Admin'', [''Admin'', ''Farmer'', ''Agronomist'', ''Certifier'', ''SupplyChain'', ''Gateway'', ''Sensor''])]"

definition ROLE_PERMISSIONS_INTENDED :: "(string, string list) dict" where
  "ROLE_PERMISSIONS_INTENDED =
     [(''SupplyChain'', [''ReadOwn'']), (''Certifier'', [''ReadAudit'']),
      (''Agronomist'', [''IssueCrossZone'', ''ReadZone'']),
      (''Farmer'', [''WriteSensor'', ''ControlZone'', ''ReadZone'']), (''Sensor'', [''WriteSensor'']),
      (''Gateway'', [''ReadZone'', ''ControlZone'']),
      (''Admin'', [''ReadAll'', ''ControlAll'', ''ManageRoles'', ''AdminAll''])]"

definition ROLE_ANCESTORS_INTENDED :: "(string, string list) dict" where
  "ROLE_ANCESTORS_INTENDED =
     [(''SupplyChain'', [''SupplyChain'']), (''Certifier'', [''Certifier'', ''SupplyChain'']),
      (''Agronomist'', [''Agronomist'', ''Certifier'', ''SupplyChain'']),
      (''Farmer'', [''Farmer'', ''Agronomist'', ''Certifier'', ''SupplyChain'']), (''Sensor'', [''Sensor'']),
      (''Gateway'', [''Gateway'', ''Sensor'']),
      (''Admin'', [''Admin'', ''Farmer'', ''Agronomist'', ''Certifier'', ''SupplyChain'', ''Gateway'', ''Sensor''])]"

definition oracle_permissions :: "string \<Rightarrow> (string, string list) dict \<Rightarrow> (string, string list) dict \<Rightarrow> string set" where
  "oracle_permissions r perms ancestors =
     (case dict_get ancestors r of
        None \<Rightarrow> {}
      | Some as \<Rightarrow> fold (\<lambda>anc out. out \<union> set (case dict_get perms anc of None \<Rightarrow> [] | Some ps \<Rightarrow> ps)) as {})"

definition has_permission ::
  "string \<Rightarrow> string \<Rightarrow> (string, string list) dict \<Rightarrow> (string, string list) dict \<Rightarrow> bool" where
  "has_permission r p perms ancestors =
     (let eff = oracle_permissions r perms ancestors in p \<in> eff \<or> ''AdminAll'' \<in> eff)"

definition OPERATION_PERMISSION :: "(string, string) dict" where
  "OPERATION_PERMISSION =
     [(''WriteSensor'', ''WriteSensor''), (''ReadSensorData'', ''ReadZone''), (''ReadZone'', ''ReadZone''),
      (''ControlZone'', ''ControlZone''), (''ReadAudit'', ''ReadAudit''), (''ReadProvenance'', ''ReadOwn''),
      (''ReadEnvironmentalRecord'', ''ReadZone'')]"

definition ROLE_OP_DENY_REASONS :: "string list" where
  "ROLE_OP_DENY_REASONS = [''ROLE_INSUFFICIENT'', ''OP_NOT_PERMITTED'']"

record attempt =
  scenario :: string
  attacker_role :: string
  operation :: string
  deny_reason :: "string option"
  blocked :: bool
  decision :: string

definition should_permit ::
  "(string, string list) dict \<Rightarrow> (string, string list) dict \<Rightarrow> attempt \<Rightarrow> bool option" where
  "should_permit perms ancestors a =
     map_option (\<lambda>p. has_permission (attacker_role a) p perms ancestors)
       (dict_get OPERATION_PERMISSION (operation a))"

definition role_op_scope :: "attempt list \<Rightarrow> attempt list" where
  "role_op_scope sec = filter (\<lambda>a. deny_reason a \<in> Some ` set ROLE_OP_DENY_REASONS) sec"

definition confirmed_by :: "(string, string list) dict \<Rightarrow> (string, string list) dict \<Rightarrow> attempt list \<Rightarrow> attempt list" where
  "confirmed_by perms ancestors sec =
     filter (\<lambda>a. should_permit perms ancestors a = Some False) (role_op_scope sec)"

definition discrepant_by :: "(string, string list) dict \<Rightarrow> (string, string list) dict \<Rightarrow> attempt list \<Rightarrow> attempt list" where
  "discrepant_by perms ancestors sec =
     filter (\<lambda>a. should_permit perms ancestors a = Some True) (role_op_scope sec)"

definition discrepant_pairs :: "attempt list \<Rightarrow> string list" where
  "discrepant_pairs sec =
     map (\<lambda>(r, oper). r @ ''|'' @ oper)
       (sorted_list_of_set (set (map (\<lambda>a. (attacker_role a, operation a))
          (discrepant_by ROLE_PERMISSIONS_DEPLOYED ROLE_ANCESTORS_DEPLOYED sec))))"

definition percent_of :: "nat \<Rightarrow> nat \<Rightarrow> rat result" where
  "percent_of n whole = (if whole = 0 then Inl ZeroDivisionError else Inr (of_nat n / of_nat whole * 100))"

record oracle_report =
  total_attempts :: nat
  scenario_counts :: "(string, nat) dict"
  deny_reason_counts :: "(string, nat) dict"
  n_deny_reason_types :: nat
  all_blocked :: bool
  all_denied :: bool
  scoped_attempts :: nat
  scoped_pct :: rat
  confirmed_deployed :: nat
  confirmed_pct :: rat
  discrepant_deployed :: nat
  discrepant_pct :: rat
  report_pairs :: "string list"
  unmapped_rows :: nat
  confirmed_intended :: nat
  discrepant_intended :: nat

definition oracle_main :: "attempt list \<Rightarrow> oracle_report result" where
  "oracle_main sec =
     (let scope = role_op_scope sec;
          confirmed = confirmed_by ROLE_PERMISSIONS_DEPLOYED ROLE_ANCESTORS_DEPLOYED sec;
          discrepant = discrepant_by ROLE_PERMISSIONS_DEPLOYED ROLE_ANCESTORS_DEPLOYED sec
      in
        bind_result (percent_of (length scope) (length sec)) (\<lambda>pct_scoped.
        bind_result (percent_of (length confirmed) (length scope)) (\<lambda>pct_confirmed.
        bind_result (percent_of (length discrepant) (length scope)) (\<lambda>pct_discrepant.
          Inr \<lparr>total_attempts = length sec,
            scenario_counts = value_counts (map scenario sec),
            deny_reason_counts = value_counts (List.map_filter deny_reason sec),
            n_deny_reason_types = card (set (List.map_filter deny_reason sec)),
            all_blocked = list_all blocked sec,
            all_denied = list_all (\<lambda>a. decision a = ''denied'') sec,
            scoped_attempts = length scope,
            scoped_pct = pct_scoped,
            confirmed_deployed = length confirmed,
            confirmed_pct = pct_confirmed,
            discrepant_deployed = length discrepant,
            discrepant_pct = pct_discrepant,
            report_pairs = discrepant_pairs sec,
            unmapped_rows = length (filter (\<lambda>a. dict_get OPERATION_PERMISSION (operation a) = None) sec),
            confirmed_intended = length (confirmed_by ROLE_PERMISSIONS_INTENDED ROLE_ANCESTORS_INTENDED sec),
            discrepant_intended = length (discrepant_by ROLE_PERMISSIONS_INTENDED ROLE_ANCESTORS_INTENDED sec)\<rparr>))))"

section \<open>The guards of the attacked transactions\<close>

text \<open>
  The condition on the caller's role at the head of each transaction of the chaincode.
  \<open>transaction_guard\<close> selects it by the name of the transaction, \<open>None\<close> for one that is not modelled.
\<close>

definition assign_role_guard :: "role \<Rightarrow> bool" where
  "assign_role_guard caller_role \<longleftrightarrow> caller_role = ADMIN"

definition revoke_role_guard :: "role \<Rightarrow> bool" where
  "revoke_role_guard caller_role \<longleftrightarrow> caller_role = ADMIN"

definition prune_nonces_guard :: "role \<Rightarrow> bool" where
  "prune_nonces_guard caller_role \<longleftrightarrow> caller_role = ADMIN"

definition caller_has :: "role \<Rightarrow> permission \<Rightarrow> bool" where
  "caller_has caller_role p =
     has_permission (role_value caller_role) (permission_value p) ROLE_PERMISSIONS_DEPLOYED ROLE_ANCESTORS_DEPLOYED"

definition issue_token_guard :: "role \<Rightarrow> bool" where
  "issue_token_guard caller_role \<longleftrightarrow> \<not> (caller_role \<noteq> ADMIN \<and> \<not> caller_has caller_role ISSUE_CROSS_ZONE)"

definition revoke_token_guard :: "role \<Rightarrow> bool" where
  "revoke_token_guard caller_role \<longleftrightarrow> \<not> (caller_role \<noteq> ADMIN \<and> \<not> caller_has caller_role ISSUE_CROSS_ZONE)"

definition transaction_guard :: "string \<Rightarrow> (role \<Rightarrow> bool) option" where
  "transaction_guard =
     map_of [(''AssignRole'', assign_role_guard), (''RevokeRole'', revoke_role_guard),
             (''PruneNonces'', prune_nonces_guard), (''IssueCrossZoneToken'', issue_token_guard),
             (''RevokeCrossZoneToken'', revoke_token_guard)]"

section \<open>Tables of roles\<close>

lemma add_unseen_set: "set (add_unseen ps acc) = set acc \<union> set ps"
  by (induction ps acc rule: add_unseen.induct) auto

lemma add_unseen_distinct: "distinct acc \<Longrightarrow> distinct (add_unseen ps acc)"
  by (induction ps acc rule: add_unseen.induct) auto

definition granted_by :: "('r, 'p list) dict \<Rightarrow> 'r \<Rightarrow> 'p set" where
  "granted_by direct a = (case dict_get direct a of None \<Rightarrow> {} | Some ps \<Rightarrow> set ps)"

definition effective_set :: "('r, 'r list) dict \<Rightarrow> ('r, 'p list) dict \<Rightarrow> 'r \<Rightarrow> 'p set" where
  "effective_set ancestors direct r =
     (case dict_get ancestors r of None \<Rightarrow> {} | Some as \<Rightarrow> (\<Union>a \<in> set as. granted_by direct a))"

lemma set_granted: "set (case dict_get direct a of None \<Rightarrow> [] | Some ps \<Rightarrow> ps) = granted_by direct a"
  by (simp add: granted_by_def split: option.split)

lemma collect_permissions_set:
  "set (collect_permissions direct as acc) = set acc \<union> (\<Union>a \<in> set as. granted_by direct a)"
  by (induction direct as acc rule: collect_permissions.induct) (simp_all add: add_unseen_set set_granted Un_assoc)

lemma collect_permissions_distinct: "distinct acc \<Longrightarrow> distinct (collect_permissions direct as acc)"
  by (induction direct as acc rule: collect_permissions.induct) (auto simp: add_unseen_distinct)

lemma oracle_permissions_set: "oracle_permissions r perms ancestors = effective_set ancestors perms r"
proof -
  have "fold (\<lambda>anc out. out \<union> set (case dict_get perms anc of None \<Rightarrow> [] | Some ps \<Rightarrow> ps)) as out =
      out \<union> (\<Union>a \<in> set as. granted_by perms a)" for as out
    by (induction as arbitrary: out) (auto simp: granted_by_def split: option.splits)
  then show ?thesis by (simp add: oracle_permissions_def effective_set_def split: option.split)
qed

lemma effective_permissions_set: "set (effective_permissions r) = effective_set ROLE_ANCESTORS DIRECT_PERMISSIONS r"
  by (simp add: effective_permissions_def effective_set_def collect_permissions_set split: option.split)

text \<open>
  The contract of a pair of tables: each role is its own ancestor, and the ancestors of an ancestor
  are ancestors. Then a role has its direct permissions and everything its ancestors have.
\<close>

locale role_tables =
  fixes ancestors :: "('r, 'r list) dict"
    and direct :: "('r, 'p list) dict"
  assumes anc_refl: "dict_get ancestors r = Some as \<Longrightarrow> r \<in> set as"
    and anc_trans: "dict_get ancestors r = Some as \<Longrightarrow> a \<in> set as \<Longrightarrow>
      \<exists>bs. dict_get ancestors a = Some bs \<and> set bs \<subseteq> set as"
begin

definition senior :: "'r \<Rightarrow> 'r \<Rightarrow> bool" where
  "senior r a \<longleftrightarrow> (\<exists>as. dict_get ancestors r = Some as \<and> a \<in> set as)"

lemma senior_trans: "senior r a \<Longrightarrow> senior a b \<Longrightarrow> senior r b"
  unfolding senior_def using anc_trans by force

lemma own_permissions: "dict_get ancestors r = Some as \<Longrightarrow> granted_by direct r \<subseteq> effective_set ancestors direct r"
  using anc_refl by (auto simp: effective_set_def)

lemma inherits: "senior r a \<Longrightarrow> effective_set ancestors direct a \<subseteq> effective_set ancestors direct r"
  unfolding senior_def effective_set_def using anc_trans by fastforce

lemma effective_seniors: "effective_set ancestors direct r = (\<Union>a \<in> {a. senior r a}. effective_set ancestors direct a)"
  (is "?l = ?r")
proof
  show "?r \<subseteq> ?l" using inherits by blast
  show "?l \<subseteq> ?r"
  proof
    fix p assume "p \<in> ?l"
    then obtain as a where a: "dict_get ancestors r = Some as" "a \<in> set as" "p \<in> granted_by direct a"
      by (auto simp: effective_set_def split: option.splits)
    then obtain bs where "dict_get ancestors a = Some bs" using anc_trans by blast
    with a own_permissions show "p \<in> ?r" by (auto simp: senior_def)
  qed
qed

end

lemma role_tables_check:
  assumes "list_all (\<lambda>(r, as). r \<in> set as \<and> list_all (\<lambda>a. case dict_get ancestors a of None \<Rightarrow> False
    | Some bs \<Rightarrow> list_all (\<lambda>b. b \<in> set as) bs) as) ancestors"
  shows "role_tables ancestors"
proof
  fix r as assume "dict_get ancestors r = Some as"
  then have "(r, as) \<in> set ancestors" by (rule map_of_SomeD)
  with assms have ok: "r \<in> set as" "list_all (\<lambda>a. case dict_get ancestors a of None \<Rightarrow> False
    | Some bs \<Rightarrow> list_all (\<lambda>b. b \<in> set as) bs) as" by (auto simp: list_all_iff)
  show "r \<in> set as" by (rule ok(1))
  show "a \<in> set as \<Longrightarrow> \<exists>bs. dict_get ancestors a = Some bs \<and> set bs \<subseteq> set as" for a
    using ok(2) by (force simp: list_all_iff split: option.splits)
qed

interpretation enum: role_tables ROLE_ANCESTORS DIRECT_PERMISSIONS
  by (rule role_tables_check) code_simp

interpretation deployed: role_tables ROLE_ANCESTORS_DEPLOYED ROLE_PERMISSIONS_DEPLOYED
  by (rule role_tables_check) code_simp

interpretation intended: role_tables ROLE_ANCESTORS_INTENDED ROLE_PERMISSIONS_INTENDED
  by (rule role_tables_check) code_simp

section \<open>Properties\<close>

lemma all_roles_complete [simp]: "r \<in> set all_roles" and all_permissions_complete [simp]: "p \<in> set all_permissions"
  by (cases r; simp add: all_roles_def) (cases p; simp add: all_permissions_def)

text \<open>
  Inheritance: in the model of the tests and in both oracles, a role that lists another one
  among its ancestors holds every permission that other role holds.
\<close>

theorem permissions_inherited:
  "(dict_get ROLE_ANCESTORS r = Some as \<longrightarrow> a \<in> set as \<longrightarrow>
      set (effective_permissions a) \<subseteq> set (effective_permissions r) \<and> distinct (effective_permissions r)) \<and>
   (dict_get ROLE_ANCESTORS_DEPLOYED u = Some us \<longrightarrow> b \<in> set us \<longrightarrow>
      has_permission b p ROLE_PERMISSIONS_DEPLOYED ROLE_ANCESTORS_DEPLOYED \<longrightarrow>
      has_permission u p ROLE_PERMISSIONS_DEPLOYED ROLE_ANCESTORS_DEPLOYED) \<and>
   (dict_get ROLE_ANCESTORS_INTENDED v = Some vs \<longrightarrow> c \<in> set vs \<longrightarrow>
      has_permission c p ROLE_PERMISSIONS_INTENDED ROLE_ANCESTORS_INTENDED \<longrightarrow>
      has_permission v p ROLE_PERMISSIONS_INTENDED ROLE_ANCESTORS_INTENDED)"
proof (intro conjI impI)
  assume "dict_get ROLE_ANCESTORS r = Some as" "a \<in> set as"
  then show "set (effective_permissions a) \<subseteq> set (effective_permissions r)"
    using enum.inherits [of r a] by (simp add: effective_permissions_set enum.senior_def)
  show "distinct (effective_permissions r)"
    by (simp add: effective_permissions_def collect_permissions_distinct)
next
  assume "dict_get ROLE_ANCESTORS_DEPLOYED u = Some us" "b \<in> set us"
    "has_permission b p ROLE_PERMISSIONS_DEPLOYED ROLE_ANCESTORS_DEPLOYED"
  then show "has_permission u p ROLE_PERMISSIONS_DEPLOYED ROLE_ANCESTORS_DEPLOYED"
    using deployed.inherits [of u b] by (auto simp: has_permission_def oracle_permissions_set deployed.senior_def Let_def)
next
  assume "dict_get ROLE_ANCESTORS_INTENDED v = Some vs" "c \<in> set vs"
    "has_permission c p ROLE_PERMISSIONS_INTENDED ROLE_ANCESTORS_INTENDED"
  then show "has_permission v p ROLE_PERMISSIONS_INTENDED ROLE_ANCESTORS_INTENDED"
    using intended.inherits [of v c] by (auto simp: has_permission_def oracle_permissions_set intended.senior_def Let_def)
qed

theorem permissions_inherited_witness:
  "set (effective_permissions SENSOR) \<subseteq> set (effective_permissions GATEWAY) \<and>
   has_permission ''Gateway'' ''WriteSensor'' ROLE_PERMISSIONS_DEPLOYED ROLE_ANCESTORS_DEPLOYED \<and>
   has_permission ''Farmer'' ''ReadOwn'' ROLE_PERMISSIONS_INTENDED ROLE_ANCESTORS_INTENDED"
proof -
  have "dict_get ROLE_ANCESTORS GATEWAY = Some [GATEWAY, SENSOR]"
    "dict_get ROLE_ANCESTORS_DEPLOYED ''Gateway'' = Some [''Gateway'', ''Sensor'']"
    "has_permission ''Sensor'' ''WriteSensor'' ROLE_PERMISSIONS_DEPLOYED ROLE_ANCESTORS_DEPLOYED"
    "dict_get ROLE_ANCESTORS_INTENDED ''Farmer'' = Some [''Farmer'', ''Agronomist'', ''Certifier'', ''SupplyChain'']"
    "has_permission ''SupplyChain'' ''ReadOwn'' ROLE_PERMISSIONS_INTENDED ROLE_ANCESTORS_INTENDED"
    by code_simp+
  with permissions_inherited [of GATEWAY "[GATEWAY, SENSOR]" SENSOR "''Gateway''" "[''Gateway'', ''Sensor'']" "''Sensor''"
      "''WriteSensor''"]
    permissions_inherited [of GATEWAY "[GATEWAY, SENSOR]" SENSOR "''Gateway''" "[''Gateway'', ''Sensor'']" "''Sensor''"
      "''ReadOwn''" "''Farmer''" "[''Farmer'', ''Agronomist'', ''Certifier'', ''SupplyChain'']" "''SupplyChain''"]
  show ?thesis by simp
qed

text \<open>
  The two implementations of the permission check agree: the tests' model, which has no rule for
  \<open>AdminAll\<close>, and the oracle's transcription of the chaincode, which has one, allow the same
  permissions to the same roles.
\<close>

theorem models_agree:
  "is_allowed r p \<longleftrightarrow>
     has_permission (role_value r) (permission_value p) ROLE_PERMISSIONS_DEPLOYED ROLE_ANCESTORS_DEPLOYED"
proof -
  have "list_all (\<lambda>r. list_all (\<lambda>p. is_allowed r p =
      has_permission (role_value r) (permission_value p) ROLE_PERMISSIONS_DEPLOYED ROLE_ANCESTORS_DEPLOYED)
      all_permissions) all_roles"
    by code_simp
  then show ?thesis using all_roles_complete [of r] all_permissions_complete [of p] by (simp add: list_all_iff)
qed

text \<open>
  The security tests attack what must fail: in every privilege-escalation case the guard of the
  attacked chaincode transaction refuses the actor's role.
\<close>

theorem escalation_refused:
  assumes "c \<in> set (privilege_escalation_cases expiry)"
  shows "\<exists>guard. transaction_guard (transaction c) = Some guard \<and> \<not> guard (actor_role c)"
proof -
  have sensor: "\<not> issue_token_guard SENSOR" "\<not> revoke_token_guard SUPPLY_CHAIN" by code_simp+
  from assms show ?thesis
    by (auto simp: privilege_escalation_cases_def transaction_guard_def sensor assign_role_guard_def
          revoke_role_guard_def prune_nonces_guard_def)
qed

theorem escalation_refused_witness:
  "\<exists>guard. transaction_guard ''PruneNonces'' = Some guard \<and> \<not> guard FARMER"
  using escalation_refused [of "\<lparr>actor_role = FARMER, transaction = ''PruneNonces'', case_args = [''1''],
      case_reason = ''farmer nonce pruning''\<rparr>" "''2030''"]
  by (simp add: privilege_escalation_cases_def)

text \<open>
  What the corrected tables change: exactly two grants of the deployed chaincode disappear, the
  certifier's \<open>ReadZone\<close> and the agronomist's \<open>ControlZone\<close>, and none is added.
\<close>

theorem intended_corrections:
  "has_permission (role_value r) (permission_value p) ROLE_PERMISSIONS_INTENDED ROLE_ANCESTORS_INTENDED \<longleftrightarrow>
     is_allowed r p \<and> (r, p) \<noteq> (CERTIFIER, READ_ZONE) \<and> (r, p) \<noteq> (AGRONOMIST, CONTROL_ZONE)"
proof -
  have "list_all (\<lambda>r. list_all (\<lambda>p.
      has_permission (role_value r) (permission_value p) ROLE_PERMISSIONS_INTENDED ROLE_ANCESTORS_INTENDED =
      (is_allowed r p \<and> (r, p) \<noteq> (CERTIFIER, READ_ZONE) \<and> (r, p) \<noteq> (AGRONOMIST, CONTROL_ZONE)))
      all_permissions) all_roles"
    by code_simp
  then show ?thesis using all_roles_complete [of r] all_permissions_complete [of p] by (auto simp: list_all_iff)
qed

lemma intended_le_deployed:
  "effective_set ROLE_ANCESTORS_INTENDED ROLE_PERMISSIONS_INTENDED r \<subseteq>
     effective_set ROLE_ANCESTORS_DEPLOYED ROLE_PERMISSIONS_DEPLOYED r"
proof (cases "dict_get ROLE_ANCESTORS_INTENDED r")
  case None
  then show ?thesis by (simp add: effective_set_def)
next
  case (Some as)
  have "list_all (\<lambda>(r, as). oracle_permissions r ROLE_PERMISSIONS_INTENDED ROLE_ANCESTORS_INTENDED \<subseteq>
      oracle_permissions r ROLE_PERMISSIONS_DEPLOYED ROLE_ANCESTORS_DEPLOYED) ROLE_ANCESTORS_INTENDED"
    by code_simp
  with map_of_SomeD [OF Some] show ?thesis by (auto simp: list_all_iff oracle_permissions_set)
qed

lemma scope_split:
  "length (role_op_scope sec) =
     length (confirmed_by perms anc sec) + length (discrepant_by perms anc sec) +
     length (filter (\<lambda>a. dict_get OPERATION_PERMISSION (operation a) = None) (role_op_scope sec))"
proof -
  have "length xs = length (filter (\<lambda>a. should_permit perms anc a = Some False) xs) +
      length (filter (\<lambda>a. should_permit perms anc a = Some True) xs) +
      length (filter (\<lambda>a. dict_get OPERATION_PERMISSION (operation a) = None) xs)" for xs
    by (induction xs) (auto simp: should_permit_def)
  then show ?thesis unfolding confirmed_by_def discrepant_by_def .
qed

lemma intended_permits_less:
  "should_permit ROLE_PERMISSIONS_INTENDED ROLE_ANCESTORS_INTENDED a = Some True \<Longrightarrow>
     should_permit ROLE_PERMISSIONS_DEPLOYED ROLE_ANCESTORS_DEPLOYED a = Some True"
  using intended_le_deployed [of "attacker_role a"]
  by (auto simp: should_permit_def has_permission_def oracle_permissions_set Let_def)

lemma discrepant_intended_le:
  "length (discrepant_by ROLE_PERMISSIONS_INTENDED ROLE_ANCESTORS_INTENDED sec)
     \<le> length (discrepant_by ROLE_PERMISSIONS_DEPLOYED ROLE_ANCESTORS_DEPLOYED sec)"
  unfolding discrepant_by_def by (rule filter_length_mono) (rule intended_permits_less)

lemma percentages_split:
  fixes n c d u :: nat
  assumes "n = c + d + u" "n \<noteq> 0"
  shows "(of_nat c / of_nat n * 100 + of_nat d / of_nat n * 100 :: rat) = 100 - of_nat u / of_nat n * 100"
proof -
  have "(of_nat c + of_nat d + of_nat u :: rat) = of_nat n" using assms(1) by simp
  then have "(of_nat c / of_nat n + of_nat d / of_nat n + of_nat u / of_nat n :: rat) = of_nat n / of_nat n"
    by (simp only: add_divide_distrib [symmetric])
  with assms(2) have "(of_nat c / of_nat n + of_nat d / of_nat n + of_nat u / of_nat n) * 100 = (100 :: rat)" by simp
  then show ?thesis by (simp only: distrib_right eq_diff_eq)
qed

text \<open>
  The oracle's report: it divides by zero exactly when no attempt is in its scope; otherwise,
  under either pair of tables, the attempts in scope split into confirmed, discrepant and unmapped
  ones, and the percentages add up accordingly; and because the intended tables grant nothing that the
  deployed ones do not, they leave no more discrepant attempts and confirm no fewer.
\<close>

theorem oracle_counts:
  "case oracle_main sec of
     Inl err \<Rightarrow> err = ZeroDivisionError \<and> role_op_scope sec = []
   | Inr rep \<Rightarrow>
       role_op_scope sec \<noteq> [] \<and>
       (let unmapped = length (filter (\<lambda>a. dict_get OPERATION_PERMISSION (operation a) = None) (role_op_scope sec))
        in scoped_attempts rep = confirmed_deployed rep + discrepant_deployed rep + unmapped \<and>
           scoped_attempts rep = confirmed_intended rep + discrepant_intended rep + unmapped \<and>
           confirmed_pct rep + discrepant_pct rep =
             100 - of_nat unmapped / of_nat (scoped_attempts rep) * 100) \<and>
       discrepant_intended rep \<le> discrepant_deployed rep \<and>
       confirmed_deployed rep \<le> confirmed_intended rep"
proof (cases "role_op_scope sec = []")
  case True
  then show ?thesis by (auto simp: oracle_main_def Let_def percent_of_def)
next
  case False
  let ?DP = ROLE_PERMISSIONS_DEPLOYED and ?DA = ROLE_ANCESTORS_DEPLOYED
  let ?IP = ROLE_PERMISSIONS_INTENDED and ?IA = ROLE_ANCESTORS_INTENDED
  let ?n = "length (role_op_scope sec)" and ?c = "length (confirmed_by ?DP ?DA sec)"
  let ?d = "length (discrepant_by ?DP ?DA sec)"
  let ?u = "length (filter (\<lambda>a. dict_get OPERATION_PERMISSION (operation a) = None) (role_op_scope sec))"
  from False have ne: "sec \<noteq> []" "?n \<noteq> 0" by (auto simp: role_op_scope_def)
  note n = scope_split [of sec ?DP ?DA] and n' = scope_split [of sec ?IP ?IA]
  note le = discrepant_intended_le [of sec]
  note pct = percentages_split [OF n ne(2)]
  with ne n n' le False show ?thesis by (simp add: oracle_main_def Let_def percent_of_def)
qed

end
