(* ===== verification/Crt_Quantization.thy ===== *)
theory Crt_Quantization
  imports Crt_Decode Py_Number
begin

text \<open>
  \<open>paper_iot/V10/analysis/scripts/05_crt_quantization.py\<close>: recovery bounds of the deployed and the
  corrected moduli, packing of a reading, reconstruction of packed values from the released trace,
  and the quantisation error of the corrected encoder. Arrays are lists, floats exact rationals,
  \<open>np.round\<close> rounds halves to even. The trace (read from a CSV file) is an argument. The root mean
  square errors and the report file are in \<open>Crt_Report\<close>.
\<close>

section \<open>Bounds\<close>

definition MODULI_DEPLOYED :: "int list" where
  "MODULI_DEPLOYED = [97, 101, 103]"

definition MODULI_CORRECTED :: "int list" where
  "MODULI_CORRECTED = [253, 254, 255]"

definition TEMP_BUCKETS :: int where
  "TEMP_BUCKETS = 201"

record bounds =
  b_ab :: int
  b_ac :: int
  b_bc :: int
  b_min :: int
  b_triple :: int

text \<open>\<open>a, b, c = moduli\<close> raises unless there are exactly three.\<close>

fun pairwise_bounds :: "int list \<Rightarrow> bounds result" where
  "pairwise_bounds [a, b, c] =
     Inr \<lparr>b_ab = a * b, b_ac = a * c, b_bc = b * c, b_min = min (min (a * b) (a * c)) (b * c),
          b_triple = a * b * c\<rparr>"
| "pairwise_bounds _ = Inl (ValueError ''not three values to unpack'')"

section \<open>Packing a reading\<close>

definition clip :: "int \<Rightarrow> int \<Rightarrow> int \<Rightarrow> int" where
  "clip x lo hi = min (max x lo) hi"

definition encode_packed :: "int \<Rightarrow> int \<Rightarrow> int" where
  "encode_packed soil_raw temp_centi_c =
     (let soil = clip soil_raw 0 4095;
          bucket = clip ((temp_centi_c + 5500) div 100) 0 (TEMP_BUCKETS - 1)
      in soil * TEMP_BUCKETS + bucket)"

record trace_row =
  temp_c :: rat
  soil_moisture :: rat
  crt_residues_received :: int

definition soil_raw_of :: "string \<Rightarrow> rat \<Rightarrow> int" where
  "soil_raw_of polarity pct =
     (if polarity = ''direct'' then round_half_even (pct / 100 * 4095)
      else round_half_even (4095 - pct / 100 * 4095))"

record reconstruction =
  polarity_assumption :: string
  soil_raw_min :: int
  soil_raw_max :: int
  packed_min :: int
  packed_max :: int
  n_total :: nat
  n_exceed_min_bound :: nat
  pct_exceed_min_bound :: rat

definition packed_values :: "trace_row list \<Rightarrow> string \<Rightarrow> int list" where
  "packed_values st polarity =
     map (\<lambda>row. encode_packed (soil_raw_of polarity (soil_moisture row)) (round_half_even (temp_c row * 100))) st"

definition reconstruct :: "trace_row list \<Rightarrow> string \<Rightarrow> reconstruction result" where
  "reconstruct st polarity =
     (let soil_raw = map (\<lambda>row. soil_raw_of polarity (soil_moisture row)) st;
          packed = packed_values st polarity
      in bind_result (pairwise_bounds MODULI_DEPLOYED) (\<lambda>bounds.
           let exceed_min = length (filter (\<lambda>p. p \<ge> b_min bounds) packed)
           in if st = [] then Inl (ValueError ''zero-size array to reduction operation minimum'')
              else Inr \<lparr>polarity_assumption = polarity,
                        soil_raw_min = Min (set soil_raw), soil_raw_max = Max (set soil_raw),
                        packed_min = Min (set packed), packed_max = Max (set packed),
                        n_total = length packed, n_exceed_min_bound = exceed_min,
                        pct_exceed_min_bound = of_nat exceed_min / of_nat (length packed) * 100\<rparr>))"

definition residue_count :: "trace_row list \<Rightarrow> int \<Rightarrow> nat" where
  "residue_count st n = length (filter (\<lambda>row. crt_residues_received row = n) st)"

section \<open>The corrected encoding\<close>

record corrected =
  c_moduli :: "int list"
  c_bounds :: bounds
  legal_domain_max :: int
  below_min_pairwise_bound :: bool

definition corrected_domain :: "corrected result" where
  "corrected_domain =
     bind_result (pairwise_bounds MODULI_CORRECTED) (\<lambda>bounds.
       let legal_max = 255 * TEMP_BUCKETS + (TEMP_BUCKETS - 1)
       in Inr \<lparr>c_moduli = MODULI_CORRECTED, c_bounds = bounds, legal_domain_max = legal_max,
               below_min_pairwise_bound = legal_max < b_min bounds\<rparr>)"

definition err_trunc :: "int \<Rightarrow> rat" where
  "err_trunc raw = of_int \<bar>raw div 16 * 16 - raw\<bar> / 4095 * 100"

definition err_round :: "int \<Rightarrow> rat" where
  "err_round raw =
     \<bar>of_int (round_half_even (of_int raw / 4095 * 255)) / 255 * 4095 - of_int raw\<bar> / 4095 * 100"

text \<open>The maxima over the exhaustive sweep of the 12-bit domain.\<close>

definition max_err :: "(int \<Rightarrow> rat) \<Rightarrow> rat" where
  "max_err err = Max (set (map err [0..4095]))"

section \<open>Properties\<close>

interpretation corrected_moduli: coprime_moduli MODULI_CORRECTED
proof unfold_locales
  have "\<forall>m \<in> set MODULI_CORRECTED. 1 < m" by (simp add: MODULI_CORRECTED_def)
  then show "1 < m" if "m \<in> set MODULI_CORRECTED" for m using that by blast
  have "\<forall>m \<in> set MODULI_CORRECTED. \<forall>n \<in> set MODULI_CORRECTED. m \<noteq> n \<longrightarrow> coprime m n" by code_simp
  then show "coprime m n" if "m \<in> set MODULI_CORRECTED" "n \<in> set MODULI_CORRECTED" "m \<noteq> n" for m n
    using that by blast
qed

lemma encode_packed_range: "0 \<le> encode_packed s t \<and> encode_packed s t \<le> 823295"
  by (simp add: encode_packed_def clip_def TEMP_BUCKETS_def Let_def min_def max_def)

lemma corrected_domain_value:
  "corrected_domain = Inr \<lparr>c_moduli = MODULI_CORRECTED,
     c_bounds = \<lparr>b_ab = 64262, b_ac = 64515, b_bc = 64770, b_min = 64262, b_triple = 16386810\<rparr>,
     legal_domain_max = 51455, below_min_pairwise_bound = True\<rparr>"
  by (simp add: corrected_domain_def MODULI_CORRECTED_def TEMP_BUCKETS_def)

text \<open>
  The corrected design keeps its promise: the report says that its domain lies below every
  pairwise bound, and therefore any two different residues determine a value of that domain.
  (\<open>deployed_packing_ambiguous\<close> shows that the deployed moduli and packing do not have this.)
\<close>

theorem corrected_two_residues_suffice:
  assumes "corrected_domain = Inr c" "m \<in> set (c_moduli c)" "n \<in> set (c_moduli c)" "m \<noteq> n"
    "0 \<le> v" "v \<le> legal_domain_max c" "0 \<le> w" "w \<le> legal_domain_max c"
    "v mod m = w mod m" "v mod n = w mod n"
  shows "below_min_pairwise_bound c \<and> v = w"
proof -
  have c: "c_moduli c = MODULI_CORRECTED" "legal_domain_max c = 51455" "below_min_pairwise_bound c"
    using assms(1) by (auto simp: corrected_domain_value)
  have "v mod prod_list [m, n] = w mod prod_list [m, n]"
    using assms(2-4,9,10) by (intro corrected_moduli.congruent_unique) (auto simp: c(1))
  then have eq: "v mod (m * n) = w mod (m * n)" by simp
  have "m * n \<in> {64262, 64515, 64770}" using assms(2-4) by (auto simp: c(1) MODULI_CORRECTED_def)
  then have "51455 < m * n" by auto
  then have "v < m * n" "w < m * n" using assms(6,8) by (auto simp: c(2))
  with eq assms(5,7) have "v = w" by (metis mod_pos_pos_trivial)
  with c(3) show ?thesis by simp
qed

theorem corrected_two_residues_suffice_witness:
  "\<exists>c. corrected_domain = Inr c \<and> below_min_pairwise_bound c"
proof -
  obtain c where c: "corrected_domain = Inr c" "legal_domain_max c = 51455" "c_moduli c = [253, 254, 255]"
    by (simp add: corrected_domain_value MODULI_CORRECTED_def)
  with corrected_two_residues_suffice [OF c(1), of 253 254 51455 51455] show ?thesis by auto
qed

lemma deployed_packing_ambiguous:
  "encode_packed 100 (-5500) \<noteq> encode_packed 148 9400 \<and>
   encode_packed 100 (-5500) mod 97 = encode_packed 148 9400 mod 97 \<and>
   encode_packed 100 (-5500) mod 101 = encode_packed 148 9400 mod 101"
  by (simp add: encode_packed_def clip_def TEMP_BUCKETS_def)

lemma exceed_iff:
  "9797 \<le> encode_packed s t \<longleftrightarrow>
     48 < clip s 0 4095 \<or> clip s 0 4095 = 48 \<and> 149 \<le> clip ((t + 5500) div 100) 0 200"
proof -
  have "0 \<le> clip ((t + 5500) div 100) 0 200" "clip ((t + 5500) div 100) 0 200 \<le> 200" by (auto simp: clip_def)
  then show ?thesis by (simp add: encode_packed_def TEMP_BUCKETS_def Let_def) linarith
qed

definition loses_reading :: "string \<Rightarrow> trace_row \<Rightarrow> bool" where
  "loses_reading polarity row \<longleftrightarrow>
     (let soil = clip (soil_raw_of polarity (soil_moisture row)) 0 4095;
          bucket = clip ((round_half_even (temp_c row * 100) + 5500) div 100) 0 200
      in 48 < soil \<or> soil = 48 \<and> 149 \<le> bucket)"

text \<open>
  Which readings the two-residue bound loses: a packed value reaches the smallest pairwise bound
  of the deployed moduli exactly when the clipped soil count is above 48, or is 48 with a temperature
  bucket of at least 149. The report counts precisely those rows, its percentage is 100 exactly when
  every row is one of them, and all packed values lie in \<open>[0, 823295]\<close>.
\<close>

theorem reconstruct_counts_losses:
  assumes "reconstruct st polarity = Inr rep"
  shows "n_total rep = length st \<and> n_exceed_min_bound rep = length (filter (loses_reading polarity) st) \<and>
    (pct_exceed_min_bound rep = 100 \<longleftrightarrow> list_all (loses_reading polarity) st) \<and>
    0 \<le> packed_min rep \<and> packed_min rep \<le> packed_max rep \<and> packed_max rep \<le> 823295"
proof -
  have ne: "st \<noteq> []" using assms by (auto simp: reconstruct_def result_simps Let_def)
  let ?packed = "packed_values st polarity"
  have eq: "(\<lambda>p. 9797 \<le> p) (encode_packed (soil_raw_of polarity (soil_moisture row)) (round_half_even (temp_c row * 100)))
      = loses_reading polarity row" for row
    by (simp only: exceed_iff loses_reading_def Let_def)
  have n: "length (filter (\<lambda>p. 9797 \<le> p) ?packed) = length (filter (loses_reading polarity) st)"
    by (simp add: packed_values_def filter_map comp_def eq)
  from assms ne have rep: "n_total rep = length st" "packed_min rep = Min (set ?packed)" "packed_max rep = Max (set ?packed)"
    "n_exceed_min_bound rep = length (filter (loses_reading polarity) st)"
    "pct_exceed_min_bound rep = of_nat (length (filter (loses_reading polarity) st)) / of_nat (length st) * 100"
    by (auto simp: reconstruct_def result_simps Let_def MODULI_DEPLOYED_def n packed_values_def [of st, symmetric])
      (simp_all add: packed_values_def)
  have "pct_exceed_min_bound rep = 100 \<longleftrightarrow> length (filter (loses_reading polarity) st) = length st"
    using ne by (simp add: rep(5) field_simps)
  also have "\<dots> \<longleftrightarrow> list_all (loses_reading polarity) st"
    by (metis (no_types, lifting) filter_True length_filter_less less_irrefl list_all_iff)
  finally have pct: "pct_exceed_min_bound rep = 100 \<longleftrightarrow> list_all (loses_reading polarity) st" .
  have fin: "finite (set ?packed)" "set ?packed \<noteq> {}" using ne by (simp_all add: packed_values_def)
  have "Min (set ?packed) \<in> set ?packed" "Max (set ?packed) \<in> set ?packed" using fin by (simp_all del: set_map)
  then have "0 \<le> Min (set ?packed)" "Max (set ?packed) \<le> 823295"
    using encode_packed_range by (auto simp: packed_values_def)
  moreover have "Min (set ?packed) \<le> Max (set ?packed)" using fin by (meson Max_in Min_le)
  ultimately show ?thesis using rep pct by simp
qed

theorem reconstruct_counts_losses_witness:
  "\<exists>rep. reconstruct [\<lparr>temp_c = 25, soil_moisture = 40, crt_residues_received = 2\<rparr>] ''direct'' = Inr rep \<and>
     n_exceed_min_bound rep = 1 \<and> pct_exceed_min_bound rep = 100"
proof -
  let ?st = "[\<lparr>temp_c = 25, soil_moisture = 40, crt_residues_received = 2\<rparr>]"
  have l: "loses_reading ''direct'' \<lparr>temp_c = 25, soil_moisture = 40, crt_residues_received = 2\<rparr>"
    by code_simp
  obtain rep where r: "reconstruct ?st ''direct'' = Inr rep"
    by (simp add: reconstruct_def MODULI_DEPLOYED_def Let_def)
  from reconstruct_counts_losses [OF r] r l show ?thesis by simp
qed

text \<open>
  The truncating quantiser is off by at most 15 of 4095 counts, and the report's maximum over
  the exhaustive sweep of the 12-bit domain is exactly that: 1500/4095 per cent of full scale.
\<close>

theorem truncation_error_max:
  "max_err err_trunc = 1500 / 4095"
proof -
  have e: "err_trunc raw = of_int (raw mod 16) / 4095 * 100" if "0 \<le> raw" for raw
  proof -
    have "\<bar>raw div 16 * 16 - raw\<bar> = raw mod 16"
      using div_mult_mod_eq [of raw 16] pos_mod_sign [of 16 raw] by linarith
    then show ?thesis by (simp add: err_trunc_def)
  qed
  have "err_trunc raw \<le> 1500 / 4095" if "0 \<le> raw" for raw
  proof -
    have "raw mod 16 \<le> 15" using pos_mod_bound [of 16 raw] by linarith
    then have "(of_int (raw mod 16) :: rat) \<le> of_int 15" by (simp only: of_int_le_iff)
    with e [OF that] show ?thesis by simp
  qed
  moreover have "err_trunc 15 = 1500 / 4095" using e [of 15] by simp
  ultimately show ?thesis
    unfolding max_err_def set_map set_upto by (intro Max_eqI) (auto intro: rev_image_eqI [of 15])
qed

end
