(* ===== verification/Py_Csv.thy ===== *)
theory Py_Csv
  imports Py_Text
begin

text \<open>
  The part of Python's \<open>csv\<close> module the source uses, in the default dialect: the reader as a state
  machine over the characters of the file (opened with \<open>newline=""\<close>), \<open>DictReader\<close>, and the writer with
  minimal quoting. Quoted fields may hold delimiters, doubled quotes and line ends; a record ends at
  CR, LF or CR LF. The extra values of a row that is longer than the header (Python keeps them under
  the key \<open>None\<close>, which the source never reads) are dropped; the values missing from a shorter row are
  \<open>None\<close>. The main lemma is the round trip from rows to text and back.
\<close>

section \<open>Reading\<close>

datatype csv_mode = StartRecord | EatCrnl | StartField | InField | InQuoted | QuoteInQuoted

type_synonym csv_state = "csv_mode \<times> string \<times> string list \<times> string list list"

abbreviation LF :: char where "LF \<equiv> CHR 0x0A"
abbreviation CR :: char where "CR \<equiv> CHR 0x0D"
abbreviation QUOTE :: char where "QUOTE \<equiv> CHR 0x22"
abbreviation COMMA :: char where "COMMA \<equiv> CHR 0x2C"

text \<open>\<open>after_eol c\<close> is the state after a line end: a LF directly after a CR belongs to it.\<close>

definition after_eol :: "char \<Rightarrow> csv_mode" where
  "after_eol c = (if c = CR then EatCrnl else StartRecord)"

definition is_eol :: "char \<Rightarrow> bool" where
  "is_eol c \<longleftrightarrow> c = CR \<or> c = LF"

definition step_field :: "char \<Rightarrow> string list \<Rightarrow> string list list \<Rightarrow> csv_state" where
  "step_field c fields rows =
     (if is_eol c then (after_eol c, [], [], rows @ [fields @ [[]]])
      else if c = QUOTE then (InQuoted, [], fields, rows)
      else if c = COMMA then (StartField, [], fields @ [[]], rows)
      else (InField, [c], fields, rows))"

definition step_record :: "char \<Rightarrow> string list list \<Rightarrow> csv_state" where
  "step_record c rows = (if is_eol c then (after_eol c, [], [], rows @ [[]]) else step_field c [] rows)"

fun csv_step :: "csv_state \<Rightarrow> char \<Rightarrow> csv_state" where
  "csv_step (StartRecord, f, fields, rows) c = step_record c rows"
| "csv_step (EatCrnl, f, fields, rows) c =
     (if c = LF then (StartRecord, [], [], rows) else step_record c rows)"
| "csv_step (StartField, f, fields, rows) c = step_field c fields rows"
| "csv_step (InField, f, fields, rows) c =
     (if is_eol c then (after_eol c, [], [], rows @ [fields @ [f]])
      else if c = COMMA then (StartField, [], fields @ [f], rows)
      else (InField, f @ [c], fields, rows))"
| "csv_step (InQuoted, f, fields, rows) c =
     (if c = QUOTE then (QuoteInQuoted, f, fields, rows) else (InQuoted, f @ [c], fields, rows))"
| "csv_step (QuoteInQuoted, f, fields, rows) c =
     (if c = QUOTE then (InQuoted, f @ [c], fields, rows)
      else if c = COMMA then (StartField, [], fields @ [f], rows)
      else if is_eol c then (after_eol c, [], [], rows @ [fields @ [f]])
      else (InField, f @ [c], fields, rows))"

text \<open>At the end of the file an unfinished record is kept.\<close>

fun csv_finish :: "csv_state \<Rightarrow> string list list" where
  "csv_finish (m, f, fields, rows) =
     (if m = StartRecord \<or> m = EatCrnl then rows else rows @ [fields @ [f]])"

definition csv_rows :: "string \<Rightarrow> string list list" where
  "csv_rows txt = csv_finish (foldl csv_step (StartRecord, [], [], []) txt)"

type_synonym csv_row = "(string, string option) dict"

definition dict_row :: "string list \<Rightarrow> string list \<Rightarrow> csv_row" where
  "dict_row names row =
     fold (\<lambda>(k, v). dict_set k v) (zip names (map Some row @ replicate (length names - length row) None)) []"

text \<open>\<open>list(csv.DictReader(f))\<close>: the first record names the fields, empty records are skipped.\<close>

definition dict_rows :: "string \<Rightarrow> csv_row list" where
  "dict_rows txt =
     (case csv_rows txt of [] \<Rightarrow> [] | names # rows \<Rightarrow> map (dict_row names) (filter (\<lambda>r. r \<noteq> []) rows))"

text \<open>\<open>row.get(key)\<close> and \<open>row[key]\<close>.\<close>

definition row_get :: "csv_row \<Rightarrow> string \<Rightarrow> string option" where
  "row_get row k = (case dict_get row k of None \<Rightarrow> None | Some v \<Rightarrow> v)"

definition row_index :: "csv_row \<Rightarrow> string \<Rightarrow> string option result" where
  "row_index row k = (case dict_get row k of None \<Rightarrow> Inl (KeyError k) | Some v \<Rightarrow> Inr v)"

section \<open>Writing\<close>

definition needs_quotes :: "string \<Rightarrow> bool" where
  "needs_quotes s \<longleftrightarrow> list_ex (\<lambda>c. c = COMMA \<or> c = QUOTE \<or> is_eol c) s"

definition double_quotes :: "string \<Rightarrow> string" where
  "double_quotes s = concat (map (\<lambda>c. if c = QUOTE then [QUOTE, QUOTE] else [c]) s)"

definition quoted :: "string \<Rightarrow> string" where
  "quoted s = QUOTE # double_quotes s @ [QUOTE]"

definition write_field :: "string \<Rightarrow> string" where
  "write_field s = (if needs_quotes s then quoted s else s)"

definition write_row :: "string list \<Rightarrow> string" where
  "write_row row = (if row = [[]] then quoted [] else join [COMMA] (map write_field row)) @ [CR, LF]"

definition write_rows :: "string list list \<Rightarrow> string" where
  "write_rows rows = concat (map write_row rows)"

section \<open>The round trip\<close>

lemma is_eol_simps [simp]: "is_eol CR" "is_eol LF" "\<not> is_eol QUOTE" "\<not> is_eol COMMA"
  by (simp_all add: is_eol_def)

lemma needs_quotes_Cons: "needs_quotes (c # s) \<longleftrightarrow> c = COMMA \<or> c = QUOTE \<or> is_eol c \<or> needs_quotes s"
  by (simp add: needs_quotes_def)

lemma read_plain:
  "\<not> needs_quotes s \<Longrightarrow> foldl csv_step (InField, f, fields, rows) s = (InField, f @ s, fields, rows)"
  by (induction s arbitrary: f) (auto simp: needs_quotes_Cons)

lemma read_doubled:
  "foldl csv_step (InQuoted, f, fields, rows) (double_quotes s) = (InQuoted, f @ s, fields, rows)"
  by (induction s arbitrary: f) (auto simp: double_quotes_def)

lemma read_quoted:
  assumes "m = StartField \<or> m = StartRecord \<and> fields = []"
  shows "foldl csv_step (m, [], fields, rows) (quoted s) = (QuoteInQuoted, s, fields, rows)"
  using assms by (auto simp: quoted_def read_doubled step_field_def step_record_def)

lemma read_field_comma:
  assumes "m = StartField \<or> m = StartRecord \<and> fields = []"
  shows "foldl csv_step (m, [], fields, rows) (write_field s @ [COMMA]) = (StartField, [], fields @ [s], rows)"
proof (cases "needs_quotes s")
  case True
  with read_quoted [OF assms] show ?thesis by (simp add: write_field_def)
next
  case False
  then show ?thesis using assms
    by (cases s) (auto simp: write_field_def step_field_def step_record_def needs_quotes_Cons read_plain)
qed

lemma read_field_eol:
  assumes "m = StartField \<or> m = StartRecord \<and> fields = [] \<and> s \<noteq> []"
  shows "foldl csv_step (m, [], fields, rows) (write_field s @ [CR, LF]) = (StartRecord, [], [], rows @ [fields @ [s]])"
proof (cases "needs_quotes s")
  case True
  with assms read_quoted [of m fields rows s] show ?thesis by (auto simp: write_field_def after_eol_def)
next
  case False
  then show ?thesis using assms
    by (cases s) (auto simp: write_field_def step_field_def step_record_def needs_quotes_Cons read_plain after_eol_def)
qed

lemma read_joined:
  "row \<noteq> [] \<Longrightarrow>
     foldl csv_step (StartField, [], fields, rows) (join [COMMA] (map write_field row) @ [CR, LF]) =
       (StartRecord, [], [], rows @ [fields @ row])"
proof (induction row arbitrary: fields)
  case (Cons s row)
  show ?case
  proof (cases row)
    case Nil
    with read_field_eol [of StartField fields s rows] show ?thesis by simp
  next
    case (Cons t ts)
    have "foldl csv_step (StartField, [], fields, rows) (join [COMMA] (map write_field (s # row)) @ [CR, LF]) =
        foldl csv_step (StartField, [], fields, rows)
          ((write_field s @ [COMMA]) @ (join [COMMA] (map write_field row) @ [CR, LF]))"
      using Cons by simp
    also have "\<dots> = (StartRecord, [], [], rows @ [(fields @ [s]) @ row])"
      using read_field_comma [of StartField fields rows s] Cons.IH [of "fields @ [s]"] Cons
      by (simp only: foldl_append) simp
    finally show ?thesis by simp
  qed
qed simp

lemma read_row: "foldl csv_step (StartRecord, [], [], rows) (write_row row) = (StartRecord, [], [], rows @ [row])"
proof (cases row)
  case Nil
  then show ?thesis by (simp add: write_row_def step_record_def after_eol_def)
next
  case (Cons s ss)
  show ?thesis
  proof (cases ss)
    case Nil
    with Cons read_quoted [of StartRecord "[]" rows "[]"] read_field_eol [of StartRecord "[]" s rows]
    show ?thesis by (auto simp: write_row_def after_eol_def)
  next
    case (Cons t ts)
    then have row: "write_row row =
        (write_field s @ [COMMA]) @ (join [COMMA] (map write_field ss) @ [CR, LF])"
      using \<open>row = s # ss\<close> by (simp add: write_row_def)
    show ?thesis
      unfolding row using read_field_comma [of StartRecord "[]" rows s] read_joined [of ss "[s]" rows] Cons \<open>row = s # ss\<close>
      by (simp only: foldl_append) simp
  qed
qed

lemma read_rows: "foldl csv_step (StartRecord, [], [], rows) (write_rows rs) = (StartRecord, [], [], rows @ rs)"
  by (induction rs arbitrary: rows) (auto simp: write_rows_def read_row)

lemma csv_rows_write_rows: "csv_rows (write_rows rows) = rows"
  by (simp add: csv_rows_def read_rows)

section \<open>Rows as dictionaries\<close>

lemma dict_row_get:
  assumes "distinct names" "length row = length names" "i < length names"
  shows "dict_get (dict_row names row) (names ! i) = Some (Some (row ! i))"
proof -
  have fresh: "dict_get (fold (\<lambda>(k, v). dict_set k v) kvs d) k =
      (case map_of kvs k of None \<Rightarrow> dict_get d k | Some v \<Rightarrow> Some v)"
    if "distinct (map fst kvs)" for kvs d and k :: string
    using that
  proof (induction kvs arbitrary: d)
    case (Cons kv kvs)
    obtain a b where kv: "kv = (a, b)" by fastforce
    with Cons.prems have a: "map_of kvs a = None" by (auto simp: map_of_eq_None_iff)
    from Cons kv a show ?case by (auto simp: dict_get_set split: option.splits)
  qed simp
  have "map_of (zip names (map Some row)) (names ! i) = Some (Some (row ! i))"
    using assms by (intro map_of_is_SomeI) (auto simp: set_zip)
  with assms show ?thesis by (simp add: dict_row_def fresh)
qed

text \<open>
  Writing a header and rows of the header's length, and reading the file with \<open>DictReader\<close>, gives the
  rows back under their names.
\<close>

lemma dict_rows_write_rows:
  assumes "names \<noteq> []" "\<And>row. row \<in> set rows \<Longrightarrow> length row = length names"
  shows "dict_rows (write_rows (names # rows)) = map (dict_row names) rows"
proof -
  have "r \<noteq> []" if "r \<in> set rows" for r using assms(2) [OF that] assms(1) by auto
  then have "filter (\<lambda>r. r \<noteq> []) rows = rows" by (simp add: filter_id_conv)
  then show ?thesis by (simp add: dict_rows_def csv_rows_write_rows)
qed

end
