(* ===== verification/Live_Report.thy ===== *)
theory Live_Report
  imports Paper_Benchmarks Py_Csv Py_Number
begin

text \<open>
  \<open>data/comp.py\<close>: comparison of live benchmark results with the values reported in the paper. The
  three result files are texts (absent files are \<open>None\<close>) read by the CSV reader of \<open>Py_Csv\<close>; the
  parsed paper summary is an argument, an error of loading it included (\<open>Json_Endpoints\<close> loads it). \<open>build_report\<close> returns the
  exit code and the report it writes; \<open>live_main\<close> turns every exception into exit code 2. Creating
  the results directory, the printed diagnostics and the parsing of the command line are left out.
  The lemmas follow a value from a cell of a file to the exit code, and a number to its text and back.
\<close>

section \<open>Results\<close>

record check_result =
  cr_metric :: string
  cr_paper_value :: string
  cr_live_value :: string
  cr_acceptable_range :: string
  cr_status :: string
  cr_comment :: string

definition check_failed :: "check_result \<Rightarrow> bool" where
  "check_failed c \<longleftrightarrow> cr_status c = ''FAIL''"

record live_metric =
  lm_value :: "rat option"
  lm_comment :: string

section \<open>Reading the live files\<close>

definition read_csv_rows :: "string \<Rightarrow> csv_row list" where
  "read_csv_rows txt = dict_rows txt"

definition parse_float :: "string option \<Rightarrow> rat option result" where
  "parse_float value =
     (case value of
        None \<Rightarrow> Inr None
      | Some v \<Rightarrow>
          let cleaned = filter (\<lambda>c. c \<noteq> CHR ''%'') (strip v)
          in if cleaned = [] then Inr None
             else case py_float_str cleaned of
                    Inr q \<Rightarrow> Inr (Some q)
                  | Inl (ValueError _) \<Rightarrow> Inr None
                  | Inl e \<Rightarrow> Inl e)"

text \<open>The criteria pair a column with the text of its expected value.\<close>

definition row_matches :: "(string \<times> string) list \<Rightarrow> csv_row \<Rightarrow> bool" where
  "row_matches criteria row \<longleftrightarrow>
     list_all (\<lambda>(key, expected).
       case row_get row key of
         None \<Rightarrow> False
       | Some actual \<Rightarrow> lower (strip actual) = lower (strip expected)) criteria"

definition rows_matching :: "csv_row list \<Rightarrow> (string \<times> string) list \<Rightarrow> csv_row list" where
  "rows_matching rows criteria = filter (row_matches criteria) rows"

definition summary_value :: "csv_row list \<Rightarrow> rat option result" where
  "summary_value rows =
     (let summary = rows_matching rows [(''concurrency'', int_str 50), (''repeat'', ''summary'')]
      in if summary = [] then Inr None else parse_float (row_get (last summary) ''mean_tps''))"

definition throughput_at_50_clients :: "string \<Rightarrow> live_metric result" where
  "throughput_at_50_clients txt =
     (let rows = read_csv_rows txt
      in bind_result (summary_value rows) (\<lambda>value.
           case value of
             Some v \<Rightarrow> Inr \<lparr>lm_value = Some v, lm_comment = ''50-client summary mean_tps from results/throughput.csv''\<rparr>
           | None \<Rightarrow>
               bind_result (map_result (\<lambda>row. parse_float (row_get row ''tps''))
                   (rows_matching rows [(''concurrency'', int_str 50)])) (\<lambda>samples.
                 let values = List.map_filter id samples
                 in if values \<noteq> []
                    then Inr \<lparr>lm_value = Some (sum_list values / of_nat (length values)),
                              lm_comment = ''average of 50-client TPS samples from results/throughput.csv''\<rparr>
                    else Inr \<lparr>lm_value = None,
                              lm_comment = ''no 50-client HRBAC TPS value found in results/throughput.csv''\<rparr>)))"

text \<open>\<open>max(values, key=...)\<close> keeps the first of equal maxima. \<open>None\<close> prints as \<open>None\<close>.\<close>

fun max_by_value :: "string \<times> rat \<Rightarrow> (string \<times> rat) list \<Rightarrow> string \<times> rat" where
  "max_by_value best [] = best"
| "max_by_value best (x # xs) = max_by_value (if snd best < snd x then x else best) xs"

definition concurrency_text :: "csv_row \<Rightarrow> string" where
  "concurrency_text row =
     (case dict_get row ''concurrency'' of
        None \<Rightarrow> ''unknown'' | Some None \<Rightarrow> ''None'' | Some (Some s) \<Rightarrow> s)"

definition latency_values :: "csv_row list \<Rightarrow> (string \<times> rat) list result" where
  "latency_values rows =
     bind_result (map_result (\<lambda>row. bind_result (parse_float (row_get row ''p95_ms'')) (\<lambda>v.
         Inr (map_option (Pair (concurrency_text row)) v))) rows) (\<lambda>values.
       Inr (List.map_filter id values))"

definition sensor_write_p95_latency :: "string \<Rightarrow> live_metric result" where
  "sensor_write_p95_latency txt =
     bind_result (latency_values (rows_matching (read_csv_rows txt) [(''operation'', ''sensor_write'')])) (\<lambda>values.
       case values of
         [] \<Rightarrow> Inr \<lparr>lm_value = None, lm_comment = ''no sensor_write p95_ms value found in results/latency.csv''\<rparr>
       | v # vs \<Rightarrow>
           (case max_by_value v vs of (concurrency, value) \<Rightarrow>
              Inr \<lparr>lm_value = Some value,
                   lm_comment = ''maximum sensor_write p95_ms from results/latency.csv (concurrency '' @
                     concurrency @ '')''\<rparr>))"

definition field_candidates :: "string list" where
  "field_candidates = [''block_rate_percent'', ''block_rate'', ''blocked_percent'', ''blocked_rate_percent'']"

fun rate_in_row :: "string list \<Rightarrow> csv_row \<Rightarrow> live_metric option result" where
  "rate_in_row [] row = Inr None"
| "rate_in_row (fld # flds) row =
     bind_result (parse_float (row_get row fld)) (\<lambda>value.
       case value of
         None \<Rightarrow> rate_in_row flds row
       | Some v \<Rightarrow>
           Inr (Some \<lparr>lm_value = Some (if fld = ''block_rate'' \<and> v \<le> 1 then v * 100 else v),
                      lm_comment = fld @ '' from results/security.csv''\<rparr>))"

fun first_rate :: "csv_row list \<Rightarrow> live_metric option result" where
  "first_rate [] = Inr None"
| "first_rate (row # rows) =
     bind_result (rate_in_row field_candidates row) (\<lambda>m.
       case m of None \<Rightarrow> first_rate rows | Some lm \<Rightarrow> Inr (Some lm))"

text \<open>\<open>row.get(a) or row.get(b)\<close>.\<close>

definition row_or :: "csv_row \<Rightarrow> string \<Rightarrow> string \<Rightarrow> string option" where
  "row_or row a b = (case row_get row a of Some v \<Rightarrow> if v \<noteq> [] then Some v else row_get row b | None \<Rightarrow> row_get row b)"

definition row_counts :: "csv_row \<Rightarrow> (rat option \<times> rat option) result" where
  "row_counts row =
     bind_result (parse_float (row_or row ''blocked'' ''blocked_attempts'')) (\<lambda>blocked.
     bind_result (parse_float (row_or row ''attempts'' ''total_attempts'')) (\<lambda>attempts.
       Inr (blocked, attempts)))"

fun count_totals :: "csv_row list \<Rightarrow> rat \<times> rat \<times> bool \<Rightarrow> (rat \<times> rat \<times> bool) result" where
  "count_totals [] acc = Inr acc"
| "count_totals (row # rows) (blocked_total, attempts_total, found_counts) =
     bind_result (row_counts row) (\<lambda>counts.
       case counts of
         (Some blocked, Some attempts) \<Rightarrow> count_totals rows (blocked_total + blocked, attempts_total + attempts, True)
       | _ \<Rightarrow> count_totals rows (blocked_total, attempts_total, found_counts))"

definition security_block_rate :: "string \<Rightarrow> live_metric result" where
  "security_block_rate txt =
     (let rows = read_csv_rows txt
      in bind_result (first_rate rows) (\<lambda>m.
           case m of
             Some lm \<Rightarrow> Inr lm
           | None \<Rightarrow>
               bind_result (count_totals rows (0, 0, False)) (\<lambda>(blocked_total, attempts_total, found_counts).
                 if found_counts \<and> attempts_total > 0
                 then Inr \<lparr>lm_value = Some (blocked_total / attempts_total * 100),
                           lm_comment = ''computed from blocked and attempts counts in results/security.csv''\<rparr>
                 else Inr \<lparr>lm_value = None,
                           lm_comment = ''no security block-rate value found in results/security.csv''\<rparr>)))"

section \<open>Checks and report\<close>

definition format_number :: "rat \<Rightarrow> string" where
  "format_number value =
     (if of_int \<lfloor>value\<rfloor> = value then int_str \<lfloor>value\<rfloor>
      else strip_zeros (fixed_str 4 value))"

definition check_metric ::
  "string \<Rightarrow> pyval \<Rightarrow> live_metric option \<Rightarrow> string \<Rightarrow> (rat \<Rightarrow> bool result) \<Rightarrow> string \<Rightarrow> check_result result" where
  "check_metric metric paper_value live acceptable_range predicate missing_comment =
     (case live of
        None \<Rightarrow>
          bind_result (py_str paper_value) (\<lambda>pv.
            Inr \<lparr>cr_metric = metric, cr_paper_value = pv, cr_live_value = ''missing'',
                 cr_acceptable_range = acceptable_range, cr_status = ''MISSING'', cr_comment = missing_comment\<rparr>)
      | Some lm \<Rightarrow>
          (case lm_value lm of
             None \<Rightarrow>
               bind_result (py_str paper_value) (\<lambda>pv.
                 Inr \<lparr>cr_metric = metric, cr_paper_value = pv, cr_live_value = ''unavailable'',
                      cr_acceptable_range = acceptable_range, cr_status = ''MISSING'', cr_comment = lm_comment lm\<rparr>)
           | Some v \<Rightarrow>
               bind_result (predicate v) (\<lambda>passed.
               bind_result (py_str paper_value) (\<lambda>pv.
                 Inr \<lparr>cr_metric = metric, cr_paper_value = pv, cr_live_value = format_number v,
                      cr_acceptable_range = acceptable_range,
                      cr_status = (if passed then ''PASS'' else ''FAIL''), cr_comment = lm_comment lm\<rparr>))))"

definition table_line :: "check_result \<Rightarrow> string" where
  "table_line c =
     ''| '' @ cr_metric c @ '' | '' @ cr_paper_value c @ '' | '' @ cr_live_value c @ '' | '' @
     cr_acceptable_range c @ '' | '' @ cr_status c @ '' | '' @ cr_comment c @ '' |''"

definition markdown_table :: "check_result list \<Rightarrow> string list \<Rightarrow> string" where
  "markdown_table checks missing_files =
     join [LF]
       ([''# Live vs paper benchmark report'', [],
         ''| metric | paper_value | live_value | acceptable_range | status | comment |'',
         ''| --- | ---: | ---: | --- | --- | --- |''] @
        map table_line checks @
        (if missing_files \<noteq> []
         then [[], ''## Missing live benchmark files'', []] @ map (\<lambda>p. ''- `'' @ p @ ''`'') missing_files
         else []) @
        [[]])"

record live_files =
  f_throughput :: "string option"
  f_latency :: "string option"
  f_security :: "string option"

definition missing_files :: "live_files \<Rightarrow> string list" where
  "missing_files files =
     (if f_throughput files = None then [''results/throughput.csv''] else []) @
     (if f_latency files = None then [''results/latency.csv''] else []) @
     (if f_security files = None then [''results/security.csv''] else [])"

definition live_value :: "(string \<Rightarrow> live_metric result) \<Rightarrow> string option \<Rightarrow> live_metric option result" where
  "live_value measure_of file =
     (case file of None \<Rightarrow> Inr None | Some txt \<Rightarrow> bind_result (measure_of txt) (\<lambda>m. Inr (Some m)))"

text \<open>\<open>category.get(key, default)\<close> on a value of the summary.\<close>

fun value_get :: "pyval \<Rightarrow> string \<Rightarrow> pyval \<Rightarrow> pyval result" where
  "value_get (VDict d) k dflt = Inr (get_default d k dflt)"
| "value_get v k dflt = Inl (AttributeError ''object has no attribute get'')"

definition paper_get :: "pydict \<Rightarrow> string \<Rightarrow> string \<Rightarrow> pyval \<Rightarrow> pyval result" where
  "paper_get paper category k dflt = bind_result (category_at paper category) (\<lambda>c. value_get c k dflt)"

definition tps_in_range :: "pyval \<Rightarrow> pyval \<Rightarrow> rat \<Rightarrow> bool result" where
  "tps_in_range expected_min expected_max value =
     bind_result (py_float expected_min) (\<lambda>lo.
       if lo \<le> value then bind_result (py_float expected_max) (\<lambda>hi. Inr (value \<le> hi)) else Inr False)"

definition latency_below :: "pyval \<Rightarrow> rat \<Rightarrow> bool result" where
  "latency_below latency_max value = bind_result (py_float latency_max) (\<lambda>mx. Inr (value < mx))"

definition check_throughput :: "pydict \<Rightarrow> pyval \<Rightarrow> pyval \<Rightarrow> live_metric option \<Rightarrow> check_result result" where
  "check_throughput paper expected_min expected_max live =
     bind_result (category_at paper ''throughput'') (\<lambda>c.
     bind_result (field c ''hrbac_tps'') (\<lambda>paper_value.
     bind_result (py_str expected_min) (\<lambda>lo. bind_result (py_str expected_max) (\<lambda>hi.
       check_metric ''hrbac_tps_50_clients'' paper_value live (lo @ ''-'' @ hi @ '' TPS'')
         (tps_in_range expected_min expected_max) ''results/throughput.csv is missing''))))"

definition check_live_latency :: "pydict \<Rightarrow> pyval \<Rightarrow> live_metric option \<Rightarrow> check_result result" where
  "check_live_latency paper latency_max live =
     bind_result (paper_get paper ''latency'' ''sensor_write_total_latency_ms'' VNone) (\<lambda>fallback.
     bind_result (paper_get paper ''latency'' ''p95_latency_4_peers_ms'' fallback) (\<lambda>paper_value.
     bind_result (py_str latency_max) (\<lambda>mx.
       check_metric ''sensor_write_p95_latency_ms'' paper_value live (''< '' @ mx @ '' ms'')
         (latency_below latency_max) ''results/latency.csv is missing'')))"

definition check_security :: "pyval \<Rightarrow> live_metric option \<Rightarrow> check_result result" where
  "check_security security_rate live =
     check_metric ''security_block_rate_percent'' security_rate live ''100%''
       (\<lambda>value. Inr (value = 100)) ''results/security.csv is missing''"

definition NO_LIVE_MESSAGE :: string where
  "NO_LIVE_MESSAGE = ''No live benchmark result file found. Run the benchmark suite first.''"

text \<open>The three checks of \<open>build_report\<close>, in the order of the code.\<close>

definition live_checks :: "pydict \<Rightarrow> live_files \<Rightarrow> check_result list result" where
  "live_checks paper files =
     bind_result (live_value throughput_at_50_clients (f_throughput files)) (\<lambda>throughput.
     bind_result (live_value sensor_write_p95_latency (f_latency files)) (\<lambda>latency.
     bind_result (live_value security_block_rate (f_security files)) (\<lambda>security.
     bind_result (paper_get paper ''throughput'' ''expected_hrbac_tps_min'' (VInt 55)) (\<lambda>expected_min.
     bind_result (paper_get paper ''throughput'' ''expected_hrbac_tps_max'' (VInt 70)) (\<lambda>expected_max.
     bind_result (paper_get paper ''latency'' ''expected_sensor_write_p95_max_ms'' (VInt 2000)) (\<lambda>latency_max.
     bind_result (paper_get paper ''security'' ''block_rate_percent'' (VInt 100)) (\<lambda>security_rate.
       map_result id
         [check_throughput paper expected_min expected_max throughput,
          check_live_latency paper latency_max latency,
          check_security security_rate security])))))))"

definition build_report :: "bool \<Rightarrow> pydict result \<Rightarrow> live_files \<Rightarrow> (int \<times> string) result" where
  "build_report strict loaded files =
     bind_result loaded (\<lambda>paper.
       if f_throughput files = None \<and> f_latency files = None \<and> f_security files = None
       then Inr (if strict then 1 else 0, NO_LIVE_MESSAGE @ [LF])
       else
         bind_result (live_checks paper files) (\<lambda>checks.
           let report = markdown_table checks (missing_files files)
           in if strict \<and> (missing_files files \<noteq> [] \<or> list_ex (\<lambda>c. cr_status c \<noteq> ''PASS'') checks)
              then Inr (1, report) else Inr (0, report)))"

definition live_main :: "bool \<Rightarrow> pydict result \<Rightarrow> live_files \<Rightarrow> int \<times> string option" where
  "live_main strict loaded files =
     (case build_report strict loaded files of Inr (code, report) \<Rightarrow> (code, Some report) | Inl e \<Rightarrow> (2, None))"

section \<open>Properties\<close>

definition threshold :: "pydict \<Rightarrow> string \<Rightarrow> string \<Rightarrow> int \<Rightarrow> rat result" where
  "threshold paper category k dflt = bind_result (paper_get paper category k (VInt dflt)) py_float"

lemma check_metric_pass:
  "check_metric mt pv live rng predicate missing_comment = Inr c \<Longrightarrow> cr_status c = ''PASS'' \<Longrightarrow>
     \<exists>lm v. live = Some lm \<and> lm_value lm = Some v \<and> predicate v = Inr True"
  by (auto simp: check_metric_def result_simps split: option.splits if_splits)

lemma live_value_Some: "live_value f file = Inr (Some lm) \<longleftrightarrow> (\<exists>txt. file = Some txt \<and> f txt = Inr lm)"
  by (auto simp: live_value_def result_simps split: option.splits)

lemma tps_in_range_True:
  "tps_in_range a b v = Inr True \<longleftrightarrow> (\<exists>lo hi. py_float a = Inr lo \<and> py_float b = Inr hi \<and> lo \<le> v \<and> v \<le> hi)"
  by (auto simp: tps_in_range_def result_simps split: if_splits)

lemma live_checks_pass:
  assumes "live_checks paper files = Inr checks" "list_all (\<lambda>c. cr_status c = ''PASS'') checks"
  shows "\<exists>t l s mt ml ms tps lat rate lo hi mx.
      f_throughput files = Some t \<and> throughput_at_50_clients t = Inr mt \<and> lm_value mt = Some tps \<and>
      f_latency files = Some l \<and> sensor_write_p95_latency l = Inr ml \<and> lm_value ml = Some lat \<and>
      f_security files = Some s \<and> security_block_rate s = Inr ms \<and> lm_value ms = Some rate \<and>
      threshold paper ''throughput'' ''expected_hrbac_tps_min'' 55 = Inr lo \<and>
      threshold paper ''throughput'' ''expected_hrbac_tps_max'' 70 = Inr hi \<and>
      threshold paper ''latency'' ''expected_sensor_write_p95_max_ms'' 2000 = Inr mx \<and>
      lo \<le> tps \<and> tps \<le> hi \<and> lat < mx \<and> rate = 100"
proof -
  from assms(1) obtain thr lat sec emin emax lmax srate c1 c2 c3 where
    live: "live_value throughput_at_50_clients (f_throughput files) = Inr thr"
      "live_value sensor_write_p95_latency (f_latency files) = Inr lat"
      "live_value security_block_rate (f_security files) = Inr sec"
    and bounds: "paper_get paper ''throughput'' ''expected_hrbac_tps_min'' (VInt 55) = Inr emin"
      "paper_get paper ''throughput'' ''expected_hrbac_tps_max'' (VInt 70) = Inr emax"
      "paper_get paper ''latency'' ''expected_sensor_write_p95_max_ms'' (VInt 2000) = Inr lmax"
    and cs: "check_throughput paper emin emax thr = Inr c1" "check_live_latency paper lmax lat = Inr c2"
      "check_security srate sec = Inr c3" "checks = [c1, c2, c3]"
    by (auto simp: live_checks_def result_simps)
  with assms(2) have pass: "cr_status c1 = ''PASS''" "cr_status c2 = ''PASS''" "cr_status c3 = ''PASS''" by auto
  from cs(1) pass(1) obtain mt tps where
    t: "thr = Some mt" "lm_value mt = Some tps" "tps_in_range emin emax tps = Inr True"
    by (auto simp: check_throughput_def result_simps dest!: check_metric_pass)
  from cs(2) pass(2) obtain ml v where
    l: "lat = Some ml" "lm_value ml = Some v" "latency_below lmax v = Inr True"
    by (auto simp: check_live_latency_def result_simps dest!: check_metric_pass)
  from cs(3) pass(3) obtain ms r where s: "sec = Some ms" "lm_value ms = Some r" "r = 100"
    by (auto simp: check_security_def dest!: check_metric_pass)
  from live t(1) l(1) s(1) obtain tt lt st where
    texts: "f_throughput files = Some tt" "throughput_at_50_clients tt = Inr mt"
      "f_latency files = Some lt" "sensor_write_p95_latency lt = Inr ml"
      "f_security files = Some st" "security_block_rate st = Inr ms"
    by (auto simp: live_value_Some)
  from t(3) obtain lo hi where "py_float emin = Inr lo" "py_float emax = Inr hi" and le: "lo \<le> tps" "tps \<le> hi"
    by (auto simp: tps_in_range_True)
  moreover from l(3) obtain mx where "py_float lmax = Inr mx" and lt: "v < mx"
    by (auto simp: latency_below_def result_simps)
  ultimately have th: "threshold paper ''throughput'' ''expected_hrbac_tps_min'' 55 = Inr lo"
    "threshold paper ''throughput'' ''expected_hrbac_tps_max'' 70 = Inr hi"
    "threshold paper ''latency'' ''expected_sensor_write_p95_max_ms'' 2000 = Inr mx"
    using bounds by (simp_all add: threshold_def)
  show ?thesis by (intro exI conjI) (rule texts th le lt t(2) l(2) s(2,3))+
qed

lemma live_main_0:
  assumes "live_main True loaded files = (0, rep)"
  obtains paper checks where "loaded = Inr paper" "live_checks paper files = Inr checks"
    "list_all (\<lambda>c. cr_status c = ''PASS'') checks"
proof -
  from assms obtain report where "build_report True loaded files = Inr (0, report)"
    by (auto simp: live_main_def split: sum.splits)
  then show thesis
    by (auto simp: build_report_def result_simps Let_def list_ex_iff list_all_iff split: if_splits intro: that)
qed

text \<open>
  C24. Exit code 0 of a strict run is evidence: all three result files exist, each yields a value, the
  throughput lies between the paper's bounds, the latency is below its limit and the block rate is
  exactly 100.
\<close>

theorem strict_exit_zero:
  assumes "live_main True (Inr paper) files = (0, rep)"
  shows "\<exists>t l s mt ml ms tps lat rate lo hi mx.
      f_throughput files = Some t \<and> throughput_at_50_clients t = Inr mt \<and> lm_value mt = Some tps \<and>
      f_latency files = Some l \<and> sensor_write_p95_latency l = Inr ml \<and> lm_value ml = Some lat \<and>
      f_security files = Some s \<and> security_block_rate s = Inr ms \<and> lm_value ms = Some rate \<and>
      threshold paper ''throughput'' ''expected_hrbac_tps_min'' 55 = Inr lo \<and>
      threshold paper ''throughput'' ''expected_hrbac_tps_max'' 70 = Inr hi \<and>
      threshold paper ''latency'' ''expected_sensor_write_p95_max_ms'' 2000 = Inr mx \<and>
      lo \<le> tps \<and> tps \<le> hi \<and> lat < mx \<and> rate = 100"
  using assms by (rule live_main_0) (blast intro: live_checks_pass)

definition demo_files :: live_files where
  "demo_files =
     \<lparr>f_throughput = Some (''concurrency,repeat,tps,mean_tps'' @ [LF] @ ''50,1,62.5,'' @ [LF] @
        ''50,summary,,63.25'' @ [LF]),
      f_latency = Some (''operation,concurrency,p95_ms'' @ [LF] @ ''sensor_write,1,1480.5'' @ [LF] @
        ''sensor_write,50,1512'' @ [LF]),
      f_security = Some (''vector,attempts,blocked'' @ [LF] @ ''replay,1000,1000'' @ [LF] @
        ''zone,1000,1000'' @ [LF])\<rparr>"

lemma demo_rows:
  "read_csv_rows (the (f_throughput demo_files)) =
     [[(''concurrency'', Some ''50''), (''repeat'', Some ''1''), (''tps'', Some ''62.5''), (''mean_tps'', Some [])],
      [(''concurrency'', Some ''50''), (''repeat'', Some ''summary''), (''tps'', Some []), (''mean_tps'', Some ''63.25'')]]"
  "read_csv_rows (the (f_latency demo_files)) =
     [[(''operation'', Some ''sensor_write''), (''concurrency'', Some ''1''), (''p95_ms'', Some ''1480.5'')],
      [(''operation'', Some ''sensor_write''), (''concurrency'', Some ''50''), (''p95_ms'', Some ''1512'')]]"
  "read_csv_rows (the (f_security demo_files)) =
     [[(''vector'', Some ''replay''), (''attempts'', Some ''1000''), (''blocked'', Some ''1000'')],
      [(''vector'', Some ''zone''), (''attempts'', Some ''1000''), (''blocked'', Some ''1000'')]]"
  by code_simp+

lemma str_50: "int_str 50 = ''50''" by code_simp

lemmas cell_eval = parse_float_def float_eval rows_matching_def row_matches_def row_get_def str_50

lemma demo_measures:
  "throughput_at_50_clients (the (f_throughput demo_files)) =
     Inr \<lparr>lm_value = Some (253 / 4), lm_comment = ''50-client summary mean_tps from results/throughput.csv''\<rparr>"
  unfolding throughput_at_50_clients_def demo_rows
   by (simp add: summary_value_def cell_eval)
lemma demo_measures2:
  "sensor_write_p95_latency (the (f_latency demo_files)) =
     Inr \<lparr>lm_value = Some 1512, lm_comment = ''maximum sensor_write p95_ms from results/latency.csv (concurrency 50)''\<rparr>"
  unfolding sensor_write_p95_latency_def demo_rows
   by (simp add: latency_values_def cell_eval concurrency_text_def List.map_filter_def)
lemma demo_measures3:
  "security_block_rate (the (f_security demo_files)) =
     Inr \<lparr>lm_value = Some 100, lm_comment = ''computed from blocked and attempts counts in results/security.csv''\<rparr>"
  unfolding security_block_rate_def demo_rows
   by (simp add: cell_eval field_candidates_def row_counts_def row_or_def)
lemma demo_present:
  "f_throughput demo_files = Some (the (f_throughput demo_files))"
  "f_latency demo_files = Some (the (f_latency demo_files))"
  "f_security demo_files = Some (the (f_security demo_files))"
  by (simp_all add: demo_files_def)

lemma demo_live:
  "live_value throughput_at_50_clients (f_throughput demo_files) = Inr (Some \<lparr>lm_value = Some (253 / 4),
     lm_comment = ''50-client summary mean_tps from results/throughput.csv''\<rparr>)"
  "live_value sensor_write_p95_latency (f_latency demo_files) = Inr (Some \<lparr>lm_value = Some 1512,
     lm_comment = ''maximum sensor_write p95_ms from results/latency.csv (concurrency 50)''\<rparr>)"
  "live_value security_block_rate (f_security demo_files) = Inr (Some \<lparr>lm_value = Some 100,
     lm_comment = ''computed from blocked and attempts counts in results/security.csv''\<rparr>)"
  unfolding live_value_def
  by (subst demo_present, simp add: demo_measures demo_measures2 demo_measures3)+

lemma demo_paper:
  "paper_get shipped_benchmarks ''throughput'' ''expected_hrbac_tps_min'' (VInt 55) = Inr (VInt 55)"
  "paper_get shipped_benchmarks ''throughput'' ''expected_hrbac_tps_max'' (VInt 70) = Inr (VInt 70)"
  "paper_get shipped_benchmarks ''latency'' ''expected_sensor_write_p95_max_ms'' (VInt 2000) = Inr (VInt 2000)"
  "paper_get shipped_benchmarks ''security'' ''block_rate_percent'' (VInt 100) = Inr (VInt 100)"
  "bind_result (category_at shipped_benchmarks ''throughput'') (\<lambda>c. field c ''hrbac_tps'') = Inr (VInt 63)"
  "paper_get shipped_benchmarks ''latency'' ''sensor_write_total_latency_ms'' VNone = Inr (VInt 1220)"
  "paper_get shipped_benchmarks ''latency'' ''p95_latency_4_peers_ms'' (VInt 1220) = Inr (VInt 1480)"
  by code_simp+

lemma demo_checks:
  "\<exists>c1 c2 c3. live_checks shipped_benchmarks demo_files = Inr [c1, c2, c3] \<and>
     cr_status c1 = ''PASS'' \<and> cr_status c2 = ''PASS'' \<and> cr_status c3 = ''PASS''"
proof -
  have str: "py_str (VInt 55) = Inr ''55''" "py_str (VInt 70) = Inr ''70''" "py_str (VInt 2000) = Inr ''2000''" for i
    by code_simp+
  obtain c where "category_at shipped_benchmarks ''throughput'' = Inr c" "field c ''hrbac_tps'' = Inr (VInt 63)"
    using demo_paper(5) by (auto simp: result_simps)
  then show ?thesis
    by (simp add: live_checks_def demo_live demo_paper check_throughput_def check_live_latency_def
        check_security_def check_metric_def tps_in_range_def latency_below_def str del: py_str.simps)
       (simp add: py_str.simps)
qed

lemma demo_run: "\<exists>rep. live_main True (Inr shipped_benchmarks) demo_files = (0, rep)"
  using demo_checks by (auto simp: live_main_def build_report_def missing_files_def demo_files_def Let_def)

theorem strict_exit_zero_witness:
  "\<exists>t mt tps. f_throughput demo_files = Some t \<and> throughput_at_50_clients t = Inr mt \<and> lm_value mt = Some tps \<and>
     55 \<le> tps \<and> tps \<le> 70"
proof -
  obtain rep where main: "live_main True (Inr shipped_benchmarks) demo_files = (0, rep)"
    using demo_run by blast
  have bounds: "threshold shipped_benchmarks ''throughput'' ''expected_hrbac_tps_min'' 55 = Inr 55"
    "threshold shipped_benchmarks ''throughput'' ''expected_hrbac_tps_max'' 70 = Inr 70"
    by (simp_all add: threshold_def demo_paper)
  show ?thesis using strict_exit_zero [OF main] by (auto simp: bounds)
qed

text \<open>What the sums of the counts say about each row.\<close>

lemma count_totals_slack:
  assumes "count_totals rows (B, A, found) = Inr (B', A', found')"
    and "\<And>row b a. row \<in> set rows \<Longrightarrow> row_counts row = Inr (Some b, Some a) \<Longrightarrow> b \<le> a"
  shows "A - B \<le> A' - B' \<and>
     (\<forall>row b a. row \<in> set rows \<longrightarrow> row_counts row = Inr (Some b, Some a) \<longrightarrow> A - B + (a - b) \<le> A' - B')"
  using assms
proof (induction rows arbitrary: B A found)
  case (Cons row rows)
  from Cons.prems(1) obtain bo ao where counts: "row_counts row = Inr (bo, ao)"
    by (auto simp: result_simps)
  show ?case
  proof (cases "\<exists>b a. bo = Some b \<and> ao = Some a")
    case True
    then obtain b a where ba: "bo = Some b" "ao = Some a" by blast
    with Cons.prems(1) counts have "count_totals rows (B + b, A + a, True) = Inr (B', A', found')" by simp
    moreover have "b \<le> a" using Cons.prems(2) [of row b a] counts ba by simp
    ultimately show ?thesis using Cons.IH [of "B + b" "A + a" True] Cons.prems(2) counts ba by fastforce
  next
    case False
    with Cons.prems(1) counts have "count_totals rows (B, A, found) = Inr (B', A', found')"
      by (auto split: option.splits)
    with Cons.IH [of B A found] Cons.prems(2) counts False show ?thesis by auto
  qed
qed simp

text \<open>
  A block rate of 100 that is computed from counts leaves no attempt unblocked: when the file has
  no rate column and no row reports more blocked than attempted, every counted row has all its
  attempts blocked.
\<close>

theorem security_counts_all_blocked:
  assumes "security_block_rate txt = Inr m" "lm_value m = Some 100"
    and "first_rate (read_csv_rows txt) = Inr None"
    and "\<And>row b a. row \<in> set (read_csv_rows txt) \<Longrightarrow> row_counts row = Inr (Some b, Some a) \<Longrightarrow> b \<le> a"
    and "row \<in> set (read_csv_rows txt)" "row_counts row = Inr (Some b, Some a)"
  shows "b = a"
proof -
  from assms(1-3) obtain B A found where totals: "count_totals (read_csv_rows txt) (0, 0, False) = Inr (B, A, found)"
    and "0 < A" "B / A * 100 = 100"
    by (auto simp: security_block_rate_def Let_def result_simps split: if_splits)
  then have "A = B" by (simp add: divide_eq_eq)
  with count_totals_slack [OF totals assms(4)] assms(5,6) have "a - b \<le> 0" by fastforce
  with assms(4) [OF assms(5,6)] show ?thesis by simp
qed

theorem security_counts_all_blocked_witness:
  "\<exists>row. row_get row ''vector'' = Some ''zone'' \<and> row_counts row = Inr (Some 1000, Some 1000)"
proof -
  let ?txt = "the (f_security demo_files)" and ?row = "read_csv_rows (the (f_security demo_files)) ! 1"
  have counts: "row_counts row = Inr (Some 1000, Some 1000)" if "row \<in> set (read_csv_rows ?txt)" for row
    using that unfolding demo_rows by (auto simp: cell_eval row_counts_def row_or_def)
  have row: "?row \<in> set (read_csv_rows ?txt)" unfolding demo_rows by simp
  have "(1000 :: rat) = 1000"
    by (rule security_counts_all_blocked [OF demo_measures3 _ _ _ row counts [OF row]])
       (auto simp: counts, simp add: demo_rows cell_eval field_candidates_def)
  with counts [OF row] show ?thesis by (intro exI [of _ ?row]) (simp add: demo_rows row_get_def)
qed

text \<open>With a rate column the first row that has a number decides, whatever the rows after it say.\<close>

lemma later_rows_ignored:
  assumes "parse_float (row_get row ''block_rate_percent'') = Inr (Some v)"
  shows "first_rate (row # rows) = Inr (Some \<lparr>lm_value = Some v,
     lm_comment = ''block_rate_percent from results/security.csv''\<rparr>)"
  using assms by (simp add: field_candidates_def)

text \<open>
  The printed live value is the measured one, rounded to four decimals: reading it back gives the
  rounded number, at most half a unit of the fourth decimal away, and a value with four decimals is
  read back exactly.
\<close>

theorem format_number_accurate:
  "py_float_str (format_number q) = Inr (round_abs 4 q) \<and> \<bar>round_abs 4 q - q\<bar> \<le> 1 / 20000 \<and>
   py_float_str (format_number (of_int i / 10 ^ 4)) = Inr (of_int i / 10 ^ 4)"
proof -
  have read: "py_float_str (format_number q) = Inr (round_abs 4 q)" for q
  proof (cases "of_int \<lfloor>q\<rfloor> = q")
    case True
    then have "round_abs 4 q = q" by (metis round_abs_of_int)
    moreover have "py_float_str (format_number q) = Inr (of_int \<lfloor>q\<rfloor>)"
      using True by (simp add: format_number_def py_float_int_str)
    ultimately show ?thesis using True by simp
  next
    case False
    then show ?thesis by (simp add: format_number_def py_float_strip_fixed)
  qed
  have "(1 :: rat) / (2 * 10 ^ 4) = 1 / 20000" by simp
  with round_abs_error [of 4 q] have "\<bar>round_abs 4 q - q\<bar> \<le> 1 / 20000" by simp
  with read [of q] read [of "of_int i / 10 ^ 4"] show ?thesis by (simp only: round_abs_exact)
qed

end
