(* ===== verification/Raw_Data_Api.thy ===== *)
theory Raw_Data_Api
  imports Flask_Fallback Py_Csv Py_Number "HOL-Library.List_Lexorder" "HOL-Library.Char_ord" "HOL-Library.Multiset"
begin

text \<open>
  \<open>gateway/raw_data_api.py\<close>: the endpoints over the measured CSV files. \<open>raw_files\<close> gives the text of
  a file of \<open>data/raw\<close>, \<open>None\<close> when it does not exist; handlers read it with the CSV reader of
  \<open>Py_Csv\<close>, do not change it, and return what the dispatcher of \<open>Flask_Fallback\<close> turns into a response.
  A missing column raises \<open>KeyError\<close>, a cell missing from a short row is \<open>None\<close>. The query argument
  \<open>limit\<close>, which the fallback framework does not provide, is an argument. \<open>raw_routes\<close> registers the
  endpoints under the prefix of the blueprint.
\<close>

section \<open>Files and cells\<close>

type_synonym raw_files = "string \<Rightarrow> string option"

definition NOT_FOUND_MSG :: string where
  "NOT_FOUND_MSG =
     ''Benchmark data not found. '' @
     ''The measured CSV files should be present under data/raw/; '' @
     ''alternatively, query the Hyperledger Fabric ledger directly via the gateway.''"

definition read_csv :: "raw_files \<Rightarrow> string \<Rightarrow> csv_row list option" where
  "read_csv files name = map_option dict_rows (files name)"

definition json_reply :: "payload \<Rightarrow> view_result" where
  "json_reply d = Single (IsResponse (jsonify (payload_value d) []))"

definition not_found :: view_result where
  "not_found = ViewTuple [IsResponse (jsonify (payload_value [(''error'', VStr NOT_FOUND_MSG)]) []), IsValue (VInt 404)]"

definition mean :: "rat list \<Rightarrow> rat option" where
  "mean values = (if values \<noteq> [] then Some (sum_list values / of_nat (length values)) else None)"

definition cell_value :: "string option \<Rightarrow> pyval" where
  "cell_value c = (case c of None \<Rightarrow> VNone | Some s \<Rightarrow> VStr s)"

text \<open>\<open>float(r[key])\<close>, \<open>int(r[key])\<close>, and \<open>... if r.get(key) else None\<close>.\<close>

definition cell_float :: "csv_row \<Rightarrow> string \<Rightarrow> rat result" where
  "cell_float r k = bind_result (row_index r k) (\<lambda>c. py_float (cell_value c))"

definition cell_int :: "csv_row \<Rightarrow> string \<Rightarrow> int result" where
  "cell_int r k = bind_result (row_index r k) (\<lambda>c. py_int (cell_value c))"

definition cell_present :: "csv_row \<Rightarrow> string \<Rightarrow> bool" where
  "cell_present r k \<longleftrightarrow> truthy (cell_value (row_get r k))"

definition opt_float :: "csv_row \<Rightarrow> string \<Rightarrow> pyval result" where
  "opt_float r k = (if cell_present r k then bind_result (cell_float r k) (\<lambda>q. Inr (VFloat q)) else Inr VNone)"

definition opt_int :: "csv_row \<Rightarrow> string \<Rightarrow> pyval result" where
  "opt_int r k = (if cell_present r k then bind_result (cell_int r k) (\<lambda>i. Inr (VInt i)) else Inr VNone)"

definition float_value :: "csv_row \<Rightarrow> string \<Rightarrow> pyval result" where
  "float_value r k = bind_result (cell_float r k) (\<lambda>q. Inr (VFloat q))"

definition int_value :: "csv_row \<Rightarrow> string \<Rightarrow> pyval result" where
  "int_value r k = bind_result (cell_int r k) (\<lambda>i. Inr (VInt i))"

definition text_value :: "csv_row \<Rightarrow> string \<Rightarrow> pyval result" where
  "text_value r k = bind_result (row_index r k) (\<lambda>c. Inr (cell_value c))"

text \<open>\<open>[float(r[key]) for r in rows if cond(r)]\<close>, where the condition may raise.\<close>

fun floats_where :: "(csv_row \<Rightarrow> bool result) \<Rightarrow> string \<Rightarrow> csv_row list \<Rightarrow> rat list result" where
  "floats_where cond k [] = Inr []"
| "floats_where cond k (r # rows) =
     bind_result (cond r) (\<lambda>keep.
       if keep then bind_result (cell_float r k) (\<lambda>q. bind_result (floats_where cond k rows) (\<lambda>qs. Inr (q # qs)))
       else floats_where cond k rows)"

section \<open>Summary\<close>

definition is_bench_50 :: "string \<Rightarrow> csv_row \<Rightarrow> bool result" where
  "is_bench_50 ty r =
     bind_result (row_index r ''benchmark_type'') (\<lambda>b.
       if b = Some ty then bind_result (row_index r ''concurrent_clients'') (\<lambda>c. Inr (c = Some ''50''))
       else Inr False)"

definition is_write :: "csv_row \<Rightarrow> bool" where
  "is_write r \<longleftrightarrow> row_get r ''operation'' = Some ''WriteSensor''"

definition is_mode :: "string \<Rightarrow> csv_row \<Rightarrow> bool result" where
  "is_mode md r = bind_result (row_index r ''mode'') (\<lambda>c. Inr (c = Some md))"

definition is_deployment :: "csv_row \<Rightarrow> bool result" where
  "is_deployment r = Inr (row_get r ''event_type'' = Some ''DEPLOYMENT'')"

definition is_outage :: "csv_row \<Rightarrow> bool result" where
  "is_outage r =
     (case dict_get r ''event_type'' of
        None \<Rightarrow> Inr (contains_sub ''OUTAGE'' [])
      | Some None \<Rightarrow> Inl (TypeError ''argument of type NoneType is not iterable'')
      | Some (Some s) \<Rightarrow> Inr (contains_sub ''OUTAGE'' s))"

definition energy_reduction :: "rat list \<Rightarrow> rat list \<Rightarrow> pyval" where
  "energy_reduction sc_energy crt_energy =
     (let mean_sc = (case mean sc_energy of None \<Rightarrow> 0 | Some m \<Rightarrow> m);
          mean_crt = (case mean crt_energy of None \<Rightarrow> 0 | Some m \<Rightarrow> m)
      in if mean_sc \<noteq> 0 then VFloat (round_to 1 ((mean_sc - mean_crt) / mean_sc * 100)) else VInt 0)"

definition uptime_of :: "rat list \<Rightarrow> rat list \<Rightarrow> pyval" where
  "uptime_of deployment outages =
     (let total_deployment = sum_list deployment; total_outage = sum_list outages
      in if total_deployment \<noteq> 0
         then VFloat (round_to 1 ((total_deployment - total_outage) / total_deployment * 100))
         else VNone)"

definition uptime_pct :: "csv_row list option \<Rightarrow> pyval result" where
  "uptime_pct uptime =
     (case uptime of
        None \<Rightarrow> Inr VNone
      | Some rows \<Rightarrow>
          if rows = [] then Inr VNone
          else bind_result (floats_where is_deployment ''duration_hours'' rows) (\<lambda>deployment.
               bind_result (floats_where is_outage ''duration_hours'' rows) (\<lambda>outages.
                 Inr (uptime_of deployment outages))))"

definition rounded_mean :: "nat \<Rightarrow> rat list \<Rightarrow> pyval" where
  "rounded_mean nd values = (case mean values of None \<Rightarrow> VNone | Some m \<Rightarrow> VFloat (round_to nd m))"

definition summary_of ::
  "csv_row list \<Rightarrow> csv_row list \<Rightarrow> csv_row list \<Rightarrow> csv_row list \<Rightarrow> csv_row list \<Rightarrow> csv_row list option
     \<Rightarrow> view_result result" where
  "summary_of txns security throughput latency energy uptime =
     bind_result (floats_where (is_bench_50 ''HRBAC'') ''tps'' throughput) (\<lambda>hrbac_50.
     bind_result (floats_where (is_bench_50 ''Baseline'') ''tps'' throughput) (\<lambda>baseline_50.
     bind_result (floats_where (\<lambda>r. Inr (is_write r)) ''latency_ms'' latency) (\<lambda>write_latencies.
     bind_result (floats_where (\<lambda>r. Inr (is_write r \<and> cell_present r ''rbac_overhead_ms''))
         ''rbac_overhead_ms'' latency) (\<lambda>rbac_overheads.
     bind_result (floats_where (is_mode ''SingleChannel'') ''energy_mj'' energy) (\<lambda>sc_energy.
     bind_result (floats_where (is_mode ''CRT'') ''energy_mj'' energy) (\<lambda>crt_energy.
     bind_result (uptime_pct uptime) (\<lambda>up.
       Inr (json_reply
         [(''sensor_transaction_count'', VInt (int (length txns))),
          (''security_attempt_count'', VInt (int (length security))),
          (''mean_hrbac_tps_50_clients'', rounded_mean 2 hrbac_50),
          (''mean_baseline_tps_50_clients'', rounded_mean 2 baseline_50),
          (''mean_sensor_write_latency_ms'', rounded_mean 1 write_latencies),
          (''mean_rbac_overhead_ms'', rounded_mean 1 rbac_overheads),
          (''energy_reduction_percent'', energy_reduction sc_energy crt_energy),
          (''uptime_percent'', up)]))))))))"

definition raw_summary :: "raw_files \<Rightarrow> view_result result" where
  "raw_summary files =
     (case (read_csv files ''raw_sensor_transactions.csv'', read_csv files ''raw_security_attempts.csv'',
            read_csv files ''raw_throughput_samples.csv'', read_csv files ''raw_latency_samples.csv'',
            read_csv files ''raw_energy_samples.csv'') of
        (Some txns, Some security, Some throughput, Some latency, Some energy) \<Rightarrow>
          summary_of txns security throughput latency energy (read_csv files ''raw_uptime_events.csv'')
      | _ \<Rightarrow> Inr not_found)"

section \<open>Row endpoints\<close>

text \<open>A dictionary display whose values may raise, evaluated in order.\<close>

definition row_dict :: "(string \<times> pyval result) list \<Rightarrow> pyval result" where
  "row_dict kvs = bind_result (map_result snd kvs) (\<lambda>vs. Inr (payload_value (zip (map fst kvs) vs)))"

definition rows_reply :: "(csv_row \<Rightarrow> pyval result) \<Rightarrow> csv_row list \<Rightarrow> view_result result" where
  "rows_reply conv rows =
     bind_result (map_result conv rows) (\<lambda>data.
       Inr (json_reply [(''rows'', VList data), (''count'', VInt (int (length data)))]))"

definition throughput_row :: "csv_row \<Rightarrow> pyval result" where
  "throughput_row r = row_dict
     [(''concurrent_clients'', int_value r ''concurrent_clients''),
      (''benchmark_type'', text_value r ''benchmark_type''),
      (''tps'', float_value r ''tps'')]"

definition raw_throughput :: "raw_files \<Rightarrow> view_result result" where
  "raw_throughput files =
     (case read_csv files ''raw_throughput_samples.csv'' of
        None \<Rightarrow> Inr not_found | Some rows \<Rightarrow> rows_reply throughput_row rows)"

definition latency_row :: "csv_row \<Rightarrow> pyval result" where
  "latency_row r = row_dict
     [(''operation'', text_value r ''operation''),
      (''latency_ms'', float_value r ''latency_ms''),
      (''rbac_overhead_ms'', opt_float r ''rbac_overhead_ms''),
      (''peer_count'', opt_int r ''peer_count''),
      (''concurrent_clients'', opt_int r ''concurrent_clients'')]"

definition raw_latency :: "raw_files \<Rightarrow> view_result result" where
  "raw_latency files =
     (case read_csv files ''raw_latency_samples.csv'' of
        None \<Rightarrow> Inr not_found | Some rows \<Rightarrow> rows_reply latency_row rows)"

definition energy_row :: "csv_row \<Rightarrow> pyval result" where
  "energy_row r = row_dict
     [(''sample_id'', text_value r ''sample_id''),
      (''mode'', text_value r ''mode''),
      (''energy_mj'', float_value r ''energy_mj''),
      (''payload_bytes'', opt_int r ''payload_bytes''),
      (''airtime_ms'', opt_float r ''airtime_ms'')]"

definition raw_energy :: "raw_files \<Rightarrow> view_result result" where
  "raw_energy files =
     (case read_csv files ''raw_energy_samples.csv'' of
        None \<Rightarrow> Inr not_found | Some rows \<Rightarrow> rows_reply energy_row rows)"

section \<open>Security\<close>

definition count_scenario :: "string option \<Rightarrow> (string option, nat) dict \<Rightarrow> (string option, nat) dict" where
  "count_scenario c counts =
     dict_set c ((case dict_get counts c of None \<Rightarrow> 0 | Some n \<Rightarrow> n) + 1) counts"

fun count_scenarios :: "csv_row list \<Rightarrow> (string option, nat) dict \<Rightarrow> (string option, nat) dict result" where
  "count_scenarios [] counts = Inr counts"
| "count_scenarios (r # rows) counts =
     bind_result (row_index r ''scenario'') (\<lambda>c. count_scenarios rows (count_scenario c counts))"

text \<open>Sorting the items compares the keys; \<open>None\<close> does not compare with a string.\<close>

definition sorted_items :: "(string option, nat) dict \<Rightarrow> (string option \<times> nat) list result" where
  "sorted_items counts =
     (if None \<in> set (dict_keys counts) \<and> 1 < length counts
      then Inl (TypeError ''not supported between instances of NoneType and str'')
      else Inr (sort_key (\<lambda>(c, n). case c of None \<Rightarrow> [] | Some s \<Rightarrow> s) counts))"

definition raw_security :: "raw_files \<Rightarrow> view_result result" where
  "raw_security files =
     (case read_csv files ''raw_security_attempts.csv'' of
        None \<Rightarrow> Inr not_found
      | Some rows \<Rightarrow>
          bind_result (count_scenarios rows []) (\<lambda>scenario_counts.
          bind_result (sorted_items scenario_counts) (\<lambda>items.
            Inr (json_reply
              [(''scenarios'', VList (map (\<lambda>(c, n). payload_value
                  [(''scenario'', cell_value c), (''blocked_attempts'', VInt (int n))]) items)),
               (''total_attempts'', VInt (int (length rows)))]))))"

section \<open>Sensor transactions\<close>

definition transaction_row :: "csv_row \<Rightarrow> pyval result" where
  "transaction_row r = row_dict
     [(''timestamp'', text_value r ''timestamp''),
      (''tx_id'', text_value r ''tx_id''),
      (''sensor_id'', text_value r ''sensor_id''),
      (''zone'', text_value r ''zone''),
      (''operation'', text_value r ''operation''),
      (''decision'', text_value r ''decision''),
      (''latency_ms'', float_value r ''latency_ms''),
      (''energy_mj'', float_value r ''energy_mj'')]"

text \<open>The loop stops at the first index that is not below the limit.\<close>

fun transaction_page :: "int \<Rightarrow> int \<Rightarrow> csv_row list \<Rightarrow> pyval list result" where
  "transaction_page limit i [] = Inr []"
| "transaction_page limit i (r # rows) =
     (if i \<ge> limit then Inr []
      else bind_result (transaction_row r) (\<lambda>v.
           bind_result (transaction_page limit (i + 1) rows) (\<lambda>vs. Inr (v # vs))))"

definition raw_sensor_transactions :: "raw_files \<Rightarrow> string option \<Rightarrow> view_result result" where
  "raw_sensor_transactions files limit_arg =
     (case files ''raw_sensor_transactions.csv'' of
        None \<Rightarrow> Inr not_found
      | Some txt \<Rightarrow>
          bind_result (py_int (case limit_arg of None \<Rightarrow> VInt 100 | Some s \<Rightarrow> VStr s)) (\<lambda>n.
            let limit = min n 1000
            in bind_result (transaction_page limit 0 (dict_rows txt)) (\<lambda>rows.
                 Inr (json_reply [(''rows'', VList rows), (''count'', VInt (int (length rows))),
                   (''limit'', VInt limit)]))))"

definition raw_routes :: "raw_files \<Rightarrow> string option \<Rightarrow> 's route list" where
  "raw_routes files limit_arg =
     fold (\<lambda>add. add)
       [app_get ''/api/raw/summary'' (\<lambda>rq ps s. (raw_summary files, s)),
        app_get ''/api/raw/throughput'' (\<lambda>rq ps s. (raw_throughput files, s)),
        app_get ''/api/raw/latency'' (\<lambda>rq ps s. (raw_latency files, s)),
        app_get ''/api/raw/energy'' (\<lambda>rq ps s. (raw_energy files, s)),
        app_get ''/api/raw/security'' (\<lambda>rq ps s. (raw_security files, s)),
        app_get ''/api/raw/sensor-transactions'' (\<lambda>rq ps s. (raw_sensor_transactions files limit_arg, s))] []"

section \<open>Properties\<close>

definition count_of :: "('k, nat) dict \<Rightarrow> 'k \<Rightarrow> nat" where
  "count_of d k = (case dict_get d k of None \<Rightarrow> 0 | Some n \<Rightarrow> n)"

definition scenario_is :: "string option \<Rightarrow> csv_row \<Rightarrow> bool" where
  "scenario_is c r \<longleftrightarrow> row_index r ''scenario'' = Inr c"

lemma count_scenario_of: "count_of (count_scenario c d) k = count_of d k + (if k = c then 1 else 0)"
  by (simp add: count_of_def count_scenario_def dict_simps)

lemma sum_dict_set:
  "wf_dict d \<Longrightarrow> sum_list (map snd (dict_set k v d)) + count_of d k = sum_list (map snd d) + (v :: nat)"
proof (induction d)
  case (Cons x d)
  then have "fst x \<notin> set (dict_keys d)" by simp
  then have "dict_get d (fst x) = None" unfolding dict_get_None_iff by simp
  then have "count_of d (fst x) = 0" by (simp add: count_of_def)
  with Cons show ?case by (cases x) (auto simp: count_of_def)
qed (simp add: count_of_def)

lemma count_scenario_sum:
  assumes "wf_dict d"
  shows "sum_list (map snd (count_scenario c d)) = Suc (sum_list (map snd d))"
  using sum_dict_set [OF assms, of c "count_of d c + 1"] by (simp add: count_scenario_def flip: count_of_def)

lemma count_scenarios_spec:
  "count_scenarios rows d = Inr d' \<Longrightarrow> wf_dict d \<Longrightarrow>
     wf_dict d' \<and> sum_list (map snd d') = sum_list (map snd d) + length rows \<and>
     (\<forall>c. count_of d' c = count_of d c + length (filter (scenario_is c) rows)) \<and>
     set (dict_keys d') = set (dict_keys d) \<union> {c. \<exists>r \<in> set rows. scenario_is c r}"
proof (induction rows arbitrary: d)
  case (Cons r rows)
  from Cons.prems(1) obtain c where c: "row_index r ''scenario'' = Inr c"
    and rest: "count_scenarios rows (count_scenario c d) = Inr d'"
    by (auto simp: result_simps)
  have "wf_dict (count_scenario c d)" using Cons.prems(2) by (auto simp: count_scenario_def)
  moreover have keys: "set (dict_keys (count_scenario c d)) = insert c (set (dict_keys d))"
    by (simp only: count_scenario_def dict_keys_set)
  moreover have is_c: "scenario_is k r \<longleftrightarrow> k = c" for k using c by (auto simp: scenario_is_def)
  ultimately show ?case
    using Cons.IH [OF rest] count_scenario_sum [OF Cons.prems(2), of c]
    by (auto simp: count_scenario_of simp del: set_map)
qed simp

text \<open>
  C29. The security endpoint reports every scenario of the file once, in increasing order, each with the
  number of its rows, and these numbers sum to the number of attempts.
\<close>

theorem security_scenarios_partition:
  assumes "read_csv files ''raw_security_attempts.csv'' = Some rows" "raw_security files = Inr reply"
  shows "\<exists>items.
     reply = json_reply
       [(''scenarios'', VList (map (\<lambda>(c, n). payload_value
          [(''scenario'', cell_value c), (''blocked_attempts'', VInt (int n))]) items)),
        (''total_attempts'', VInt (int (length rows)))] \<and>
     sum_list (map snd items) = length rows \<and> distinct (map fst items) \<and>
     sorted (map (\<lambda>(c, n). case c of None \<Rightarrow> [] | Some s \<Rightarrow> s) items) \<and>
     set items = {(c, n). 0 < n \<and> n = length (filter (scenario_is c) rows)}"
proof -
  let ?key = "\<lambda>(c, n). case c of None \<Rightarrow> [] | Some s \<Rightarrow> s"
  from assms obtain d items where d: "count_scenarios rows [] = Inr d" and items: "items = sort_key ?key d"
    and reply: "reply = json_reply
       [(''scenarios'', VList (map (\<lambda>(c, n). payload_value
          [(''scenario'', cell_value c), (''blocked_attempts'', VInt (int n))]) items)),
        (''total_attempts'', VInt (int (length rows)))]"
    by (auto simp: raw_security_def sorted_items_def result_simps split: if_splits)
  from count_scenarios_spec [OF d] have wf: "wf_dict d" and total: "sum_list (map snd d) = length rows"
    and count: "count_of d c = length (filter (scenario_is c) rows)"
    and keys: "set (dict_keys d) = {c. \<exists>r \<in> set rows. scenario_is c r}" for c
    by (auto simp: count_of_def)
  have mset: "mset items = mset d" by (simp add: items)
  then have "mset (map snd items) = mset (map snd d)" "mset (map fst items) = mset (map fst d)"
    by (simp_all only: mset_map)
  then have sums: "sum_list (map snd items) = length rows" "distinct (map fst items)"
    using total wf by (metis sum_mset_sum_list, metis mset_eq_imp_distinct_iff)
  have "(c, n) \<in> set d \<longleftrightarrow> 0 < n \<and> n = length (filter (scenario_is c) rows)" for c n
  proof
    assume mem: "(c, n) \<in> set d"
    then have "count_of d c = n" using map_of_is_SomeI [OF wf mem] by (simp add: count_of_def)
    moreover have "c \<in> set (dict_keys d)" using mem by force
    then have "0 < length (filter (scenario_is c) rows)" using keys by (auto simp: filter_empty_conv)
    ultimately show "0 < n \<and> n = length (filter (scenario_is c) rows)" using count [of c] by simp
  next
    assume n: "0 < n \<and> n = length (filter (scenario_is c) rows)"
    with count [of c] have "count_of d c = n" "count_of d c \<noteq> 0" by auto
    then have "dict_get d c = Some n" by (auto simp: count_of_def split: option.splits)
    then show "(c, n) \<in> set d" by (rule map_of_SomeD)
  qed
  then have "set items = {(c, n). 0 < n \<and> n = length (filter (scenario_is c) rows)}"
    using mset_eq_setD [OF mset] by auto
  with reply sums items show ?thesis by (intro exI [of _ items]) simp
qed

definition demo_raw :: raw_files where
  "demo_raw name =
     (if name = ''raw_security_attempts.csv''
      then Some (write_rows [[''attempt_id'', ''scenario'', ''decision''], [''SA-1'', ''replay'', ''DENY''],
        [''SA-2'', ''cross_zone'', ''DENY''], [''SA-3'', ''replay'', ''GRANT'']])
      else if name = ''raw_sensor_transactions.csv''
      then Some (write_rows [[''timestamp'', ''tx_id'', ''sensor_id'', ''zone'', ''operation'', ''decision'',
          ''latency_ms'', ''energy_mj''],
        [''2025-08-01T00:00:00Z'', ''SW-1'', ''sns-001'', ''North'', ''WriteSensor'', ''GRANT'', ''1220.5'', ''12.5''],
        [''2025-08-01T00:30:00Z'', ''SW-2'', ''sns-002'', ''North'', ''WriteSensor'', ''GRANT'', ''x'', ''12.5'']])
      else None)"

lemma demo_security_rows:
  "read_csv demo_raw ''raw_security_attempts.csv'' = Some
     [[(''attempt_id'', Some ''SA-1''), (''scenario'', Some ''replay''), (''decision'', Some ''DENY'')],
      [(''attempt_id'', Some ''SA-2''), (''scenario'', Some ''cross_zone''), (''decision'', Some ''DENY'')],
      [(''attempt_id'', Some ''SA-3''), (''scenario'', Some ''replay''), (''decision'', Some ''GRANT'')]]"
  by code_simp

lemma demo_security_reply: "\<exists>reply. raw_security demo_raw = Inr reply"
  by (simp add: raw_security_def demo_security_rows row_index_def count_scenario_def sorted_items_def)

theorem security_scenarios_partition_witness:
  "\<exists>items :: (string option \<times> nat) list. sum_list (map snd items) = 3 \<and> (Some ''replay'', 2) \<in> set items"
proof -
  obtain reply where reply: "raw_security demo_raw = Inr reply" using demo_security_reply by blast
  from security_scenarios_partition [OF demo_security_rows reply] obtain items where
    total: "sum_list (map snd items) = length (the (read_csv demo_raw ''raw_security_attempts.csv''))"
    and items: "set items = {(c, n). 0 < n \<and> n = length (filter (scenario_is c)
         (the (read_csv demo_raw ''raw_security_attempts.csv'')))}"
    unfolding demo_security_rows option.sel by blast
  have "(Some ''replay'', 2) \<in> set items"
    unfolding items by (simp add: demo_security_rows scenario_is_def row_index_def)
  with total show ?thesis by (intro exI [of _ items]) (simp add: demo_security_rows)
qed

lemma transaction_page_take:
  "transaction_page limit i rows = map_result transaction_row (take (nat (limit - i)) rows)"
proof (induction rows arbitrary: i)
  case (Cons r rows)
  show ?case
  proof (cases "i \<ge> limit")
    case False
    then have "nat (limit - i) = Suc (nat (limit - (i + 1)))" by simp
    with Cons False show ?thesis by simp
  qed simp
qed simp

text \<open>
  C28. Paging: the transactions endpoint returns the first rows of the file, as many as the smaller of
  the requested limit (100 by default), 1000 and the length of the file; a malformed row after the page
  does no harm, and a limit that is no number is the only error besides those of the rows returned.
\<close>

theorem transactions_page:
  assumes "files ''raw_sensor_transactions.csv'' = Some txt"
    and "py_int (case limit_arg of None \<Rightarrow> VInt 100 | Some s \<Rightarrow> VStr s) = Inr n"
  shows "case map_result transaction_row (take (nat (min n 1000)) (dict_rows txt)) of
      Inl err \<Rightarrow> raw_sensor_transactions files limit_arg = Inl err
    | Inr rows \<Rightarrow>
        raw_sensor_transactions files limit_arg = Inr (json_reply
          [(''rows'', VList rows), (''count'', VInt (int (length rows))), (''limit'', VInt (min n 1000))]) \<and>
        int (length rows) = max 0 (min (min n 1000) (int (length (dict_rows txt))))"
  using assms
  by (auto simp: raw_sensor_transactions_def transaction_page_take Let_def dest: map_result_Inr_length split: sum.splits)

lemma demo_transactions:
  "demo_raw ''raw_sensor_transactions.csv'' = Some (the (demo_raw ''raw_sensor_transactions.csv''))"
  "length (dict_rows (the (demo_raw ''raw_sensor_transactions.csv''))) = 2"
  by code_simp+

lemma one_of_string: "py_int (case Some ''1'' of None \<Rightarrow> VInt 100 | Some s \<Rightarrow> VStr s) = Inr 1"
  by code_simp

lemma demo_first_row:
  "\<exists>v. map_result transaction_row (take (nat (min 1 1000)) (dict_rows (the (demo_raw ''raw_sensor_transactions.csv'')))) = Inr [v]"
proof -
  have row: "take 1 (dict_rows (the (demo_raw ''raw_sensor_transactions.csv''))) =
      [[(''timestamp'', Some ''2025-08-01T00:00:00Z''), (''tx_id'', Some ''SW-1''), (''sensor_id'', Some ''sns-001''),
        (''zone'', Some ''North''), (''operation'', Some ''WriteSensor''), (''decision'', Some ''GRANT''),
        (''latency_ms'', Some ''1220.5''), (''energy_mj'', Some ''12.5'')]]"
    by code_simp
  have "nat (min 1 1000) = 1" by simp
  then show ?thesis
    by (simp only: row) (simp add: transaction_row_def row_dict_def text_value_def float_value_def cell_float_def
        cell_value_def row_index_def float_eval)
qed

theorem transactions_page_witness:
  "\<exists>v. raw_sensor_transactions demo_raw (Some ''1'') = Inr (json_reply
     [(''rows'', VList [v]), (''count'', VInt 1), (''limit'', VInt 1)])"
  using transactions_page [of demo_raw "the (demo_raw ''raw_sensor_transactions.csv'')" "Some ''1''" 1,
      OF demo_transactions(1) one_of_string] demo_first_row by auto

end
