(* ===== verification/Analysis_Outputs.thy ===== *)
theory Analysis_Outputs
  imports Py_Csv Py_Number "HOL-Library.List_Lexorder" "HOL-Library.Char_ord"
begin

text \<open>
  What the numbered analysis scripts share (\<open>paper_iot/V10/analysis/scripts/common.py\<close> and the look-up
  function \<open>g\<close> of the scripts 10 and 11): the merged dictionary of all output files, digging into it by
  a path of keys, and the row total of the data inventory. An output directory is a list of file names
  with their parsed content; \<open>Output_Files\<close> has their texts.
\<close>

section \<open>Merged outputs\<close>

definition json_suffix :: string where
  "json_suffix = ''.json''"

definition stem :: "string \<Rightarrow> string" where
  "stem name = take (length name - length json_suffix) name"

definition merge_outputs :: "(string \<times> pyval) list \<Rightarrow> pydict" where
  "merge_outputs files =
     fold (\<lambda>(name, content) merged. dict_set (VStr (stem name)) content merged)
       (sort_key fst (filter (\<lambda>(name, content). ends_with json_suffix name) files)) []"

section \<open>Digging by a path\<close>

text \<open>The loop ends at \<open>None\<close>; a value that is no dictionary has no keys.\<close>

fun dig :: "pyval \<Rightarrow> string list \<Rightarrow> pyval" where
  "dig cur [] = cur"
| "dig cur (p # ps) =
     (if cur = VNone then VNone
      else dig (case cur of VDict d \<Rightarrow> get_default d p VNone | _ \<Rightarrow> VNone) ps)"

lemma dig_None [simp]: "dig VNone ps = VNone"
  by (cases ps) auto

lemma dig_append: "dig cur (ps @ qs) = dig (dig cur ps) qs"
  by (induction cur ps rule: dig.induct) auto

lemma dig_payload: "dig (payload_value d) (k # ks) = dig (payload_get d k) ks"
proof -
  have "dict_get (map (\<lambda>(k, v). (VStr k, v)) d) (VStr k) = dict_get d k"
    by (induction d) auto
  then show ?thesis
    by (simp add: payload_value_def get_default_def payload_get_def)
qed

section \<open>Row total of the inventory\<close>

text \<open>
  The loop over \<open>analyst_data_inventory.csv\<close>: the number of rows of all CSV files that have one, and the
  number of these files.
\<close>

fun sum_csv_rows :: "csv_row list \<Rightarrow> int \<times> int \<Rightarrow> (int \<times> int) result" where
  "sum_csv_rows [] acc = Inr acc"
| "sum_csv_rows (row # rows) (total_rows, n_csv) =
     bind_result (row_index row ''file_format'') (\<lambda>fmt.
       if fmt = Some ''csv'' then
         bind_result (row_index row ''row_count'') (\<lambda>c.
           case c of
             None \<Rightarrow> sum_csv_rows rows (total_rows, n_csv)
           | Some s \<Rightarrow>
               if s = [] then sum_csv_rows rows (total_rows, n_csv)
               else bind_result (py_int (VStr s)) (\<lambda>n. sum_csv_rows rows (total_rows + n, n_csv + 1)))
       else sum_csv_rows rows (total_rows, n_csv))"

definition inventory_totals :: "string option \<Rightarrow> (int \<times> int) result" where
  "inventory_totals inventory =
     (case inventory of
        None \<Rightarrow> Inl FileNotFoundError
      | Some txt \<Rightarrow> sum_csv_rows (dict_rows txt) (0, 0))"

end
