(* ===== verification/Claim_Map.thy ===== *)
theory Claim_Map
  imports Analysis_Outputs Paper_Benchmarks
begin

text \<open>
  \<open>10_build_claim_map.py\<close>: the table of claims, the value each claim is recomputed to, its comparison
  with the value of the earlier manuscript, and the validation of the dataset counts. The merged outputs
  and the earlier values are dictionaries, the inventory is the text of its CSV file. The result is the
  list of rows the script writes; the text of their floats, and so the written CSV files, is not
  modelled. The lemmas characterise the statuses and the only way the script fails.
\<close>

section \<open>The claims\<close>

text \<open>The getter of a claim: \<open>g(...)\<close>, \<open>abs(g(...))\<close> or the row total.\<close>

datatype getter = Fetch "string list" | FetchAbs "string list" | TotalRows

type_synonym claim_row = "string \<times> string \<times> string \<times> string \<times> string \<times> getter \<times> string option"

definition ROWS :: "claim_row list" where
  "ROWS = [
      (''C01'', ''5.1/Table2'', ''61-day deployment'',
         ''authorization_decisions.csv'', ''02_field_deployment.py'',
         Fetch [''02_deployment_summary'', ''deployment_span_days''], Some ''deployment_days''),
      (''C02'', ''5.1/Table2'', ''50 sensors'',
         ''raw_field_topology.csv'', ''02_field_deployment.py'',
         Fetch [''02_deployment_summary'', ''sensors''], Some ''sensors''),
      (''C03'', ''5.1/Table2'', ''4 gateways'',
         ''raw_field_topology.csv'', ''02_field_deployment.py'',
         Fetch [''02_deployment_summary'', ''gateways''], Some ''gateways''),
      (''C04'', ''5.1/Table2'', ''4 zones'',
         ''raw_field_topology.csv'', ''02_field_deployment.py'',
         Fetch [''02_deployment_summary'', ''zones''], Some ''zones''),
      (''C05'', ''1/5.1'', ''209,000 authorization decisions'',
         ''authorization_decisions.csv'', ''02_field_deployment.py'',
         Fetch [''02_deployment_summary'', ''authorization_decisions''], Some ''authorization_decisions''),
      (''C06'', ''5.1'', ''146,400 sensor readings'',
         ''sensor_transactions.csv'', ''02_field_deployment.py'',
         Fetch [''02_deployment_summary'', ''sensor_readings''], Some ''sensor_readings''),
      (''C07'', ''5.1'', ''4,860 (2.33%) ordinary denials'',
         ''authorization_decisions.csv'', ''02_field_deployment.py'',
         Fetch [''02_deployment_summary'', ''ordinary_denials''], Some ''ordinary_denials''),
      (''C08'', ''6.8'', ''decision-path uptime 99.36%'',
         ''connectivity_outages.csv'', ''02_field_deployment.py'',
         Fetch [''02_availability'', ''decision_path_uptime_pct''], Some ''decision_path_uptime_pct''),
      (''C09'', ''6.8'', ''gateway-hour uptime 99.84%'',
         ''connectivity_outages.csv'', ''02_field_deployment.py'',
         Fetch [''02_availability'', ''gateway_hour_uptime_pct''], Some ''gateway_hour_uptime_pct''),
      (''C10'', ''6.8'', ''3 outages, 9.3 h total'',
         ''connectivity_outages.csv'', ''02_field_deployment.py'',
         Fetch [''02_availability'', ''outage_total_hours''], Some ''connectivity_outage_total_hours''),
      (''C11'', ''6.2'', ''CheckAccess mean 280 ms (SD 40)'',
         ''authorization_decisions.csv'', ''02_field_deployment.py'',
         Fetch [''02_latency_by_class'', ''checkaccess_nonwrite'', ''mean_ms''], Some ''checkaccess_mean_ms''),
      (''C12'', ''6.2'', ''sensor write mean 1220 ms (SD 60)'',
         ''sensor_transactions.csv'', ''02_field_deployment.py'',
         Fetch [''02_latency_by_class'', ''sensor_write'', ''mean_ms''], Some ''sensor_write_mean_ms''),
      (''C13'', ''6.2'', ''sensor write P95 1319 / P99 1359 ms'',
         ''sensor_transactions.csv'', ''02_field_deployment.py'',
         Fetch [''02_latency_by_class'', ''sensor_write'', ''p95_ms''], Some ''sensor_write_p95_ms''),
      (''C14'', ''6.2'', ''grant rate uniformly 91-93% across 35 cells'',
         ''authorization_decisions.csv'', ''02_field_deployment.py'',
         Fetch [''02_latency_by_class'', ''grant_rate_min_pct''], Some ''grant_rate_low_pct''),
      (''C15'', ''5.2/6.4'', ''32 peer-scaling runs, 8 per configuration'',
         ''peer_scaling_runs.csv'', ''03_peer_scaling.py'',
         Fetch [''03_design_check'', ''n_runs''], Some ''peer_scaling_runs_total''),
      (''C16'', ''5.2'', ''130 transactions per run'',
         ''peer_scaling_transactions.csv'', ''03_peer_scaling.py'',
         Fetch [''03_design_check'', ''tx_per_run''], Some ''peer_scaling_tx_per_run''),
      (''C17'', ''6.1.2'', ''two complementary 4x4 Latin-square cycles, each config each position exactly twice'',
         ''peer_scaling_runs.csv + peer_scaling_transactions.csv'', ''03_peer_scaling.py'',
         Fetch [''03_design_check'', ''each_config_occupies_each_position_exactly_twice''], None),
      (''C18'', ''6.1/Table3'', ''total latency 4 peers 1204.8 ms'',
         ''peer_scaling_transactions.csv'', ''03_peer_scaling.py'',
         Fetch [''03_peer_scaling_results'', ''total_latency'', ''group_stats'', ''4'', ''mean''], Some ''total_latency_4peer_ms''),
      (''C19'', ''6.1/Table3'', ''total latency 32 peers 811.8 ms'',
         ''peer_scaling_transactions.csv'', ''03_peer_scaling.py'',
         Fetch [''03_peer_scaling_results'', ''total_latency'', ''group_stats'', ''32'', ''mean''], Some ''total_latency_32peer_ms''),
      (''C20'', ''6.4'', ''4 vs 32 peer total-latency diff 393.0 ms [374.5, 411.4]'',
         ''peer_scaling_transactions.csv'', ''03_peer_scaling.py'',
         Fetch [''03_peer_scaling_results'', ''total_latency'', ''pairwise_4v32'', ''mean_diff_4_minus_32''], Some ''total_latency_4v32_diff_ms''),
      (''C21'', ''6.1/Table3'', ''recorded span ~320ms, ~stable across peer counts'',
         ''peer_scaling_transactions.csv'', ''03_peer_scaling.py'',
         Fetch [''03_peer_scaling_results'', ''recorded_span'', ''group_stats'', ''4'', ''mean''], Some ''recorded_span_4peer_ms''),
      (''C22'', ''6.1.2'', ''span extreme diff 4.78 ms, 90% CI [-9.77, 0.22], within +-10ms margin'',
         ''peer_scaling_transactions.csv'', ''03_peer_scaling.py'',
         Fetch [''03_peer_scaling_results'', ''recorded_span'', ''pairwise_4v32'', ''mean_diff_4_minus_32''], Some ''span_extreme_diff_ms''),
      (''C23'', ''6.1.2'', ''span share 26.6% at 4 peers, 39.0% at 32 peers'',
         ''peer_scaling_transactions.csv'', ''03_peer_scaling.py'',
         Fetch [''03_peer_scaling_results'', ''recorded_span_share_pct_by_peer_count'', ''32''], Some ''recorded_span_share_pct_32peer''),
      (''C24'', ''6.4'', ''log-linear -127.1 ms/doubling, R2=0.893'',
         ''peer_scaling_transactions.csv'', ''03_peer_scaling.py'',
         Fetch [''03_peer_scaling_results'', ''total_latency'', ''log_linear_fit'', ''slope_per_doubling''], Some ''log_linear_slope_ms_per_doubling''),
      (''C25'', ''5.4'', ''sequence effect p=0.76(span)/0.48(total latency); peer-count p<0.001'',
         ''peer_scaling_transactions.csv'', ''03_peer_scaling.py'',
         Fetch [''03_peer_scaling_results'', ''total_latency'', ''order_effect_model'', ''serial_c_p''], Some ''sequence_effect_p_total_latency''),
      (''C26'', ''5.2/6.3'', ''100 throughput runs (10 levels x 2 conditions x 5)'',
         ''throughput_runs.csv'', ''04_throughput.py'',
         Fetch [''04_throughput_design_check'', ''n_runs''], Some ''throughput_runs_total''),
      (''C27'', ''6.3'', ''campaign_seq vs concurrency r=0.995 (single session, fixed ascending order)'',
         ''throughput_runs.csv'', ''04_throughput.py'',
         Fetch [''04_throughput_design_check'', ''campaign_seq_vs_concurrency_correlation''], None),
      (''C28'', ''6.3'', ''condition diff 6.03 TPS [3.20, 8.87], p<0.001 (magnitude; HRBAC is the lower path)'',
         ''throughput_runs.csv'', ''04_throughput.py'',
         FetchAbs [''04_throughput_primary_model'', ''condition_coef_tps''], Some ''throughput_condition_diff_tps''),
      (''C29'', ''6.3'', ''interaction magnitude 0.007 TPS/client [-0.091,0.104], p=0.89'',
         ''throughput_runs.csv'', ''04_throughput.py'',
         FetchAbs [''04_throughput_primary_model'', ''interaction_coef_tps_per_client''], Some ''throughput_interaction_tps_per_client''),
      (''C30'', ''6.3'', ''position effect not detected p=0.92; model R2=0.206'',
         ''throughput_runs.csv'', ''04_throughput.py'',
         Fetch [''04_throughput_primary_model'', ''position_p''], Some ''throughput_position_p''),
      (''C31'', ''6.3'', ''mean 9.6% lower throughput (SD 1.6, range 7.9-12.4%)'',
         ''throughput_runs.csv'', ''04_throughput.py'',
         Fetch [''04_throughput_per_level'', ''pct_diff_mean''], Some ''throughput_pct_diff_mean''),
      (''C32'', ''6.3'', ''10/10 concurrency comparisons significant after Holm-Bonferroni'',
         ''throughput_runs.csv'', ''04_throughput.py'',
         Fetch [''04_throughput_per_level'', ''holm_bonferroni'', ''n_significant_after_adjustment''], None),
      (''C33'', ''6.3'', ''shared observed peak 70.4 (baseline) / 63.5 (hrbac) TPS at 40 clients'',
         ''throughput_runs.csv'', ''04_throughput.py'',
         Fetch [''04_throughput_peaks'', ''baseline_peak_tps''], Some ''throughput_peak_baseline_tps''),
      (''C34'', ''6.3'', ''HRBAC declines 15.3% from peak to 100 clients'',
         ''throughput_runs.csv'', ''04_throughput.py'',
         Fetch [''04_throughput_peaks'', ''hrbac_decline_pct_peak_to_100''], Some ''throughput_decline_hrbac_pct_to_100''),
      (''C35'', ''6.9.2'', ''8,000 authorization-boundary attempts, 8 scenarios x 1000'',
         ''authorization_boundary_attempts.csv'', ''06_security_oracle.py'',
         Fetch [''06_security_oracle'', ''total_attempts''], Some ''security_attempts_total''),
      (''C36'', ''6.6'', ''6 recorded denial mechanisms'',
         ''authorization_boundary_attempts.csv'', ''06_security_oracle.py'',
         Fetch [''06_security_oracle'', ''n_deny_reason_types''], Some ''security_denial_mechanisms''),
      (''C37'', ''6.6'', ''2,666 attempts scored by role/operation oracle'',
         ''authorization_boundary_attempts.csv'', ''06_security_oracle.py'',
         Fetch [''06_security_oracle'', ''role_operation_scoped_attempts''], Some ''oracle_scored_attempts''),
      (''C38'', ''6.6'', ''2,149 confirmed (80.6%), 517 discrepant (19.4%)'',
         ''authorization_boundary_attempts.csv'', ''06_security_oracle.py'',
         Fetch [''06_security_oracle'', ''confirmed_by_deployed_oracle''], Some ''oracle_confirmed''),
      (''C39'', ''6.9.2'', ''131,795 two-residue reconstructions (90.0%), all mathematically incorrect'',
         ''sensor_transactions.csv'', ''05_crt_quantization.py'',
         Fetch [''05_crt_quantization'', ''two_residue_reconstruction_count''], Some ''crt_two_residue_count''),
      (''C40'', ''6.9.2'', ''100.0% of 146,400 readings exceed smallest recovery bound (9,797)'',
         ''sensor_transactions.csv'', ''05_crt_quantization.py'',
         Fetch [''05_crt_quantization'', ''reconstruction_direct_polarity'', ''pct_exceed_min_bound''], Some ''crt_exceed_pct''),
      (''C41'', ''6.9.2'', ''corrected legal-domain max 51,455, bound 64,262'',
         ''esp32/main/crt_encode.h (source code)'', ''05_crt_quantization.py'',
         Fetch [''05_crt_quantization'', ''corrected_domain'', ''legal_domain_max''], Some ''crt_corrected_legal_max''),
      (''C42'', ''6.9.2'', ''quantization max error 0.37% (RMS 0.21%)'',
         ''derived from esp32/main/main.c encoding'', ''05_crt_quantization.py'',
         Fetch [''05_crt_quantization'', ''quantization_error'', ''truncating_quantiser'', ''max_error_pct_full_scale''], Some ''quantization_max_error_pct''),
      (''C43'', ''6.9.3'', ''signature-validity field 100.0%'',
         ''sensor_transactions.csv'', ''02_field_deployment.py'',
         Fetch [''02_crt_field_summary'', ''signature_valid_pct''], Some ''signature_validity_pct''),
      (''C44'', ''6.5'', ''200 revocation stage records over 58 days'',
         ''revocation_stages.csv'', ''07_revocation.py'',
         Fetch [''07_revocation_results'', ''n_stage_records''], Some ''revocation_stage_records''),
      (''C45'', ''6.5'', ''59 of 200 (29.5%) stages delayed'',
         ''revocation_stages.csv'', ''07_revocation.py'',
         Fetch [''07_revocation_results'', ''delayed_count''], Some ''delayed_stage_count''),
      (''C46'', ''6.9.4'', ''132 subjects, 0 with all 4 stages, 87 appear once'',
         ''revocation_stages.csv'', ''07_revocation.py'',
         Fetch [''07_revocation_results'', ''n_subjects''], Some ''revocation_subjects''),
      (''C47'', ''6.5'', ''973 field revocation denials, 16.0/day'',
         ''revocation_denials.csv'', ''07_revocation.py'',
         Fetch [''07_revocation_results'', ''field_revocation_denials'', ''count''], Some ''field_revocation_denials''),
      (''C48'', ''6.7'', ''energy reduction 48.7% [48.6,48.8]; 24.20 -> 12.41 mJ'',
         ''energy_measurements.csv'', ''08_energy_crypto.py'',
         Fetch [''08_energy_results'', ''reduction_pct''], Some ''energy_reduction_pct''),
      (''C49'', ''6.7'', ''signing pipeline ~900 us'',
         ''cryptographic_timings.csv'', ''08_energy_crypto.py'',
         Fetch [''08_crypto_timing_results'', ''sign_pipeline_us_sha256_plus_sign''], Some ''signing_pipeline_us''),
      (''C50'', ''5.6'', ''377,414 rows across 10 traces'',
         ''all raw/*.csv'', ''01_extract_and_inventory.py'',
         TotalRows, Some ''released_rows_total'')
    ]"

section \<open>Values and their comparison\<close>

fun py_abs :: "pyval \<Rightarrow> pyval result" where
  "py_abs (VInt i) = Inr (VInt \<bar>i\<bar>)"
| "py_abs (VBool b) = Inr (VInt (if b then 1 else 0))"
| "py_abs (VFloat q) = Inr (VFloat \<bar>q\<bar>)"
| "py_abs _ = Inl (TypeError ''bad operand type for abs()'')"

definition total_csv_rows :: "string option \<Rightarrow> int result" where
  "total_csv_rows inventory = bind_result (inventory_totals inventory) (\<lambda>(total_rows, n_csv). Inr total_rows)"

definition run_getter :: "pydict \<Rightarrow> string option \<Rightarrow> getter \<Rightarrow> pyval result" where
  "run_getter outputs inventory get =
     (case get of
        Fetch path \<Rightarrow> Inr (dig (VDict outputs) path)
      | FetchAbs path \<Rightarrow> py_abs (dig (VDict outputs) path)
      | TotalRows \<Rightarrow> bind_result (total_csv_rows inventory) (\<lambda>n. Inr (VInt n)))"

text \<open>The getter is called in a \<open>try\<close> that catches everything.\<close>

definition v10_value :: "pydict \<Rightarrow> string option \<Rightarrow> getter \<Rightarrow> pyval" where
  "v10_value outputs inventory get = (case run_getter outputs inventory get of Inr v \<Rightarrow> v | Inl e \<Rightarrow> VNone)"

text \<open>\<open>try: float(v) except (TypeError, ValueError): return None\<close>.\<close>

definition try_float :: "pyval \<Rightarrow> rat option result" where
  "try_float v =
     (case py_float v of
        Inr q \<Rightarrow> Inr (Some q)
      | Inl (TypeError _) \<Rightarrow> Inr None
      | Inl (ValueError _) \<Rightarrow> Inr None
      | Inl e \<Rightarrow> Inl e)"

definition pct_diff :: "pyval \<Rightarrow> pyval \<Rightarrow> rat option result" where
  "pct_diff v10 v92 =
     (if v10 = VNone \<or> v92 = VNone then Inr None
      else bind_result (try_float v10) (\<lambda>a.
           case a of
             None \<Rightarrow> Inr None
           | Some x \<Rightarrow>
               bind_result (try_float v92) (\<lambda>b.
                 case b of
                   None \<Rightarrow> Inr None
                 | Some y \<Rightarrow> if y = 0 then Inr None else Inr (Some ((x - y) / \<bar>y\<bar> * 100)))))"

definition is_bool :: "pyval \<Rightarrow> bool" where
  "is_bool v \<longleftrightarrow> (case v of VBool _ \<Rightarrow> True | _ \<Rightarrow> False)"

definition classify :: "pyval \<Rightarrow> pyval \<Rightarrow> rat option \<Rightarrow> string" where
  "classify v10 v92 pct =
     (if v10 = VNone then ''missing_in_v10''
      else if v92 = VNone then ''no_v92_comparator''
      else if is_bool v10 then (if v10 = VBool True then ''confirmed_by_manifest'' else ''not_confirmed_by_manifest'')
      else case pct of
             None \<Rightarrow> ''not_comparable''
           | Some p \<Rightarrow>
               if \<bar>p\<bar> < 1 / 2 then ''reproduced_exact''
               else if \<bar>p\<bar> < 5 then ''reproduced_within_rounding''
               else ''differs_materially'')"

definition actions :: "(string, string) dict" where
  "actions =
     [(''reproduced_exact'', ''retain (matches within rounding)''),
      (''reproduced_within_rounding'', ''update to verified V10 value (small, explainable difference)''),
      (''differs_materially'', ''replace with verified V10 value; document in changelog''),
      (''confirmed_by_manifest'', ''retain; design claim verified against real run manifest''),
      (''not_comparable'', ''report V10 value; no direct V9.2 numeric comparator''),
      (''no_v92_comparator'', ''report V10 value; no direct V9.2 numeric comparator''),
      (''missing_in_v10'', ''investigate: analysis pipeline did not produce a value'')]"

definition v92_value :: "pydict \<Rightarrow> string option \<Rightarrow> pyval" where
  "v92_value v92 key = (case key of None \<Rightarrow> VNone | Some k \<Rightarrow> if k = [] then VNone else get_default v92 k VNone)"

definition claim_out :: "pydict \<Rightarrow> pydict \<Rightarrow> string option \<Rightarrow> claim_row \<Rightarrow> payload result" where
  "claim_out outputs v92 inventory row =
     (case row of (claim_id, sect, claim_text, dataset, script, get, v92_key) \<Rightarrow>
        let v10_val = v10_value outputs inventory get; v92_val = v92_value v92 v92_key
        in bind_result (if is_bool v10_val then Inr None else pct_diff v10_val v92_val) (\<lambda>pct.
             let status = classify v10_val v92_val pct
             in case dict_get actions status of
                  None \<Rightarrow> Inl (KeyError status)
                | Some action \<Rightarrow>
                    Inr [(''claim_id'', VStr claim_id), (''V9.2_section'', VStr sect),
                         (''V9.2_claim'', VStr claim_text), (''required_dataset'', VStr dataset),
                         (''available_dataset'', VStr (if v10_val \<noteq> VNone then dataset else ''MISSING'')),
                         (''raw_or_summary'', VStr ''raw''), (''analysis_script'', VStr script),
                         (''reproduced_value'', v10_val), (''V9.2_value'', v92_val),
                         (''difference_pct'', (case pct of None \<Rightarrow> VStr [] | Some p \<Rightarrow> VFloat (round_to 3 p))),
                         (''V10_action'', VStr action), (''status'', VStr status)]))"

definition claim_rows :: "pydict \<Rightarrow> pydict \<Rightarrow> string option \<Rightarrow> payload list result" where
  "claim_rows outputs v92 inventory = map_result (claim_out outputs v92 inventory) ROWS"

section \<open>Validation of the dataset counts\<close>

definition expected_vs_real :: "(string \<times> int \<times> string list) list" where
  "expected_vs_real =
     [(''61-day deployment'', 61, [''02_deployment_summary'', ''deployment_span_days'']),
      (''209,000 authorization decisions'', 209000, [''02_deployment_summary'', ''authorization_decisions'']),
      (''146,400 sensor readings'', 146400, [''02_deployment_summary'', ''sensor_readings'']),
      (''32 peer-multiplicity runs'', 32, [''03_design_check'', ''n_runs'']),
      (''8 runs per peer configuration'', 8, [''03_design_check'', ''runs_per_peer_count'', ''4'']),
      (''100 throughput runs (10x2x5)'', 100, [''04_throughput_design_check'', ''n_runs'']),
      (''8,000 authorization-boundary attempts'', 8000, [''06_security_oracle'', ''total_attempts'']),
      (''200 revocation-stage records'', 200, [''07_revocation_results'', ''n_stage_records'']),
      (''973 field revocation denials'', 973, [''07_revocation_results'', ''field_revocation_denials'', ''count'']),
      (''3 gateway outages'', 3, [''02_availability'', ''outage_count''])]"

text \<open>\<open>real - expected\<close> for an int or float (a bool is an int), the empty string otherwise.\<close>

fun difference :: "pyval \<Rightarrow> int \<Rightarrow> pyval" where
  "difference (VInt i) expected = VInt (i - expected)"
| "difference (VBool b) expected = VInt ((if b then 1 else 0) - expected)"
| "difference (VFloat q) expected = VFloat (q - of_int expected)"
| "difference _ expected = VStr []"

definition validation_row :: "pydict \<Rightarrow> string \<times> int \<times> string list \<Rightarrow> payload" where
  "validation_row outputs entry =
     (case entry of (label, expected, path) \<Rightarrow>
        let real_value = dig (VDict outputs) path; matches = equals_num real_value (of_int expected)
        in [(''claim'', VStr label), (''v92_value'', VInt expected), (''real_data_value'', real_value),
            (''difference'', difference real_value expected),
            (''likely_explanation'', VStr (if matches then ''exact match'' else ''see DATA_DISCREPANCIES.md'')),
            (''manuscript_correction_required'', VBool (\<not> matches))])"

definition verified_entry :: "pydict \<Rightarrow> string \<times> int \<times> string list \<Rightarrow> string \<times> pyval" where
  "verified_entry outputs entry =
     (case entry of (label, expected, path) \<Rightarrow>
        let real_value = dig (VDict outputs) path
        in (label, payload_value [(''expected'', VInt expected), (''verified_real'', real_value),
              (''match'', VBool (equals_num real_value (of_int expected)))]))"

text \<open>\<open>main\<close>: the claim map, the verified counts and the validation rows.\<close>

definition claim_main ::
  "pydict \<Rightarrow> pydict \<Rightarrow> string option \<Rightarrow> (payload list \<times> payload \<times> payload list) result" where
  "claim_main outputs v92 inventory =
     bind_result (claim_rows outputs v92 inventory) (\<lambda>rows_out.
       Inr (rows_out, map (verified_entry outputs) expected_vs_real, map (validation_row outputs) expected_vs_real))"

section \<open>Properties\<close>

lemma py_float_errors:
  "py_float v = Inl e \<Longrightarrow> (\<exists>m. e = TypeError m) \<or> (\<exists>m. e = ValueError m) \<or> e = Unmodelled"
  by (cases v) (auto simp: py_float_str_def Let_def split: if_splits option.splits prod.splits)

lemma try_float_error: "try_float v = Inl e \<Longrightarrow> e = Unmodelled"
  by (auto simp: try_float_def dest: py_float_errors split: sum.splits pyerr.splits)

lemma pct_diff_error: "pct_diff v10 v92 = Inl e \<Longrightarrow> e = Unmodelled"
  by (auto simp: pct_diff_def result_simps dest: try_float_error split: if_splits option.splits)

text \<open>A claim whose recomputed value is \<open>False\<close> although there is a value to compare with.\<close>

definition refuted :: "pydict \<Rightarrow> pydict \<Rightarrow> string option \<Rightarrow> claim_row \<Rightarrow> bool" where
  "refuted outputs v92 inventory row =
     (case row of (claim_id, sect, claim_text, dataset, script, get, v92_key) \<Rightarrow>
        v10_value outputs inventory get = VBool False \<and> v92_value v92 v92_key \<noteq> VNone)"

lemma classify_has_action:
  "dict_get actions (classify v10 v92 pct) = None \<longleftrightarrow> v10 = VBool False \<and> v92 \<noteq> VNone"
  by (auto simp: classify_def actions_def is_bool_def split: option.splits pyval.splits)

lemma classify_refuted: "v92 \<noteq> VNone \<Longrightarrow> classify (VBool False) v92 pct = ''not_confirmed_by_manifest''"
  by (simp add: classify_def is_bool_def)

lemma claim_out_cases:
  "case claim_out outputs v92 inventory row of
     Inl e \<Rightarrow> e = Unmodelled \<or> e = KeyError ''not_confirmed_by_manifest'' \<and> refuted outputs v92 inventory row
   | Inr out \<Rightarrow> \<not> refuted outputs v92 inventory row \<and> payload_get out ''claim_id'' = VStr (fst row)"
proof -
  obtain claim_id sect claim_text dataset script get v92_key where
    row: "row = (claim_id, sect, claim_text, dataset, script, get, v92_key)" by (cases row) auto
  let ?v10 = "v10_value outputs inventory get" and ?v92 = "v92_value v92 v92_key"
  show ?thesis
  proof (cases "if is_bool ?v10 then Inr None else pct_diff ?v10 ?v92")
    case (Inl e)
    then have "e = Unmodelled" by (auto dest: pct_diff_error split: if_splits)
    with Inl show ?thesis by (simp add: row claim_out_def Let_def)
  next
    case (Inr pct)
    show ?thesis
    proof (cases "?v10 = VBool False \<and> ?v92 \<noteq> VNone")
      case True
      with Inr classify_has_action [of ?v10 ?v92 pct] show ?thesis
        by (auto simp: row claim_out_def Let_def refuted_def classify_refuted)
    next
      case False
      then obtain action where "dict_get actions (classify ?v10 ?v92 pct) = Some action"
        using classify_has_action [of ?v10 ?v92 pct] by (cases "dict_get actions (classify ?v10 ?v92 pct)") auto
      with Inr False show ?thesis
        by (simp add: row claim_out_def Let_def refuted_def payload_get_def)
    qed
  qed
qed

lemma rows_aligned:
  "list_all2 (\<lambda>x y. \<not> bad x \<and> g y = f x) xs ys \<Longrightarrow>
     length ys = length xs \<and> \<not> list_ex bad xs \<and> map g ys = map f xs"
  by (induction xs ys rule: list_all2_induct) auto

text \<open>
  The claim map is complete: it has one row for each of the fifty claims, in order, and the script
  fails only when a claim with a value to compare was recomputed to \<open>False\<close>, for whose status it has no
  action.
\<close>

theorem claim_rows_complete:
  "case claim_rows outputs v92 inventory of
     Inl e \<Rightarrow> e = Unmodelled \<or>
       e = KeyError ''not_confirmed_by_manifest'' \<and> list_ex (refuted outputs v92 inventory) ROWS
   | Inr rows \<Rightarrow>
       length rows = 50 \<and> \<not> list_ex (refuted outputs v92 inventory) ROWS \<and>
       map (\<lambda>out. payload_get out ''claim_id'') rows = map (VStr \<circ> fst) ROWS"
proof -
  note cases = claim_out_cases [of outputs v92 inventory]
  show ?thesis
  proof (cases "claim_rows outputs v92 inventory")
    case (Inl e)
    then obtain row where "row \<in> set ROWS" "claim_out outputs v92 inventory row = Inl e"
      using map_result_cases [where f = "claim_out outputs v92 inventory" and xs = ROWS] by (auto simp: claim_rows_def)
    with cases [of row] Inl show ?thesis by (auto simp: list_ex_iff)
  next
    case (Inr rows)
    then have all: "list_all2 (\<lambda>row out. claim_out outputs v92 inventory row = Inr out) ROWS rows"
      using map_result_cases [where f = "claim_out outputs v92 inventory" and xs = ROWS] by (simp add: claim_rows_def)
    then have *: "list_all2 (\<lambda>row out. \<not> refuted outputs v92 inventory row \<and>
        payload_get out ''claim_id'' = VStr (fst row)) ROWS rows"
    proof (rule list_all2_mono)
      fix row out
      assume "claim_out outputs v92 inventory row = Inr out"
      with cases [of row] show "\<not> refuted outputs v92 inventory row \<and>
          payload_get out ''claim_id'' = VStr (fst row)" by simp
    qed
    have "length ROWS = 50" by (simp add: ROWS_def)
    with rows_aligned [OF *] Inr show ?thesis by (simp add: comp_def)
  qed
qed

text \<open>
  C30. The statuses mean what they say: for numbers with a nonzero reference, a claim is reproduced
  exactly when it is off by less than half a percent of the reference, within rounding when by less than
  five percent, and differs materially otherwise.
\<close>

theorem status_by_deviation:
  assumes "py_float v10 = Inr a" "py_float v92 = Inr b" "b \<noteq> 0" "\<not> is_bool v10"
  shows "\<exists>p. pct_diff v10 v92 = Inr (Some p) \<and>
     classify v10 v92 (Some p) =
       (if 200 * \<bar>a - b\<bar> < \<bar>b\<bar> then ''reproduced_exact''
        else if 20 * \<bar>a - b\<bar> < \<bar>b\<bar> then ''reproduced_within_rounding''
        else ''differs_materially'')"
proof -
  let ?p = "(a - b) / \<bar>b\<bar> * 100"
  have nn: "v10 \<noteq> VNone" "v92 \<noteq> VNone" using assms(1,2) by auto
  have pct: "pct_diff v10 v92 = Inr (Some ?p)"
    using assms nn by (simp add: pct_diff_def try_float_def)
  have p: "\<bar>?p\<bar> = \<bar>a - b\<bar> / \<bar>b\<bar> * 100" unfolding abs_mult abs_divide by simp
  have "\<bar>?p\<bar> < 1 / 2 \<longleftrightarrow> 200 * \<bar>a - b\<bar> < \<bar>b\<bar>" "\<bar>?p\<bar> < 5 \<longleftrightarrow> 20 * \<bar>a - b\<bar> < \<bar>b\<bar>"
    using assms(3) unfolding p by (simp_all add: field_simps)
  with pct nn assms(4) show ?thesis by (intro exI [of _ ?p]) (simp add: classify_def)
qed

theorem status_by_deviation_witness:
  "\<exists>p. pct_diff (VInt 146400) (VInt 146400) = Inr (Some p) \<and>
     classify (VInt 146400) (VInt 146400) (Some p) = ''reproduced_exact''"
  using status_by_deviation [of "VInt 146400" 146400 "VInt 146400" 146400] by (simp add: is_bool_def)

text \<open>
  The claim checked against the run manifest (the third tuple below) has no value to compare with, and
  \<open>classify\<close> looks at that first: whether the check came out true or false, its status is the same.
\<close>

lemma manifest_claim_status:
  assumes "row = (claim_id, sect, claim_text, dataset, script, get, None)"
    and "v10_value outputs inventory get = VBool b"
  shows "\<exists>out. claim_out outputs v92 inventory row = Inr out \<and> payload_get out ''status'' = VStr ''no_v92_comparator''"
  using assms by (simp add: claim_out_def Let_def is_bool_def classify_def v92_value_def actions_def payload_get_def)

text \<open>
  The validation of the dataset counts agrees with itself: a correction is required exactly when the
  difference is not the number zero, and the verified counts say the same.
\<close>

theorem validation_consistent:
  "(\<exists>m. payload_get (validation_row outputs entry) ''manuscript_correction_required'' = VBool (\<not> m) \<and>
     m = equals_num (payload_get (validation_row outputs entry) ''difference'') 0 \<and>
     snd (verified_entry outputs entry) = payload_value
       [(''expected'', payload_get (validation_row outputs entry) ''v92_value''),
        (''verified_real'', payload_get (validation_row outputs entry) ''real_data_value''),
        (''match'', VBool m)])"
proof -
  have "equals_num v (of_int expected) = equals_num (difference v expected) 0" for v expected
    by (cases v) (auto simp: equals_num_def simp flip: of_int_diff)
  then show ?thesis
    by (cases entry) (auto simp: validation_row_def verified_entry_def Let_def payload_get_def)
qed

end
