(* ===== verification/Safe_Extract.thy ===== *)
theory Safe_Extract
  imports Py_Text
begin

text \<open>
  \<open>safe_extract\<close> of \<open>01_extract_and_inventory.py\<close> on an explicit file system: extraction of an archive
  that must neither write outside its destination nor change a file that is already there. A path is the
  list of its components below the root. \<open>resolve\<close> drops \<open>.\<close> and pops a component for \<open>..\<close>; symbolic
  links and names with exactly two leading slashes are outside the model. The hash function (SHA-256 in \<open>hashlib\<close>) is an argument, and so is the
  content of a member; opening it may fail (\<open>m_open\<close>), and so may its decompression (\<open>m_content\<close>). The lemmas show containment, that existing files are
  kept, and that a repeated extraction changes nothing.
\<close>

section \<open>Paths and the file system\<close>

type_synonym path = "string list"
type_synonym bytes = "8 word list"

record file_system =
  fs_files :: "(path, bytes) dict"
  fs_dirs :: "path list"

record member =
  m_name :: string
  m_open :: "unit result"
  m_content :: "bytes result"

record extracted =
  zip_entry :: string
  canonical_path :: string
  ex_sha256 :: string
  size_bytes :: nat

abbreviation SLASH :: char where "SLASH \<equiv> CHR ''/''"

definition components :: "string \<Rightarrow> path" where
  "components name = filter (\<lambda>c. c \<noteq> [] \<and> c \<noteq> ''.'') (split_on SLASH name)"

fun resolve :: "path \<Rightarrow> path \<Rightarrow> path" where
  "resolve acc [] = acc"
| "resolve acc (c # cs) = (if c = ''..'' then resolve (butlast acc) cs else resolve (acc @ [c]) cs)"

text \<open>\<open>(dest / name).resolve()\<close>: an absolute name replaces the destination.\<close>

definition target_of :: "path \<Rightarrow> string \<Rightarrow> path" where
  "target_of dest name = resolve (if starts_with ''/'' name then [] else dest) (components name)"

definition path_str :: "path \<Rightarrow> string" where
  "path_str p = SLASH # join [SLASH] p"

definition inside :: "path \<Rightarrow> path \<Rightarrow> bool" where
  "inside dest target \<longleftrightarrow> target = dest \<or> starts_with (path_str dest @ [SLASH]) (path_str target)"

text \<open>\<open>"__MACOSX" in name or Path(name).name.startswith(".")\<close>.\<close>

definition base_name :: "string \<Rightarrow> string" where
  "base_name name = (if components name = [] then [] else last (components name))"

definition skipped :: "string \<Rightarrow> bool" where
  "skipped name \<longleftrightarrow> contains_sub ''__MACOSX'' name \<or> starts_with ''.'' (base_name name)"

definition is_dir_name :: "string \<Rightarrow> bool" where
  "is_dir_name name \<longleftrightarrow> ends_with ''/'' name"

definition is_file :: "file_system \<Rightarrow> path \<Rightarrow> bool" where
  "is_file fs p \<longleftrightarrow> dict_get (fs_files fs) p \<noteq> None"

definition is_dir :: "file_system \<Rightarrow> path \<Rightarrow> bool" where
  "is_dir fs p \<longleftrightarrow> p = [] \<or> p \<in> set (fs_dirs fs)"

definition ancestors_of :: "path \<Rightarrow> path list" where
  "ancestors_of p = map (\<lambda>n. take n p) [1..<length p]"

text \<open>\<open>p.mkdir(parents=True, exist_ok=True)\<close>.\<close>

definition mkdirs :: "path \<Rightarrow> file_system \<Rightarrow> file_system result" where
  "mkdirs p fs =
     (if is_dir fs p then Inr fs
      else if is_file fs p then Inl FileExistsError
      else if list_ex (is_file fs) (ancestors_of p) then Inl NotADirectoryError
      else Inr (fs\<lparr>fs_dirs := fs_dirs fs @ filter (\<lambda>q. \<not> is_dir fs q) (ancestors_of p) @ [p]\<rparr>))"

definition write_file :: "path \<Rightarrow> bytes \<Rightarrow> file_system \<Rightarrow> file_system" where
  "write_file p bs fs = fs\<lparr>fs_files := dict_set p bs (fs_files fs)\<rparr>"

definition sha256_file :: "(bytes \<Rightarrow> string) \<Rightarrow> path \<Rightarrow> file_system \<Rightarrow> string result" where
  "sha256_file sha p fs =
     (case dict_get (fs_files fs) p of
        Some bs \<Rightarrow> Inr (sha bs)
      | None \<Rightarrow> if is_dir fs p then Inl IsADirectoryError else Inl FileNotFoundError)"

text \<open>\<open>str(p.relative_to(base))\<close>.\<close>

definition relative_to :: "path \<Rightarrow> path \<Rightarrow> string result" where
  "relative_to base p =
     (if take (length base) p = base
      then Inr (if length p = length base then ''.'' else join [SLASH] (drop (length base) p))
      else Inl (ValueError ''is not in the subpath of''))"

section \<open>Extraction\<close>

text \<open>
  The member is written, or compared with the file that is already there. The file is created after the member
  was opened and before it is read: a member that cannot be read leaves an empty file.
\<close>

definition store_member ::
  "(bytes \<Rightarrow> string) \<Rightarrow> path \<Rightarrow> member \<Rightarrow> file_system \<Rightarrow> unit result \<times> file_system" where
  "store_member sha target m fs =
     (if is_file fs target \<or> is_dir fs target then
        (bind_result (sha256_file sha target fs) (\<lambda>existing_hash.
         bind_result (m_open m) (\<lambda>_.
         bind_result (m_content m) (\<lambda>new_bytes.
           if existing_hash \<noteq> sha new_bytes
           then Inl (ValueError (''refusing to overwrite changed file: '' @ path_str target))
           else Inr ()))), fs)
      else
        (case m_open m of
           Inl e \<Rightarrow> (Inl e, fs)
         | Inr _ \<Rightarrow>
             (case m_content m of
                Inl e \<Rightarrow> (Inl e, write_file target [] fs)
              | Inr bs \<Rightarrow> (Inr (), write_file target bs fs))))"

definition mapping_entry ::
  "(bytes \<Rightarrow> string) \<Rightarrow> path \<Rightarrow> path \<Rightarrow> string \<Rightarrow> file_system \<Rightarrow> extracted result" where
  "mapping_entry sha base target name fs =
     bind_result (relative_to base target) (\<lambda>rel.
     bind_result (sha256_file sha target fs) (\<lambda>h.
       Inr \<lparr>zip_entry = name, canonical_path = rel, ex_sha256 = h,
            size_bytes = length (the (dict_get (fs_files fs) target))\<rparr>))"

definition extract_member ::
  "(bytes \<Rightarrow> string) \<Rightarrow> path \<Rightarrow> path \<Rightarrow> member \<Rightarrow> file_system \<Rightarrow> extracted option result \<times> file_system" where
  "extract_member sha base dest m fs =
     (let name = m_name m; target = target_of dest name
      in if skipped name then (Inr None, fs)
         else if \<not> inside dest target
         then (Inl (ValueError (''zip-slip blocked: '' @ name @ '' resolves outside '' @ path_str dest)), fs)
         else if is_dir_name name then
           (case mkdirs target fs of Inl e \<Rightarrow> (Inl e, fs) | Inr fs1 \<Rightarrow> (Inr None, fs1))
         else
           (case mkdirs (butlast target) fs of
              Inl e \<Rightarrow> (Inl e, fs)
            | Inr fs1 \<Rightarrow>
                (case store_member sha target m fs1 of
                   (Inl e, fs2) \<Rightarrow> (Inl e, fs2)
                 | (Inr _, fs2) \<Rightarrow>
                     (bind_result (mapping_entry sha base target name fs2) (\<lambda>entry. Inr (Some entry)), fs2))))"

fun safe_extract ::
  "(bytes \<Rightarrow> string) \<Rightarrow> path \<Rightarrow> path \<Rightarrow> member list \<Rightarrow> file_system \<Rightarrow> extracted list result \<times> file_system" where
  "safe_extract sha base dest [] fs = (Inr [], fs)"
| "safe_extract sha base dest (m # ms) fs =
     (case extract_member sha base dest m fs of
        (Inl e, fs1) \<Rightarrow> (Inl e, fs1)
      | (Inr entry, fs1) \<Rightarrow>
          (case safe_extract sha base dest ms fs1 of
             (res, fs2) \<Rightarrow>
               (bind_result res (\<lambda>entries.
                  Inr (case entry of None \<Rightarrow> entries | Some en \<Rightarrow> en # entries)), fs2)))"

section \<open>Paths inside the destination\<close>

definition plain :: "path \<Rightarrow> bool" where
  "plain p \<longleftrightarrow> (\<forall>c \<in> set p. c \<noteq> [] \<and> SLASH \<notin> set c \<and> c \<noteq> ''..'' \<and> c \<noteq> ''.'')"

lemma plain_append [simp]: "plain (p @ q) \<longleftrightarrow> plain p \<and> plain q"
  by (auto simp: plain_def)

lemma plain_butlast: "plain p \<Longrightarrow> plain (butlast p)"
  by (auto simp: plain_def dest: in_set_butlastD)

lemma plain_resolve:
  "plain acc \<Longrightarrow> (\<And>c. c \<in> set cs \<Longrightarrow> c \<noteq> [] \<and> SLASH \<notin> set c \<and> c \<noteq> ''.'') \<Longrightarrow> plain (resolve acc cs)"
proof (induction cs arbitrary: acc)
  case (Cons c cs)
  have "plain [c]" if "c \<noteq> ''..''" using Cons.prems(2) [of c] that by (simp add: plain_def)
  with Cons show ?case by (auto simp: plain_butlast)
qed simp

lemma plain_target: "plain dest \<Longrightarrow> plain (target_of dest name)"
  unfolding target_of_def
  by (rule plain_resolve) (auto simp: components_def plain_def dest: split_on_no_sep)

lemma inside_prefix:
  assumes "plain dest" "plain target" "inside dest target"
  shows "\<exists>rest. target = dest @ rest \<and> (target \<noteq> dest \<longrightarrow> rest \<noteq> [])"
proof (cases "target = dest")
  case False
  with assms(3) obtain r where "path_str target = path_str dest @ SLASH # r"
    unfolding inside_def starts_with_def by (metis append_take_drop_id append_Cons append_Nil append_assoc)
  then have eq: "join [SLASH] target = join [SLASH] dest @ SLASH # r" by (simp add: path_str_def)
  have no_sep: "\<forall>c \<in> set p. SLASH \<notin> set c" if "plain p" for p using that by (auto simp: plain_def)
  have target: "target \<noteq> []" using eq by auto
  then have "target = split_on SLASH (join [SLASH] dest @ SLASH # r)"
    using split_on_join [OF target no_sep [OF assms(2)]] eq by simp
  also have "\<dots> = split_on SLASH (join [SLASH] dest) @ split_on SLASH r"
    by (rule split_on_append)
  finally have split: "target = split_on SLASH (join [SLASH] dest) @ split_on SLASH r" .
  have "dest \<noteq> []"
  proof
    assume "dest = []"
    with split assms(2) show False by (simp add: plain_def)
  qed
  with split split_on_join [OF _ no_sep [OF assms(1)]] show ?thesis by (intro exI [of _ "split_on SLASH r"]) simp
qed auto

section \<open>The file system only grows\<close>

text \<open>\<open>grows fs fs'\<close>: every file of \<open>fs\<close> is in \<open>fs'\<close> with the same content, every directory is kept.\<close>

definition grows :: "file_system \<Rightarrow> file_system \<Rightarrow> bool" where
  "grows fs fs' \<longleftrightarrow>
     (\<forall>p bs. dict_get (fs_files fs) p = Some bs \<longrightarrow> dict_get (fs_files fs') p = Some bs) \<and>
     set (fs_dirs fs) \<subseteq> set (fs_dirs fs')"

lemma grows_refl [simp]: "grows fs fs"
  by (simp add: grows_def)

lemma grows_trans: "grows a b \<Longrightarrow> grows b c \<Longrightarrow> grows a c"
  by (auto simp: grows_def)

lemma grows_is_dir: "grows fs fs' \<Longrightarrow> is_dir fs p \<Longrightarrow> is_dir fs' p"
  by (auto simp: grows_def is_dir_def)

lemma grows_is_file: "grows fs fs' \<Longrightarrow> is_file fs p \<Longrightarrow> is_file fs' p"
  by (auto simp: grows_def is_file_def)

lemma mkdirs_effect:
  assumes "mkdirs p fs = Inr fs'"
  shows "grows fs fs'" "fs_files fs' = fs_files fs" "is_dir fs' p"
    "q \<in> set (fs_dirs fs') \<Longrightarrow> q \<notin> set (fs_dirs fs) \<Longrightarrow> \<exists>n. q = take n p"
proof -
  show "grows fs fs'" "fs_files fs' = fs_files fs" "is_dir fs' p"
    using assms by (auto simp: mkdirs_def grows_def is_dir_def split: if_splits)
  assume "q \<in> set (fs_dirs fs')" "q \<notin> set (fs_dirs fs)"
  with assms have "q \<in> set (ancestors_of p) \<or> q = p" by (auto simp: mkdirs_def split: if_splits)
  then show "\<exists>n. q = take n p" by (auto simp: ancestors_of_def intro: exI [of _ "length p"])
qed

lemma mkdirs_again: "is_dir fs p \<Longrightarrow> mkdirs p fs = Inr fs"
  by (simp add: mkdirs_def)

lemma store_member_effect:
  assumes "store_member sha target m fs = (res, fs')"
  shows "grows fs fs'" "fs_dirs fs' = fs_dirs fs"
    "dict_get (fs_files fs') p \<noteq> dict_get (fs_files fs) p \<Longrightarrow> p = target"
    "res = Inr () \<Longrightarrow> \<exists>bs old. m_open m = Inr () \<and> m_content m = Inr bs \<and> dict_get (fs_files fs') target = Some old \<and> sha old = sha bs"
  using assms
  by (auto simp: store_member_def grows_def write_file_def is_file_def sha256_file_def result_simps dict_simps
      split: if_splits sum.splits option.splits)

lemma store_member_again:
  assumes "dict_get (fs_files fs) target = Some old" "m_open m = Inr ()" "m_content m = Inr bs" "sha old = sha bs"
  shows "store_member sha target m fs = (Inr (), fs)"
  using assms by (simp add: store_member_def is_file_def sha256_file_def)

lemma mapping_entry_grows:
  assumes "mapping_entry sha base target name fs = Inr entry" "grows fs fs'"
  shows "mapping_entry sha base target name fs' = Inr entry"
  using assms
  by (auto simp: mapping_entry_def sha256_file_def grows_def result_simps split: option.splits if_splits)

lemma extract_member_grows:
  assumes "extract_member sha base dest m fs = (res, fs')"
  shows "grows fs fs'"
proof -
  let ?t = "target_of dest (m_name m)"
  consider "fs' = fs" | "mkdirs ?t fs = Inr fs'"
    | fs1 r where "mkdirs (butlast ?t) fs = Inr fs1" "store_member sha ?t m fs1 = (r, fs')"
    using assms by (auto simp: extract_member_def Let_def split: if_splits sum.splits prod.splits)
  then show ?thesis
    by cases (auto dest: mkdirs_effect(1) store_member_effect(1) intro: grows_trans)
qed

lemma safe_extract_grows: "safe_extract sha base dest ms fs = (res, fs') \<Longrightarrow> grows fs fs'"
proof (induction ms arbitrary: fs res)
  case (Cons m ms)
  obtain r fs1 where one: "extract_member sha base dest m fs = (r, fs1)" by fastforce
  note g = extract_member_grows [OF one]
  show ?case
  proof (cases r)
    case (Inl e)
    with Cons.prems one g show ?thesis by simp
  next
    case (Inr entry)
    with Cons.prems one obtain res' where "safe_extract sha base dest ms fs1 = (res', fs')"
      by (auto split: prod.splits)
    from Cons.IH [OF this] g show ?thesis by (auto intro: grows_trans)
  qed
qed simp

text \<open>A member that was extracted is extracted again without any change, at every later time.\<close>

lemma extract_member_again:
  assumes "extract_member sha base dest m fs = (Inr entry, fs1)" "grows fs1 fs2"
  shows "extract_member sha base dest m fs2 = (Inr entry, fs2)"
proof -
  let ?t = "target_of dest (m_name m)"
  consider (skip) "skipped (m_name m)" "entry = None"
    | (dir) "\<not> skipped (m_name m)" "inside dest ?t" "is_dir_name (m_name m)" "mkdirs ?t fs = Inr fs1" "entry = None"
    | (plain_file) fs0 en where "\<not> skipped (m_name m)" "inside dest ?t" "\<not> is_dir_name (m_name m)"
        "mkdirs (butlast ?t) fs = Inr fs0" "store_member sha ?t m fs0 = (Inr (), fs1)"
        "mapping_entry sha base ?t (m_name m) fs1 = Inr en" "entry = Some en"
    using assms(1) by (auto simp: extract_member_def Let_def result_simps split: if_splits sum.splits prod.splits)
  then show ?thesis
  proof cases
    case skip
    then show ?thesis by (simp add: extract_member_def)
  next
    case dir
    then have "mkdirs ?t fs2 = Inr fs2"
      using mkdirs_effect(3) [OF dir(4)] assms(2) by (auto intro: mkdirs_again grows_is_dir)
    with dir show ?thesis by (simp add: extract_member_def)
  next
    case plain_file
    have "grows fs0 fs2" using store_member_effect(1) [OF plain_file(5)] assms(2) by (rule grows_trans)
    with mkdirs_effect(3) [OF plain_file(4)] have parent: "mkdirs (butlast ?t) fs2 = Inr fs2"
      by (auto intro: mkdirs_again grows_is_dir)
    from store_member_effect(4) [OF plain_file(5)] obtain bs old where
      "m_open m = Inr ()" "m_content m = Inr bs" "dict_get (fs_files fs1) ?t = Some old" "sha old = sha bs" by auto
    with assms(2) have "store_member sha ?t m fs2 = (Inr (), fs2)"
      by (auto simp: grows_def intro: store_member_again)
    with plain_file parent mapping_entry_grows [OF plain_file(6) assms(2)] show ?thesis by (simp add: extract_member_def)
  qed
qed

section \<open>Properties\<close>

lemma extract_member_contained:
  assumes "plain dest" "extract_member sha base dest m fs = (res, fs')"
  shows "dict_get (fs_files fs') p \<noteq> dict_get (fs_files fs) p \<Longrightarrow> \<exists>rest. p = dest @ rest"
    and "q \<in> set (fs_dirs fs') \<Longrightarrow> q \<notin> set (fs_dirs fs) \<Longrightarrow> \<exists>rest n. q = take n (dest @ rest)"
proof -
  let ?t = "target_of dest (m_name m)"
  have t: "\<exists>rest. ?t = dest @ rest" if "inside dest ?t"
    using inside_prefix [OF assms(1) plain_target [OF assms(1)] that] by blast
  consider (same) "fs' = fs" | (mk) "inside dest ?t" "mkdirs ?t fs = Inr fs'"
    | (stored) fs1 r where "inside dest ?t" "mkdirs (butlast ?t) fs = Inr fs1" "store_member sha ?t m fs1 = (r, fs')"
    using assms(2) by (auto simp: extract_member_def Let_def split: if_splits sum.splits prod.splits)
  note cases = this
  show "\<exists>rest. p = dest @ rest" if "dict_get (fs_files fs') p \<noteq> dict_get (fs_files fs) p"
    using cases
  proof cases
    case stored
    with that mkdirs_effect(2) [OF stored(2)] store_member_effect(3) [OF stored(3)] have "p = ?t" by auto
    with t [OF stored(1)] show ?thesis by simp
  qed (use that mkdirs_effect(2) in auto)
  show "\<exists>rest n. q = take n (dest @ rest)" if q: "q \<in> set (fs_dirs fs')" "q \<notin> set (fs_dirs fs)"
    using cases
  proof cases
    case mk
    from mkdirs_effect(4) [OF mk(2) q] obtain n where "q = take n ?t" by blast
    with t [OF mk(1)] show ?thesis by metis
  next
    case stored
    with q store_member_effect(2) [OF stored(3)] have "q \<in> set (fs_dirs fs1)" by simp
    from mkdirs_effect(4) [OF stored(2) this q(2)] obtain n where n: "q = take n (butlast ?t)" by blast
    obtain rest where "?t = dest @ rest" using t [OF stored(1)] by blast
    with n have "q = take (min n (length (dest @ rest) - 1)) (dest @ rest)" by (simp add: butlast_conv_take min_def)
    then show ?thesis by blast
  qed (use q in auto)
qed

lemma safe_extract_contained:
  assumes "plain dest" "safe_extract sha base dest ms fs = (res, fs')"
  shows "(dict_get (fs_files fs') p \<noteq> dict_get (fs_files fs) p \<longrightarrow> (\<exists>rest. p = dest @ rest)) \<and>
    (q \<in> set (fs_dirs fs') \<longrightarrow> q \<notin> set (fs_dirs fs) \<longrightarrow> (\<exists>rest n. q = take n (dest @ rest)))"
  using assms(2)
proof (induction ms arbitrary: fs res)
  case (Cons m ms)
  obtain r fs1 where one: "extract_member sha base dest m fs = (r, fs1)" by fastforce
  note c = extract_member_contained(1) [OF assms(1) one, of p] extract_member_contained(2) [OF assms(1) one, of q]
  show ?case
  proof (cases r)
    case (Inl e)
    with Cons.prems one c show ?thesis by auto
  next
    case (Inr entry)
    with Cons.prems one obtain res' where "safe_extract sha base dest ms fs1 = (res', fs')"
      by (auto split: prod.splits)
    from Cons.IH [OF this] c show ?thesis by metis
  qed
qed simp

text \<open>
  C23. No archive writes outside the destination or changes a file: whatever the members are called and
  whether extraction succeeds or raises, a path whose content differs afterwards lies below the
  destination and did not exist before, and every new directory lies below the destination or on the way
  to it.
\<close>

theorem zip_slip_blocked:
  assumes "plain dest" "safe_extract sha base dest ms fs = (res, fs')"
  shows "\<forall>p q.
     (dict_get (fs_files fs') p = dict_get (fs_files fs) p \<or>
      dict_get (fs_files fs) p = None \<and> (\<exists>rest. p = dest @ rest)) \<and>
     (q \<in> set (fs_dirs fs') \<longrightarrow> q \<in> set (fs_dirs fs) \<or> (\<exists>rest n. q = take n (dest @ rest)))"
proof (intro allI)
  fix p q
  note c = safe_extract_contained [OF assms, of p q]
  have "dict_get (fs_files fs') p = Some bs" if "dict_get (fs_files fs) p = Some bs" for bs
    using safe_extract_grows [OF assms(2)] that by (simp add: grows_def)
  with c show "(dict_get (fs_files fs') p = dict_get (fs_files fs) p \<or>
      dict_get (fs_files fs) p = None \<and> (\<exists>rest. p = dest @ rest)) \<and>
     (q \<in> set (fs_dirs fs') \<longrightarrow> q \<in> set (fs_dirs fs) \<or> (\<exists>rest n. q = take n (dest @ rest)))"
    by (cases "dict_get (fs_files fs) p") auto
qed

definition demo_fs :: file_system where
  "demo_fs = \<lparr>fs_files = [([''etc'', ''passwd''], [1])], fs_dirs = [[''etc''], [''raw'']]\<rparr>"

definition demo_archive :: "member list" where
  "demo_archive =
     [\<lparr>m_name = ''field/a.csv'', m_open = Inr (), m_content = Inr [7, 8]\<rparr>, \<lparr>m_name = ''../etc/passwd'', m_open = Inr (), m_content = Inr [9]\<rparr>]"

definition toy_hash :: "bytes \<Rightarrow> string" where
  "toy_hash bs = map (\<lambda>b. char_of (unat b)) bs"

lemma demo_plain: "plain [''raw'']"
  by (simp add: plain_def)

lemma demo_slip:
  "safe_extract toy_hash [] [''raw''] demo_archive demo_fs =
     (Inl (ValueError ''zip-slip blocked: ../etc/passwd resolves outside /raw''),
      \<lparr>fs_files = [([''etc'', ''passwd''], [1]), ([''raw'', ''field'', ''a.csv''], [7, 8])],
       fs_dirs = [[''etc''], [''raw''], [''raw'', ''field'']]\<rparr>)"
  by code_simp

theorem zip_slip_blocked_witness:
  "dict_get (fs_files (snd (safe_extract toy_hash [] [''raw''] demo_archive demo_fs))) [''etc'', ''passwd''] = Some [1]"
  using zip_slip_blocked [OF demo_plain demo_slip] unfolding demo_slip
  by (auto simp: demo_fs_def dest!: spec [where x = "[''etc'', ''passwd'']"])

text \<open>
  A repeated extraction is harmless: after a successful run, running it again on the result succeeds
  with the same mapping and leaves the file system as it is.
\<close>

theorem extract_idempotent:
  assumes "safe_extract sha base dest ms fs = (Inr entries, fs')"
  shows "safe_extract sha base dest ms fs' = (Inr entries, fs')"
proof -
  have "safe_extract sha base dest ms fs2 = (Inr entries, fs2)"
    if "safe_extract sha base dest ms fs = (Inr entries, fs')" "grows fs' fs2" for fs entries fs2
    using that
  proof (induction ms arbitrary: fs entries)
    case (Cons m ms)
    from Cons.prems(1) obtain entry fs1 rest where
      one: "extract_member sha base dest m fs = (Inr entry, fs1)"
      and more: "safe_extract sha base dest ms fs1 = (Inr rest, fs')"
      and entries: "entries = (case entry of None \<Rightarrow> rest | Some en \<Rightarrow> en # rest)"
      by (auto simp: result_simps split: prod.splits sum.splits)
    have "grows fs1 fs2" using safe_extract_grows [OF more] Cons.prems(2) by (rule grows_trans)
    from extract_member_again [OF one this] Cons.IH [OF more Cons.prems(2)] entries show ?case by simp
  qed simp
  with assms show ?thesis by simp
qed

lemma demo_ok:
  "safe_extract toy_hash [] [''raw''] (take 1 demo_archive) demo_fs =
     (Inr [\<lparr>zip_entry = ''field/a.csv'', canonical_path = ''raw/field/a.csv'',
            ex_sha256 = toy_hash [7, 8], size_bytes = 2\<rparr>],
      \<lparr>fs_files = [([''etc'', ''passwd''], [1]), ([''raw'', ''field'', ''a.csv''], [7, 8])],
       fs_dirs = [[''etc''], [''raw''], [''raw'', ''field'']]\<rparr>)"
  by code_simp

theorem extract_idempotent_witness:
  "fst (safe_extract toy_hash [] [''raw''] (take 1 demo_archive)
      (snd (safe_extract toy_hash [] [''raw''] (take 1 demo_archive) demo_fs))) =
   fst (safe_extract toy_hash [] [''raw''] (take 1 demo_archive) demo_fs)"
  using extract_idempotent [OF demo_ok] by (simp only: demo_ok fst_conv snd_conv)

end
