(* ===== verification/Inventory.thy ===== *)
theory Inventory
  imports Analysis_Outputs
begin

text \<open>
  The inventory of \<open>01_extract_and_inventory.py\<close>: one row for every CSV file, JSON-lines file and log
  directory of the data package, written as a CSV file. The rows hold integers and texts only, so the
  written text is modelled. The profile of a CSV file is an argument here (a field is absent
  when the file cannot be read); \<open>Csv_Profile\<close> computes it and \<open>Extraction_Run\<close> finds the files. The main lemma reads the inventory back with the loop of the scripts 10
  and 11 and finds the sum of the row counts.
\<close>

section \<open>Files\<close>

record profile =
  pr_row_count :: "nat option"
  pr_column_count :: "nat option"
  pr_columns :: "string list"
  pr_duplicate_rows :: "nat option"
  pr_missing_values :: "nat option"
  pr_date_min :: string
  pr_date_max :: string

record csv_file =
  cf_name :: string
  cf_relative :: string
  cf_size :: nat
  cf_sha256 :: string
  cf_profile :: profile

record jsonl_file =
  jf_name :: string
  jf_relative :: string
  jf_size :: nat
  jf_sha256 :: string
  jf_text :: string

text \<open>The entries of a log directory: the bytes of a file, \<open>None\<close> for a directory.\<close>

record log_dir =
  ld_name :: string
  ld_relative :: string
  ld_entries :: "8 word list option list"

text \<open>\<open>sum(1 for _ in fh)\<close> over a binary file, and over a text file with its line ends translated.\<close>

definition count_lines :: "'c \<Rightarrow> 'c list \<Rightarrow> nat" where
  "count_lines nl cs = length (filter (\<lambda>c. c = nl) cs) + (if cs \<noteq> [] \<and> last cs \<noteq> nl then 1 else 0)"

text \<open>The flag says that the character before was a CR, whose line end a LF completes.\<close>

fun universal_newlines :: "bool \<Rightarrow> string \<Rightarrow> string" where
  "universal_newlines cr [] = []"
| "universal_newlines cr (c # cs) =
     (if c = LF then (if cr then universal_newlines False cs else LF # universal_newlines False cs)
      else if c = CR then LF # universal_newlines True cs
      else c # universal_newlines False cs)"

definition profile_log_dir :: "log_dir \<Rightarrow> nat \<times> nat" where
  "profile_log_dir d =
     (length (ld_entries d), sum_list (map (count_lines 10) (List.map_filter id (ld_entries d))))"

section \<open>Rows\<close>

definition dataset_role :: "(string, string \<times> string) dict" where
  "dataset_role = [
      (''raw_field_topology.csv'', (''field'', ''topology (static)'')),
      (''sensor_transactions.csv'', (''field'', ''sensor write transactions, 61-day deployment'')),
      (''authorization_decisions.csv'', (''field'', ''all authorization decisions, 61-day deployment'')),
      (''connectivity_outages.csv'', (''field'', ''gateway connectivity outage log'')),
      (''revocation_denials.csv'', (''field'', ''field-observed post-revocation access attempts'')),
      (''revocation_stages.csv'', (''field'', ''certificate-revocation lifecycle stage records'')),
      (''peer_scaling_runs.csv'', (''controlled_experiment'', ''peer-multiplicity campaign run manifest'')),
      (''peer_scaling_transactions.csv'', (''controlled_experiment'', ''peer-multiplicity campaign transaction-level records'')),
      (''throughput_runs.csv'', (''controlled_experiment'', ''interleaved throughput-vs-concurrency campaign'')),
      (''energy_measurements.csv'', (''controlled_experiment'', ''LoRa single-channel vs residue-mode energy bench'')),
      (''cryptographic_timings.csv'', (''controlled_experiment'', ''cryptographic primitive timing bench'')),
      (''authorization_boundary_attempts.csv'', (''scripted_security_test'', ''scripted authorization-boundary attempts''))

    ]"

definition role_of :: "string \<Rightarrow> string \<times> string" where
  "role_of name = (case dict_get dataset_role name of None \<Rightarrow> (''unknown'', []) | Some r \<Rightarrow> r)"

definition inventory_fields :: "string list" where
  "inventory_fields =
     [''filename'', ''relative_path'', ''file_format'', ''file_size_bytes'', ''sha256'', ''row_count'',
      ''column_count'', ''column_names'', ''probable_dataset'', ''notes'', ''duplicate_rows'',
      ''missing_values_total'', ''date_min'', ''date_max'']"

text \<open>The text of a number or of \<open>None\<close> in a CSV file.\<close>

definition num_text :: "nat \<Rightarrow> string" where
  "num_text n = int_str (int n)"

definition opt_text :: "nat option \<Rightarrow> string" where
  "opt_text n = (case n of None \<Rightarrow> [] | Some k \<Rightarrow> num_text k)"

definition csv_file_row :: "csv_file \<Rightarrow> string list" where
  "csv_file_row f =
     (let prof = cf_profile f
      in [cf_name f, cf_relative f, ''csv'', num_text (cf_size f), cf_sha256 f, opt_text (pr_row_count prof),
          opt_text (pr_column_count prof), join '';'' (pr_columns prof), fst (role_of (cf_name f)),
          snd (role_of (cf_name f)), opt_text (pr_duplicate_rows prof), opt_text (pr_missing_values prof),
          pr_date_min prof, pr_date_max prof])"

definition jsonl_file_row :: "jsonl_file \<Rightarrow> string list" where
  "jsonl_file_row f =
     [jf_name f, jf_relative f, ''jsonl'', num_text (jf_size f), jf_sha256 f,
      num_text (count_lines LF (universal_newlines False (jf_text f))), [], [], ''field_provenance_sample'',
      ''Fabric ledger block sample (provenance corroboration, not the full ledger)'', [], [], [], []]"

definition log_dir_row :: "log_dir \<Rightarrow> string list" where
  "log_dir_row d =
     (case profile_log_dir d of (file_count, total_lines) \<Rightarrow>
        [ld_name d, ld_relative d, ''log_directory'',
         num_text (sum_list (map length (List.map_filter id (ld_entries d)))), [], num_text total_lines, [], [],
         ''field_provenance_sample'', num_text file_count @ '' per-device/per-gateway JSON-lines log files'',
         [], [], [], []])"

definition inventory_rows :: "csv_file list \<Rightarrow> jsonl_file list \<Rightarrow> log_dir list \<Rightarrow> string list list" where
  "inventory_rows csv_files jsonl_files log_dirs =
     map csv_file_row csv_files @ map jsonl_file_row jsonl_files @ map log_dir_row log_dirs"

text \<open>The header comes from the first row, so an empty inventory raises.\<close>

definition inventory_csv :: "csv_file list \<Rightarrow> jsonl_file list \<Rightarrow> log_dir list \<Rightarrow> string result" where
  "inventory_csv csv_files jsonl_files log_dirs =
     (let rows = inventory_rows csv_files jsonl_files log_dirs
      in if rows = [] then Inl (IndexError ''list index out of range'')
         else Inr (write_rows (inventory_fields # rows)))"

definition inventory_summary :: "csv_file list \<Rightarrow> jsonl_file list \<Rightarrow> log_dir list \<Rightarrow> payload" where
  "inventory_summary csv_files jsonl_files log_dirs =
     [(''csv_file_count'', VInt (int (length csv_files))),
      (''jsonl_file_count'', VInt (int (length jsonl_files))),
      (''log_directory_count'', VInt (int (length log_dirs))),
      (''log_directories'', payload_value (fold (\<lambda>d. dict_set (ld_relative d)
         (case profile_log_dir d of (n, k) \<Rightarrow>
            payload_value [(''file_count'', VInt (int n)), (''total_lines'', VInt (int k))])) log_dirs []))]"

section \<open>Properties\<close>

lemma fields_facts: "distinct inventory_fields" "length inventory_fields = 14"
  "inventory_fields ! 2 = ''file_format''" "inventory_fields ! 5 = ''row_count''"
  by (simp_all add: inventory_fields_def)

lemma row_lengths: "row \<in> set (inventory_rows cs js ls) \<Longrightarrow> length row = length inventory_fields"
  by (auto simp: inventory_rows_def csv_file_row_def jsonl_file_row_def log_dir_row_def Let_def fields_facts
      split: prod.splits)

lemma inventory_cells:
  assumes "length row = 14"
  shows "row_index (dict_row inventory_fields row) ''file_format'' = Inr (Some (row ! 2))"
    and "row_index (dict_row inventory_fields row) ''row_count'' = Inr (Some (row ! 5))"
  using dict_row_get [of inventory_fields row 2] dict_row_get [of inventory_fields row 5] assms
  by (simp_all add: fields_facts row_index_def)

definition counted :: "csv_file list \<Rightarrow> nat list" where
  "counted csv_files = List.map_filter (pr_row_count \<circ> cf_profile) csv_files"

lemma csv_file_row_cells: "csv_file_row f ! 2 = ''csv''" "csv_file_row f ! 5 = opt_text (pr_row_count (cf_profile f))"
    "length (csv_file_row f) = 14"
  by (simp_all add: csv_file_row_def Let_def)

lemma num_text_facts: "num_text n \<noteq> []" "py_int (VStr (num_text n)) = Inr (int n)"
  by (simp add: num_text_def int_str_def) (simp add: num_text_def parse_int_int_str)

lemma sum_csv_files:
  "sum_csv_rows (map (dict_row inventory_fields) (map csv_file_row cs) @ rest) (t, k) =
     sum_csv_rows rest (t + int (sum_list (counted cs)), k + int (length (counted cs)))"
proof (induction cs arbitrary: t k)
  case (Cons f cs)
  note cells = inventory_cells [of "csv_file_row f", unfolded csv_file_row_cells, OF refl]
  show ?case
  proof (cases "pr_row_count (cf_profile f)")
    case None
    with Cons cells show ?thesis by (simp add: opt_text_def counted_def List.map_filter_def)
  next
    case (Some n)
    with Cons cells show ?thesis
      by (simp add: opt_text_def num_text_facts counted_def List.map_filter_def add.assoc del: py_int.simps)
  qed
qed (simp add: counted_def List.map_filter_def)

lemma sum_other_files:
  assumes "list_all (\<lambda>row. length row = 14 \<and> row ! 2 \<noteq> ''csv'') rows"
  shows "sum_csv_rows (map (dict_row inventory_fields) rows) acc = Inr acc"
  using assms
proof (induction rows arbitrary: acc)
  case (Cons row rows)
  then show ?case using inventory_cells(1) [of row] by (cases acc) simp
qed simp

text \<open>
  The row total survives the trip through the inventory file: reading the written CSV text back, the
  scripts that quote the size of the data set find the sum of the row counts of the CSV files that have
  one, and the number of these files.
\<close>

theorem inventory_totals_roundtrip:
  assumes "inventory_csv csv_files jsonl_files log_dirs = Inr txt"
  shows "inventory_totals (Some txt) = Inr (int (sum_list (counted csv_files)), int (length (counted csv_files)))"
proof -
  let ?rows = "inventory_rows csv_files jsonl_files log_dirs"
  let ?others = "map jsonl_file_row jsonl_files @ map log_dir_row log_dirs"
  from assms have "txt = write_rows (inventory_fields # ?rows)"
    by (auto simp: inventory_csv_def Let_def split: if_splits)
  then have rows: "dict_rows txt = map (dict_row inventory_fields) ?rows"
    using fields_facts row_lengths by (auto intro!: dict_rows_write_rows)
  have "list_all (\<lambda>row. length row = 14 \<and> row ! 2 \<noteq> ''csv'') ?others"
    by (auto simp: list_all_iff jsonl_file_row_def log_dir_row_def split: prod.splits)
  from sum_other_files [OF this] sum_csv_files [of csv_files "map (dict_row inventory_fields) ?others" 0 0]
  show ?thesis by (simp add: inventory_totals_def rows inventory_rows_def)
qed

definition demo_profile :: profile where
  "demo_profile = \<lparr>pr_row_count = Some 900, pr_column_count = Some 3, pr_columns = [''sample_id'', ''duration_us''],
     pr_duplicate_rows = Some 0, pr_missing_values = Some 0, pr_date_min = [], pr_date_max = []\<rparr>"

definition demo_csv_file :: csv_file where
  "demo_csv_file = \<lparr>cf_name = ''cryptographic_timings.csv'', cf_relative = ''analysis/data'', cf_size = 26307,
     cf_sha256 = ''5ef9'', cf_profile = demo_profile\<rparr>"

theorem inventory_totals_roundtrip_witness:
  "\<exists>txt. inventory_csv [demo_csv_file] [] [] = Inr txt \<and> inventory_totals (Some txt) = Inr (900, 1)"
proof -
  obtain contents where t: "inventory_csv [demo_csv_file] [] [] = Inr contents"
    by (simp add: inventory_csv_def inventory_rows_def)
  with inventory_totals_roundtrip [OF t] show ?thesis
    by (simp add: counted_def List.map_filter_def demo_csv_file_def demo_profile_def)
qed

end
