(* ===== verification/Build_Macros.thy ===== *)
theory Build_Macros
  imports Analysis_Outputs
begin

text \<open>
  \<open>11_build_macros.py\<close>: the LaTeX macro file of the manuscript, one macro for every quoted number. The
  sections of the script are tables of macro names and of what each macro prints; \<open>build_macros\<close>
  evaluates them in order on the merged outputs and the text of the inventory and returns the text of the
  file. A number is printed with thousands separators; anything that is no number prints as it is. The
  lemmas show that the file defines every macro once, under a name TeX accepts, and that the printed
  numbers read back as the rounded values.
\<close>

section \<open>Looking up and printing\<close>

definition g :: "pydict \<Rightarrow> string list \<Rightarrow> pyval" where
  "g outputs path = (case dig (VDict outputs) path of VNone \<Rightarrow> VStr ''?'' | v \<Rightarrow> v)"

definition num_of :: "pyval \<Rightarrow> rat option" where
  "num_of v =
     (case v of VInt i \<Rightarrow> Some (of_int i) | VFloat q \<Rightarrow> Some q | VBool b \<Rightarrow> Some (if b then 1 else 0) | _ \<Rightarrow> None)"

definition fmt :: "pyval \<Rightarrow> nat \<Rightarrow> string result" where
  "fmt x nd =
     (case x of
        VStr s \<Rightarrow> Inr s
      | _ \<Rightarrow> (case num_of x of Some q \<Rightarrow> Inr (comma_fixed_str nd q) | None \<Rightarrow> py_str x))"

definition fmt_int :: "pyval \<Rightarrow> string result" where
  "fmt_int x = (case num_of x of Some q \<Rightarrow> Inr (comma_int_str (round_half_even q)) | None \<Rightarrow> py_str x)"

definition fmt_pct :: "pyval \<Rightarrow> nat \<Rightarrow> string result" where
  "fmt_pct x nd = fmt x nd"

definition m :: "string \<Rightarrow> string \<Rightarrow> string" where
  "m name value = [CHR 0x5C] @ ''newcommand{'' @ [CHR 0x5C] @ name @ ''}{'' @ value @ ''}''"

section \<open>What a macro prints\<close>

text \<open>
  \<open>FmtAbs\<close> is \<open>fmt(abs(float(g(...))), nd)\<close>; \<open>PFloat\<close> and \<open>PChecked\<close> are the two ways of printing a
  probability, with and without a test of the type.
\<close>

datatype macro_value =
    FmtInt "string list"
  | Fmt "string list" nat
  | FmtPct "string list" nat
  | FmtAbs "string list" nat
  | PFloat "string list" nat
  | PChecked "string list" nat
  | Literal string

definition small_p :: string where
  "small_p = ''$<$0.001''"

fun macro_text :: "pydict \<Rightarrow> macro_value \<Rightarrow> string result" where
  "macro_text outputs (FmtInt path) = fmt_int (g outputs path)"
| "macro_text outputs (Fmt path nd) = fmt (g outputs path) nd"
| "macro_text outputs (FmtPct path nd) = fmt_pct (g outputs path) nd"
| "macro_text outputs (FmtAbs path nd) =
     bind_result (py_float (g outputs path)) (\<lambda>q. fmt (VFloat \<bar>q\<bar>) nd)"
| "macro_text outputs (PFloat path nd) =
     (case g outputs path of
        VFloat q \<Rightarrow> if q < 1 / 1000 then Inr small_p else fmt (VFloat q) nd
      | v \<Rightarrow> fmt v nd)"
| "macro_text outputs (PChecked path nd) =
     (let v = g outputs path
      in if v = VStr ''?'' then fmt v nd
         else case num_of v of
                None \<Rightarrow> Inl (TypeError ''not supported between these instances'')
              | Some q \<Rightarrow> if q < 1 / 1000 then Inr small_p else fmt v nd)"
| "macro_text outputs (Literal s) = Inr s"

section \<open>The tables\<close>

definition FIELD_MACROS :: "(string \<times> macro_value) list" where
  "FIELD_MACROS =
     [(''DeploymentDays'', FmtInt [''02_deployment_summary'', ''deployment_span_days'']),
      (''Sensors'', FmtInt [''02_deployment_summary'', ''sensors'']),
      (''Gateways'', FmtInt [''02_deployment_summary'', ''gateways'']),
      (''Zones'', FmtInt [''02_deployment_summary'', ''zones'']),
      (''AuthDecisions'', FmtInt [''02_deployment_summary'', ''authorization_decisions'']),
      (''SensorReadings'', FmtInt [''02_deployment_summary'', ''sensor_readings'']),
      (''OrdinaryDenials'', FmtInt [''02_deployment_summary'', ''ordinary_denials'']),
      (''OrdinaryDenialPct'', FmtPct [''02_deployment_summary'', ''ordinary_denial_rate_pct''] 2),
      (''DecisionPathUptime'', FmtPct [''02_availability'', ''decision_path_uptime_pct''] 2),
      (''GatewayHourUptime'', FmtPct [''02_availability'', ''gateway_hour_uptime_pct''] 2),
      (''OutageCount'', FmtInt [''02_availability'', ''outage_count'']),
      (''OutageTotalHours'', Fmt [''02_availability'', ''outage_total_hours''] 1),
      (''OutageMinHours'', Fmt [''02_availability'', ''outage_min_hours''] 1),
      (''OutageMaxHours'', Fmt [''02_availability'', ''outage_max_hours''] 1),
      (''CheckAccessMeanMs'', Fmt [''02_latency_by_class'', ''checkaccess_nonwrite'', ''mean_ms''] 0),
      (''CheckAccessSdMs'', Fmt [''02_latency_by_class'', ''checkaccess_nonwrite'', ''sd_ms''] 0),
      (''SensorWriteMeanMs'', Fmt [''02_latency_by_class'', ''sensor_write'', ''mean_ms''] 0),
      (''SensorWriteSdMs'', Fmt [''02_latency_by_class'', ''sensor_write'', ''sd_ms''] 0),
      (''SensorWritePNinetyFiveMs'', Fmt [''02_latency_by_class'', ''sensor_write'', ''p95_ms''] 0),
      (''SensorWritePNinetyNineMs'', Fmt [''02_latency_by_class'', ''sensor_write'', ''p99_ms''] 0),
      (''LatencyGapMs'', Fmt [''02_latency_by_class'', ''gap_ms''] 0),
      (''RoleOpCells'', FmtInt [''02_latency_by_class'', ''role_operation_cells'']),
      (''GrantRateMin'', FmtPct [''02_latency_by_class'', ''grant_rate_min_pct''] 1),
      (''GrantRateMax'', FmtPct [''02_latency_by_class'', ''grant_rate_max_pct''] 1),
      (''FieldRevocationDenials'', FmtInt [''07_revocation_results'', ''field_revocation_denials'', ''count'']),
      (''FieldRevocationPerDay'', Fmt [''07_revocation_results'', ''field_revocation_denials'', ''per_day''] 1)]"

definition PEER_RUN_MACROS :: "(string \<times> macro_value) list" where
  "PEER_RUN_MACROS =
     [(''PeerRunsTotal'', FmtInt [''03_design_check'', ''n_runs'']),
      (''PeerRunsPerConfig'', FmtInt [''03_design_check'', ''runs_per_peer_count'', ''4'']),
      (''PeerTxPerRun'', FmtInt [''03_design_check'', ''tx_per_run''])]"

definition PEER_WORD :: "(int, string) dict" where
  "PEER_WORD = [(4, ''PeerFour''), (8, ''PeerEight''), (16, ''PeerSixteen''), (32, ''PeerThirtyTwo'')]"

definition peer_macros :: "int \<Rightarrow> (string \<times> macro_value) list" where
  "peer_macros pc =
     (let s = int_str pc; w = the (dict_get PEER_WORD pc)
      in [(''TotalLatency'' @ w, Fmt [''03_peer_scaling_results'', ''total_latency'', ''group_stats'', s, ''mean''] 1),
          (''SpanLatency'' @ w, Fmt [''03_peer_scaling_results'', ''recorded_span'', ''group_stats'', s, ''mean''] 1),
          (''RemainingLatency'' @ w, Fmt [''03_peer_scaling_results'', ''remaining_latency'', ''group_stats'', s, ''mean''] 1),
          (''PNinetyFiveLatency'' @ w, Fmt [''03_peer_scaling_results'', ''p95_latency'', ''group_stats'', s, ''mean''] 1),
          (''SpanShare'' @ w, FmtPct [''03_peer_scaling_results'', ''recorded_span_share_pct_by_peer_count'', s] 1)])"

definition PEER_MODEL_MACROS :: "(string \<times> macro_value) list" where
  "PEER_MODEL_MACROS =
     [(''TotalLatencyDiffFourVThirtyTwo'', Fmt [''03_peer_scaling_results'', ''total_latency'', ''pairwise_4v32'', ''mean_diff_4_minus_32''] 1),
      (''TotalLatencyDiffFourVThirtyTwoCILow'', Fmt [''03_peer_scaling_results'', ''total_latency'', ''pairwise_4v32'', ''ci95_low''] 1),
      (''TotalLatencyDiffFourVThirtyTwoCIHigh'', Fmt [''03_peer_scaling_results'', ''total_latency'', ''pairwise_4v32'', ''ci95_high''] 1),
      (''RemainingLatencyDiffFourVThirtyTwo'', Fmt [''03_peer_scaling_results'', ''remaining_latency'', ''pairwise_4v32'', ''mean_diff_4_minus_32''] 1),
      (''SpanDiffFourVThirtyTwo'', Fmt [''03_peer_scaling_results'', ''recorded_span'', ''pairwise_4v32'', ''mean_diff_4_minus_32''] 2),
      (''SpanDiffFourVThirtyTwoCINinetyLow'', Fmt [''03_peer_scaling_results'', ''recorded_span'', ''pairwise_4v32'', ''ci90_low''] 2),
      (''SpanDiffFourVThirtyTwoCINinetyHigh'', Fmt [''03_peer_scaling_results'', ''recorded_span'', ''pairwise_4v32'', ''ci90_high''] 2),
      (''SpanDiffFourVThirtyTwoWelchT'', Fmt [''03_peer_scaling_results'', ''recorded_span'', ''pairwise_4v32'', ''paired_t''] 2),
      (''SpanDiffFourVThirtyTwoP'', PFloat [''03_peer_scaling_results'', ''recorded_span'', ''pairwise_4v32'', ''paired_p''] 4),
      (''SpanTostP'', PFloat [''03_peer_scaling_results'', ''recorded_span'', ''pairwise_4v32'', ''tost_p''] 4),
      (''PNinetyFiveDiffFourVThirtyTwo'', Fmt [''03_peer_scaling_results'', ''p95_latency'', ''pairwise_4v32'', ''mean_diff_4_minus_32''] 1),
      (''LogLinearSlope'', Fmt [''03_peer_scaling_results'', ''total_latency'', ''log_linear_fit'', ''slope_per_doubling''] 1),
      (''LogLinearRSquared'', Fmt [''03_peer_scaling_results'', ''total_latency'', ''log_linear_fit'', ''r2''] 3),
      (''LogLinearP'', Fmt [''03_peer_scaling_results'', ''total_latency'', ''log_linear_fit'', ''p''] 3),
      (''SpanTrendSlope'', Fmt [''03_peer_scaling_results'', ''recorded_span'', ''log_linear_fit'', ''slope_per_doubling''] 2),
      (''SpanTrendP'', Fmt [''03_peer_scaling_results'', ''recorded_span'', ''log_linear_fit'', ''p''] 3),
      (''SpanTrendRSquared'', Fmt [''03_peer_scaling_results'', ''recorded_span'', ''log_linear_fit'', ''r2''] 3),
      (''SeqEffectPSpanNFour'', Fmt [''03_peer_scaling_results'', ''recorded_span'', ''order_effect_model'', ''serial_c_p''] 3),
      (''SeqEffectPTotalNThirtyTwo'', Fmt [''03_peer_scaling_results'', ''total_latency'', ''order_effect_model'', ''serial_c_p''] 3),
      (''PeerEffectPTotalLatency'', PChecked [''03_peer_scaling_results'', ''total_latency'', ''block_design_model'', ''peer_count_p''] 4),
      (''BlockEffectPTotalLatency'', Fmt [''03_peer_scaling_results'', ''total_latency'', ''block_design_model'', ''block_p''] 3),
      (''SpanLogTwoPeersJointP'', Fmt [''03_peer_scaling_results'', ''recorded_span'', ''order_effect_model'', ''log2_peers_p''] 4)]"

definition THROUGHPUT_MACROS :: "(string \<times> macro_value) list" where
  "THROUGHPUT_MACROS =
     [(''ThroughputRunsTotal'', FmtInt [''04_throughput_design_check'', ''n_runs'']),
      (''ThroughputConditionDiff'', FmtAbs [''04_throughput_primary_model'', ''condition_coef_tps''] 2),
      (''ThroughputConditionCILow'', FmtAbs [''04_throughput_primary_model'', ''condition_ci_high''] 2),
      (''ThroughputConditionCIHigh'', FmtAbs [''04_throughput_primary_model'', ''condition_ci_low''] 2),
      (''ThroughputConditionP'', PChecked [''04_throughput_primary_model'', ''condition_p''] 4),
      (''ThroughputInteractionCoef'', Fmt [''04_throughput_primary_model'', ''interaction_coef_tps_per_client''] 4),
      (''ThroughputInteractionP'', Fmt [''04_throughput_primary_model'', ''interaction_p''] 2),
      (''ThroughputPositionP'', Fmt [''04_throughput_primary_model'', ''position_p''] 2),
      (''ThroughputModelRSquared'', Fmt [''04_throughput_primary_model'', ''r2''] 3),
      (''ThroughputPctDiffMean'', FmtPct [''04_throughput_per_level'', ''pct_diff_mean''] 1),
      (''ThroughputPctDiffSd'', Fmt [''04_throughput_per_level'', ''pct_diff_sd''] 1),
      (''ThroughputPctDiffMin'', FmtPct [''04_throughput_per_level'', ''pct_diff_min''] 1),
      (''ThroughputPctDiffMax'', FmtPct [''04_throughput_per_level'', ''pct_diff_max''] 1),
      (''ThroughputSigAfterHolm'', FmtInt [''04_throughput_per_level'', ''holm_bonferroni'', ''n_significant_after_adjustment'']),
      (''ThroughputBaselinePeak'', Fmt [''04_throughput_peaks'', ''baseline_peak_tps''] 1),
      (''ThroughputHrbacPeak'', Fmt [''04_throughput_peaks'', ''hrbac_peak_tps''] 1),
      (''ThroughputPeakLevel'', FmtInt [''04_throughput_peaks'', ''baseline_peak_level'']),
      (''ThroughputHrbacDeclinePct'', FmtPct [''04_throughput_peaks'', ''hrbac_decline_pct_peak_to_100''] 1),
      (''ThroughputCampaignSeqCorr'', Fmt [''04_throughput_design_check'', ''campaign_seq_vs_concurrency_correlation''] 3)]"

definition SECURITY_MACROS :: "(string \<times> macro_value) list" where
  "SECURITY_MACROS =
     [(''SecurityAttemptsTotal'', FmtInt [''06_security_oracle'', ''total_attempts'']),
      (''SecurityDenialMechanisms'', FmtInt [''06_security_oracle'', ''n_deny_reason_types'']),
      (''OracleScoredAttempts'', FmtInt [''06_security_oracle'', ''role_operation_scoped_attempts'']),
      (''OracleConfirmed'', FmtInt [''06_security_oracle'', ''confirmed_by_deployed_oracle'']),
      (''OracleConfirmedPct'', FmtPct [''06_security_oracle'', ''confirmed_pct_of_scoped''] 1),
      (''OracleDiscrepant'', FmtInt [''06_security_oracle'', ''discrepant_vs_deployed_oracle'']),
      (''OracleDiscrepantPct'', FmtPct [''06_security_oracle'', ''discrepant_pct_of_scoped''] 1)]"

definition CRT_MACROS :: "(string \<times> macro_value) list" where
  "CRT_MACROS =
     [(''CrtModuli'', Literal ''97, 101, 103''),
      (''CrtMinBound'', FmtInt [''05_crt_quantization'', ''deployed_pairwise_bounds'', ''min'']),
      (''CrtExceedPct'', FmtPct [''05_crt_quantization'', ''reconstruction_direct_polarity'', ''pct_exceed_min_bound''] 4),
      (''CrtTwoResidueCount'', FmtInt [''05_crt_quantization'', ''two_residue_reconstruction_count'']),
      (''CrtTwoResiduePct'', FmtPct [''05_crt_quantization'', ''two_residue_reconstruction_pct''] 1),
      (''CrtCorrectedModuli'', Literal ''253, 254, 255''),
      (''CrtCorrectedBound'', FmtInt [''05_crt_quantization'', ''corrected_domain'', ''pairwise_bounds'', ''min'']),
      (''CrtCorrectedLegalMax'', FmtInt [''05_crt_quantization'', ''corrected_domain'', ''legal_domain_max'']),
      (''QuantMaxErrorPct'', FmtPct [''05_crt_quantization'', ''quantization_error'', ''truncating_quantiser'', ''max_error_pct_full_scale''] 2),
      (''QuantRmsErrorPct'', FmtPct [''05_crt_quantization'', ''quantization_error'', ''truncating_quantiser'', ''rms_error_pct_full_scale''] 2),
      (''SignatureValidPct'', FmtPct [''02_crt_field_summary'', ''signature_valid_pct''] 1)]"

definition REVOCATION_MACROS :: "(string \<times> macro_value) list" where
  "REVOCATION_MACROS =
     [(''RevocationStageRecords'', FmtInt [''07_revocation_results'', ''n_stage_records'']),
      (''RevocationTraceSpanDays'', FmtInt [''07_revocation_results'', ''trace_span_days'']),
      (''RevocationDelayedCount'', FmtInt [''07_revocation_results'', ''delayed_count'']),
      (''RevocationDelayedPct'', FmtPct [''07_revocation_results'', ''delayed_pct''] 1),
      (''RevocationSubjects'', FmtInt [''07_revocation_results'', ''n_subjects'']),
      (''RevocationSubjectsAllStages'', FmtInt [''07_revocation_results'', ''n_subjects_with_all_stage_types'']),
      (''RevocationSubjectsOnce'', FmtInt [''07_revocation_results'', ''n_subjects_appearing_once''])]"

definition ENERGY_MACROS :: "(string \<times> macro_value) list" where
  "ENERGY_MACROS =
     [(''EnergySingleChannelMj'', Fmt [''08_energy_results'', ''single_channel'', ''mean_mj''] 2),
      (''EnergyCrtMj'', Fmt [''08_energy_results'', ''crt'', ''mean_mj''] 2),
      (''EnergyReductionPct'', FmtPct [''08_energy_results'', ''reduction_pct''] 1),
      (''EnergyReductionCILow'', FmtPct [''08_energy_results'', ''reduction_ci95_low''] 1),
      (''EnergyReductionCIHigh'', FmtPct [''08_energy_results'', ''reduction_ci95_high''] 1),
      (''ShaTwoFiveSixMeanUs'', Fmt [''08_crypto_timing_results'', ''by_operation'', ''sha256'', ''mean_us''] 1),
      (''SignMeanUs'', Fmt [''08_crypto_timing_results'', ''by_operation'', ''ed25519_sign'', ''mean_us''] 1),
      (''VerifyMeanUs'', Fmt [''08_crypto_timing_results'', ''by_operation'', ''ed25519_verify'', ''mean_us''] 1),
      (''SignPipelineUs'', Fmt [''08_crypto_timing_results'', ''sign_pipeline_us_sha256_plus_sign''] 0)]"

definition macro_table :: "(string \<times> macro_value) list" where
  "macro_table =
     FIELD_MACROS @ PEER_RUN_MACROS @ concat (map peer_macros [4, 8, 16, 32]) @ PEER_MODEL_MACROS @
     THROUGHPUT_MACROS @ SECURITY_MACROS @ CRT_MACROS @ REVOCATION_MACROS @ ENERGY_MACROS"

definition dataset_macros :: "string option \<Rightarrow> (string \<times> string) list result" where
  "dataset_macros inventory =
     bind_result (inventory_totals inventory) (\<lambda>(total_rows, n_csv).
     bind_result (fmt_int (VInt total_rows)) (\<lambda>total_text.
     bind_result (fmt_int (VInt n_csv)) (\<lambda>count_text.
       Inr [(''ReleasedRowsTotal'', total_text), (''ReleasedTracesCount'', count_text)])))"

definition header :: string where
  "header =
     ''% AUTO-GENERATED by analysis/scripts/11_build_macros.py -- DO NOT EDIT BY HAND.'' @ [LF] @
     ''% Every value here is computed from paper_iot/V10/analysis/data/raw by the'' @ [LF] @
     ''% numbered scripts in analysis/scripts/. Re-run analysis/scripts/run_all.sh'' @ [LF] @
     ''% to regenerate.'' @ [LF]"

definition build_macros :: "pydict \<Rightarrow> string option \<Rightarrow> string result" where
  "build_macros outputs inventory =
     bind_result (map_result (\<lambda>(name, v). bind_result (macro_text outputs v) (\<lambda>t. Inr (name, t))) macro_table) (\<lambda>ms.
     bind_result (dataset_macros inventory) (\<lambda>ds.
       Inr (header @ join [LF] (map (\<lambda>(name, t). m name t) (ms @ ds)) @ [LF])))"

section \<open>Properties\<close>

definition letter :: "char \<Rightarrow> bool" where
  "letter c \<longleftrightarrow> (let n = (of_char c :: int) in 65 \<le> n \<and> n \<le> 90 \<or> 97 \<le> n \<and> n \<le> 122)"

definition tex_name :: "string \<Rightarrow> bool" where
  "tex_name s \<longleftrightarrow> s \<noteq> [] \<and> list_all letter s"

text \<open>Names with distinct hashes are distinct; the hashes are quicker to compare than the names.\<close>

definition name_hash :: "string \<Rightarrow> int" where
  "name_hash s = foldl (\<lambda>a c. (a * 37 + of_char c) mod 1048576) 7 s"

lemma table_hashes: "distinct (map name_hash (map fst macro_table @ [''ReleasedRowsTotal'', ''ReleasedTracesCount'']))"
  by code_simp

lemma table_letters: "list_all tex_name (map fst macro_table @ [''ReleasedRowsTotal'', ''ReleasedTracesCount''])"
  by code_simp

lemma map_result_names:
  "map_result (\<lambda>(name, v). bind_result (f v) (\<lambda>t. Inr (name, t))) xs = Inr ys \<Longrightarrow> map fst ys = map fst xs"
  by (induction xs arbitrary: ys) (auto simp: result_simps)

text \<open>
  The macro file loads: the script fails only when a macro cannot be printed or the inventory cannot be
  summed; otherwise the file is the header followed by one definition per line, every macro is defined
  once, and every name consists of letters, as TeX requires of a control word.
\<close>

theorem macro_file_wellformed:
  "case build_macros outputs inventory of
     Inl e \<Rightarrow> list_ex (\<lambda>(name, v). macro_text outputs v = Inl e) macro_table \<or> inventory_totals inventory = Inl e
   | Inr contents \<Rightarrow>
       \<exists>defs. contents = header @ join [LF] (map (\<lambda>(name, t). m name t) defs) @ [LF] \<and>
         length defs = 126 \<and> distinct (map fst defs) \<and> list_all tex_name (map fst defs)"
proof -
  let ?f = "\<lambda>(name, v). bind_result (macro_text outputs v) (\<lambda>t. Inr (name, t))"
  show ?thesis
  proof (cases "map_result ?f macro_table")
    case (Inl e)
    then have "\<exists>x \<in> set macro_table. ?f x = Inl e" using map_result_cases [where f = ?f and xs = macro_table] by simp
    then have "list_ex (\<lambda>(name, v). macro_text outputs v = Inl e) macro_table"
      by (fastforce simp: list_ex_iff result_simps)
    with Inl show ?thesis by (simp add: build_macros_def)
  next
    case (Inr ms)
    show ?thesis
    proof (cases "inventory_totals inventory")
      case (Inl e)
      with Inr show ?thesis by (simp add: build_macros_def dataset_macros_def)
    next
      case totals: (Inr t)
      then obtain ds where ds: "dataset_macros inventory = Inr ds"
        and fst: "map fst ds = [''ReleasedRowsTotal'', ''ReleasedTracesCount'']"
        by (cases t) (simp add: dataset_macros_def fmt_int_def num_of_def)
      from map_result_names [OF Inr] fst have names:
        "map fst (ms @ ds) = map fst macro_table @ [''ReleasedRowsTotal'', ''ReleasedTracesCount'']" by simp
      have "distinct (map fst (ms @ ds))" unfolding names using table_hashes unfolding distinct_map by blast
      moreover have "list_all tex_name (map fst (ms @ ds))" unfolding names by (rule table_letters)
      moreover have "length (map fst (ms @ ds)) = 126" unfolding names by code_simp
      ultimately have "length (ms @ ds) = 126" "distinct (map fst (ms @ ds))" "list_all tex_name (map fst (ms @ ds))"
        by (simp_all only: length_map)
      with Inr ds show ?thesis by (auto simp: build_macros_def intro!: exI [of _ "ms @ ds"])
    qed
  qed
qed

text \<open>
  The printed numbers are right: without its thousands separators, what \<open>fmt_int\<close> prints reads back as
  the number rounded to an integer, and what \<open>fmt\<close> prints as the number rounded to the given decimals, off
  by at most half a unit of the last one.
\<close>

theorem printed_numbers_read_back:
  "(\<exists>s. fmt_int (VFloat q) = Inr s \<and> parse_int (filter (\<lambda>c. c \<noteq> CHR '','') s) = Some (round_half_even q)) \<and>
   (\<exists>s. fmt_int (VInt i) = Inr s \<and> parse_int (filter (\<lambda>c. c \<noteq> CHR '','') s) = Some i) \<and>
   (\<exists>s. fmt (VFloat q) nd = Inr s \<and> py_float_str (filter (\<lambda>c. c \<noteq> CHR '','') s) = Inr (round_abs nd q)) \<and>
   \<bar>round_abs nd q - q\<bar> \<le> 1 / (2 * 10 ^ nd)"
  by (simp add: fmt_int_def fmt_def num_of_def filter_comma_int_str filter_comma_fixed_str parse_int_int_str
      py_float_fixed_str round_abs_error)

text \<open>A missing throughput result does not print as a question mark like the others: the script raises.\<close>

lemma missing_value_raises:
  assumes "dig (VDict outputs) path = VNone"
  shows "macro_text outputs (Fmt path nd) = Inr ''?''"
    and "macro_text outputs (FmtAbs path nd) = Inl (ValueError ''could not convert string to float'')"
  using assms by (simp_all add: g_def fmt_def float_eval)

end
