(* ===== verification/Throughput.thy ===== *)
theory Throughput
  imports Py_Frame
begin

text \<open>
  \<open>paper_iot/V10/analysis/scripts/04_throughput.py\<close>: the comparison of the two conditions per concurrency
  level, Holm's correction of the per-level p-values, and the observed peaks. The data frame \<open>RUNS\<close> is
  a list of runs, its masks and means are filters and exact means. The library functions that compute
  what the script only uses are parameters: the p-value of Welch's test, the standard deviation, and
  \<open>np.argsort\<close>, whose documented contract (a permutation that sorts, ties in any order) is the locale
  \<open>argsorter\<close>. A result that would be infinite or not a number is \<open>Unmodelled\<close>. The design check, the
  regression and the report file are in \<open>Throughput_Report\<close>. The theorems say that the correction is Holm's
  step-down procedure, whatever the order of ties, and bound what the peaks report.
\<close>

section \<open>Runs\<close>

record run =
  concurrency_level :: int
  run_condition :: string
  tps :: rat

definition levels_of :: "run list \<Rightarrow> int list" where
  "levels_of RUNS = sort (remdups (map concurrency_level RUNS))"

definition tps_of :: "run list \<Rightarrow> int \<Rightarrow> string \<Rightarrow> rat list" where
  "tps_of RUNS lvl cond =
     map tps (filter (\<lambda>r. concurrency_level r = lvl \<and> run_condition r = cond) RUNS)"

section \<open>Holm's correction\<close>

fun holm_loop :: "nat \<Rightarrow> rat list \<Rightarrow> nat list \<Rightarrow> nat \<Rightarrow> rat \<Rightarrow> rat option list \<Rightarrow> rat option list" where
  "holm_loop m pvals [] rank running_max adj = adj"
| "holm_loop m pvals (idx # order) rank running_max adj =
     (let adj_p = of_nat (m - rank) * pvals ! idx;
          running_max = max running_max adj_p
      in holm_loop m pvals order (Suc rank) running_max (adj[idx := Some (min running_max 1)]))"

fun n_significant :: "rat option list \<Rightarrow> nat result" where
  "n_significant [] = Inr 0"
| "n_significant (None # adj) = Inl (TypeError ''< not supported between NoneType and float'')"
| "n_significant (Some a # adj) =
     bind_result (n_significant adj) (\<lambda>n. Inr (if a < 1 / 20 then n + 1 else n))"

definition float_opt :: "rat option \<Rightarrow> rat result" where
  "float_opt a =
     (case a of None \<Rightarrow> Inl (TypeError ''float() argument must be a string or a real number'') | Some q \<Rightarrow> Inr q)"

record holm =
  raw_p_by_level :: "(int, rat) dict"
  holm_adjusted_p_by_level :: "(int, rat) dict"
  n_significant_after_adjustment :: nat
  holm_levels :: nat

definition holm_bonferroni :: "(rat list \<Rightarrow> nat list) \<Rightarrow> int list \<Rightarrow> rat list \<Rightarrow> holm result" where
  "holm_bonferroni argsort levels pvals =
     (let m = length pvals;
          adj = holm_loop m pvals (argsort pvals) 0 0 (replicate m None)
      in bind_result (n_significant adj) (\<lambda>n_sig.
         bind_result (map_result float_opt adj) (\<lambda>adjusted.
           Inr \<lparr>raw_p_by_level = dict_of (zip levels pvals),
                holm_adjusted_p_by_level = dict_of (zip levels adjusted),
                n_significant_after_adjustment = n_sig,
                holm_levels = m\<rparr>)))"

definition holm_bonferroni_from_ttests ::
  "(rat list \<Rightarrow> nat list) \<Rightarrow> (rat list \<Rightarrow> rat list \<Rightarrow> rat) \<Rightarrow> run list \<Rightarrow> int list \<Rightarrow> holm result" where
  "holm_bonferroni_from_ttests argsort welch_p RUNS levels =
     holm_bonferroni argsort levels
       (map (\<lambda>lvl. welch_p (tps_of RUNS lvl ''baseline'') (tps_of RUNS lvl ''hrbac'')) levels)"

section \<open>Differences per level and peaks\<close>

definition level_diff :: "run list \<Rightarrow> int \<Rightarrow> rat result" where
  "level_diff RUNS lvl =
     bind_result (mean_of (tps_of RUNS lvl ''hrbac'')) (\<lambda>hr.
     bind_result (mean_of (tps_of RUNS lvl ''baseline'')) (\<lambda>base.
     bind_result (divide_by hr base) (\<lambda>ratio. Inr ((1 - ratio) * 100))))"

record per_level =
  pct_diff_by_level :: "(int, rat) dict"
  pct_diff_mean :: rat
  pct_diff_sd :: rat
  pct_diff_min :: rat
  pct_diff_max :: rat
  holm_of :: holm

definition per_level_percent_diff ::
  "(rat list \<Rightarrow> nat list) \<Rightarrow> (rat list \<Rightarrow> rat list \<Rightarrow> rat) \<Rightarrow> (rat list \<Rightarrow> rat) \<Rightarrow> run list \<Rightarrow> per_level result" where
  "per_level_percent_diff argsort welch_p std RUNS =
     (let levels = levels_of RUNS
      in bind_result (map_result (level_diff RUNS) levels) (\<lambda>raw_pairs.
         bind_result (holm_bonferroni_from_ttests argsort welch_p RUNS levels) (\<lambda>h.
           if raw_pairs = [] then Inl (ValueError ''zero-size array to reduction operation'')
           else bind_result (mean_of raw_pairs) (\<lambda>avg.
             Inr \<lparr>pct_diff_by_level = dict_of (zip levels raw_pairs), pct_diff_mean = avg,
                  pct_diff_sd = std raw_pairs, pct_diff_min = Min (set raw_pairs),
                  pct_diff_max = Max (set raw_pairs), holm_of = h\<rparr>))))"

text \<open>\<open>groupby(...).mean().unstack()\<close>, one column per condition.\<close>

definition level_means :: "run list \<Rightarrow> string \<Rightarrow> (int \<times> rat) list result" where
  "level_means RUNS cond =
     map_result (\<lambda>lvl. bind_result (mean_of (tps_of RUNS lvl cond)) (\<lambda>q. Inr (lvl, q))) (levels_of RUNS)"

text \<open>\<open>idxmax\<close> and \<open>max\<close>: the first label of a maximal value.\<close>

fun idxmax :: "(int \<times> rat) list \<Rightarrow> (int \<times> rat) result" where
  "idxmax [] = Inl (ValueError ''attempt to get argmax of an empty sequence'')"
| "idxmax [x] = Inr x"
| "idxmax (x # xs) = bind_result (idxmax xs) (\<lambda>y. Inr (if snd x \<ge> snd y then x else y))"

record peaks =
  mean_tps_by_level_and_condition :: "(string, (int, rat) dict) dict"
  baseline_peak_tps :: rat
  baseline_peak_level :: int
  hrbac_peak_tps :: rat
  hrbac_peak_level :: int
  same_tested_peak_level :: bool
  hrbac_decline_pct_peak_to_100 :: rat
  baseline_decline_pct_peak_to_100 :: rat

definition at_level :: "(int \<times> rat) list \<Rightarrow> int \<Rightarrow> rat result" where
  "at_level column lvl = (case map_of column lvl of None \<Rightarrow> Inl (KeyError (int_str lvl)) | Some q \<Rightarrow> Inr q)"

definition observed_peaks :: "run list \<Rightarrow> peaks result" where
  "observed_peaks RUNS =
     bind_result (level_means RUNS ''baseline'') (\<lambda>base.
     bind_result (level_means RUNS ''hrbac'') (\<lambda>hr.
     bind_result (idxmax base) (\<lambda>(peak_base_level, base_max).
     bind_result (idxmax hr) (\<lambda>(peak_hr_level, hr_max).
     bind_result (at_level base 100) (\<lambda>base_100.
     bind_result (at_level hr 100) (\<lambda>hr_100.
     bind_result (divide_by hr_100 hr_max) (\<lambda>hr_ratio.
     bind_result (divide_by base_100 base_max) (\<lambda>base_ratio.
       Inr \<lparr>mean_tps_by_level_and_condition = [(''baseline'', base), (''hrbac'', hr)],
            baseline_peak_tps = base_max, baseline_peak_level = peak_base_level,
            hrbac_peak_tps = hr_max, hrbac_peak_level = peak_hr_level,
            same_tested_peak_level = (peak_base_level = peak_hr_level),
            hrbac_decline_pct_peak_to_100 = (1 - hr_ratio) * 100,
            baseline_decline_pct_peak_to_100 = (1 - base_ratio) * 100\<rparr>))))))))"

section \<open>The loop\<close>

lemma holm_loop_length [simp]: "length (holm_loop m pvals order rank r adj) = length adj"
  by (induction m pvals order rank r adj rule: holm_loop.induct) (simp_all add: Let_def)

lemma holm_loop_other: "i \<notin> set order \<Longrightarrow> holm_loop m pvals order rank r adj ! i = adj ! i"
  by (induction m pvals order rank r adj rule: holm_loop.induct) (simp_all add: Let_def)

text \<open>The running maximum when the element of rank \<open>i\<close> is adjusted.\<close>

definition running :: "nat \<Rightarrow> nat \<Rightarrow> rat list \<Rightarrow> rat \<Rightarrow> nat \<Rightarrow> rat" where
  "running m rank s r i = fold max (map (\<lambda>j. of_nat (m - (rank + j)) * s ! j) [0..<Suc i]) r"

lemma running_Cons:
  "running m rank (p # s) r (Suc i) = running m (Suc rank) s (max r (of_nat (m - rank) * p)) i"
proof -
  have "[0..<Suc (Suc i)] = 0 # map Suc [0..<Suc i]"
    by (simp add: upt_conv_Cons map_Suc_upt del: upt_Suc)
  then show ?thesis
    by (simp add: running_def comp_def max.commute del: upt_Suc)
qed

lemma running_0: "running m rank (p # s) r 0 = max r (of_nat (m - rank) * p)"
  by (simp add: running_def max.commute)

lemma holm_loop_at:
  assumes "distinct order" "set order \<subseteq> {..<length adj}" "i < length order"
  shows "holm_loop m pvals order rank r adj ! (order ! i) =
    Some (min (running m rank (map ((!) pvals) order) r i) 1)"
  using assms
proof (induction order arbitrary: rank r adj i)
  case (Cons idx order)
  show ?case
  proof (cases i)
    case 0
    then show ?thesis
      using Cons.prems by (simp add: Let_def holm_loop_other running_0)
  next
    case (Suc k)
    then show ?thesis
      using Cons.prems Cons.IH [of "adj[idx := x]" k "Suc rank" for x] by (simp add: Let_def running_Cons)
  qed
qed simp

section \<open>Holm's procedure\<close>

text \<open>
  The reference definitions: the number of rejections of the step-down procedure on sorted p-values, and
  the adjusted value of a p-value, which looks at the p-values that are not larger.
\<close>

fun step_down :: "rat \<Rightarrow> nat \<Rightarrow> rat list \<Rightarrow> nat" where
  "step_down \<alpha> m [] = 0"
| "step_down \<alpha> m (p # ps) = (if of_nat m * p < \<alpha> then Suc (step_down \<alpha> (m - 1) ps) else 0)"

definition holm_value :: "rat list \<Rightarrow> rat \<Rightarrow> rat" where
  "holm_value pvals p =
     (let s = sort pvals; m = length s
      in min (fold max (map (\<lambda>j. of_nat (m - j) * s ! j) (filter (\<lambda>j. s ! j \<le> p) [0..<m])) 0) 1)"

lemma running_Max: "running m 0 s 0 i = Max (insert 0 ((\<lambda>j. of_nat (m - j) * s ! j) ` {..i}))"
proof -
  have "set (map (\<lambda>j. of_nat (m - j) * s ! j) [0..<Suc i]) = (\<lambda>j. of_nat (m - j) * s ! j) ` {..i}"
    by (auto simp del: upt_Suc)
  then show ?thesis
    unfolding running_def using Max.set_eq_fold [of 0 "map (\<lambda>j. of_nat (m - j) * s ! j) [0..<Suc i]"]
    by (simp del: upt_Suc)
qed

lemma holm_value_running:
  assumes "i < length pvals" "\<forall>p \<in> set pvals. 0 \<le> p"
  shows "holm_value pvals (sort pvals ! i) = min (running (length pvals) 0 (sort pvals) 0 i) 1"
proof -
  let ?s = "sort pvals" and ?m = "length pvals"
  let ?f = "\<lambda>j. of_nat (?m - j) * ?s ! j"
  let ?A = "insert 0 (?f ` {..i})" and ?B = "insert 0 (?f ` {j. j < ?m \<and> ?s ! j \<le> ?s ! i})"
  have sub: "?A \<subseteq> ?B"
    using assms(1) by (auto intro!: imageI sorted_nth_mono)
  have "Max ?A = Max ?B"
  proof (rule antisym)
    show "Max ?A \<le> Max ?B"
      using sub by (intro Max_mono) auto
    have "x \<le> Max ?A" if "x \<in> ?B" for x
    proof (cases "x \<in> ?A")
      case False
      with that obtain j where j: "x = ?f j" "j < ?m" "?s ! j \<le> ?s ! i"
        by blast
      have "i < j"
      proof (rule ccontr)
        assume "\<not> i < j"
        then have "j \<in> {..i}" by simp
        then have "x \<in> ?A" unfolding j(1) by blast
        with False show False by simp
      qed
      have "?s ! j = ?s ! i"
        using j(2,3) \<open>i < j\<close> sorted_nth_mono [of ?s i j] by simp
      moreover have "0 \<le> ?s ! i"
        using assms nth_mem [of i ?s] by simp
      ultimately have "x \<le> ?f i"
        unfolding j(1) using \<open>i < j\<close> by (simp only: mult_right_mono of_nat_mono diff_le_mono2 less_imp_le)
      then show ?thesis
        by (rule order_trans, intro Max_ge) auto
    qed (rule Max_ge, simp_all)
    then show "Max ?B \<le> Max ?A"
      by (intro Max.boundedI) auto
  qed
  moreover have "set (map ?f (filter (\<lambda>j. ?s ! j \<le> ?s ! i) [0..<?m])) = ?f ` {j. j < ?m \<and> ?s ! j \<le> ?s ! i}"
    by auto
  moreover have "fold max (map ?f (filter (\<lambda>j. ?s ! j \<le> ?s ! i) [0..<?m])) 0 =
      Max (set (0 # map ?f (filter (\<lambda>j. ?s ! j \<le> ?s ! i) [0..<?m])))"
    by (rule Max.set_eq_fold [symmetric])
  ultimately show ?thesis
    by (simp add: holm_value_def Let_def running_Max)
qed

lemma takeWhile_prefix: "i < m \<Longrightarrow> i < length (takeWhile Q [0..<m]) \<longleftrightarrow> (\<forall>j \<le> i. Q j)"
proof -
  assume i: "i < m"
  show ?thesis
  proof
    assume *: "i < length (takeWhile Q [0..<m])"
    show "\<forall>j \<le> i. Q j"
    proof (intro allI impI)
      fix j assume "j \<le> i"
      with * have j: "j < length (takeWhile Q [0..<m])" by simp
      from nth_mem [OF this] have "Q (takeWhile Q [0..<m] ! j)"
        by (auto dest: set_takeWhileD)
      moreover have "takeWhile Q [0..<m] ! j = j"
        using takeWhile_nth [OF j] i \<open>j \<le> i\<close> by simp
      ultimately show "Q j" by simp
    qed
  next
    assume *: "\<forall>j \<le> i. Q j"
    show "i < length (takeWhile Q [0..<m])"
    proof (rule ccontr)
      assume n: "\<not> i < length (takeWhile Q [0..<m])"
      then have "length (takeWhile Q [0..<m]) < length [0..<m]" using i by simp
      from nth_length_takeWhile [OF this] n * i show False by simp
    qed
  qed
qed

lemma count_prefix: "length (filter (\<lambda>i. \<forall>j \<le> i. Q j) [0..<m]) = length (takeWhile Q [0..<m])"
proof -
  have le: "length (takeWhile Q [0..<m]) \<le> m"
    using length_takeWhile_le [of Q "[0..<m]"] by simp
  have "filter (\<lambda>i. \<forall>j \<le> i. Q j) [0..<m] = filter (\<lambda>i. i < length (takeWhile Q [0..<m])) [0..<m]"
    by (rule filter_cong) (simp_all add: takeWhile_prefix)
  also have "length \<dots> = length (takeWhile Q [0..<m])"
  proof -
    have "[0..<m] = [0..<length (takeWhile Q [0..<m])] @ [length (takeWhile Q [0..<m])..<m]"
      using le by (metis le_add_diff_inverse upt_add_eq_append zero_le)
    then have "filter (\<lambda>i. i < length (takeWhile Q [0..<m])) [0..<m] = [0..<length (takeWhile Q [0..<m])]"
      by (metis (no_types, lifting) append_Nil2 atLeastLessThan_iff filter_False filter_True filter_append
          linorder_not_less set_upt)
    then show ?thesis by simp
  qed
  finally show ?thesis .
qed

lemma step_down_takeWhile:
  "step_down \<alpha> n ps = length (takeWhile (\<lambda>i. of_nat (n - i) * ps ! i < \<alpha>) [0..<length ps])"
proof (induction ps arbitrary: n)
  case (Cons p ps)
  have "[0..<length (p # ps)] = 0 # map Suc [0..<length ps]"
    by (simp add: upt_conv_Cons map_Suc_upt del: upt_Suc)
  then show ?case
    using Cons by (simp add: takeWhile_map comp_def)
qed simp

lemma running_below: "0 < \<alpha> \<Longrightarrow> running m 0 s 0 i < \<alpha> \<longleftrightarrow> (\<forall>j \<le> i. of_nat (m - j) * s ! j < \<alpha>)"
  by (simp add: running_Max) blast

text \<open>What the loop relies on: \<open>argsort\<close> permutes the positions and sorts the values.\<close>

locale argsorter =
  fixes argsort :: "rat list \<Rightarrow> nat list"
  assumes argsort_perm: "mset (argsort ps) = mset [0..<length ps]"
    and argsort_sorted: "sorted (map ((!) ps) (argsort ps))"
begin

lemma order_facts: "distinct (argsort ps)" "set (argsort ps) = {..<length ps}" "length (argsort ps) = length ps"
  using argsort_perm [of ps] by (metis distinct_upt mset_eq_imp_distinct_iff,
      metis atLeast_upt mset_eq_setD, metis length_upt mset_eq_length diff_zero)

lemma order_sort: "map ((!) ps) (argsort ps) = sort ps"
proof (rule properties_for_sort [symmetric])
  have "mset (map ((!) ps) (argsort ps)) = mset (map ((!) ps) [0..<length ps])"
    unfolding mset_map argsort_perm ..
  then show "mset (map ((!) ps) (argsort ps)) = mset ps"
    by (simp only: map_nth)
qed (rule argsort_sorted)

lemma loop_values:
  assumes "\<forall>p \<in> set ps. 0 \<le> p"
  shows "holm_loop (length ps) ps (argsort ps) 0 0 (replicate (length ps) None) = map (Some \<circ> holm_value ps) ps"
    (is "?adj = _")
proof (rule nth_equalityI)
  fix i assume "i < length ?adj"
  then have i: "i < length ps" by simp
  then obtain k where k: "k < length (argsort ps)" "argsort ps ! k = i"
    using order_facts(2) [of ps] by (metis in_set_conv_nth lessThan_iff)
  have "?adj ! i = Some (min (running (length ps) 0 (sort ps) 0 k) 1)"
    using holm_loop_at [of "argsort ps" "replicate (length ps) None" k "length ps" ps 0 0] k order_facts [of ps]
    by (simp add: order_sort)
  moreover have "ps ! i = sort ps ! k"
    using k by (metis nth_map order_sort)
  ultimately show "?adj ! i = map (Some \<circ> holm_value ps) ps ! i"
    using i k holm_value_running [OF _ assms, of k] order_facts(3) [of ps] by simp
qed simp

lemma significant_count:
  assumes "\<forall>p \<in> set ps. 0 \<le> p" "0 < \<alpha>" "\<alpha> \<le> 1"
  shows "length (filter (\<lambda>p. holm_value ps p < \<alpha>) ps) = step_down \<alpha> (length ps) (sort ps)"
proof -
  let ?m = "length ps" and ?s = "sort ps"
  have "length (filter (\<lambda>p. holm_value ps p < \<alpha>) ps) = length (filter (\<lambda>p. holm_value ps p < \<alpha>) ?s)"
    by (metis mset_filter mset_sort size_mset)
  also have "?s = map ((!) ?s) [0..<?m]"
    by (metis length_sort map_nth)
  also have "filter (\<lambda>p. holm_value ps p < \<alpha>) (map ((!) ?s) [0..<?m])
      = map ((!) ?s) (filter (\<lambda>i. holm_value ps (?s ! i) < \<alpha>) [0..<?m])"
    by (simp add: filter_map comp_def)
  also have "filter (\<lambda>i. holm_value ps (?s ! i) < \<alpha>) [0..<?m] =
      filter (\<lambda>i. \<forall>j \<le> i. of_nat (?m - j) * ?s ! j < \<alpha>) [0..<?m]"
  proof (rule filter_cong)
    fix i assume "i \<in> set [0..<?m]"
    then show "holm_value ps (?s ! i) < \<alpha> \<longleftrightarrow> (\<forall>j \<le> i. of_nat (?m - j) * ?s ! j < \<alpha>)"
      unfolding running_below [OF assms(2), symmetric] using assms
      by (auto simp: holm_value_running min_less_iff_disj)
  qed simp
  finally show ?thesis
    by (simp add: count_prefix step_down_takeWhile)
qed

end

lemma n_significant_count:
  "n_significant (map (Some \<circ> f) ps) = Inr (length (filter (\<lambda>p. f p < 1 / 20) ps))"
  by (induction ps) simp_all

lemma map_float_opt: "map_result float_opt (map (Some \<circ> f) ps) = Inr (map f ps)"
  by (induction ps) (simp_all add: float_opt_def)

context argsorter begin

lemma holm_spec:
  assumes "\<forall>p \<in> set ps. 0 \<le> p"
  shows "holm_bonferroni argsort levels ps =
    Inr \<lparr>raw_p_by_level = dict_of (zip levels ps),
         holm_adjusted_p_by_level = dict_of (zip levels (map (holm_value ps) ps)),
         n_significant_after_adjustment = step_down (1 / 20) (length ps) (sort ps),
         holm_levels = length ps\<rparr>"
proof -
  have "length (filter (\<lambda>p. holm_value ps p < 1 / 20) ps) = step_down (1 / 20) (length ps) (sort ps)"
    by (rule significant_count) (use assms in simp_all)
  then show ?thesis
    by (simp only: holm_bonferroni_def Let_def loop_values [OF assms] n_significant_count map_float_opt
        bind_result.simps)
qed

end

text \<open>The stable sort meets the contract.\<close>

definition stable_argsort :: "rat list \<Rightarrow> nat list" where
  "stable_argsort ps = sort_key ((!) ps) [0..<length ps]"

interpretation stable: argsorter stable_argsort
  by unfold_locales (simp_all add: stable_argsort_def)

text \<open>
  C27. The correction is Holm's step-down procedure, however \<open>argsort\<close> breaks ties. The adjusted value of a
  p-value is the largest of the scaled p-values up to it, at most 1, and the number of levels counted as
  significant is the number of hypotheses that the procedure rejects at level 0.05 on the sorted
  p-values. The script's conversions never fail.
\<close>

theorem holm_is_step_down:
  assumes "argsorter argsort" and "\<forall>p \<in> set pvals. 0 \<le> p"
  shows "holm_bonferroni argsort levels pvals =
    Inr \<lparr>raw_p_by_level = dict_of (zip levels pvals),
         holm_adjusted_p_by_level = dict_of (zip levels (map (holm_value pvals) pvals)),
         n_significant_after_adjustment = step_down (1 / 20) (length pvals) (sort pvals),
         holm_levels = length pvals\<rparr>"
  using argsorter.holm_spec [OF assms] .

theorem holm_is_step_down_witness:
  "holm_bonferroni stable_argsort [10, 20, 30] [3 / 100, 1 / 100, 3 / 100] =
    Inr \<lparr>raw_p_by_level = dict_of (zip [10, 20, 30] [3 / 100, 1 / 100, 3 / 100]),
         holm_adjusted_p_by_level = dict_of (zip [10, 20, 30] [6 / 100, 3 / 100, 6 / 100]),
         n_significant_after_adjustment = 1, holm_levels = 3\<rparr>"
proof -
  let ?ps = "[3 / 100, 1 / 100, 3 / 100] :: rat list"
  have "sort ?ps = [1 / 100, 3 / 100, 3 / 100]"
    by simp
  then have vals: "holm_value ?ps (3 / 100) = 6 / 100" "holm_value ?ps (1 / 100) = 3 / 100"
    "step_down (1 / 20) (length ?ps) (sort ?ps) = 1"
    by (simp_all add: holm_value_def Let_def upt_conv_Cons)
  show ?thesis
    using holm_is_step_down [OF stable.argsorter_axioms, of ?ps "[10, 20, 30]"] by (simp add: vals)
qed

section \<open>Peaks\<close>

lemma idxmax_max: "idxmax xs = Inr x \<Longrightarrow> x \<in> set xs \<and> (\<forall>y \<in> set xs. snd y \<le> snd x)"
proof (induction xs arbitrary: x rule: idxmax.induct)
  case (3 y z xs)
  then show ?case by (fastforce simp: result_simps split: if_splits)
qed simp_all

text \<open>
  The reported declines are declines: when every mean throughput is positive, both lie between 0 and
  100 percent, and the reported peaks are attained at the reported levels.
\<close>

lemma decline_range:
  assumes "idxmax column = Inr (lvl, peak)" "at_level column 100 = Inr q" "divide_by q peak = Inr ratio"
    and "\<forall>(l, x) \<in> set column. 0 < x"
  shows "0 \<le> (1 - ratio) * 100 \<and> (1 - ratio) * 100 < 100 \<and> (lvl, peak) \<in> set column"
proof -
  have mx: "(lvl, peak) \<in> set column" "\<forall>y \<in> set column. snd y \<le> peak"
    using idxmax_max [OF assms(1)] by auto
  have "(100, q) \<in> set column"
    using assms(2) by (auto simp: at_level_def dest: map_of_SomeD split: option.splits)
  then have "0 < q" "q \<le> peak" "0 < peak"
    using mx assms(4) by auto
  moreover have "ratio = q / peak"
    using assms(3) by (auto simp: divide_by_def split: if_splits)
  ultimately have "0 < ratio" "ratio \<le> 1"
    by simp_all
  then show ?thesis
    using mx(1) by simp
qed

end
