(* ===== verification/Supplement_Tables.thy ===== *)
theory Supplement_Tables
  imports Throughput Role_Model Crt_Quantization Py_Csv
begin

text \<open>
  \<open>paper_iot/V10/analysis/scripts/13_make_supplement_tables.py\<close>: the bodies of the supplement's tables
  that are made from other scripts' reports. S2 comes from the oracle's role tables (\<open>Role_Model\<close>), S6
  from the results of \<open>Throughput\<close>, S10 from \<open>Crt_Quantization\<close>, and S5 from the grant rates, which are an
  argument here. JSON files turn the integer keys of a dictionary into strings (\<open>json_keys\<close>); their text
  is left out. The tables made from data frames (S7, S8, S11) are in \<open>Supplement_Runs\<close>. The theorems say that the
  printed permission matrix is the oracle's, and that table S6 lists the measured levels in numeric
  order with the means of their runs.
\<close>

section \<open>Text\<close>

definition BS :: char where
  "BS = CHR 0x5C"

definition cmd :: "string \<Rightarrow> string" where
  "cmd s = BS # s"

definition row_end :: string where
  "row_end = '' '' @ [BS, BS]"

text \<open>\<open>str(s).replace("_", "\_").replace("%", "\%")\<close>.\<close>

fun esc_char :: "char \<Rightarrow> string" where
  "esc_char c = (if c = CHR ''_'' \<or> c = CHR ''%'' then [BS, c] else [c])"

definition esc :: "string \<Rightarrow> string" where
  "esc s = concat (map esc_char s)"

section \<open>S2: permissions\<close>

definition s2_perms :: "string list" where
  "s2_perms = [''ReadOwn'', ''ReadZone'', ''ReadAll'', ''WriteSensor'', ''ControlZone'',
     ''ControlAll'', ''ReadAudit'', ''ManageRoles'', ''IssueCrossZone'', ''AdminAll'']"

definition s2_roles :: "string list" where
  "s2_roles = [''Admin'', ''Gateway'', ''Farmer'', ''Agronomist'', ''Certifier'', ''SupplyChain'', ''Sensor'']"

definition s2_row :: "string \<Rightarrow> string" where
  "s2_row r =
     (let eff = oracle_permissions r ROLE_PERMISSIONS_DEPLOYED ROLE_ANCESTORS_DEPLOYED
      in join '' & '' (r # map (\<lambda>p. if p \<in> eff \<or> ''AdminAll'' \<in> eff then ''Yes'' else []) s2_perms) @ row_end)"

definition s2_permission_matrix :: string where
  "s2_permission_matrix =
     join [LF]
       ([cmd ''begin{tabular}{l'' @ replicate (length s2_perms) CHR ''c'' @ ''}'', cmd ''toprule'',
         ''Role & '' @ join '' & '' (map (\<lambda>p. cmd ''rotatebox{60}{'' @ p @ ''}'') s2_perms) @ row_end,
         cmd ''midrule''] @
        map s2_row s2_roles @
        [cmd ''bottomrule'', cmd ''end{tabular}''])"

section \<open>S5: grant rates\<close>

definition s5_line :: "string \<times> rat \<Rightarrow> string result" where
  "s5_line kv =
     (case split_on CHR ''|'' (fst kv) of
        [r, op] \<Rightarrow> Inr (esc r @ '' & '' @ esc op @ '' & '' @ fixed_str 2 (snd kv) @ row_end)
      | _ \<Rightarrow> Inl (ValueError ''wrong number of values to unpack''))"

definition s5_head :: "string list" where
  "s5_head =
     (let names = ''Role & Operation & Grant rate ('' @ cmd ''%)'' @ row_end
      in [cmd ''begin{longtable}{llr}'',
          cmd ''caption{Grant rate by role-operation cell (all cells in the trace).}'' @ cmd ''label{tab:s5}'' @ [BS, BS],
          cmd ''toprule'', names, cmd ''midrule'', cmd ''endfirsthead'',
          cmd ''toprule'', names, cmd ''midrule'', cmd ''endhead'', cmd ''bottomrule'', cmd ''endfoot''])"

definition s5_latency_by_cell :: "(string, rat) dict \<Rightarrow> string result" where
  "s5_latency_by_cell cells =
     bind_result (map_result s5_line (sort_key fst cells)) (\<lambda>rows.
       Inr (join [LF] (s5_head @ rows @ [cmd ''end{longtable}''])))"

section \<open>S6: throughput per level\<close>

definition json_keys :: "(int, 'v) dict \<Rightarrow> (string, 'v) dict" where
  "json_keys d = map (\<lambda>(k, v). (int_str k, v)) d"

definition level_key :: "string \<Rightarrow> int result" where
  "level_key k =
     (case parse_int k of None \<Rightarrow> Inl (ValueError ''invalid literal for int()'') | Some i \<Rightarrow> Inr i)"

text \<open>\<open>sorted(keys, key=int)\<close>.\<close>

definition sorted_levels :: "string list \<Rightarrow> string list result" where
  "sorted_levels ks =
     bind_result (map_result (\<lambda>k. bind_result (level_key k) (\<lambda>i. Inr (i, k))) ks) (\<lambda>ps.
       Inr (map snd (sort_key fst ps)))"

definition item_at :: "(string, 'v) dict \<Rightarrow> string \<Rightarrow> 'v result" where
  "item_at d k = (case dict_get d k of None \<Rightarrow> Inl (KeyError k) | Some v \<Rightarrow> Inr v)"

definition padj_text :: "rat \<Rightarrow> string" where
  "padj_text padj = (if padj < 1 / 1000 then ''$<$0.001'' else fixed_str 4 padj)"

definition s6_line ::
  "(string, rat) dict \<Rightarrow> (string, (string, rat) dict) dict \<Rightarrow> (string, rat) dict \<Rightarrow> string \<Rightarrow> string result" where
  "s6_line pcts means padjs lvl =
     bind_result (bind_result (item_at means ''baseline'') (\<lambda>col. item_at col lvl)) (\<lambda>base.
     bind_result (bind_result (item_at means ''hrbac'') (\<lambda>col. item_at col lvl)) (\<lambda>hr.
     bind_result (item_at pcts lvl) (\<lambda>pct.
     bind_result (item_at padjs lvl) (\<lambda>padj.
       Inr (lvl @ '' & '' @ fixed_str 1 base @ '' & '' @ fixed_str 1 hr @ '' & '' @ fixed_str 1 pct @ '' & '' @
            padj_text padj @ row_end)))))"

definition s6_head :: "string list" where
  "s6_head = [cmd ''begin{tabular}{rrrrr}'', cmd ''toprule'',
     ''Concurrency & Baseline TPS & HRBAC TPS & '' @ cmd ''% lower & Holm-adj.'' @ cmd '' $p$'' @ row_end,
     cmd ''midrule'']"

definition s6_table ::
  "(string, rat) dict \<Rightarrow> (string, (string, rat) dict) dict \<Rightarrow> (string, rat) dict \<Rightarrow> string result" where
  "s6_table pcts means padjs =
     bind_result (sorted_levels (dict_keys pcts)) (\<lambda>levels.
     bind_result (map_result (s6_line pcts means padjs) levels) (\<lambda>rows.
       Inr (join [LF] (s6_head @ rows @ [cmd ''bottomrule'', cmd ''end{tabular}'']))))"

text \<open>The table of the results that \<open>04_throughput.py\<close> wrote.\<close>

definition s6_throughput_per_level :: "per_level \<Rightarrow> peaks \<Rightarrow> string result" where
  "s6_throughput_per_level d peaks =
     s6_table (json_keys (pct_diff_by_level d))
       (map (\<lambda>(cond, col). (cond, json_keys col)) (mean_tps_by_level_and_condition peaks))
       (json_keys (holm_adjusted_p_by_level (holm_of d)))"

section \<open>S10: residue bounds\<close>

definition s10_line :: "string \<Rightarrow> string \<Rightarrow> int \<Rightarrow> int \<Rightarrow> string" where
  "s10_line pair missing b cb =
     ''$'' @ cmd ''{'' @ pair @ cmd ''}$ (missing mod '' @ missing @ '') & '' @ comma_int_str b @ '' & '' @
     comma_int_str cb @ row_end"

definition s10_crt_bounds :: "bounds \<Rightarrow> bounds \<Rightarrow> string" where
  "s10_crt_bounds b cb =
     join [LF]
       [cmd ''begin{tabular}{lrr}'', cmd ''toprule'',
        ''Missing residue pair & Deployed bound & Corrected bound'' @ row_end, cmd ''midrule'',
        s10_line ''97,101'' ''103'' (b_ab b) (b_ab cb),
        s10_line ''97,103'' ''101'' (b_ac b) (b_ac cb),
        s10_line ''101,103'' ''97'' (b_bc b) (b_bc cb),
        cmd ''bottomrule'', cmd ''end{tabular}'']"

section \<open>The tables follow their sources\<close>

lemma map_result_map: "map_result f (map g xs) = map_result (\<lambda>x. f (g x)) xs"
  by (induction xs) simp_all

lemma map_result_exists:
  "(\<And>x. x \<in> set xs \<Longrightarrow> \<exists>y. f x = Inr y \<and> P x y) \<Longrightarrow> \<exists>ys. map_result f xs = Inr ys \<and> list_all2 P xs ys"
proof (induction xs)
  case (Cons x xs)
  obtain y where "f x = Inr y" "P x y" using Cons.prems [of x] by auto
  moreover obtain ys where "map_result f xs = Inr ys" "list_all2 P xs ys" using Cons by auto
  ultimately show ?case by simp
qed simp

lemma map_result_zip:
  "map_result f xs = Inr ys \<Longrightarrow> x \<in> set xs \<Longrightarrow> \<exists>y. f x = Inr y \<and> map_of (zip xs ys) x = Some y"
  by (induction xs arbitrary: ys) (auto simp: result_simps)

lemma json_keys_get [simp]: "dict_get (json_keys d) (int_str k) = dict_get d k"
  by (induction d) (auto simp: json_keys_def int_str_inject)

lemma json_keys_keys: "dict_keys (json_keys d) = map int_str (dict_keys d)"
  by (induction d) (auto simp: json_keys_def)

lemma sorted_levels_int_str: "sorted ls \<Longrightarrow> sorted_levels (map int_str ls) = Inr (map int_str ls)"
proof -
  assume s: "sorted ls"
  have "map_result (\<lambda>k. bind_result (level_key k) (\<lambda>i. Inr (i, k))) (map int_str ls) =
    Inr (map (\<lambda>i. (i, int_str i)) ls)"
    unfolding map_result_map by (rule map_result_all_Inr) (simp add: level_key_def parse_int_int_str)
  moreover have "sort_key fst (map (\<lambda>i. (i, int_str i)) ls) = map (\<lambda>i. (i, int_str i)) ls"
    using s by (intro sort_key_id_if_sorted) (simp add: comp_def)
  ultimately show ?thesis
    by (simp add: sorted_levels_def comp_def)
qed

lemma levels_of_facts: "distinct (levels_of RUNS)" "sorted (levels_of RUNS)"
  by (simp_all add: levels_of_def)

lemma level_means_get:
  assumes "level_means RUNS cond = Inr column" "lvl \<in> set (levels_of RUNS)"
  shows "\<exists>q. mean_of (tps_of RUNS lvl cond) = Inr q \<and> dict_get column lvl = Some q"
proof -
  have "map_result (\<lambda>lvl. bind_result (mean_of (tps_of RUNS lvl cond)) (\<lambda>q. Inr (lvl, q))) ls = Inr column \<Longrightarrow>
      lvl \<in> set ls \<Longrightarrow> \<exists>q. mean_of (tps_of RUNS lvl cond) = Inr q \<and> dict_get column lvl = Some q" for ls
    by (induction ls arbitrary: column) (auto simp: result_simps)
  with assms show ?thesis by (simp add: level_means_def)
qed

lemma holm_levels_adjusted:
  assumes "holm_bonferroni argsort levels pvals = Inr h" "length pvals = length levels" "lvl \<in> set levels"
    and "distinct levels"
  shows "\<exists>p. dict_get (holm_adjusted_p_by_level h) lvl = Some p"
proof -
  obtain adjusted where adj: "holm_adjusted_p_by_level h = dict_of (zip levels adjusted)"
    "map_result float_opt (holm_loop (length pvals) pvals (argsort pvals) 0 0 (replicate (length pvals) None)) = Inr adjusted"
    using assms(1) by (auto simp: holm_bonferroni_def Let_def result_simps)
  have len: "length adjusted = length levels"
    using map_result_Inr_length [OF adj(2)] assms(2) by simp
  have "dict_of (zip levels adjusted) = zip levels adjusted"
    using assms(4) len by (intro dict_of_distinct) simp
  moreover have "dom (map_of (zip levels adjusted)) = set levels"
    using len by (simp add: dom_map_of_zip)
  ultimately show ?thesis
    unfolding adj(1) using assms(3) by (metis domD)
qed

lemma per_level_facts:
  assumes "per_level_percent_diff argsort welch_p std RUNS = Inr d" "lvl \<in> set (levels_of RUNS)"
  shows "\<exists>base hr padj. mean_of (tps_of RUNS lvl ''baseline'') = Inr base
    \<and> mean_of (tps_of RUNS lvl ''hrbac'') = Inr hr \<and> base \<noteq> 0
    \<and> dict_get (pct_diff_by_level d) lvl = Some ((1 - hr / base) * 100)
    \<and> dict_get (holm_adjusted_p_by_level (holm_of d)) lvl = Some padj
    \<and> dict_keys (pct_diff_by_level d) = levels_of RUNS"
proof -
  obtain raw h where raw: "map_result (level_diff RUNS) (levels_of RUNS) = Inr raw"
    and h: "holm_bonferroni_from_ttests argsort welch_p RUNS (levels_of RUNS) = Inr h"
    and d: "pct_diff_by_level d = dict_of (zip (levels_of RUNS) raw)" "holm_of d = h"
    using assms(1) by (auto simp: per_level_percent_diff_def Let_def result_simps split: if_splits)
  note len = map_result_Inr_length [OF raw]
  have dict: "dict_of (zip (levels_of RUNS) raw) = zip (levels_of RUNS) raw"
    using len levels_of_facts(1) by (intro dict_of_distinct) simp
  obtain pct where pct: "level_diff RUNS lvl = Inr pct" "dict_get (pct_diff_by_level d) lvl = Some pct"
    using map_result_zip [OF raw assms(2)] by (auto simp: d dict)
  then obtain base hr where "mean_of (tps_of RUNS lvl ''baseline'') = Inr base"
    "mean_of (tps_of RUNS lvl ''hrbac'') = Inr hr" "base \<noteq> 0" "pct = (1 - hr / base) * 100"
    by (auto simp: level_diff_def divide_by_def result_simps split: if_splits)
  moreover obtain padj where "dict_get (holm_adjusted_p_by_level h) lvl = Some padj"
    using holm_levels_adjusted [OF h [unfolded holm_bonferroni_from_ttests_def] _ assms(2) levels_of_facts(1)]
    by auto
  moreover have "dict_keys (pct_diff_by_level d) = levels_of RUNS"
    using len by (simp add: d dict)
  ultimately show ?thesis
    using pct(2) d(2) by auto
qed

text \<open>
  Table S6 follows the runs: when both results of the throughput script exist the table is made, with one
  line for each concurrency level in numeric order, giving the mean throughput of the runs of each
  condition, their relative difference and the corrected p-value.
\<close>

theorem s6_follows_runs:
  assumes "per_level_percent_diff argsort welch_p std RUNS = Inr d" and "observed_peaks RUNS = Inr peaks"
  shows "\<exists>rows. s6_throughput_per_level d peaks =
      Inr (join [LF] (s6_head @ rows @ [cmd ''bottomrule'', cmd ''end{tabular}'']))
    \<and> sorted (levels_of RUNS) \<and> distinct (levels_of RUNS)
    \<and> list_all2 (\<lambda>lvl line. \<exists>base hr padj.
          mean_of (tps_of RUNS lvl ''baseline'') = Inr base \<and> mean_of (tps_of RUNS lvl ''hrbac'') = Inr hr
        \<and> dict_get (holm_adjusted_p_by_level (holm_of d)) lvl = Some padj
        \<and> line = int_str lvl @ '' & '' @ fixed_str 1 base @ '' & '' @ fixed_str 1 hr @ '' & '' @
            fixed_str 1 ((1 - hr / base) * 100) @ '' & '' @ padj_text padj @ row_end) (levels_of RUNS) rows"
    (is "\<exists>rows. _ = _ \<and> _ \<and> _ \<and> list_all2 ?P _ rows")
proof -
  let ?pcts = "json_keys (pct_diff_by_level d)"
  let ?means = "map (\<lambda>(cond, col). (cond, json_keys col)) (mean_tps_by_level_and_condition peaks)"
  let ?padjs = "json_keys (holm_adjusted_p_by_level (holm_of d))"
  obtain base_col hr_col where cols: "level_means RUNS ''baseline'' = Inr base_col"
    "level_means RUNS ''hrbac'' = Inr hr_col"
    "mean_tps_by_level_and_condition peaks = [(''baseline'', base_col), (''hrbac'', hr_col)]"
    using assms(2) by (auto simp: observed_peaks_def result_simps)
  have "\<exists>line. s6_line ?pcts ?means ?padjs (int_str lvl) = Inr line \<and> ?P lvl line"
    if lvl: "lvl \<in> set (levels_of RUNS)" for lvl
    using per_level_facts [OF assms(1) lvl] level_means_get [OF cols(1) lvl] level_means_get [OF cols(2) lvl]
    by (auto simp: s6_line_def item_at_def cols(3))
  then obtain rows where rows: "map_result (\<lambda>lvl. s6_line ?pcts ?means ?padjs (int_str lvl)) (levels_of RUNS) = Inr rows"
    "list_all2 ?P (levels_of RUNS) rows"
    using map_result_exists [where P = ?P and f = "\<lambda>lvl. s6_line ?pcts ?means ?padjs (int_str lvl)"] by blast
  have "dict_keys ?pcts = map int_str (levels_of RUNS)"
  proof (cases "levels_of RUNS")
    case Nil
    with assms(1) show ?thesis
      by (auto simp: per_level_percent_diff_def Let_def result_simps split: if_splits)
  next
    case (Cons l ls)
    then show ?thesis
      using per_level_facts [OF assms(1), of l] by (auto simp: json_keys_keys)
  qed
  then have "s6_throughput_per_level d peaks =
      Inr (join [LF] (s6_head @ rows @ [cmd ''bottomrule'', cmd ''end{tabular}'']))"
    unfolding s6_throughput_per_level_def s6_table_def
    by (simp only: sorted_levels_int_str levels_of_facts map_result_map rows(1) bind_result.simps)
  then show ?thesis
    using rows(2) levels_of_facts by blast
qed

definition demo_runs :: "run list" where
  "demo_runs =
     [\<lparr>concurrency_level = 100, run_condition = ''baseline'', tps = 80\<rparr>,
      \<lparr>concurrency_level = 100, run_condition = ''hrbac'', tps = 60\<rparr>,
      \<lparr>concurrency_level = 20, run_condition = ''baseline'', tps = 50\<rparr>,
      \<lparr>concurrency_level = 20, run_condition = ''hrbac'', tps = 40\<rparr>]"

theorem s6_follows_runs_witness:
  "\<exists>d peaks rows. per_level_percent_diff stable_argsort (\<lambda>a b. 1 / 100) (\<lambda>xs. 0) demo_runs = Inr d
     \<and> observed_peaks demo_runs = Inr peaks
     \<and> s6_throughput_per_level d peaks =
         Inr (join [LF] (s6_head @ rows @ [cmd ''bottomrule'', cmd ''end{tabular}'']))
     \<and> length rows = 2 \<and> take 5 (hd rows) = ''20 & ''"
proof -
  have levels: "levels_of demo_runs = [20, 100]"
    by (simp add: levels_of_def demo_runs_def)
  have runs: "tps_of demo_runs 20 ''baseline'' = [50]" "tps_of demo_runs 20 ''hrbac'' = [40]"
    "tps_of demo_runs 100 ''baseline'' = [80]" "tps_of demo_runs 100 ''hrbac'' = [60]"
    by (simp_all add: tps_of_def demo_runs_def)
  have "\<exists>d. per_level_percent_diff stable_argsort (\<lambda>a b. 1 / 100) (\<lambda>xs. 0) demo_runs = Inr d"
    by (simp add: per_level_percent_diff_def levels level_diff_def runs mean_of_def divide_by_def
        holm_bonferroni_from_ttests_def stable.holm_spec)
  then obtain d where d: "per_level_percent_diff stable_argsort (\<lambda>a b. 1 / 100) (\<lambda>xs. 0) demo_runs = Inr d" ..
  have "\<exists>peaks. observed_peaks demo_runs = Inr peaks"
    by (simp add: observed_peaks_def level_means_def levels runs mean_of_def divide_by_def at_level_def)
  then obtain peaks where peaks: "observed_peaks demo_runs = Inr peaks" ..
  obtain rows where rows: "s6_throughput_per_level d peaks =
      Inr (join [LF] (s6_head @ rows @ [cmd ''bottomrule'', cmd ''end{tabular}'']))"
    and all: "list_all2 (\<lambda>lvl line. \<exists>base hr padj.
          mean_of (tps_of demo_runs lvl ''baseline'') = Inr base \<and> mean_of (tps_of demo_runs lvl ''hrbac'') = Inr hr
        \<and> dict_get (holm_adjusted_p_by_level (holm_of d)) lvl = Some padj
        \<and> line = int_str lvl @ '' & '' @ fixed_str 1 base @ '' & '' @ fixed_str 1 hr @ '' & '' @
            fixed_str 1 ((1 - hr / base) * 100) @ '' & '' @ padj_text padj @ row_end) [20, 100] rows"
    using s6_follows_runs [OF d peaks] unfolding levels by blast
  have "int_str 20 = ''20''" by code_simp
  with all have "length rows = 2 \<and> take 5 (hd rows) = ''20 & ''"
    by (auto simp: list_all2_Cons1)
  with d peaks rows show ?thesis by blast
qed

text \<open>
  The printed permission matrix is the oracle's: reading the cells of table S2 back gives, for every role
  and permission, whether the role has the permission in the deployed tables.
\<close>

theorem s2_matrix_reads_back:
  "map (\<lambda>line. map (\<lambda>cell. take 4 cell = '' Yes'') (tl (split_on CHR ''&'' line)))
     (take 7 (drop 4 (split_on LF s2_permission_matrix))) =
   map (\<lambda>r. map (\<lambda>p. has_permission r p ROLE_PERMISSIONS_DEPLOYED ROLE_ANCESTORS_DEPLOYED) s2_perms) s2_roles"
  by code_simp

end
