(* ===== verification/Flash_Package.thy ===== *)
theory Flash_Package
  imports Py_Text
begin

text \<open>
  \<open>scripts/make_flash_package.py\<close>: the binary package flashed to a sensor (magic, length, certificate, raw
  key, zone, checksum) and the extraction of the raw Ed25519 seed from a raw, DER or PEM key file. Bytes
  are \<open>8 word\<close>s; \<open>binascii.crc32\<close> works bit by bit on \<open>32 word\<close>s; \<open>a2b_base64\<close> is CPython's non-strict
  decoder, which skips foreign characters and stops at complete padding. \<open>fail\<close> ends the script with
  \<open>SystemExit\<close>. Reading and writing files and the command line are left out (the zone is one of the four
  names there, any text here). The lemmas give the layout of a package, that it determines its inputs,
  and which PKCS#8 keys are recovered.
\<close>

unbundle bit_operations_syntax

section \<open>Checksum and integers\<close>

type_synonym bytes = "8 word list"

definition crc32_bit :: "32 word \<Rightarrow> 32 word" where
  "crc32_bit crc = (if bit crc 0 then drop_bit 1 crc XOR 0xEDB88320 else drop_bit 1 crc)"

definition crc32_byte :: "32 word \<Rightarrow> 8 word \<Rightarrow> 32 word" where
  "crc32_byte crc b = (crc32_bit ^^ 8) (crc XOR ucast b)"

definition crc32 :: "bytes \<Rightarrow> 32 word" where
  "crc32 bs = foldl crc32_byte 0xFFFFFFFF bs XOR 0xFFFFFFFF"

text \<open>\<open>struct.pack\<close> with the big-endian formats \<open>I\<close> and \<open>H\<close>.\<close>

definition pack_u32 :: "32 word \<Rightarrow> bytes" where
  "pack_u32 w = [ucast (drop_bit 24 w), ucast (drop_bit 16 w), ucast (drop_bit 8 w), ucast w]"

definition pack_u16 :: "16 word \<Rightarrow> bytes" where
  "pack_u16 w = [ucast (drop_bit 8 w), ucast w]"

section \<open>The raw key\<close>

definition MAGIC :: "32 word" where
  "MAGIC = 0xDEADBEEF"

definition ZONE_BYTES :: nat where
  "ZONE_BYTES = 8"

definition RAW_ED25519_KEY_BYTES :: nat where
  "RAW_ED25519_KEY_BYTES = 32"

definition fail :: "string \<Rightarrow> 'a result" where
  "fail message = Inl (SystemExit (''make_flash_package.py: error: '' @ message))"

definition begins :: "'c list \<Rightarrow> 'c list \<Rightarrow> bool" where
  "begins needle bs \<longleftrightarrow> take (length needle) bs = needle"

text \<open>\<open>needle in bs\<close> and \<open>bs.rfind(needle)\<close>; \<open>None\<close> stands for -1.\<close>

fun contains_bytes :: "'c list \<Rightarrow> 'c list \<Rightarrow> bool" where
  "contains_bytes needle [] = (needle = [])"
| "contains_bytes needle (b # bs) = (begins needle (b # bs) \<or> contains_bytes needle bs)"

fun rfind :: "'c list \<Rightarrow> 'c list \<Rightarrow> nat option" where
  "rfind needle [] = (if needle = [] then Some 0 else None)"
| "rfind needle (b # bs) =
     (case rfind needle bs of
        Some i \<Rightarrow> Some (Suc i)
      | None \<Rightarrow> if begins needle (b # bs) then Some 0 else None)"

text \<open>\<open>bytes.splitlines()\<close>: lines end at LF, CR or CR LF. The flag says that the byte before was a CR.\<close>

fun split_lines :: "bool \<Rightarrow> bytes \<Rightarrow> bytes \<Rightarrow> bytes list" where
  "split_lines cr line [] = (if line = [] then [] else [line])"
| "split_lines cr line (b # bs) =
     (if b = 10 then (if cr then split_lines False [] bs else line # split_lines False [] bs)
      else if b = 13 then line # split_lines True [] bs
      else split_lines False (line @ [b]) bs)"

definition is_space_byte :: "8 word \<Rightarrow> bool" where
  "is_space_byte b \<longleftrightarrow> b \<in> {32, 9, 10, 11, 12, 13}"

definition strip_bytes :: "bytes \<Rightarrow> bytes" where
  "strip_bytes bs = rev (dropWhile is_space_byte (rev (dropWhile is_space_byte bs)))"

definition base64_value :: "8 word \<Rightarrow> 8 word option" where
  "base64_value b =
     (if 65 \<le> b \<and> b \<le> 90 then Some (b - 65)
      else if 97 \<le> b \<and> b \<le> 122 then Some (b - 71)
      else if 48 \<le> b \<and> b \<le> 57 then Some (b + 4)
      else if b = 43 then Some 62
      else if b = 47 then Some 63
      else None)"

text \<open>
  \<open>a2b_base64\<close>: the number of characters of the current group, the bits carried over, the padding seen
  since the last character, and the output so far.
\<close>

fun a2b_loop :: "bytes \<Rightarrow> nat \<Rightarrow> 8 word \<Rightarrow> nat \<Rightarrow> bytes \<Rightarrow> string + bytes" where
  "a2b_loop [] quad_pos left pads out =
     (if quad_pos = 0 then Inr out
      else if quad_pos = 1 then Inl ''Invalid base64-encoded string''
      else Inl ''Incorrect padding'')"
| "a2b_loop (b # bs) quad_pos left pads out =
     (if b = 61 then
        (if 2 \<le> quad_pos then
           if 4 \<le> quad_pos + pads + 1 then Inr out else a2b_loop bs quad_pos left (pads + 1) out
         else a2b_loop bs quad_pos left pads out)
      else case base64_value b of
             None \<Rightarrow> a2b_loop bs quad_pos left pads out
           | Some v \<Rightarrow>
               if quad_pos = 0 then a2b_loop bs 1 v 0 out
               else if quad_pos = 1 then a2b_loop bs 2 (v AND 0x0F) 0 (out @ [push_bit 2 left OR drop_bit 4 v])
               else if quad_pos = 2 then a2b_loop bs 3 (v AND 0x03) 0 (out @ [push_bit 4 left OR drop_bit 2 v])
               else a2b_loop bs 0 0 0 (out @ [push_bit 6 left OR v]))"

definition a2b_base64 :: "bytes \<Rightarrow> string + bytes" where
  "a2b_base64 bs = a2b_loop bs 0 0 0 []"

definition BEGIN_MARK :: bytes where
  "BEGIN_MARK = [45, 45, 45, 45, 45, 66, 69, 71, 73, 78]"

definition DASHES :: bytes where
  "DASHES = [45, 45, 45, 45, 45]"

definition pem_body :: "bytes \<Rightarrow> bytes" where
  "pem_body key_bytes =
     concat (map strip_bytes (filter (\<lambda>line. \<not> contains_bytes DASHES line) (split_lines False [] key_bytes)))"

definition KEY_MARKER :: bytes where
  "KEY_MARKER = [0x04, 0x20]"

definition find_seed :: "bytes \<Rightarrow> bytes result" where
  "find_seed key_bytes =
     (case rfind KEY_MARKER key_bytes of
        Some marker_index \<Rightarrow>
          if length key_bytes \<ge> marker_index + 2 + RAW_ED25519_KEY_BYTES
          then Inr (take RAW_ED25519_KEY_BYTES (drop (marker_index + 2) key_bytes))
          else fail ''private key must be a 32-byte raw Ed25519 seed or an Ed25519 PKCS#8 PEM/DER key''
      | None \<Rightarrow> fail ''private key must be a 32-byte raw Ed25519 seed or an Ed25519 PKCS#8 PEM/DER key'')"

definition extract_raw_ed25519_private_key :: "bytes \<Rightarrow> bytes result" where
  "extract_raw_ed25519_private_key key_bytes =
     (if length key_bytes = RAW_ED25519_KEY_BYTES then Inr key_bytes
      else if contains_bytes BEGIN_MARK key_bytes then
        (case a2b_base64 (pem_body key_bytes) of
           Inl exc \<Rightarrow> fail (''invalid PEM private key: '' @ exc)
         | Inr der \<Rightarrow> find_seed der)
      else find_seed key_bytes)"

section \<open>The package\<close>

text \<open>\<open>zone.encode("ascii")\<close>.\<close>

definition ascii :: "string \<Rightarrow> bytes result" where
  "ascii s =
     (if list_all (\<lambda>c. (of_char c :: nat) < 128) s then Inr (map (\<lambda>c. of_nat (of_char c)) s)
      else Inl UnicodeEncodeError)"

definition ljust :: "bytes \<Rightarrow> nat \<Rightarrow> bytes" where
  "ljust bs n = bs @ replicate (n - length bs) 0"

definition encode_zone :: "string \<Rightarrow> bytes result" where
  "encode_zone zone =
     bind_result (ascii zone) (\<lambda>encoded.
       if encoded = [] then fail ''zone must not be empty''
       else if length encoded > ZONE_BYTES then fail ''zone must fit in 8 ASCII bytes''
       else Inr (ljust encoded ZONE_BYTES))"

definition build_package :: "bytes \<Rightarrow> bytes \<Rightarrow> string \<Rightarrow> bytes result" where
  "build_package cert raw_key zone =
     (if length cert > 0xFFFF then fail ''certificate is too large for 2-byte length field''
      else bind_result (encode_zone zone) (\<lambda>z.
             let pkg_body = pack_u32 MAGIC @ pack_u16 (of_nat (length cert)) @ cert @ raw_key @ z
             in Inr (pkg_body @ pack_u32 (crc32 pkg_body AND 0xFFFFFFFF))))"

text \<open>\<open>main\<close> on the contents of the two files.\<close>

definition make_package :: "bytes \<Rightarrow> bytes \<Rightarrow> string \<Rightarrow> bytes result" where
  "make_package cert key_file zone =
     bind_result (extract_raw_ed25519_private_key key_file) (\<lambda>raw_key. build_package cert raw_key zone)"


section \<open>Layout\<close>

lemma fail_not_Inr [simp]: "fail m \<noteq> Inr x" "Inr x \<noteq> fail m"
  by (simp_all add: fail_def)

lemma pack_length [simp]: "length (pack_u32 w) = 4" "length (pack_u16 h) = 2"
  by (simp_all add: pack_u32_def pack_u16_def)

lemma ucast_inverse_mask: "(w :: 32 word) AND 0xFFFFFFFF = w"
proof -
  have "(0xFFFFFFFF :: 32 word) = - 1"
    by simp
  then show ?thesis
    by (simp only: and.right_neutral)
qed

lemma encode_zone_length: "encode_zone zone = Inr z \<Longrightarrow> length z = ZONE_BYTES"
  by (auto simp: encode_zone_def ljust_def result_simps split: if_splits)

lemma build_package_layout:
  assumes "build_package cert raw_key zone = Inr p"
  obtains z where "length cert \<le> 0xFFFF" "encode_zone zone = Inr z" "length z = ZONE_BYTES"
    "p = pack_u32 MAGIC @ pack_u16 (of_nat (length cert)) @ cert @ raw_key @ z @
         pack_u32 (crc32 (pack_u32 MAGIC @ pack_u16 (of_nat (length cert)) @ cert @ raw_key @ z))"
  using assms
  by (auto simp: build_package_def result_simps Let_def ucast_inverse_mask
      dest: encode_zone_length split: if_splits)

lemma build_package_length:
  assumes "build_package cert raw_key zone = Inr p"
  shows "length p = length cert + length raw_key + 18"
  using assms by (rule build_package_layout) (simp add: ZONE_BYTES_def)

lemma package_sealed:
  assumes "build_package cert raw_key zone = Inr p"
  shows "drop (length p - 4) p = pack_u32 (crc32 (take (length p - 4) p))"
  using assms by (rule build_package_layout) simp

lemma named_zone_encodes:
  "zone \<in> {''North'', ''South'', ''East'', ''West''} \<Longrightarrow> \<exists>z. encode_zone zone = Inr z"
  by (auto simp: encode_zone_def ascii_def ZONE_BYTES_def)

lemma build_package_total:
  assumes "length cert \<le> 0xFFFF" and "zone \<in> {''North'', ''South'', ''East'', ''West''}"
  shows "\<exists>p. build_package cert raw_key zone = Inr p"
  using assms(1) named_zone_encodes[OF assms(2)] by (auto simp: build_package_def Let_def)

lemma packed_fields:
  assumes "pack_u32 m @ pack_u16 n @ c @ k @ z @ t = pack_u32 m @ pack_u16 n' @ c' @ k' @ z' @ t'"
    and "length c' = length c" and "length k' = length k" and "length z' = length z"
  shows "c' = c \<and> k' = k \<and> z' = z"
  using assms by simp

section \<open>Seeds\<close>

lemma rfind_None: "rfind needle bs = None \<longleftrightarrow> \<not> contains_bytes needle bs"
  by (induction bs) (auto split: option.splits)

lemma rfind_Some_length: "rfind needle bs = Some i \<Longrightarrow> i + length needle \<le> length bs"
proof (induction bs arbitrary: i)
  case (Cons b bs)
  then show ?case
    by (auto simp: begins_def split: option.splits if_splits)
       (metis length_Cons length_take min.absorb_iff2 min.commute)
qed (auto split: if_splits)

lemma find_seed_length: "find_seed bs = Inr k \<Longrightarrow> length k = RAW_ED25519_KEY_BYTES"
  by (auto simp: find_seed_def split: option.splits if_splits)

lemma extract_length:
  "extract_raw_ed25519_private_key bs = Inr k \<Longrightarrow> length k = RAW_ED25519_KEY_BYTES"
  by (auto simp: extract_raw_ed25519_private_key_def find_seed_length split: if_splits sum.splits)

text \<open>The fixed first 16 bytes of the PKCS#8 encoding of an Ed25519 private key.\<close>

definition pkcs8_prefix :: bytes where
  "pkcs8_prefix =
     [0x30, 0x2E, 0x02, 0x01, 0x00, 0x30, 0x05, 0x06, 0x03, 0x2B, 0x65, 0x70, 0x04, 0x22, 0x04, 0x20]"

lemma rfind_prefix:
  "rfind KEY_MARKER (pkcs8_prefix @ seed) =
     Some (case rfind KEY_MARKER seed of Some i \<Rightarrow> 16 + i | None \<Rightarrow> 14)"
  by (simp add: pkcs8_prefix_def KEY_MARKER_def begins_def split: option.split)

lemma contains_prefix:
  "contains_bytes BEGIN_MARK (pkcs8_prefix @ seed) = contains_bytes BEGIN_MARK seed"
  by (simp add: pkcs8_prefix_def BEGIN_MARK_def begins_def)

lemma extract_of_der:
  assumes "length seed = RAW_ED25519_KEY_BYTES" and "\<not> contains_bytes BEGIN_MARK seed"
  shows "extract_raw_ed25519_private_key (pkcs8_prefix @ seed) =
    (if contains_bytes KEY_MARKER seed
     then fail ''private key must be a 32-byte raw Ed25519 seed or an Ed25519 PKCS#8 PEM/DER key''
     else Inr seed)"
proof -
  have plen: "length pkcs8_prefix = 16"
    by (simp add: pkcs8_prefix_def)
  have whole: "extract_raw_ed25519_private_key (pkcs8_prefix @ seed) = find_seed (pkcs8_prefix @ seed)"
    using assms by (simp add: extract_raw_ed25519_private_key_def contains_prefix plen RAW_ED25519_KEY_BYTES_def)
  show ?thesis
  proof (cases "rfind KEY_MARKER seed")
    case None
    then have "\<not> contains_bytes KEY_MARKER seed"
      by (simp add: rfind_None)
    then show ?thesis
      using None assms(1) whole by (simp add: find_seed_def rfind_prefix plen RAW_ED25519_KEY_BYTES_def)
  next
    case (Some i)
    then have "contains_bytes KEY_MARKER seed"
      by (metis rfind_None option.distinct(1))
    then show ?thesis
      using Some assms(1) whole by (simp add: find_seed_def rfind_prefix plen RAW_ED25519_KEY_BYTES_def)
  qed
qed

definition example_seed :: bytes where
  "example_seed = [1, 2, 3, 4, 5, 6, 7, 8, 9, 10, 11, 12, 13, 14, 15, 16,
     17, 18, 19, 20, 21, 22, 23, 24, 25, 26, 27, 28, 29, 30, 31, 32]"

lemma example_seed_plain:
  "\<not> contains_bytes BEGIN_MARK example_seed" "\<not> contains_bytes KEY_MARKER example_seed"
  by (simp_all add: example_seed_def BEGIN_MARK_def KEY_MARKER_def begins_def)

text \<open>
  C26. A package determines what it was built from. If two runs of the script write the same bytes, they had
  the same certificate, the same raw key and the same zone: the fields are delimited by the length field
  and the fixed sizes of the key, the zone and the checksum, although the script never writes down the
  length of the key.
\<close>

theorem package_determines_inputs:
  assumes "make_package cert key_file zone = Inr p"
    and "make_package cert' key_file' zone' = Inr p"
    and "zone \<in> {''North'', ''South'', ''East'', ''West''}"
    and "zone' \<in> {''North'', ''South'', ''East'', ''West''}"
  shows "cert = cert' \<and> zone = zone' \<and>
    extract_raw_ed25519_private_key key_file = extract_raw_ed25519_private_key key_file'"
proof -
  obtain k k' where k: "extract_raw_ed25519_private_key key_file = Inr k" "build_package cert k zone = Inr p"
    and k': "extract_raw_ed25519_private_key key_file' = Inr k'" "build_package cert' k' zone' = Inr p"
    using assms(1,2) by (auto simp: make_package_def result_simps)
  have len: "length k = length k'" "length cert = length cert'"
    using k k' build_package_length[OF k(2)] build_package_length[OF k'(2)] by (simp_all add: extract_length)
  from k(2) obtain z where z: "encode_zone zone = Inr z" "length z = ZONE_BYTES"
    "p = pack_u32 MAGIC @ pack_u16 (of_nat (length cert)) @ cert @ k @ z @
         pack_u32 (crc32 (pack_u32 MAGIC @ pack_u16 (of_nat (length cert)) @ cert @ k @ z))"
    by (rule build_package_layout)
  from k'(2) obtain z' where z': "encode_zone zone' = Inr z'" "length z' = ZONE_BYTES"
    "p = pack_u32 MAGIC @ pack_u16 (of_nat (length cert')) @ cert' @ k' @ z' @
         pack_u32 (crc32 (pack_u32 MAGIC @ pack_u16 (of_nat (length cert')) @ cert' @ k' @ z'))"
    by (rule build_package_layout)
  have same: "cert = cert' \<and> k = k' \<and> z = z'"
    using packed_fields[OF z(3)[symmetric, unfolded z'(3)]] len z(2) z'(2) by simp
  then have "encode_zone zone = encode_zone zone'"
    using z(1) z'(1) by simp
  then have "zone = zone'"
    using assms(3,4) by (auto simp: encode_zone_def ascii_def ljust_def ZONE_BYTES_def)
  then show ?thesis
    using same k(1) k'(1) by simp
qed

theorem package_determines_inputs_witness:
  "\<exists>p key. make_package [1, 2] example_seed ''North'' = Inr p
     \<and> extract_raw_ed25519_private_key (pkcs8_prefix @ example_seed) = Inr key
     \<and> make_package [1, 2] (pkcs8_prefix @ example_seed) ''North'' = Inr p
     \<and> key = example_seed"
proof -
  have raw: "extract_raw_ed25519_private_key example_seed = Inr example_seed"
    by (simp add: extract_raw_ed25519_private_key_def RAW_ED25519_KEY_BYTES_def example_seed_def)
  have der: "extract_raw_ed25519_private_key (pkcs8_prefix @ example_seed) = Inr example_seed"
    using extract_of_der[of example_seed] example_seed_plain
    by (simp add: RAW_ED25519_KEY_BYTES_def example_seed_def)
  have "\<exists>p. build_package [1, 2] example_seed ''North'' = Inr p"
    by (rule build_package_total) simp_all
  then obtain p where p: "build_package [1, 2] example_seed ''North'' = Inr p" ..
  have ps: "make_package [1, 2] example_seed ''North'' = Inr p"
    "make_package [1, 2] (pkcs8_prefix @ example_seed) ''North'' = Inr p"
    using raw der p by (simp_all add: make_package_def)
  have "extract_raw_ed25519_private_key example_seed =
    extract_raw_ed25519_private_key (pkcs8_prefix @ example_seed)"
    using package_determines_inputs[OF ps] by simp
  then show ?thesis
    using ps raw by simp
qed

text \<open>
  The script recovers the seed of an Ed25519 key in its standard PKCS#8 DER form exactly when the seed
  does not itself contain the two bytes 04 20. Such a seed is taken for a second key header, and the
  valid key is refused with the message that the key is not an Ed25519 key.
\<close>

theorem extract_key_der:
  assumes "length seed = RAW_ED25519_KEY_BYTES" and "\<not> contains_bytes BEGIN_MARK seed"
  shows "extract_raw_ed25519_private_key (pkcs8_prefix @ seed) =
    (if contains_bytes KEY_MARKER seed
     then fail ''private key must be a 32-byte raw Ed25519 seed or an Ed25519 PKCS#8 PEM/DER key''
     else Inr seed)"
  using assms by (rule extract_of_der)

theorem extract_key_der_witness:
  "extract_raw_ed25519_private_key (pkcs8_prefix @ example_seed) = Inr example_seed
   \<and> extract_raw_ed25519_private_key (pkcs8_prefix @ take 30 example_seed @ [4, 32]) =
     fail ''private key must be a 32-byte raw Ed25519 seed or an Ed25519 PKCS#8 PEM/DER key''"
proof -
  have no: "\<not> contains_bytes BEGIN_MARK (take 30 example_seed @ [4, 32])"
    "contains_bytes KEY_MARKER (take 30 example_seed @ [4, 32])"
    by (simp_all add: example_seed_def BEGIN_MARK_def KEY_MARKER_def begins_def)
  show ?thesis
    using extract_key_der[of example_seed] extract_key_der[of "take 30 example_seed @ [4, 32]"] no
      example_seed_plain
    by (simp add: RAW_ED25519_KEY_BYTES_def example_seed_def)
qed

end
