(* ===== verification/Esp32_Crt.thy ===== *)
theory Esp32_Crt
  imports Crt_Quantization "HOL-Library.Signed_Division"
begin

text \<open>
  \<open>esp32/main/crt_encode.c\<close> and \<open>encode_sensor_value\<close> of \<open>esp32/main/main.c\<close>: the sensor's side of the
  residue code. C integers are words of their width, pointers that the code compares with \<open>NULL\<close> are
  options (the parameter \<open>residues\<close> of \<open>crt_encode\<close> stands for the caller's array, returned updated).
  The search loop of \<open>crt_decode\<close> is a \<open>partial_function\<close>, so that a search that never ends is
  \<open>None\<close>; the lemmas show that it ends. \<open>CRT_MAX_VALUE\<close> is the number the header defines, which is not
  the product of the moduli. The theorems relate both functions to the gateway's decoder and to the
  packing the analysis assumes.
\<close>

section \<open>Encoding and decoding in C\<close>

datatype esp_err = ESP_OK | ESP_ERR_INVALID_ARG | ESP_ERR_INVALID_SIZE | ESP_ERR_NOT_FOUND

record crt_residue_t =
  residue_index :: "8 word"
  residue_value :: "8 word"

definition CRT_RESIDUE_COUNT :: nat where
  "CRT_RESIDUE_COUNT = 3"

definition CRT_MAX_VALUE :: "32 word" where
  "CRT_MAX_VALUE = 1009591"

definition s_moduli :: "16 word list" where
  "s_moduli = [97, 101, 103]"

definition crt_modulus_for_index :: "8 word \<Rightarrow> 16 word" where
  "crt_modulus_for_index index =
     (if unat index < CRT_RESIDUE_COUNT then s_moduli ! unat index else 0)"

definition encoded_residue :: "32 word \<Rightarrow> nat \<Rightarrow> crt_residue_t" where
  "encoded_residue reading i =
     \<lparr>residue_index = of_nat i, residue_value = ucast (reading mod ucast (s_moduli ! i))\<rparr>"

definition crt_encode :: "32 word \<Rightarrow> crt_residue_t list option \<Rightarrow> esp_err \<times> crt_residue_t list option" where
  "crt_encode reading residues =
     (case residues of
        None \<Rightarrow> (ESP_ERR_INVALID_ARG, None)
      | Some rs \<Rightarrow>
          if CRT_MAX_VALUE \<le> reading then (ESP_ERR_INVALID_SIZE, Some rs)
          else (ESP_OK, Some (map (encoded_residue reading) [0..<CRT_RESIDUE_COUNT])))"

partial_function (option) crt_search ::
  "32 word \<Rightarrow> 16 word \<Rightarrow> 16 word \<Rightarrow> 8 word \<Rightarrow> (esp_err + 32 word) option" where
  "crt_search candidate m0 m1 value1 =
     (if candidate < CRT_MAX_VALUE then
        if candidate mod ucast m1 = ucast value1 then Some (Inr candidate)
        else crt_search (candidate + ucast m0) m0 m1 value1
      else Some (Inl ESP_ERR_NOT_FOUND))"

declare crt_search.simps [code]

text \<open>The result is the returned code and, if the pointer \<open>reading\<close> is no \<open>NULL\<close>, what it points to.\<close>

definition crt_decode ::
  "(crt_residue_t \<times> crt_residue_t) option \<Rightarrow> 32 word option \<Rightarrow> (esp_err \<times> 32 word option) option" where
  "crt_decode residues reading =
     (case (residues, reading) of
        (Some (r0, r1), Some old) \<Rightarrow>
          if CRT_RESIDUE_COUNT \<le> unat (residue_index r0) \<or> CRT_RESIDUE_COUNT \<le> unat (residue_index r1)
             \<or> residue_index r0 = residue_index r1
          then Some (ESP_ERR_INVALID_ARG, reading)
          else
            let m0 = s_moduli ! unat (residue_index r0);
                m1 = s_moduli ! unat (residue_index r1)
            in if m0 \<le> ucast (residue_value r0) \<or> m1 \<le> ucast (residue_value r1)
               then Some (ESP_ERR_INVALID_ARG, reading)
               else
                 (case crt_search (ucast (residue_value r0)) m0 m1 (residue_value r1) of
                    None \<Rightarrow> None
                  | Some (Inr candidate) \<Rightarrow> Some (ESP_OK, Some candidate)
                  | Some (Inl err) \<Rightarrow> Some (err, reading))
      | _ \<Rightarrow> Some (ESP_ERR_INVALID_ARG, reading))"

section \<open>Packing in C\<close>

record sensor_reading_t =
  soil_moisture_raw :: "16 word"
  temperature_centi_c :: "16 word"

definition READING_TEMP_BUCKETS :: "32 word" where
  "READING_TEMP_BUCKETS = 201"

text \<open>
  The temperature is a signed 16-bit number, so the sum fits in \<open>int32_t\<close> and is computed on integers;
  the division truncates towards zero.
\<close>

definition temp_bucket :: "16 word \<Rightarrow> int" where
  "temp_bucket centi =
     (let bucket = (sint centi + 5500) sdiv 100
      in if bucket < 0 then 0
         else if uint READING_TEMP_BUCKETS \<le> bucket then uint (READING_TEMP_BUCKETS - 1)
         else bucket)"

definition encode_sensor_value :: "sensor_reading_t \<Rightarrow> 32 word" where
  "encode_sensor_value reading =
     (let soil = ucast (soil_moisture_raw reading) :: 32 word;
          soil = (if 4095 < soil then 4095 else soil)
      in soil * READING_TEMP_BUCKETS + word_of_int (temp_bucket (temperature_centi_c reading)))"

section \<open>The search ends\<close>

lemma uint_ucast_wide: "LENGTH('a) \<le> LENGTH('b) \<Longrightarrow> uint (ucast (w :: 'a::len word) :: 'b::len word) = uint w"
  by (simp add: unsigned_ucast_eq take_bit_int_eq_self less_le_trans [OF uint_lt2p])

lemma uint_wide [simp]:
  "uint (ucast (x :: 8 word) :: 32 word) = uint x" "uint (ucast (w :: 16 word) :: 32 word) = uint w"
  "uint (ucast (x :: 8 word) :: 16 word) = uint x"
  by (simp_all add: uint_ucast_wide)

lemma crt_search_step:
  assumes "uint c < 1009591"
  shows "crt_search c w0 w1 x1 =
    (if uint c mod uint w1 = uint x1 then Some (Inr c) else crt_search (c + ucast w0) w0 w1 x1)"
proof -
  have "c < CRT_MAX_VALUE"
    using assms by (simp add: word_less_def CRT_MAX_VALUE_def)
  moreover have "c mod ucast w1 = ucast x1 \<longleftrightarrow> uint c mod uint w1 = uint x1"
    by (simp add: word_uint_eq_iff uint_mod)
  ultimately show ?thesis
    by (subst crt_search.simps) simp
qed

lemma uint_next_candidate:
  assumes "uint (c :: 32 word) < 1009591"
  shows "uint (c + ucast (w0 :: 16 word)) = uint c + uint w0"
proof -
  have "uint w0 < 65536"
    using uint_lt2p [of w0] by simp
  then show ?thesis
    using assms by (subst uint_plus_if_size) (simp add: word_size)
qed

lemma crt_search_finds:
  assumes "uint c + int n * uint w0 < 1009591"
    and "(uint c + int n * uint w0) mod uint w1 = uint x1"
    and "\<And>k. k < n \<Longrightarrow> (uint c + int k * uint w0) mod uint w1 \<noteq> uint x1"
  shows "\<exists>r. crt_search c w0 w1 x1 = Some (Inr r) \<and> uint r = uint c + int n * uint w0"
  using assms
proof (induction n arbitrary: c)
  case 0
  then show ?case by (simp add: crt_search_step)
next
  case (Suc n)
  have "0 \<le> int (Suc n) * uint w0" by simp
  with Suc.prems(1) have c: "uint c < 1009591" by linarith
  note nxt = uint_next_candidate [OF c, of w0]
  have miss: "uint c mod uint w1 \<noteq> uint x1"
    using Suc.prems(3) [of 0] by simp
  have sum: "uint c + uint w0 + int k * uint w0 = uint c + int (Suc k) * uint w0" for k
    by (simp add: algebra_simps)
  have "\<exists>r. crt_search (c + ucast w0) w0 w1 x1 = Some (Inr r)
      \<and> uint r = uint (c + ucast w0) + int n * uint w0"
  proof (rule Suc.IH)
    show "uint (c + ucast w0) + int n * uint w0 < 1009591"
      unfolding nxt sum by (rule Suc.prems(1))
    show "(uint (c + ucast w0) + int n * uint w0) mod uint w1 = uint x1"
      unfolding nxt sum by (rule Suc.prems(2))
    show "(uint (c + ucast w0) + int k * uint w0) mod uint w1 \<noteq> uint x1" if "k < n" for k
      unfolding nxt sum using that by (intro Suc.prems(3)) simp
  qed
  then show ?case
    using miss by (simp only: crt_search_step [OF c] nxt sum) simp
qed

text \<open>
  The first candidate below the product of two coprime moduli is the only one there, so the search finds
  the solution that the gateway's decoder computes.
\<close>

lemma crt_search_solution:
  assumes w0: "uint w0 = m0" and w1: "uint w1 = m1" and "uint c = v mod m0" and "uint x1 = v mod m1"
    and v: "0 \<le> v" "v < m0 * m1" "v < 1009591" and cop: "coprime m0 m1" and pos: "0 < m0" "0 < m1"
  shows "\<exists>r. crt_search c w0 w1 x1 = Some (Inr r) \<and> uint r = v"
proof -
  define n where "n = nat (v div m0)"
  have n: "int n = v div m0"
    using v(1) pos by (simp add: n_def pos_imp_zdiv_nonneg_iff)
  have whole: "uint c + int n * uint w0 = v"
    using assms(3) w0 n by (simp add: mult.commute)
  have "\<exists>r. crt_search c w0 w1 x1 = Some (Inr r) \<and> uint r = uint c + int n * uint w0"
  proof (rule crt_search_finds)
    show "(uint c + int k * uint w0) mod uint w1 \<noteq> uint x1" if k: "k < n" for k
    proof
      assume "(uint c + int k * uint w0) mod uint w1 = uint x1"
      then have "m1 dvd v - (uint c + int k * m0)"
        using assms(4) w0 w1 by (metis mod_eq_dvd_iff)
      moreover have d: "v - (uint c + int k * m0) = (int n - int k) * m0"
        using whole w0 by (simp add: algebra_simps)
      ultimately have "m1 dvd int n - int k"
        using cop by (metis coprime_commute coprime_dvd_mult_left_iff)
      then have "m1 \<le> int n - int k"
        using k by (intro zdvd_imp_le) auto
      then have "m1 \<le> v div m0"
        using n by linarith
      have floor: "v div m0 * m0 \<le> v"
        using pos by (simp add: minus_mod_eq_div_mult [symmetric])
      from \<open>m1 \<le> v div m0\<close> have "m1 * m0 \<le> v div m0 * m0"
        using pos by (intro mult_right_mono) auto
      then show False
        using v(2) floor by (simp add: mult.commute)
    qed
  qed (use whole v(3) assms(4) w1 in simp_all)
  then show ?thesis
    unfolding whole .
qed

section \<open>Agreement with the gateway\<close>

lemma modulus_for_index:
  "unat i < 3 \<Longrightarrow> crt_modulus_for_index i = s_moduli ! unat i"
  "unat i < 3 \<Longrightarrow> uint (crt_modulus_for_index i) = MODULI ! unat i"
  "\<not> unat i < 3 \<Longrightarrow> crt_modulus_for_index i = 0"
  by (auto simp: crt_modulus_for_index_def CRT_RESIDUE_COUNT_def s_moduli_def MODULI_def
      less_Suc_eq numeral_3_eq_3)

lemma modulus_in_MODULI [simp]: "uint (crt_modulus_for_index i) \<in> set MODULI \<longleftrightarrow> unat i < 3"
proof (cases "unat i < 3")
  case True
  then have "MODULI ! unat i \<in> set MODULI"
    by (intro nth_mem) (simp add: MODULI_def)
  then show ?thesis
    using True by (simp only: modulus_for_index(2) [OF True])
next
  case False
  then show ?thesis
    by (simp add: modulus_for_index MODULI_def)
qed

lemma modulus_inj:
  "unat i < 3 \<Longrightarrow> unat j < 3 \<Longrightarrow>
     crt_modulus_for_index i = crt_modulus_for_index j \<longleftrightarrow> i = j"
proof -
  assume i: "unat i < 3" and j: "unat j < 3"
  have "distinct s_moduli" "length s_moduli = 3"
    by (simp_all add: s_moduli_def)
  then have "s_moduli ! unat i = s_moduli ! unat j \<longleftrightarrow> unat i = unat j"
    using i j by (simp add: nth_eq_iff_index_eq)
  then show ?thesis
    using i j by (simp only: modulus_for_index(1) word_unat_eq_iff)
qed

text \<open>The residue as the gateway would be given it.\<close>

definition residue_pair :: "crt_residue_t \<Rightarrow> pyval" where
  "residue_pair r = VTuple [VInt (uint (crt_modulus_for_index (residue_index r))), VInt (uint (residue_value r))]"

definition valid_residue :: "crt_residue_t \<Rightarrow> bool" where
  "valid_residue r \<longleftrightarrow> unat (residue_index r) < 3
     \<and> uint (residue_value r) < uint (crt_modulus_for_index (residue_index r))"

lemma decode_pair:
  "decode (ResSequence [residue_pair r0, residue_pair r1]) =
     decode_ints [(uint (crt_modulus_for_index (residue_index r0)), uint (residue_value r0)),
       (uint (crt_modulus_for_index (residue_index r1)), uint (residue_value r1))]"
  if "valid_residue r0" "valid_residue r1" "residue_index r0 \<noteq> residue_index r1"
proof -
  have "normalise_residues (ResSequence [residue_pair r0, residue_pair r1]) =
    Inr [(uint (crt_modulus_for_index (residue_index r0)), uint (residue_value r0)),
       (uint (crt_modulus_for_index (residue_index r1)), uint (residue_value r1))]"
    using that
    by (simp add: normalise_residues_def residue_pair_def valid_residue_def modulus_inj not_le
        flip: word_uint_eq_iff)
  then show ?thesis
    by (simp add: decode_normalised)
qed

lemma decode_bad_pair:
  assumes "\<not> (valid_residue r0 \<and> valid_residue r1 \<and> residue_index r0 \<noteq> residue_index r1)"
  shows "\<exists>e. decode (ResSequence [residue_pair r0, residue_pair r1]) = Inl e"
  using assms
  by (auto simp: decode_def normalise_residues_def residue_pair_def valid_residue_def not_less not_le Let_def)

lemma crt_decode_valid:
  assumes "valid_residue r0" "valid_residue r1" "residue_index r0 \<noteq> residue_index r1"
  shows "crt_decode (Some (r0, r1)) (Some old) =
    (case crt_search (ucast (residue_value r0)) (crt_modulus_for_index (residue_index r0))
        (crt_modulus_for_index (residue_index r1)) (residue_value r1) of
       None \<Rightarrow> None
     | Some (Inr candidate) \<Rightarrow> Some (ESP_OK, Some candidate)
     | Some (Inl err) \<Rightarrow> Some (err, Some old))"
  using assms
  by (simp add: crt_decode_def valid_residue_def CRT_RESIDUE_COUNT_def Let_def word_le_def
      modulus_for_index(1) [symmetric])

lemma crt_decode_invalid:
  assumes "\<not> (valid_residue r0 \<and> valid_residue r1 \<and> residue_index r0 \<noteq> residue_index r1)"
  shows "crt_decode (Some (r0, r1)) (Some old) = Some (ESP_ERR_INVALID_ARG, Some old)"
  using assms
  by (auto simp: crt_decode_def valid_residue_def CRT_RESIDUE_COUNT_def Let_def word_le_def
      modulus_for_index(1) [symmetric])

lemma search_solves_pair:
  assumes "valid_residue r0" "valid_residue r1" "residue_index r0 \<noteq> residue_index r1"
  shows "\<exists>r. crt_search (ucast (residue_value r0)) (crt_modulus_for_index (residue_index r0))
        (crt_modulus_for_index (residue_index r1)) (residue_value r1) = Some (Inr r)
     \<and> decode (ResSequence [residue_pair r0, residue_pair r1]) = Inr (uint r)"
proof -
  let ?m0 = "uint (crt_modulus_for_index (residue_index r0))"
  let ?m1 = "uint (crt_modulus_for_index (residue_index r1))"
  let ?d = "[(?m0, uint (residue_value r0)), (?m1, uint (residue_value r1))]"
  have mem: "?m0 \<in> set MODULI" "?m1 \<in> set MODULI"
    using assms by (simp_all add: valid_residue_def)
  have ne: "?m0 \<noteq> ?m1"
    using assms by (simp add: valid_residue_def modulus_inj flip: word_uint_eq_iff)
  have "residues_ok MODULI ?d"
    using assms mem ne by (simp add: residues_ok_def valid_residue_def)
  then obtain v where v: "decode_ints ?d = Inr v" "0 \<le> v" "v < ?m0 * ?m1"
    "v mod ?m0 = uint (residue_value r0)" "v mod ?m1 = uint (residue_value r1)"
    using decode_ints_solves [of ?d] by auto
  have "?m0 * ?m1 \<le> MAX_VALUE"
    using prod_le_MAX [of "[?m0, ?m1]"] mem ne by simp
  then have small: "v < 1009591"
    using v(3) by (simp add: MAX_VALUE_def)
  have "\<exists>r. crt_search (ucast (residue_value r0)) (crt_modulus_for_index (residue_index r0))
        (crt_modulus_for_index (residue_index r1)) (residue_value r1) = Some (Inr r) \<and> uint r = v"
    using crt_moduli.moduli_coprime [OF mem ne] crt_moduli.moduli_gt_1 [OF mem(1)]
      crt_moduli.moduli_gt_1 [OF mem(2)] v small
    by (intro crt_search_solution [OF refl refl]) simp_all
  then show ?thesis
    using v(1) decode_pair [OF assms] by auto
qed

lemma encode_sensor_value_packed:
  "uint (encode_sensor_value r) = encode_packed (uint (soil_moisture_raw r)) (sint (temperature_centi_c r))"
proof -
  let ?s = "uint (soil_moisture_raw r)" and ?t = "sint (temperature_centi_c r) + 5500"
  let ?soil = "if 4095 < (ucast (soil_moisture_raw r) :: 32 word) then 4095 else ucast (soil_moisture_raw r) :: 32 word"
  have soil: "uint ?soil = clip ?s 0 4095"
    by (simp add: clip_def word_less_def)
  have bucket: "temp_bucket (temperature_centi_c r) = clip (?t div 100) 0 200"
  proof (cases "?t < 0")
    case True
    then have "?t sdiv 100 \<le> 0" "?t div 100 < 0"
      by (auto simp: signed_divide_int_def sgn_if)
    then show ?thesis
      by (auto simp: temp_bucket_def clip_def READING_TEMP_BUCKETS_def Let_def)
  next
    case False
    then have "?t sdiv 100 = ?t div 100"
      by (simp add: signed_divide_int_def sgn_if)
    then show ?thesis
      using False by (auto simp: temp_bucket_def clip_def READING_TEMP_BUCKETS_def Let_def)
  qed
  have range: "0 \<le> clip ?s 0 4095" "clip ?s 0 4095 \<le> 4095" "0 \<le> clip (?t div 100) 0 200"
    "clip (?t div 100) 0 200 \<le> 200"
    by (simp_all add: clip_def)
  have "uint (?soil * READING_TEMP_BUCKETS) = clip ?s 0 4095 * 201"
    using range by (subst uint_mult_lem [THEN iffD1]) (simp_all only: soil, simp_all add: READING_TEMP_BUCKETS_def)
  moreover have "uint (word_of_int (clip (?t div 100) 0 200) :: 32 word) = clip (?t div 100) 0 200"
    using range by (simp add: word_of_int_inverse)
  ultimately show ?thesis
    using range unfolding encode_sensor_value_def encode_packed_def Let_def bucket TEMP_BUCKETS_def
    by (subst uint_plus_if_size) (simp add: word_size)
qed

lemma decoder_agreement:
  "crt_decode (Some (r0, r1)) (Some old) = Some
     (case decode (ResSequence [residue_pair r0, residue_pair r1]) of
        Inl e \<Rightarrow> (ESP_ERR_INVALID_ARG, Some old)
      | Inr v \<Rightarrow> (ESP_OK, Some (word_of_int v)))"
proof (cases "valid_residue r0 \<and> valid_residue r1 \<and> residue_index r0 \<noteq> residue_index r1")
  case True
  then show ?thesis
    using search_solves_pair [of r0 r1] by (auto simp: crt_decode_valid)
next
  case False
  then show ?thesis
    using decode_bad_pair [OF False] crt_decode_invalid [OF False] by auto
qed

text \<open>
  C4. The decoder of the firmware and that of the gateway are the same function of two residues. On every pair
  of residues the C search ends, and returns the number the gateway's Chinese Remainder computation
  returns; it fails exactly when the gateway's decoder raises, always with \<open>ESP_ERR_INVALID_ARG\<close> and
  leaving the result untouched, so its \<open>ESP_ERR_NOT_FOUND\<close> is never returned.
\<close>

theorem firmware_decoder_agrees:
  "crt_decode (Some (r0, r1)) (Some old) = Some
     (case decode (ResSequence [residue_pair r0, residue_pair r1]) of
        Inl e \<Rightarrow> (ESP_ERR_INVALID_ARG, Some old)
      | Inr v \<Rightarrow> (ESP_OK, Some (word_of_int v)))"
  by (rule decoder_agreement)

text \<open>
  C5. What the firmware sends is what the gateway and the analysis take it to send. For every sensor reading
  the packed value is the one of the analysis (truncation and rounding down differ only below the range
  that is clipped), encoding it never fails, and the three residues are those of the gateway's encoder.
\<close>

theorem firmware_encoding_agrees:
  "uint (encode_sensor_value r) = encode_packed (uint (soil_moisture_raw r)) (sint (temperature_centi_c r))
   \<and> (\<exists>out d. crt_encode (encode_sensor_value r) (Some rs) = (ESP_OK, Some out)
        \<and> encode (VInt (encode_packed (uint (soil_moisture_raw r)) (sint (temperature_centi_c r)))) = Inr d
        \<and> map (\<lambda>x. uint (residue_index x)) out = [0, 1, 2]
        \<and> map (\<lambda>x. (uint (crt_modulus_for_index (residue_index x)), uint (residue_value x))) out = d)"
proof -
  let ?p = "encode_packed (uint (soil_moisture_raw r)) (sint (temperature_centi_c r))"
  have p: "0 \<le> ?p" "?p \<le> 823295"
    using encode_packed_range by auto
  have small: "uint (ucast (encode_sensor_value r mod w) :: 8 word) = ?p mod uint w"
    if "w \<in> {97, 101, 103}" for w :: "32 word"
    using that by (auto simp: unsigned_ucast_eq uint_mod encode_sensor_value_packed take_bit_int_eq_self
        intro: less_trans [OF pos_mod_bound])
  have "\<not> CRT_MAX_VALUE \<le> encode_sensor_value r"
    using p by (simp add: word_le_def encode_sensor_value_packed CRT_MAX_VALUE_def)
  then show ?thesis
    using p by (simp add: encode_sensor_value_packed crt_encode_def CRT_RESIDUE_COUNT_def upt_conv_Cons
        encoded_residue_def s_moduli_def small encode_int_def MAX_VALUE_def MODULI_def
        crt_modulus_for_index_def)
qed

text \<open>The range check admits values that the moduli cannot tell apart: 1009091 is sent as 0.\<close>

lemma crt_encode_aliases: "crt_encode 1009091 (Some rs) = crt_encode 0 (Some rs')"
  by (simp add: crt_encode_def CRT_MAX_VALUE_def CRT_RESIDUE_COUNT_def upt_conv_Cons encoded_residue_def s_moduli_def)

text \<open>The pair of residues of 500000 that the firmware's test uses does not decode to 500000.\<close>

lemma test_pair_not_restored:
  "crt_decode (Some (encoded_residue 500000 0, encoded_residue 500000 1)) (Some old) = Some (ESP_OK, Some 353)"
proof -
  have pairs: "residue_pair (encoded_residue 500000 0) = VTuple [VInt 97, VInt 62]"
    "residue_pair (encoded_residue 500000 1) = VTuple [VInt 101, VInt 50]"
    by (simp_all add: residue_pair_def encoded_residue_def s_moduli_def crt_modulus_for_index_def
        CRT_RESIDUE_COUNT_def)
  have "decode (ResSequence [VTuple [VInt 97, VInt 62], VTuple [VInt 101, VInt 50]]) = Inr 353"
    by code_simp
  then show ?thesis
    by (simp only: decoder_agreement pairs) simp
qed

end
