(* ===== verification/Hrbac_Ledger.thy ===== *)
theory Hrbac_Ledger
  imports Py_Text
begin

text \<open>
  The ground the chaincode stands on (\<open>chaincode/hrbac\<close>: \<open>roles.go\<close>, \<open>zones.go\<close>, \<open>temporal.go\<close>, \<open>nonces.go\<close>,
  \<open>audit.go\<close> and the helpers at the end of \<open>contract.go\<close>): role tables, zones, the ledger and its
  transactions, nonces and the audit log.

  \<^item> The ledger is a dictionary from keys to values. What Go marshals to JSON and back is kept as the
    value it came from, one constructor per type; reading a key that holds another type is the
    \<open>Unmarshal\<close> error.
  \<^item> A transaction runs against the committed ledger and collects writes. An error discards them, as the
    peer does. \<open>reads_own_writes\<close> says whether \<open>GetState\<close> sees writes of the same transaction: Fabric's
    documentation says no, the mock of \<open>contract_test.go\<close> says yes, and the theorems hold either way
    unless they say otherwise.
  \<^item> \<open>tx_env\<close> holds what the transaction gets from outside: its id and time, the faults of the stub, and
    functions of Go's library the contract only uses (RFC 3339 parsing, SHA-256, JSON validation). A Go map is
    iterated in an unspecified order, so the order is a parameter too.
  \<^item> Times are nanoseconds since the epoch; \<open>unix\<close> is \<open>Time.Unix\<close>. Errors are their messages.
\<close>

section \<open>Go strings\<close>

definition go_space :: "char \<Rightarrow> bool" where
  "go_space c \<longleftrightarrow> (of_char c :: nat) \<in> {9, 10, 11, 12, 13, 32, 133, 160}"

definition TrimSpace :: "string \<Rightarrow> string" where
  "TrimSpace s = strip_by go_space s"

definition hex_digit :: "nat \<Rightarrow> char" where
  "hex_digit n = (if n < 10 then char_of (48 + n) else char_of (87 + n))"

text \<open>\<open>strconv.Quote\<close>, the verb \<open>%q\<close>.\<close>

definition quote_char :: "char \<Rightarrow> string" where
  "quote_char c =
     (let n = (of_char c :: nat)
      in if n = 34 \<or> n = 92 then [CHR 0x5C, c]
         else if n = 7 then [CHR 0x5C, CHR ''a''] else if n = 8 then [CHR 0x5C, CHR ''b'']
         else if n = 12 then [CHR 0x5C, CHR ''f''] else if n = 10 then [CHR 0x5C, CHR ''n'']
         else if n = 13 then [CHR 0x5C, CHR ''r''] else if n = 9 then [CHR 0x5C, CHR ''t'']
         else if n = 11 then [CHR 0x5C, CHR ''v'']
         else if n < 32 \<or> n = 127 then [CHR 0x5C, CHR ''x'', hex_digit (n div 16), hex_digit (n mod 16)]
         else if 128 \<le> n \<and> n \<le> 160 \<or> n = 173 then [CHR 0x5C, CHR ''u'', CHR ''0'', CHR ''0'', hex_digit (n div 16), hex_digit (n mod 16)]
         else [c])"

definition quoted :: "string \<Rightarrow> string" where
  "quoted s = [CHR 0x22] @ concat (map quote_char s) @ [CHR 0x22]"

section \<open>Roles and permissions\<close>

definition rolePermissions :: "(string, string list) dict" where
  "rolePermissions =
     [(''SupplyChain'', [''ReadOwn'']), (''Certifier'', [''ReadZone'', ''ReadAudit'']),
      (''Agronomist'', [''ControlZone'', ''IssueCrossZone'']), (''Farmer'', [''WriteSensor'']),
      (''Sensor'', [''WriteSensor'']), (''Gateway'', [''ReadZone'', ''ControlZone'']),
      (''Admin'', [''ReadAll'', ''ControlAll'', ''ManageRoles'', ''AdminAll''])]"

definition roleAncestors :: "(string, string list) dict" where
  "roleAncestors =
     [(''SupplyChain'', [''SupplyChain'']), (''Certifier'', [''Certifier'', ''SupplyChain'']),
      (''Agronomist'', [''Agronomist'', ''Certifier'', ''SupplyChain'']),
      (''Farmer'', [''Farmer'', ''Agronomist'', ''Certifier'', ''SupplyChain'']), (''Sensor'', [''Sensor'']),
      (''Gateway'', [''Gateway'', ''Sensor'']),
      (''Admin'', [''Admin'', ''Farmer'', ''Agronomist'', ''Certifier'', ''SupplyChain'', ''Gateway'', ''Sensor''])]"

definition validRoles :: "string list" where
  "validRoles = [''Admin'', ''Gateway'', ''Farmer'', ''Agronomist'', ''Certifier'', ''SupplyChain'', ''Sensor'']"

text \<open>The two loops of \<open>GetEffectivePermissions\<close>: permissions not seen before are appended.\<close>

definition add_permissions :: "string list \<Rightarrow> string list \<Rightarrow> string list" where
  "add_permissions ps permissions =
     foldl (\<lambda>acc p. if p \<in> set acc then acc else acc @ [p]) permissions ps"

definition GetEffectivePermissions :: "string \<Rightarrow> string list" where
  "GetEffectivePermissions r =
     (case dict_get roleAncestors r of
        None \<Rightarrow> []
      | Some ancestors \<Rightarrow>
          foldl (\<lambda>acc rl. add_permissions (case dict_get rolePermissions rl of None \<Rightarrow> [] | Some ps \<Rightarrow> ps) acc)
            [] ancestors)"

definition IsRoleValid :: "string \<Rightarrow> bool" where
  "IsRoleValid r \<longleftrightarrow> r \<in> set validRoles"

fun grants_any :: "string list \<Rightarrow> string \<Rightarrow> bool" where
  "grants_any [] perm = False"
| "grants_any (p # ps) perm = (if p = perm \<or> p = ''AdminAll'' then True else grants_any ps perm)"

definition hasPermission :: "string \<Rightarrow> string \<Rightarrow> bool" where
  "hasPermission r perm = (if perm = [] then False else grants_any (GetEffectivePermissions r) perm)"

definition needsZoneCheck :: "string \<Rightarrow> bool" where
  "needsZoneCheck perm \<longleftrightarrow> perm = ''ReadZone'' \<or> perm = ''WriteSensor'' \<or> perm = ''ControlZone''"

section \<open>Zones\<close>

definition validZones :: "string list" where
  "validZones = [''North'', ''South'', ''East'', ''West'']"

definition IsZoneValid :: "string \<Rightarrow> bool" where
  "IsZoneValid zone \<longleftrightarrow> TrimSpace zone \<in> set validZones"

text \<open>The keys of the map that \<open>parseZones\<close> returns.\<close>

definition parseZones :: "string list \<Rightarrow> string list" where
  "parseZones values =
     remdups (filter (\<lambda>z. z \<noteq> []) (map TrimSpace (concat (map (split_on CHR '','') values))))"

section \<open>Values and environment\<close>

record role_assignment =
  ra_subject :: string
  ra_role :: string
  ra_zones :: "string list"
  ra_issued_by :: string
  ra_issued_at :: int
  ra_expires_at :: int

record cross_zone_token =
  ct_token_id :: string
  ct_subject :: string
  ct_source_zone :: string
  ct_target_zones :: "string list"
  ct_issued_by :: string
  ct_issued_at :: int
  ct_expires_at :: int
  ct_nonce :: string

record nonce_record =
  nr_subject :: string
  nr_value :: string
  nr_tx :: string
  nr_timestamp :: int

record audit_entry =
  ae_tx :: string
  ae_actor :: string
  ae_action :: string
  ae_resource :: string
  ae_decision :: string
  ae_reason :: string
  ae_timestamp :: int

datatype ledger_value =
    RoleVal role_assignment
  | TokenVal cross_zone_token
  | NonceVal nonce_record
  | AuditVal audit_entry
  | IndexVal "string list"
  | RawVal string

type_synonym ledger = "(string, ledger_value) dict"
type_synonym writes = "(string \<times> ledger_value option) list"

record certificate =
  common_name :: string
  organizational_unit :: "string list"
  locality :: "string list"
  extensions :: "string list"
  serial_number :: "int option"

record tx_env =
  tx_id :: string
  tx_time :: int
  time_fault :: "string option"
  read_fault :: "string \<Rightarrow> string option"
  write_fault :: "string \<Rightarrow> string option"
  reads_own_writes :: bool
  parse_rfc3339 :: "string \<Rightarrow> string + int"
  time_string :: "int \<Rightarrow> string"
  sha256_hex :: "string \<Rightarrow> string"
  json_error :: "string \<Rightarrow> string option"
  json_wrapper :: "string \<Rightarrow> (string, string) dict option"
  json_direct :: "string \<Rightarrow> (string, string) dict option"
  map_order :: "string list \<Rightarrow> string list"
  stub_attributes :: "(string \<Rightarrow> string + string option) option"
  stub_creator :: "(string + certificate) option"

section \<open>Transactions\<close>

type_synonym 'a tx = "tx_env \<Rightarrow> ledger \<Rightarrow> writes \<Rightarrow> string + 'a \<times> writes"

definition ret :: "'a \<Rightarrow> 'a tx" where
  "ret x env ledger ws = Inr (x, ws)"

definition err :: "string \<Rightarrow> 'a tx" where
  "err msg env ledger ws = Inl msg"

definition bind_tx :: "'a tx \<Rightarrow> ('a \<Rightarrow> 'b tx) \<Rightarrow> 'b tx" where
  "bind_tx act k env ledger ws =
     (case act env ledger ws of Inl e \<Rightarrow> Inl e | Inr (x, ws') \<Rightarrow> k x env ledger ws')"

text \<open>The error of a call as a value; a failed call has no writes.\<close>

definition attempt :: "'a tx \<Rightarrow> (string + 'a) tx" where
  "attempt act env ledger ws =
     (case act env ledger ws of Inl e \<Rightarrow> Inr (Inl e, ws) | Inr (x, ws') \<Rightarrow> Inr (Inr x, ws'))"

definition wrap :: "string \<Rightarrow> 'a tx \<Rightarrow> 'a tx" where
  "wrap context act env ledger ws =
     (case act env ledger ws of Inl e \<Rightarrow> Inl (context @ '': '' @ e) | Inr r \<Rightarrow> Inr r)"

definition env_of :: "(tx_env \<Rightarrow> 'a) \<Rightarrow> 'a tx" where
  "env_of f env ledger ws = Inr (f env, ws)"

definition view :: "tx_env \<Rightarrow> ledger \<Rightarrow> writes \<Rightarrow> string \<Rightarrow> ledger_value option" where
  "view env ledger ws key =
     (if reads_own_writes env
      then (case map_of ws key of Some v \<Rightarrow> v | None \<Rightarrow> dict_get ledger key)
      else dict_get ledger key)"

definition GetState :: "string \<Rightarrow> ledger_value option tx" where
  "GetState key env ledger ws =
     (case read_fault env key of Some e \<Rightarrow> Inl e | None \<Rightarrow> Inr (view env ledger ws key, ws))"

definition PutState :: "string \<Rightarrow> ledger_value \<Rightarrow> unit tx" where
  "PutState key v env ledger ws =
     (case write_fault env key of Some e \<Rightarrow> Inl e | None \<Rightarrow> Inr ((), (key, Some v) # ws))"

definition deleteState :: "string \<Rightarrow> unit tx" where
  "deleteState key env ledger ws =
     (case write_fault env key of Some e \<Rightarrow> Inl e | None \<Rightarrow> Inr ((), (key, None) # ws))"

definition txTime :: "int tx" where
  "txTime env ledger ws =
     (case time_fault env of
        Some e \<Rightarrow> Inl (''failed to read transaction timestamp: '' @ e)
      | None \<Rightarrow> Inr (tx_time env, ws))"

definition unix :: "int \<Rightarrow> int" where
  "unix t = t div 1000000000"

text \<open>Committing a write set, latest write first, and submitting a transaction.\<close>

fun apply_write :: "string \<times> ledger_value option \<Rightarrow> ledger \<Rightarrow> ledger" where
  "apply_write (key, Some v) ledger = dict_set key v ledger"
| "apply_write (key, None) ledger = dict_pop key ledger"

definition commit :: "writes \<Rightarrow> ledger \<Rightarrow> ledger" where
  "commit ws ledger = foldr apply_write ws ledger"

definition submit :: "tx_env \<Rightarrow> 'a tx \<Rightarrow> ledger \<Rightarrow> (string + 'a) \<times> ledger" where
  "submit env act ledger =
     (case act env ledger [] of
        Inl e \<Rightarrow> (Inl e, ledger)
      | Inr (x, ws) \<Rightarrow> (Inr x, commit ws ledger))"

section \<open>Indexes, audit log and nonces\<close>

definition auditIndexKey :: string where
  "auditIndexKey = ''audit:index''"

definition nonceIndexKey :: string where
  "nonceIndexKey = ''nonce:index''"

definition getStringIndex :: "string \<Rightarrow> string list tx" where
  "getStringIndex key =
     bind_tx (wrap (''failed to read index '' @ key) (GetState key)) (\<lambda>payload.
       case payload of
         None \<Rightarrow> ret []
       | Some (IndexVal values) \<Rightarrow> ret values
       | Some _ \<Rightarrow> err (''failed to unmarshal index '' @ key))"

definition putStringIndex :: "string \<Rightarrow> string list \<Rightarrow> unit tx" where
  "putStringIndex key values = wrap (''failed to write index '' @ key) (PutState key (IndexVal values))"

definition auditKeyWithSequence :: "string \<Rightarrow> nat \<Rightarrow> string" where
  "auditKeyWithSequence tx sequence =
     (if sequence = 0 then ''audit:'' @ tx else ''audit:'' @ tx @ '':'' @ nat_str sequence)"

lemma auditKeyWithSequence_inj: "auditKeyWithSequence tx i = auditKeyWithSequence tx j \<Longrightarrow> i = j"
proof -
  assume eq: "auditKeyWithSequence tx i = auditKeyWithSequence tx j"
  have "int_str (int i) = nat_str i" for i
    by (simp add: int_str_def)
  then have inj: "nat_str i = nat_str j \<Longrightarrow> i = j"
    by (metis int_str_inject of_nat_eq_iff)
  show "i = j"
    using eq inj by (auto simp: auditKeyWithSequence_def split: if_splits)
qed

text \<open>
  The search for a free key. It ends because the keys tried are distinct and only finitely many are
  present.
\<close>

definition taken_from :: "ledger \<Rightarrow> writes \<Rightarrow> string \<Rightarrow> nat \<Rightarrow> string set" where
  "taken_from ledger ws tx n =
     {k \<in> fst ` set ledger \<union> fst ` set ws. \<exists>i \<ge> n. k = auditKeyWithSequence tx i}"

lemma view_taken: "view env ledger ws key = Some v \<Longrightarrow> key \<in> fst ` set ledger \<union> fst ` set ws"
  by (auto simp: view_def split: if_splits option.splits dest!: map_of_SomeD intro: rev_image_eqI)

lemma taken_from_less:
  assumes "view env ledger ws (auditKeyWithSequence tx n) = Some v"
  shows "card (taken_from ledger ws tx (Suc n)) < card (taken_from ledger ws tx n)"
proof (rule psubset_card_mono)
  show "finite (taken_from ledger ws tx n)"
    by (simp add: taken_from_def)
  have "auditKeyWithSequence tx n \<in> taken_from ledger ws tx n"
    using view_taken [OF assms] by (auto simp: taken_from_def)
  moreover have "auditKeyWithSequence tx n \<notin> taken_from ledger ws tx (Suc n)"
    using auditKeyWithSequence_inj [of tx n] by (auto simp: taken_from_def)
  moreover have "taken_from ledger ws tx (Suc n) \<subseteq> taken_from ledger ws tx n"
    unfolding taken_from_def using Suc_leD by blast
  ultimately show "taken_from ledger ws tx (Suc n) \<subset> taken_from ledger ws tx n"
    by blast
qed

function audit_slot :: "nat \<Rightarrow> string tx" where
  "audit_slot sequence env ledger ws =
     (case GetState (auditKeyWithSequence (tx_id env) sequence) env ledger ws of
        Inl e \<Rightarrow> Inl (''failed to check audit entry key: '' @ e)
      | Inr (None, _) \<Rightarrow> Inr (auditKeyWithSequence (tx_id env) sequence, ws)
      | Inr (Some _, _) \<Rightarrow> audit_slot (Suc sequence) env ledger ws)"
  by pat_completeness auto
termination
  by (relation "measure (\<lambda>(n, env, ledger, ws). card (taken_from ledger ws (tx_id env) n))")
     (auto simp: GetState_def intro: taken_from_less split: option.splits)

declare audit_slot.simps [simp del]

definition writeAuditEntry :: "string \<Rightarrow> string \<Rightarrow> string \<Rightarrow> string \<Rightarrow> string \<Rightarrow> string tx" where
  "writeAuditEntry actor action resource decision reason =
     bind_tx txTime (\<lambda>now.
     bind_tx (env_of tx_id) (\<lambda>tx.
     bind_tx (getStringIndex auditIndexKey) (\<lambda>keys.
     bind_tx (audit_slot 0) (\<lambda>key.
     bind_tx (wrap ''failed to write audit entry'' (PutState key
        (AuditVal \<lparr>ae_tx = tx, ae_actor = actor, ae_action = action, ae_resource = resource,
           ae_decision = decision, ae_reason = reason, ae_timestamp = unix now\<rparr>))) (\<lambda>_.
     bind_tx (putStringIndex auditIndexKey (keys @ [key])) (\<lambda>_.
       ret key))))))"

definition nonceKey :: "string \<Rightarrow> string \<Rightarrow> string" where
  "nonceKey subject nonce = ''nonce:'' @ subject @ '':'' @ nonce"

definition validateNonce :: "string \<Rightarrow> string \<Rightarrow> unit tx" where
  "validateNonce subject nonce =
     (if subject = [] then err ''subject id is required''
      else if nonce = [] then err ''nonce is required''
      else bind_tx (wrap ''failed to read nonce'' (GetState (nonceKey subject nonce))) (\<lambda>existing.
        if existing \<noteq> None then err (''replay detected for nonce '' @ quoted nonce)
        else bind_tx txTime (\<lambda>now.
             bind_tx (env_of tx_id) (\<lambda>tx.
             bind_tx (wrap ''failed to write nonce'' (PutState (nonceKey subject nonce)
                (NonceVal \<lparr>nr_subject = subject, nr_value = nonce, nr_tx = tx, nr_timestamp = unix now\<rparr>))) (\<lambda>_.
             bind_tx (getStringIndex nonceIndexKey) (\<lambda>keys.
               putStringIndex nonceIndexKey (keys @ [nonceKey subject nonce])))))))"

end
