(* ===== verification/Hrbac_Contract.thy ===== *)
theory Hrbac_Contract
  imports Hrbac_Ledger
begin

text \<open>
  The transactions of \<open>chaincode/hrbac/contract.go\<close>, one definition each, over the ledger of
  \<open>Hrbac_Ledger\<close>, with the caller's identity read from the stub's attributes or from the certificate.
  X.509 and PEM decoding are not modelled: \<open>stub_creator\<close> gives the decoded certificate or the error.
  \<open>call\<close> and \<open>execute\<close> collect the transactions, and \<open>ledger_step\<close> is one submitted transaction.
\<close>

section \<open>The caller\<close>

record caller_identity =
  caller_id :: string
  caller_role :: string
  caller_zone :: string
  caller_serial :: string

text \<open>\<open>strings.SplitN(part, "=", 2)\<close>, if there is an equals sign.\<close>

fun split_pair :: "string \<Rightarrow> (string \<times> string) option" where
  "split_pair [] = None"
| "split_pair (c # cs) =
     (if c = CHR ''='' then Some ([], cs) else map_option (\<lambda>(k, v). (c # k, v)) (split_pair cs))"

definition attribute_parts :: "string \<Rightarrow> string list" where
  "attribute_parts raw =
     filter (\<lambda>part. part \<noteq> [])
       (split_on CHR '';'' (map (\<lambda>c. if c = CHR '','' \<or> c = CHR 0x0A then CHR '';'' else c) raw))"

definition set_all :: "('k, 'v) dict \<Rightarrow> ('k, 'v) dict \<Rightarrow> ('k, 'v) dict" where
  "set_all pairs attrs = foldl (\<lambda>d (k, v). dict_set k v d) attrs pairs"

definition extension_attributes :: "tx_env \<Rightarrow> (string, string) dict \<Rightarrow> string \<Rightarrow> (string, string) dict" where
  "extension_attributes env attrs ext_value =
     (let raw = TrimSpace ext_value
      in if raw = [] then attrs
         else
           let attrs = (case json_wrapper env raw of None \<Rightarrow> attrs | Some d \<Rightarrow> set_all d attrs);
               attrs = (case json_direct env raw of None \<Rightarrow> attrs | Some d \<Rightarrow> set_all d attrs)
           in foldl (\<lambda>d part. case split_pair part of
                  None \<Rightarrow> d
                | Some (k, v) \<Rightarrow> dict_set (TrimSpace k) (TrimSpace v) d) attrs (attribute_parts raw))"

definition certAttributeMap :: "tx_env \<Rightarrow> certificate \<Rightarrow> (string, string) dict" where
  "certAttributeMap env cert = foldl (extension_attributes env) [] (extensions cert)"

definition attr_or_empty :: "(string, string) dict \<Rightarrow> string \<Rightarrow> string" where
  "attr_or_empty attrs k = (case dict_get attrs k of None \<Rightarrow> [] | Some v \<Rightarrow> v)"

definition roleFromCertificate :: "tx_env \<Rightarrow> certificate \<Rightarrow> string" where
  "roleFromCertificate env cert =
     (let r = attr_or_empty (certAttributeMap env cert) ''role''
      in if r \<noteq> [] then r
         else case List.find IsRoleValid (organizational_unit cert) of None \<Rightarrow> [] | Some ou \<Rightarrow> ou)"

definition zoneFromCertificate :: "tx_env \<Rightarrow> certificate \<Rightarrow> string" where
  "zoneFromCertificate env cert =
     (let z = attr_or_empty (certAttributeMap env cert) ''zone''
      in if z \<noteq> [] then z else case locality cert of [] \<Rightarrow> [] | l # _ \<Rightarrow> l)"

fun hex_str :: "nat \<Rightarrow> string" where
  "hex_str n = (if n < 16 then [hex_digit n] else hex_str (n div 16) @ [hex_digit (n mod 16)])"

definition serialHex :: "int option \<Rightarrow> string" where
  "serialHex serial =
     (case serial of
        None \<Rightarrow> []
      | Some n \<Rightarrow> if n = 0 then ''0'' else (if n < 0 then ''-'' else []) @ hex_str (nat \<bar>n\<bar>))"

text \<open>One attribute of the stub: empty when the stub has no attributes or not this one.\<close>

definition read_attribute :: "tx_env \<Rightarrow> string \<Rightarrow> string \<Rightarrow> string + string" where
  "read_attribute env name what =
     (case stub_attributes env of
        None \<Rightarrow> Inr []
      | Some get \<Rightarrow>
          (case get name of
             Inl e \<Rightarrow> Inl (''failed to read caller '' @ what @ '' attribute: '' @ e)
           | Inr None \<Rightarrow> Inr []
           | Inr (Some v) \<Rightarrow> Inr (TrimSpace v)))"

definition caller_of :: "tx_env \<Rightarrow> string + caller_identity" where
  "caller_of env =
     bind_result (read_attribute env ''hf.EnrollmentID'' ''id'') (\<lambda>ident.
     bind_result (read_attribute env ''role'' ''role'') (\<lambda>rl.
     bind_result (read_attribute env ''zone'' ''zone'') (\<lambda>zone.
     bind_result
       (case stub_creator env of
          None \<Rightarrow> Inr \<lparr>caller_id = ident, caller_role = rl, caller_zone = zone, caller_serial = []\<rparr>
        | Some creator \<Rightarrow>
            bind_result creator (\<lambda>cert. Inr
              \<lparr>caller_id = (if ident = [] then common_name cert else ident),
               caller_role = (if rl = [] then roleFromCertificate env cert else rl),
               caller_zone = (if zone = [] then zoneFromCertificate env cert else zone),
               caller_serial = serialHex (serial_number cert)\<rparr>)) (\<lambda>caller.
       if caller_id caller = [] then Inl ''caller id is required''
       else if caller_role caller \<noteq> [] \<and> \<not> IsRoleValid (caller_role caller)
       then Inl (''invalid caller role '' @ quoted (caller_role caller))
       else Inr caller))))"

definition getCallerIdentity :: "caller_identity tx" where
  "getCallerIdentity env ledger ws =
     (case caller_of env of Inl e \<Rightarrow> Inl e | Inr caller \<Rightarrow> Inr (caller, ws))"

section \<open>Zones, times and assignments\<close>

text \<open>The loop of \<open>normalizeZones\<close> over the keys of the map, in the order of the iteration.\<close>

fun normalize_loop :: "string list \<Rightarrow> string list \<Rightarrow> string list \<Rightarrow> string + string list" where
  "normalize_loop [] seen zones = Inr zones"
| "normalize_loop (zone # rest) seen zones =
     (if zone = ''*'' then normalize_loop rest seen (zones @ [zone])
      else if \<not> IsZoneValid zone then Inl (''invalid zone '' @ quoted zone)
      else if zone \<in> set seen then normalize_loop rest seen zones
      else normalize_loop rest (zone # seen) (zones @ [zone]))"

definition normalizeZones :: "string \<Rightarrow> bool \<Rightarrow> string list tx" where
  "normalizeZones zonesCSV required env ledger ws =
     (case normalize_loop (map_order env (parseZones [zonesCSV])) [] [] of
        Inl e \<Rightarrow> Inl e
      | Inr zones \<Rightarrow> if required \<and> zones = [] then Inl ''zone is required'' else Inr (zones, ws))"

definition normalizeZonesForRole :: "string \<Rightarrow> string \<Rightarrow> string list tx" where
  "normalizeZonesForRole rl zonesCSV =
     bind_tx (normalizeZones zonesCSV (rl = ''Gateway'' \<or> rl = ''Sensor'')) (\<lambda>zones.
       if (rl = ''Gateway'' \<or> rl = ''Sensor'') \<and> zones = []
       then err (''zone is required for '' @ rl @ '' role'') else ret zones)"

definition validateZoneAccess :: "role_assignment \<Rightarrow> string \<Rightarrow> string option" where
  "validateZoneAccess assignment requestedZone =
     (let zone = TrimSpace requestedZone; zones = parseZones (ra_zones assignment)
      in if zone = [] then Some ''zone is required''
         else if ''*'' \<in> set zones then None
         else if zone \<in> set zones then None
         else Some (''zone access denied for '' @ quoted zone))"

definition parseFutureExpiry :: "string \<Rightarrow> bool \<Rightarrow> int tx" where
  "parseFutureExpiry expiresAtISO required =
     (let iso = TrimSpace expiresAtISO
      in if iso = [] then (if required then err ''expiresAtISO is required'' else ret 0)
         else bind_tx (env_of (\<lambda>env. parse_rfc3339 env iso)) (\<lambda>parsed.
              case parsed of
                Inl e \<Rightarrow> err (''expiresAtISO must be RFC3339: '' @ e)
              | Inr expiresAt \<Rightarrow>
                  bind_tx txTime (\<lambda>now.
                    if \<not> now < expiresAt then err ''expiry in the past'' else ret (unix expiresAt))))"

definition roleKey :: "string \<Rightarrow> string" where
  "roleKey subjectID = ''role:'' @ subjectID"

definition cztKey :: "string \<Rightarrow> string" where
  "cztKey tokenID = ''czt:'' @ tokenID"

definition getRoleAssignment :: "string \<Rightarrow> role_assignment tx" where
  "getRoleAssignment subject =
     (let subjectID = TrimSpace subject
      in if subjectID = [] then err ''subject id is required''
         else bind_tx (wrap ''failed to read role assignment'' (GetState (roleKey subjectID))) (\<lambda>payload.
              case payload of
                None \<Rightarrow> err (''role assignment not found for '' @ subjectID)
              | Some (RoleVal assignment) \<Rightarrow> ret assignment
              | Some _ \<Rightarrow> err ''failed to unmarshal role assignment''))"

definition checkRoleExpiration :: "role_assignment \<Rightarrow> unit tx" where
  "checkRoleExpiration assignment =
     (if ra_expires_at assignment = 0 then ret ()
      else bind_tx txTime (\<lambda>now.
        if ra_expires_at assignment < unix now
        then err (''role assignment expired at '' @ int_str (ra_expires_at assignment)) else ret ()))"

definition firstZone :: "string list \<Rightarrow> string" where
  "firstZone zones = (case zones of [] \<Rightarrow> [] | z # _ \<Rightarrow> z)"

text \<open>The verdict on a token: \<open>None\<close>, or the reason for refusing it.\<close>

definition validCrossZoneToken :: "string \<Rightarrow> string \<Rightarrow> string \<Rightarrow> string option tx" where
  "validCrossZoneToken tokenID userID requestedZone =
     bind_tx (wrap ''failed to read cross-zone token'' (GetState (cztKey (TrimSpace tokenID)))) (\<lambda>payload.
       case payload of
         None \<Rightarrow> ret (Some ''cross-zone token not found or revoked'')
       | Some (TokenVal token) \<Rightarrow>
           if ct_subject token \<noteq> userID then ret (Some ''cross-zone token subject mismatch'')
           else bind_tx txTime (\<lambda>now.
             if ct_expires_at token \<le> unix now then ret (Some ''cross-zone token expired'')
             else if requestedZone \<notin> set (parseZones (ct_target_zones token))
             then ret (Some ''cross-zone token does not cover requested zone'')
             else ret None)
       | Some _ \<Rightarrow> err ''failed to unmarshal cross-zone token'')"

section \<open>The transactions\<close>

text \<open>The opening that all nonce-protected transactions share.\<close>

definition open_tx :: "string \<Rightarrow> caller_identity tx" where
  "open_tx nonce =
     bind_tx getCallerIdentity (\<lambda>caller.
     bind_tx (validateNonce (caller_id caller) nonce) (\<lambda>_. ret caller))"

definition may_issue :: "caller_identity \<Rightarrow> bool" where
  "may_issue caller \<longleftrightarrow> caller_role caller = ''Admin'' \<or> hasPermission (caller_role caller) ''IssueCrossZone''"

definition AssignRole :: "string \<Rightarrow> string \<Rightarrow> string \<Rightarrow> string \<Rightarrow> string \<Rightarrow> unit tx" where
  "AssignRole subject roleName zonesCSV expiresAtISO nonce =
     bind_tx (open_tx nonce) (\<lambda>caller.
       if caller_role caller \<noteq> ''Admin'' then err ''unauthorized: admin role required to assign roles''
       else let subjectID = TrimSpace subject; rl = TrimSpace roleName
            in if subjectID = [] then err ''subject id is required''
               else if \<not> IsRoleValid rl then err (''invalid role '' @ quoted roleName)
               else bind_tx (normalizeZonesForRole rl zonesCSV) (\<lambda>zones.
                    bind_tx (parseFutureExpiry expiresAtISO False) (\<lambda>expiresAt.
                    bind_tx txTime (\<lambda>now.
                    bind_tx (wrap ''failed to write role assignment'' (PutState (roleKey subjectID)
                       (RoleVal \<lparr>ra_subject = subjectID, ra_role = rl, ra_zones = zones,
                          ra_issued_by = caller_id caller, ra_issued_at = unix now, ra_expires_at = expiresAt\<rparr>))) (\<lambda>_.
                    bind_tx (writeAuditEntry (caller_id caller) ''AssignRole'' subjectID ''GRANT'' (''assigned '' @ rl)) (\<lambda>_.
                      ret ()))))))"

definition RevokeRole :: "string \<Rightarrow> string \<Rightarrow> unit tx" where
  "RevokeRole subject nonce =
     bind_tx (open_tx nonce) (\<lambda>caller.
       if caller_role caller \<noteq> ''Admin'' then err ''unauthorized: admin role required to revoke roles''
       else let subjectID = TrimSpace subject
            in if subjectID = [] then err ''subject id is required''
               else bind_tx (wrap ''failed to revoke role assignment'' (deleteState (roleKey subjectID))) (\<lambda>_.
                    bind_tx (writeAuditEntry (caller_id caller) ''RevokeRole'' subjectID ''GRANT'' ''role revoked'') (\<lambda>_.
                      ret ())))"

text \<open>\<open>RenewRole\<close> looks the assignment up under the trimmed id and stores it under the id as given.\<close>

definition RenewRole :: "string \<Rightarrow> string \<Rightarrow> string \<Rightarrow> unit tx" where
  "RenewRole subjectID expiresAtISO nonce =
     bind_tx (open_tx nonce) (\<lambda>caller.
       if caller_role caller \<noteq> ''Admin'' then err ''unauthorized: admin role required to renew roles''
       else bind_tx (getRoleAssignment subjectID) (\<lambda>assignment.
            bind_tx (parseFutureExpiry expiresAtISO True) (\<lambda>expiresAt.
            bind_tx (wrap ''failed to write role assignment'' (PutState (roleKey subjectID)
               (RoleVal (assignment\<lparr>ra_expires_at := expiresAt\<rparr>)))) (\<lambda>_.
            bind_tx (writeAuditEntry (caller_id caller) ''RenewRole'' subjectID ''GRANT'' ''role renewed'') (\<lambda>_.
              ret ())))))"

definition deny :: "caller_identity \<Rightarrow> string \<Rightarrow> string \<Rightarrow> bool tx" where
  "deny caller resource reason =
     bind_tx (writeAuditEntry (caller_id caller) ''CheckAccess'' resource ''DENY'' reason) (\<lambda>_. ret False)"

definition certificate_revoked :: "caller_identity \<Rightarrow> bool tx" where
  "certificate_revoked caller =
     (if caller_serial caller = [] then ret False
      else bind_tx (wrap ''failed to read certificate revocation state'' (GetState (''crl:'' @ caller_serial caller)))
             (\<lambda>revoked. ret (revoked \<noteq> None)))"

text \<open>The zone part of \<open>CheckAccess\<close>: \<open>None\<close>, or the reason for denying.\<close>

definition zone_verdict ::
  "role_assignment \<Rightarrow> string \<Rightarrow> string \<Rightarrow> string \<Rightarrow> string \<Rightarrow> string option tx" where
  "zone_verdict assignment perm requestedZone tokenID userID =
     (if \<not> needsZoneCheck perm then ret None
      else case validateZoneAccess assignment requestedZone of
             None \<Rightarrow> ret None
           | Some reason \<Rightarrow>
               if tokenID = [] then ret (Some reason)
               else validCrossZoneToken tokenID userID requestedZone)"

definition decide_access ::
  "caller_identity \<Rightarrow> role_assignment \<Rightarrow> string \<Rightarrow> string \<Rightarrow> string \<Rightarrow> string \<Rightarrow> string \<Rightarrow> bool tx" where
  "decide_access caller assignment perm resource requestedZone tokenID userID =
     (if \<not> hasPermission (ra_role assignment) perm then deny caller resource (''permission '' @ perm @ '' denied'')
      else bind_tx (zone_verdict assignment perm requestedZone tokenID userID) (\<lambda>verdict.
           case verdict of
             Some reason \<Rightarrow> deny caller resource reason
           | None \<Rightarrow>
               bind_tx (writeAuditEntry (caller_id caller) ''CheckAccess'' resource ''GRANT'' perm) (\<lambda>_. ret True)))"

definition CheckAccess :: "string \<Rightarrow> string \<Rightarrow> string \<Rightarrow> string \<Rightarrow> bool tx" where
  "CheckAccess user permissionName requestedZone tokenID =
     bind_tx getCallerIdentity (\<lambda>caller.
       let userID = TrimSpace user; perm = TrimSpace permissionName; resource = TrimSpace requestedZone
       in bind_tx (certificate_revoked caller) (\<lambda>revoked.
          if revoked then deny caller resource ''certificate revoked''
          else bind_tx (attempt (getRoleAssignment userID)) (\<lambda>found.
               case found of
                 Inl e \<Rightarrow> deny caller resource e
               | Inr assignment \<Rightarrow>
                   bind_tx (attempt (checkRoleExpiration assignment)) (\<lambda>live.
                     case live of
                       Inl _ \<Rightarrow>
                         bind_tx (attempt (deleteState (roleKey userID))) (\<lambda>_.
                           deny caller resource ''role expired and auto-revoked'')
                     | Inr _ \<Rightarrow> decide_access caller assignment perm resource requestedZone tokenID userID))))"

definition IssueCrossZoneToken :: "string \<Rightarrow> string \<Rightarrow> string \<Rightarrow> string \<Rightarrow> string tx" where
  "IssueCrossZoneToken userID targetZonesCSV expiresAtISO nonce =
     bind_tx (open_tx nonce) (\<lambda>caller.
       if \<not> may_issue caller then err ''unauthorized: IssueCrossZone permission required''
       else bind_tx (getRoleAssignment userID) (\<lambda>assignment.
            bind_tx (normalizeZones targetZonesCSV True) (\<lambda>targets.
            bind_tx (parseFutureExpiry expiresAtISO True) (\<lambda>expiresAt.
            bind_tx txTime (\<lambda>now.
            bind_tx (env_of (\<lambda>env. sha256_hex env (userID @ time_string env now @ nonce))) (\<lambda>tokenID.
            bind_tx (wrap ''failed to write cross-zone token'' (PutState (cztKey tokenID)
               (TokenVal \<lparr>ct_token_id = tokenID, ct_subject = userID, ct_source_zone = firstZone (ra_zones assignment),
                  ct_target_zones = targets, ct_issued_by = caller_id caller, ct_issued_at = unix now,
                  ct_expires_at = expiresAt, ct_nonce = nonce\<rparr>))) (\<lambda>_.
            bind_tx (writeAuditEntry (caller_id caller) ''IssueCrossZoneToken'' userID ''GRANT'' tokenID) (\<lambda>_.
              ret tokenID))))))))"

definition RevokeCrossZoneToken :: "string \<Rightarrow> string \<Rightarrow> unit tx" where
  "RevokeCrossZoneToken token nonce =
     bind_tx (open_tx nonce) (\<lambda>caller.
       if \<not> may_issue caller then err ''unauthorized: IssueCrossZone permission required''
       else let tokenID = TrimSpace token
            in if tokenID = [] then err ''token id is required''
               else bind_tx (wrap ''failed to revoke cross-zone token'' (deleteState (cztKey tokenID))) (\<lambda>_.
                    bind_tx (writeAuditEntry (caller_id caller) ''RevokeCrossZoneToken'' tokenID ''GRANT'' ''token revoked'')
                      (\<lambda>_. ret ())))"

fun read_entries :: "string list \<Rightarrow> audit_entry list tx" where
  "read_entries [] = ret []"
| "read_entries (key # keys) =
     bind_tx (wrap (''failed to read audit entry '' @ key) (GetState key)) (\<lambda>payload.
       case payload of
         None \<Rightarrow> read_entries keys
       | Some (AuditVal entry) \<Rightarrow> bind_tx (read_entries keys) (\<lambda>entries. ret (entry # entries))
       | Some _ \<Rightarrow> err (''failed to unmarshal audit entry '' @ key))"

definition last_1000 :: "'a list \<Rightarrow> 'a list" where
  "last_1000 keys = (if length keys > 1000 then drop (length keys - 1000) keys else keys)"

definition GetAuditLog :: "audit_entry list tx" where
  "GetAuditLog =
     bind_tx getCallerIdentity (\<lambda>caller.
       if caller_role caller \<noteq> ''Admin'' \<and> \<not> hasPermission (caller_role caller) ''ReadAudit''
       then err ''unauthorized: ReadAudit permission required''
       else bind_tx (getStringIndex auditIndexKey) (\<lambda>keys. read_entries (last_1000 keys)))"

fun prune_loop :: "string \<Rightarrow> int \<Rightarrow> string list \<Rightarrow> string list \<Rightarrow> int \<Rightarrow> (string list \<times> int) tx" where
  "prune_loop own beforeUnix [] kept pruned = ret (kept, pruned)"
| "prune_loop own beforeUnix (key # keys) kept pruned =
     bind_tx (wrap (''failed to read nonce '' @ key) (GetState key)) (\<lambda>payload.
       case payload of
         None \<Rightarrow> prune_loop own beforeUnix keys kept pruned
       | Some (NonceVal nr) \<Rightarrow>
           if nr_timestamp nr < beforeUnix \<and> key \<noteq> own
           then bind_tx (wrap (''failed to delete nonce '' @ key) (deleteState key)) (\<lambda>_.
                  prune_loop own beforeUnix keys kept (pruned + 1))
           else prune_loop own beforeUnix keys (kept @ [key]) pruned
       | Some _ \<Rightarrow> err (''failed to unmarshal nonce '' @ key))"

definition PruneNonces :: "int \<Rightarrow> string \<Rightarrow> int tx" where
  "PruneNonces beforeUnix nonce =
     bind_tx (open_tx nonce) (\<lambda>caller.
       if caller_role caller \<noteq> ''Admin'' then err ''unauthorized: admin role required to prune nonces''
       else bind_tx (getStringIndex nonceIndexKey) (\<lambda>keys.
            bind_tx (prune_loop (nonceKey (caller_id caller) nonce) beforeUnix keys [] 0) (\<lambda>(kept, pruned).
            bind_tx (putStringIndex nonceIndexKey kept) (\<lambda>_.
            bind_tx (writeAuditEntry (caller_id caller) ''PruneNonces'' nonceIndexKey ''GRANT''
              (''pruned '' @ int_str pruned)) (\<lambda>_.
              ret pruned)))))"

definition sensorKey :: "string \<Rightarrow> int \<Rightarrow> string" where
  "sensorKey deviceID now = ''sensor:'' @ deviceID @ '':'' @ int_str now"

definition WriteSensorData :: "string \<Rightarrow> string \<Rightarrow> string \<Rightarrow> string \<Rightarrow> unit tx" where
  "WriteSensorData device readingJSON zone nonce =
     bind_tx (open_tx nonce) (\<lambda>caller.
     bind_tx (CheckAccess (caller_id caller) ''WriteSensor'' zone []) (\<lambda>ok.
       if \<not> ok then err ''access denied: WriteSensor permission required''
       else let deviceID = TrimSpace device
            in if deviceID = [] then err ''device id is required''
               else bind_tx (env_of (\<lambda>env. json_error env readingJSON)) (\<lambda>invalid.
                    case invalid of
                      Some e \<Rightarrow> err (''sensor reading must be valid JSON: '' @ e)
                    | None \<Rightarrow>
                        bind_tx txTime (\<lambda>now.
                          wrap ''failed to write sensor data''
                            (PutState (sensorKey deviceID now) (RawVal readingJSON))))))"

section \<open>Submitting transactions\<close>

datatype call =
    CallAssignRole string string string string string
  | CallRevokeRole string string
  | CallRenewRole string string string
  | CallCheckAccess string string string string
  | CallIssueToken string string string string
  | CallRevokeToken string string
  | CallAuditLog
  | CallPruneNonces int string
  | CallWriteSensor string string string string

datatype reply = Done | Access bool | Token string | Log "audit_entry list" | Pruned int

definition map_tx :: "('a \<Rightarrow> 'b) \<Rightarrow> 'a tx \<Rightarrow> 'b tx" where
  "map_tx f act = bind_tx act (\<lambda>x. ret (f x))"

fun execute :: "call \<Rightarrow> reply tx" where
  "execute (CallAssignRole subject rl zones expiry nonce) = map_tx (\<lambda>_. Done) (AssignRole subject rl zones expiry nonce)"
| "execute (CallRevokeRole subject nonce) = map_tx (\<lambda>_. Done) (RevokeRole subject nonce)"
| "execute (CallRenewRole subject expiry nonce) = map_tx (\<lambda>_. Done) (RenewRole subject expiry nonce)"
| "execute (CallCheckAccess user perm zone token) = map_tx Access (CheckAccess user perm zone token)"
| "execute (CallIssueToken user zones expiry nonce) = map_tx Token (IssueCrossZoneToken user zones expiry nonce)"
| "execute (CallRevokeToken token nonce) = map_tx (\<lambda>_. Done) (RevokeCrossZoneToken token nonce)"
| "execute CallAuditLog = map_tx Log GetAuditLog"
| "execute (CallPruneNonces bound nonce) = map_tx Pruned (PruneNonces bound nonce)"
| "execute (CallWriteSensor device reading zone nonce) = map_tx (\<lambda>_. Done) (WriteSensorData device reading zone nonce)"

text \<open>
  Transaction ids are digests; the one thing the contract relies on is that no id is the word \<open>index\<close>, since
  the audit entry of such a transaction would be stored under the key of the audit index.
\<close>

inductive ledger_step :: "ledger \<Rightarrow> tx_env \<times> call \<times> (string + reply) \<Rightarrow> ledger \<Rightarrow> bool" where
  submitted: "tx_id env \<noteq> ''index'' \<Longrightarrow> submit env (execute c) ledger = (res, ledger') \<Longrightarrow> ledger_step ledger (env, c, res) ledger'"

inductive ledger_run :: "ledger \<Rightarrow> (tx_env \<times> call \<times> (string + reply)) list \<Rightarrow> ledger \<Rightarrow> bool" where
  run_nil: "ledger_run ledger [] ledger"
| run_step: "ledger_step ledger ev ledger1 \<Longrightarrow> ledger_run ledger1 evs ledger2 \<Longrightarrow> ledger_run ledger (ev # evs) ledger2"

inductive_cases ledger_stepE: "ledger_step ledger ev ledger'"
inductive_cases run_nilE: "ledger_run ledger [] ledger'"
inductive_cases run_stepE: "ledger_run ledger (ev # evs) ledger'"

inductive_simps ledger_step_simp: "ledger_step ledger (env, c, res) ledger'"

end
