(* ===== verification/Hrbac_Properties.thy ===== *)
theory Hrbac_Properties
  imports Hrbac_Contract Role_Model
begin

text \<open>
  What the chaincode guarantees. \<open>tx_simps\<close> turns the success of a transaction into its reads and its list
  of writes; from the write lists follow which keys a transaction can change. The theorems: the access
  decision is the intended one, only administrators change role assignments, a nonce is accepted once,
  the audit log only grows, and no transaction ever revokes a certificate.
\<close>

named_theorems tx_simps

section \<open>Successful transactions\<close>

lemma ret_Inr [tx_simps]: "ret x env L ws = Inr (y, ws') \<longleftrightarrow> y = x \<and> ws' = ws"
  by (auto simp: ret_def)

lemma err_Inr [tx_simps]: "err e env L ws \<noteq> Inr r"
  by (simp add: err_def)

lemma bind_tx_Inr [tx_simps]:
  "bind_tx act k env L ws = Inr r \<longleftrightarrow> (\<exists>x ws'. act env L ws = Inr (x, ws') \<and> k x env L ws' = Inr r)"
  by (auto simp: bind_tx_def split: sum.splits)

lemma attempt_Inr [tx_simps]:
  "attempt act env L ws = Inr (y, ws') \<longleftrightarrow>
     (\<exists>e. act env L ws = Inl e \<and> y = Inl e \<and> ws' = ws) \<or> (\<exists>x. act env L ws = Inr (x, ws') \<and> y = Inr x)"
  by (auto simp: attempt_def split: sum.splits)

lemma wrap_Inr [tx_simps]: "wrap c act env L ws = Inr r \<longleftrightarrow> act env L ws = Inr r"
  by (auto simp: wrap_def split: sum.splits)

lemma env_of_Inr [tx_simps]: "env_of f env L ws = Inr (x, ws') \<longleftrightarrow> x = f env \<and> ws' = ws"
  by (auto simp: env_of_def)

lemma GetState_Inr [tx_simps]:
  "GetState key env L ws = Inr (v, ws') \<longleftrightarrow> read_fault env key = None \<and> v = view env L ws key \<and> ws' = ws"
  by (auto simp: GetState_def split: option.splits)

lemma PutState_Inr [tx_simps]:
  "PutState key v env L ws = Inr (u, ws') \<longleftrightarrow> write_fault env key = None \<and> ws' = (key, Some v) # ws"
  by (auto simp: PutState_def split: option.splits)

lemma deleteState_Inr [tx_simps]:
  "deleteState key env L ws = Inr (u, ws') \<longleftrightarrow> write_fault env key = None \<and> ws' = (key, None) # ws"
  by (auto simp: deleteState_def split: option.splits)

lemma txTime_Inr [tx_simps]:
  "txTime env L ws = Inr (t, ws') \<longleftrightarrow> time_fault env = None \<and> t = tx_time env \<and> ws' = ws"
  by (auto simp: txTime_def split: option.splits)

lemma getCallerIdentity_Inr [tx_simps]:
  "getCallerIdentity env L ws = Inr (c, ws') \<longleftrightarrow> caller_of env = Inr c \<and> ws' = ws"
  by (auto simp: getCallerIdentity_def split: sum.splits)

lemma map_tx_Inr [tx_simps]:
  "map_tx f act env L ws = Inr (y, ws') \<longleftrightarrow> (\<exists>x. act env L ws = Inr (x, ws') \<and> y = f x)"
  by (auto simp: map_tx_def tx_simps)

lemma view_Nil [simp]: "view env L [] key = dict_get L key"
  by (simp add: view_def)

text \<open>What an index holds; a key of another type makes reading fail.\<close>

definition index_view :: "tx_env \<Rightarrow> ledger \<Rightarrow> writes \<Rightarrow> string \<Rightarrow> string list option" where
  "index_view env L ws key =
     (case view env L ws key of None \<Rightarrow> Some [] | Some (IndexVal values) \<Rightarrow> Some values | Some _ \<Rightarrow> None)"

lemma getStringIndex_Inr [tx_simps]:
  "getStringIndex key env L ws = Inr (values, ws') \<longleftrightarrow>
     read_fault env key = None \<and> index_view env L ws key = Some values \<and> ws' = ws"
  by (auto simp: getStringIndex_def index_view_def tx_simps split: option.splits ledger_value.splits)

lemma putStringIndex_Inr [tx_simps]:
  "putStringIndex key values env L ws = Inr (u, ws') \<longleftrightarrow>
     write_fault env key = None \<and> ws' = (key, Some (IndexVal values)) # ws"
  by (auto simp: putStringIndex_def tx_simps)

lemma getRoleAssignment_Inr [tx_simps]:
  "getRoleAssignment s env L ws = Inr (a, ws') \<longleftrightarrow>
     TrimSpace s \<noteq> [] \<and> read_fault env (roleKey (TrimSpace s)) = None
     \<and> view env L ws (roleKey (TrimSpace s)) = Some (RoleVal a) \<and> ws' = ws"
  by (auto simp: getRoleAssignment_def Let_def tx_simps split: option.splits ledger_value.splits)

lemma checkRoleExpiration_Inr [tx_simps]:
  "checkRoleExpiration a env L ws = Inr (u, ws') \<longleftrightarrow> ws' = ws \<and>
     (ra_expires_at a = 0 \<or> time_fault env = None \<and> unix (tx_time env) \<le> ra_expires_at a)"
  by (auto simp: checkRoleExpiration_def tx_simps)

lemma parseFutureExpiry_Inr [tx_simps]:
  "parseFutureExpiry expiry req env L ws = Inr (t, ws') \<longleftrightarrow> ws' = ws \<and>
     (TrimSpace expiry = [] \<and> \<not> req \<and> t = 0 \<or>
      TrimSpace expiry \<noteq> [] \<and> time_fault env = None \<and>
        (\<exists>e. parse_rfc3339 env (TrimSpace expiry) = Inr e \<and> tx_time env < e \<and> t = unix e))"
  by (auto simp: parseFutureExpiry_def Let_def tx_simps split: sum.splits)

lemma normalizeZones_Inr [tx_simps]:
  "normalizeZones csv req env L ws = Inr (zones, ws') \<longleftrightarrow>
     normalize_loop (map_order env (parseZones [csv])) [] [] = Inr zones \<and> (req \<longrightarrow> zones \<noteq> []) \<and> ws' = ws"
  by (auto simp: normalizeZones_def split: sum.splits)

lemma normalizeZonesForRole_Inr [tx_simps]:
  "normalizeZonesForRole r csv env L ws = Inr (zones, ws') \<longleftrightarrow>
     normalizeZones csv (r = ''Gateway'' \<or> r = ''Sensor'') env L ws = Inr (zones, ws')"
  by (auto simp: normalizeZonesForRole_def tx_simps)

text \<open>The writes of a nonce check and of an audit entry.\<close>

definition nonce_writes :: "tx_env \<Rightarrow> string \<Rightarrow> string \<Rightarrow> string list \<Rightarrow> writes" where
  "nonce_writes env subject nonce keys =
     [(nonceIndexKey, Some (IndexVal (keys @ [nonceKey subject nonce]))),
      (nonceKey subject nonce,
       Some (NonceVal \<lparr>nr_subject = subject, nr_value = nonce, nr_tx = tx_id env, nr_timestamp = unix (tx_time env)\<rparr>))]"

lemma validateNonce_Inr [tx_simps]:
  "validateNonce subject nonce env L ws = Inr (u, ws') \<longleftrightarrow>
     subject \<noteq> [] \<and> nonce \<noteq> [] \<and> read_fault env (nonceKey subject nonce) = None
     \<and> view env L ws (nonceKey subject nonce) = None \<and> time_fault env = None
     \<and> write_fault env (nonceKey subject nonce) = None \<and> read_fault env nonceIndexKey = None
     \<and> write_fault env nonceIndexKey = None
     \<and> (\<exists>keys. index_view env L (drop 1 (nonce_writes env subject nonce []) @ ws) nonceIndexKey = Some keys
          \<and> ws' = nonce_writes env subject nonce keys @ ws)"
  by (auto simp: validateNonce_def nonce_writes_def tx_simps)

definition audit_writes :: "tx_env \<Rightarrow> string list \<Rightarrow> string \<Rightarrow> audit_entry \<Rightarrow> writes" where
  "audit_writes env keys key entry =
     [(auditIndexKey, Some (IndexVal (keys @ [key]))), (key, Some (AuditVal entry))]"

definition entry_of :: "tx_env \<Rightarrow> string \<Rightarrow> string \<Rightarrow> string \<Rightarrow> string \<Rightarrow> string \<Rightarrow> audit_entry" where
  "entry_of env actor action resource dec reason =
     \<lparr>ae_tx = tx_id env, ae_actor = actor, ae_action = action, ae_resource = resource,
      ae_decision = dec, ae_reason = reason, ae_timestamp = unix (tx_time env)\<rparr>"

lemma audit_slot_Inr:
  "audit_slot n env L ws = Inr (key, ws') \<Longrightarrow>
     ws' = ws \<and> view env L ws key = None \<and> (\<exists>i \<ge> n. key = auditKeyWithSequence (tx_id env) i)"
proof (induction n env L ws rule: audit_slot.induct)
  case (1 n env L ws)
  note IH = "1.IH"
  show ?case
  proof (cases "view env L ws (auditKeyWithSequence (tx_id env) n)")
    case None
    with "1.prems" show ?thesis
      by (subst (asm) audit_slot.simps) (auto simp: GetState_def split: option.splits)
  next
    case (Some v)
    with "1.prems" have rest: "audit_slot (Suc n) env L ws = Inr (key, ws')" and f: "read_fault env (auditKeyWithSequence (tx_id env) n) = None"
      by (subst (asm) audit_slot.simps, auto simp: GetState_def split: option.splits)+
    have "GetState (auditKeyWithSequence (tx_id env) n) env L ws = Inr (Some v, ws)"
      using Some f by (simp add: GetState_def)
    from IH [OF this refl refl rest] show ?thesis
      by (auto dest: Suc_leD)
  qed
qed

text \<open>Without read faults the search succeeds.\<close>

lemma audit_slot_total:
  assumes "\<And>k. read_fault env k = None"
  shows "\<exists>key. audit_slot n env L ws = Inr (key, ws)"
  using assms
proof (induction n env L ws rule: audit_slot.induct)
  case (1 n env L ws)
  note IH = "1.IH"
  show ?case
  proof (cases "view env L ws (auditKeyWithSequence (tx_id env) n)")
    case None
    then show ?thesis
      using "1.prems" by (subst audit_slot.simps) (simp add: GetState_def)
  next
    case (Some v)
    have "GetState (auditKeyWithSequence (tx_id env) n) env L ws = Inr (Some v, ws)"
      using Some "1.prems" by (simp add: GetState_def)
    with IH [OF this refl refl "1.prems"] show ?thesis
      by (subst audit_slot.simps) simp
  qed
qed

lemma writeAuditEntry_Inr:
  assumes "writeAuditEntry actor action resource dec reason env L ws = Inr (key, ws')"
  obtains keys i where "time_fault env = None" "index_view env L ws auditIndexKey = Some keys"
    "key = auditKeyWithSequence (tx_id env) i" "view env L ws key = None"
    "ws' = audit_writes env keys key (entry_of env actor action resource dec reason) @ ws"
  using assms
  by (auto simp: writeAuditEntry_def tx_simps audit_writes_def entry_of_def dest!: audit_slot_Inr)

section \<open>The access decision\<close>

definition zone_allowed ::
  "tx_env \<Rightarrow> (string \<Rightarrow> ledger_value option) \<Rightarrow> role_assignment \<Rightarrow> string \<Rightarrow> string \<Rightarrow> string \<Rightarrow> bool" where
  "zone_allowed env look a zone tok user \<longleftrightarrow>
     validateZoneAccess a zone = None \<or>
     tok \<noteq> [] \<and> (case look (cztKey (TrimSpace tok)) of
       Some (TokenVal t) \<Rightarrow> ct_subject t = user \<and> unix (tx_time env) < ct_expires_at t
         \<and> zone \<in> set (parseZones (ct_target_zones t))
     | _ \<Rightarrow> False)"

definition role_live :: "tx_env \<Rightarrow> role_assignment \<Rightarrow> bool" where
  "role_live env a \<longleftrightarrow> ra_expires_at a = 0 \<or> unix (tx_time env) \<le> ra_expires_at a"

definition access_allowed ::
  "tx_env \<Rightarrow> (string \<Rightarrow> ledger_value option) \<Rightarrow> caller_identity \<Rightarrow> string \<Rightarrow> string \<Rightarrow> string \<Rightarrow> string \<Rightarrow> bool" where
  "access_allowed env look caller user perm zone tok \<longleftrightarrow>
     (caller_serial caller = [] \<or> look (''crl:'' @ caller_serial caller) = None) \<and> user \<noteq> [] \<and>
     (case look (roleKey user) of
        Some (RoleVal a) \<Rightarrow> role_live env a \<and> hasPermission (ra_role a) perm
          \<and> (needsZoneCheck perm \<longrightarrow> zone_allowed env look a zone tok user)
      | _ \<Rightarrow> False)"

text \<open>One audit entry has been added to the writes.\<close>

definition audited :: "tx_env \<Rightarrow> ledger \<Rightarrow> writes \<Rightarrow> audit_entry \<Rightarrow> writes \<Rightarrow> bool" where
  "audited env L ws entry ws' \<longleftrightarrow> time_fault env = None \<and>
     (\<exists>keys key i. index_view env L ws auditIndexKey = Some keys \<and> key = auditKeyWithSequence (tx_id env) i
        \<and> view env L ws key = None \<and> ws' = audit_writes env keys key entry @ ws)"

lemma writeAuditEntry_audited:
  "writeAuditEntry actor action resource dec reason env L ws = Inr (key, ws') \<Longrightarrow>
     audited env L ws (entry_of env actor action resource dec reason) ws'"
  by (erule writeAuditEntry_Inr) (auto simp: audited_def)

definition check_entry :: "tx_env \<Rightarrow> caller_identity \<Rightarrow> string \<Rightarrow> bool \<Rightarrow> string \<Rightarrow> audit_entry" where
  "check_entry env caller resource b reason =
     entry_of env (caller_id caller) ''CheckAccess'' resource (if b then ''GRANT'' else ''DENY'') reason"

lemma deny_Inr:
  "deny caller resource reason env L ws = Inr (b, ws') \<Longrightarrow>
     \<not> b \<and> audited env L ws (check_entry env caller resource b reason) ws'"
  by (auto simp: deny_def tx_simps check_entry_def dest!: writeAuditEntry_audited)

lemma validCrossZoneToken_Inr:
  "validCrossZoneToken tok user zone env L ws = Inr (v, ws') \<Longrightarrow>
     ws' = ws \<and> (v = None \<longleftrightarrow> (case view env L ws (cztKey (TrimSpace tok)) of
       Some (TokenVal t) \<Rightarrow> ct_subject t = user \<and> unix (tx_time env) < ct_expires_at t
         \<and> zone \<in> set (parseZones (ct_target_zones t))
     | _ \<Rightarrow> False))"
  by (auto simp: validCrossZoneToken_def tx_simps split: option.splits ledger_value.splits if_splits)

lemma zone_verdict_Inr:
  "zone_verdict a perm zone tok user env L ws = Inr (v, ws') \<Longrightarrow>
     ws' = ws \<and> (v = None \<longleftrightarrow> (needsZoneCheck perm \<longrightarrow> zone_allowed env (view env L ws) a zone tok user))"
  by (auto simp: zone_verdict_def zone_allowed_def tx_simps split: option.splits if_splits
      dest!: validCrossZoneToken_Inr)

lemma decide_access_Inr:
  assumes "decide_access caller a perm resource zone tok user env L ws = Inr (b, ws')"
  shows "(b \<longleftrightarrow> hasPermission (ra_role a) perm \<and> (needsZoneCheck perm \<longrightarrow> zone_allowed env (view env L ws) a zone tok user))
    \<and> (\<exists>reason. audited env L ws (check_entry env caller resource b reason) ws')"
proof (cases "hasPermission (ra_role a) perm")
  case False
  with assms show ?thesis
    by (auto simp: decide_access_def dest!: deny_Inr)
next
  case True
  with assms obtain v where v: "zone_verdict a perm zone tok user env L ws = Inr (v, ws)"
    and rest: "(case v of
             Some reason \<Rightarrow> deny caller resource reason
           | None \<Rightarrow> bind_tx (writeAuditEntry (caller_id caller) ''CheckAccess'' resource ''GRANT'' perm) (\<lambda>_. ret True))
         env L ws = Inr (b, ws')"
    by (auto simp: decide_access_def tx_simps dest: zone_verdict_Inr)
  show ?thesis
  proof (cases v)
    case None
    with rest have "b" "audited env L ws (check_entry env caller resource b perm) ws'"
      by (auto simp: tx_simps check_entry_def dest!: writeAuditEntry_audited)
    then show ?thesis
      using True None zone_verdict_Inr [OF v] by blast
  next
    case (Some reason)
    with rest deny_Inr [of caller resource reason env L ws b ws'] show ?thesis
      using zone_verdict_Inr [OF v] by auto
  qed
qed

lemma go_space_strip: "TrimSpace (TrimSpace s) = TrimSpace s"
proof (cases "TrimSpace s = []")
  case False
  define r where "r = dropWhile go_space s"
  have t: "TrimSpace s = rev (dropWhile go_space (rev r))"
    by (simp add: TrimSpace_def strip_by_def r_def)
  have ne: "dropWhile go_space (rev r) \<noteq> []"
    using False t by auto
  then have "\<not> go_space (hd (dropWhile go_space (rev r)))"
    by (rule hd_dropWhile)
  then have last: "\<not> go_space (last (TrimSpace s))"
    by (simp add: t last_rev)
  obtain pre where "rev r = pre @ dropWhile go_space (rev r)"
    by (metis takeWhile_dropWhile_id)
  then have "r = TrimSpace s @ rev pre"
    by (metis rev_append rev_rev_ident t)
  then have "hd (TrimSpace s) = hd r" "r \<noteq> []"
    using False by (metis hd_append2, auto)
  then have "\<not> go_space (hd (TrimSpace s))"
    using hd_dropWhile [of go_space s] r_def by simp
  then show ?thesis
    using last False unfolding TrimSpace_def by (intro strip_by_id) auto
next
  case True
  then show ?thesis
    by (simp add: TrimSpace_def [of "[]"] strip_by_def)
qed

text \<open>
  Everything a successful \<open>CheckAccess\<close> does. A read fault on the role is denied like a missing role, so
  only without one is the answer exactly the decision.
\<close>

definition check_outcome ::
  "tx_env \<Rightarrow> ledger \<Rightarrow> writes \<Rightarrow> caller_identity \<Rightarrow> string \<Rightarrow> string \<Rightarrow> string \<Rightarrow> string \<Rightarrow> bool \<Rightarrow> writes \<Rightarrow> bool" where
  "check_outcome env L ws caller user perm zone tok b ws' \<longleftrightarrow>
     (let allowed = access_allowed env (view env L ws) caller user perm zone tok
      in (b \<longrightarrow> allowed) \<and> (read_fault env (roleKey user) = None \<longrightarrow> (b \<longleftrightarrow> allowed)))
     \<and> (\<exists>dels reason. audited env L (dels @ ws) (check_entry env caller (TrimSpace zone) b reason) ws'
          \<and> (dels = [] \<or> dels = [(roleKey user, None)] \<and> \<not> b \<and>
               (\<exists>a. view env L ws (roleKey user) = Some (RoleVal a) \<and> \<not> role_live env a)))"

lemma check_outcomeI:
  assumes "b \<longrightarrow> access_allowed env (view env L ws) caller user perm zone tok"
    and "read_fault env (roleKey user) = None \<Longrightarrow> b \<longleftrightarrow> access_allowed env (view env L ws) caller user perm zone tok"
    and "audited env L (dels @ ws) (check_entry env caller (TrimSpace zone) b reason) ws'"
    and "dels = [] \<or> dels = [(roleKey user, None)] \<and> \<not> b \<and>
      (\<exists>a. view env L ws (roleKey user) = Some (RoleVal a) \<and> \<not> role_live env a)"
  shows "check_outcome env L ws caller user perm zone tok b ws'"
  unfolding check_outcome_def Let_def using assms by blast

definition after_role ::
  "caller_identity \<Rightarrow> role_assignment \<Rightarrow> string \<Rightarrow> string \<Rightarrow> string \<Rightarrow> string \<Rightarrow> string \<Rightarrow> bool tx" where
  "after_role caller a perm resource zone tok user =
     bind_tx (attempt (checkRoleExpiration a)) (\<lambda>live.
       case live of
         Inl _ \<Rightarrow> bind_tx (attempt (deleteState (roleKey user))) (\<lambda>_.
                    deny caller resource ''role expired and auto-revoked'')
       | Inr _ \<Rightarrow> decide_access caller a perm resource zone tok user)"

lemma CheckAccess_unfold:
  "CheckAccess user perm zone tok =
     bind_tx getCallerIdentity (\<lambda>caller.
     bind_tx (certificate_revoked caller) (\<lambda>revoked.
       if revoked then deny caller (TrimSpace zone) ''certificate revoked''
       else bind_tx (attempt (getRoleAssignment (TrimSpace user))) (\<lambda>found.
            case found of
              Inl e \<Rightarrow> deny caller (TrimSpace zone) e
            | Inr a \<Rightarrow> after_role caller a (TrimSpace perm) (TrimSpace zone) zone tok (TrimSpace user))))"
  by (unfold CheckAccess_def after_role_def Let_def) (rule refl)

lemma certificate_revoked_Inr:
  "certificate_revoked caller env L ws = Inr (revoked, ws') \<Longrightarrow> ws' = ws \<and>
     (revoked \<longleftrightarrow> \<not> (caller_serial caller = [] \<or> view env L ws (''crl:'' @ caller_serial caller) = None))"
  by (auto simp: certificate_revoked_def tx_simps split: if_splits)

lemma after_role_Inr:
  assumes "after_role caller a perm (TrimSpace zone) zone tok user env L ws = Inr (b, ws')"
    and a: "view env L ws (roleKey user) = Some (RoleVal a)" "user \<noteq> []"
    and serial: "caller_serial caller = [] \<or> view env L ws (''crl:'' @ caller_serial caller) = None"
  shows "check_outcome env L ws caller user perm zone tok b ws'"
proof (cases "checkRoleExpiration a env L ws")
  case (Inl e)
  with assms(1) obtain ws1 where ws1: "ws1 = ws \<or> ws1 = (roleKey user, None) # ws"
    and d: "deny caller (TrimSpace zone) ''role expired and auto-revoked'' env L ws1 = Inr (b, ws')"
    by (auto simp: after_role_def tx_simps)
  from deny_Inr [OF d] have b: "\<not> b" and au: "audited env L ws1
      (check_entry env caller (TrimSpace zone) b ''role expired and auto-revoked'') ws'"
    by auto
  then have "time_fault env = None"
    by (simp add: audited_def)
  then have dead: "\<not> role_live env a"
    using Inl by (auto simp: role_live_def checkRoleExpiration_def bind_tx_def txTime_def ret_def err_def
        split: if_splits)
  obtain dels where "ws1 = dels @ ws" "dels = [] \<or> dels = [(roleKey user, None)]"
    using ws1 by auto
  then show ?thesis
    using au b a dead by (intro check_outcomeI [of _ _ _ _ _ _ _ _ _ dels]) (auto simp: access_allowed_def)
next
  case (Inr r)
  with assms(1) have d: "decide_access caller a perm (TrimSpace zone) zone tok user env L ws = Inr (b, ws')"
    and live: "role_live env a"
    by (cases r; auto simp: after_role_def tx_simps role_live_def)+
  note dec = decide_access_Inr [OF d]
  then obtain reason where "audited env L ws (check_entry env caller (TrimSpace zone) b reason) ws'"
    by blast
  then show ?thesis
    using dec a serial live by (intro check_outcomeI [of _ _ _ _ _ _ _ _ _ "[]"]) (auto simp: access_allowed_def)
qed

lemma CheckAccess_Inr:
  assumes "CheckAccess user perm zone tok env L ws = Inr (b, ws')"
  shows "\<exists>caller. caller_of env = Inr caller
    \<and> check_outcome env L ws caller (TrimSpace user) (TrimSpace perm) zone tok b ws'"
proof -
  let ?look = "view env L ws" and ?u = "TrimSpace user"
  obtain caller revoked where caller: "caller_of env = Inr caller"
    and rev: "certificate_revoked caller env L ws = Inr (revoked, ws)"
    and revoked: "revoked \<longleftrightarrow> \<not> (caller_serial caller = [] \<or> ?look (''crl:'' @ caller_serial caller) = None)"
    and rest: "(if revoked then deny caller (TrimSpace zone) ''certificate revoked''
       else bind_tx (attempt (getRoleAssignment ?u)) (\<lambda>found.
            case found of
              Inl e \<Rightarrow> deny caller (TrimSpace zone) e
            | Inr a \<Rightarrow> after_role caller a (TrimSpace perm) (TrimSpace zone) zone tok ?u)) env L ws = Inr (b, ws')"
    using assms unfolding CheckAccess_unfold bind_tx_Inr getCallerIdentity_Inr
    by (blast dest: certificate_revoked_Inr)
  have "check_outcome env L ws caller ?u (TrimSpace perm) zone tok b ws'"
  proof (cases revoked)
    case True
    with rest have d: "deny caller (TrimSpace zone) ''certificate revoked'' env L ws = Inr (b, ws')" by simp
    then show ?thesis
      using deny_Inr [OF d] revoked True
      by (intro check_outcomeI [of _ _ _ _ _ _ _ _ _ "[]" "''certificate revoked''"]) (auto simp: access_allowed_def)
  next
    case False
    show ?thesis
    proof (cases "getRoleAssignment ?u env L ws")
      case (Inl e)
      with rest False have d: "deny caller (TrimSpace zone) e env L ws = Inr (b, ws')"
        by (auto simp: tx_simps)
      have "\<not> access_allowed env ?look caller ?u (TrimSpace perm) zone tok"
        if "read_fault env (roleKey ?u) = None"
      proof
        assume "access_allowed env ?look caller ?u (TrimSpace perm) zone tok"
        then obtain a where "?u \<noteq> []" "?look (roleKey ?u) = Some (RoleVal a)"
          by (auto simp: access_allowed_def split: option.splits ledger_value.splits)
        then have "getRoleAssignment ?u env L ws = Inr (a, ws)"
          using that by (simp add: tx_simps go_space_strip)
        with Inl show False by simp
      qed
      then show ?thesis
        using deny_Inr [OF d] by (intro check_outcomeI [of _ _ _ _ _ _ _ _ _ "[]" e]) auto
    next
      case (Inr r)
      then obtain a where a: "getRoleAssignment ?u env L ws = Inr (a, ws)"
        by (cases r) (auto simp: tx_simps)
      with rest False have "after_role caller a (TrimSpace perm) (TrimSpace zone) zone tok ?u env L ws = Inr (b, ws')"
        by (auto simp: tx_simps)
      then show ?thesis
        using a revoked False by (intro after_role_Inr) (auto simp: tx_simps go_space_strip)
    qed
  qed
  with caller show ?thesis by blast
qed

section \<open>What a transaction writes\<close>

fun nonce_of :: "call \<Rightarrow> string option" where
  "nonce_of (CallAssignRole subject rl zones expiry nonce) = Some nonce"
| "nonce_of (CallRevokeRole subject nonce) = Some nonce"
| "nonce_of (CallRenewRole subject expiry nonce) = Some nonce"
| "nonce_of (CallCheckAccess user perm zone token) = None"
| "nonce_of (CallIssueToken user zones expiry nonce) = Some nonce"
| "nonce_of (CallRevokeToken token nonce) = Some nonce"
| "nonce_of CallAuditLog = None"
| "nonce_of (CallPruneNonces before nonce) = Some nonce"
| "nonce_of (CallWriteSensor device reading zone nonce) = Some nonce"

definition zone_ok :: "string \<Rightarrow> bool" where
  "zone_ok z \<longleftrightarrow> z = ''*'' \<or> IsZoneValid z"

definition nonce_val :: "tx_env \<Rightarrow> string \<Rightarrow> string \<Rightarrow> ledger_value" where
  "nonce_val env subject nonce =
     NonceVal \<lparr>nr_subject = subject, nr_value = nonce, nr_tx = tx_id env, nr_timestamp = unix (tx_time env)\<rparr>"

text \<open>The writes besides the audit entry, each with who may cause it and when.\<close>

inductive plain_write :: "tx_env \<Rightarrow> ledger \<Rightarrow> caller_identity \<Rightarrow> call \<Rightarrow> string \<times> ledger_value option \<Rightarrow> bool"
  for env L caller where
  nonce: "nonce_of c = Some n \<Longrightarrow>
    plain_write env L caller c (nonceKey (caller_id caller) n, Some (nonce_val env (caller_id caller) n))"
| nonce_index: "nonce_of c = Some n \<Longrightarrow> plain_write env L caller c (nonceIndexKey, Some (IndexVal keys))"
| assign: "caller_role caller = ''Admin'' \<Longrightarrow> ra_subject a = TrimSpace subject \<Longrightarrow> ra_role a = TrimSpace rl \<Longrightarrow>
    IsRoleValid (ra_role a) \<Longrightarrow> list_all zone_ok (ra_zones a) \<Longrightarrow>
    plain_write env L caller (CallAssignRole subject rl zones expiry n) (roleKey (TrimSpace subject), Some (RoleVal a))"
| renew: "caller_role caller = ''Admin'' \<Longrightarrow> dict_get L (roleKey (TrimSpace subject)) = Some (RoleVal a) \<Longrightarrow>
    plain_write env L caller (CallRenewRole subject expiry n)
      (roleKey subject, Some (RoleVal (a\<lparr>ra_expires_at := t\<rparr>)))"
| revoke: "caller_role caller = ''Admin'' \<Longrightarrow>
    plain_write env L caller (CallRevokeRole subject n) (roleKey (TrimSpace subject), None)"
| expire: "dict_get L (roleKey (TrimSpace user)) = Some (RoleVal a) \<Longrightarrow> \<not> role_live env a \<Longrightarrow>
    plain_write env L caller (CallCheckAccess user perm zone tok) (roleKey (TrimSpace user), None)"
| token: "may_issue caller \<Longrightarrow>
    plain_write env L caller (CallIssueToken user zones expiry n) (cztKey i, Some (TokenVal t))"
| revoke_token: "may_issue caller \<Longrightarrow> plain_write env L caller (CallRevokeToken tok n) (cztKey (TrimSpace tok), None)"
| prune: "caller_role caller = ''Admin'' \<Longrightarrow> dict_get L key = Some (NonceVal nr) \<Longrightarrow> nr_timestamp nr < before \<Longrightarrow>
    plain_write env L caller (CallPruneNonces before n) (key, None)"
| sensor: "plain_write env L caller (CallWriteSensor device reading zone n) (sensorKey d t, Some (RawVal reading))"

inductive_cases plain_writeE: "plain_write env L caller c (key, v)"

lemma nonceKey_not_index [simp]: "nonceKey subject n \<noteq> nonceIndexKey" "nonceIndexKey \<noteq> nonceKey subject n"
proof -
  have "CHR '':'' \<notin> set ''index''"
    by simp
  moreover have "nonceKey subject n = nonceIndexKey \<Longrightarrow> subject @ '':'' @ n = ''index''"
    by (simp add: nonceKey_def nonceIndexKey_def)
  ultimately show "nonceKey subject n \<noteq> nonceIndexKey" "nonceIndexKey \<noteq> nonceKey subject n"
    by (metis append_Cons in_set_conv_decomp)+
qed

lemma key_classes [simp]:
  "roleKey s \<noteq> nonceKey u n" "roleKey s \<noteq> nonceIndexKey" "roleKey s \<noteq> auditIndexKey" "roleKey s \<noteq> cztKey t"
  "roleKey s \<noteq> auditKeyWithSequence tx i" "roleKey s \<noteq> sensorKey d m"
  "cztKey t \<noteq> nonceKey u n" "cztKey t \<noteq> nonceIndexKey" "cztKey t \<noteq> auditIndexKey"
  "cztKey t \<noteq> auditKeyWithSequence tx i" "cztKey t \<noteq> sensorKey d m"
  "auditIndexKey \<noteq> nonceKey u n" "auditIndexKey \<noteq> nonceIndexKey" "auditIndexKey \<noteq> sensorKey d m"
  "auditKeyWithSequence tx i \<noteq> nonceKey u n" "auditKeyWithSequence tx i \<noteq> nonceIndexKey"
  "auditKeyWithSequence tx i \<noteq> sensorKey d m"
  "sensorKey d m \<noteq> nonceKey u n" "sensorKey d m \<noteq> nonceIndexKey"
  by (simp_all add: roleKey_def nonceKey_def nonceIndexKey_def auditIndexKey_def cztKey_def sensorKey_def
      auditKeyWithSequence_def)

lemmas key_classes_sym [simp] = key_classes [symmetric]

lemma key_inj [simp]: "roleKey s = roleKey t \<longleftrightarrow> s = t" "cztKey s = cztKey t \<longleftrightarrow> s = t"
  "nonceKey u s = nonceKey u t \<longleftrightarrow> s = t"
  by (simp_all add: roleKey_def cztKey_def nonceKey_def)

lemma view_other: "(\<And>v. (key, v) \<notin> set ws) \<Longrightarrow> view env L ws key = dict_get L key"
  by (auto simp: view_def dest: map_of_SomeD split: option.splits)

lemma open_tx_Inr:
  assumes "open_tx n env L [] = Inr (caller, ws)"
  obtains keys where "caller_of env = Inr caller" "ws = nonce_writes env (caller_id caller) n keys"
    "index_view env L [] nonceIndexKey = Some keys" "dict_get L (nonceKey (caller_id caller) n) = None"
proof -
  have "index_view env L (drop 1 (nonce_writes env s n [])) nonceIndexKey = index_view env L [] nonceIndexKey" for s
    by (simp add: index_view_def nonce_writes_def view_def)
  with assms that show thesis
    by (auto simp: open_tx_def tx_simps)
qed

lemma nonce_writes_plain:
  "nonce_of c = Some n \<Longrightarrow> list_all (plain_write env L caller c) (nonce_writes env (caller_id caller) n keys)"
  by (auto simp: nonce_writes_def nonce_val_def [symmetric] intro: plain_write.intros)

lemma view_nonce_writes:
  "key \<noteq> nonceIndexKey \<Longrightarrow> key \<noteq> nonceKey s n \<Longrightarrow> view env L (nonce_writes env s n keys) key = dict_get L key"
  by (simp add: view_def nonce_writes_def)

text \<open>
  The shape of every successful transaction but \<open>GetAuditLog\<close>: one audit entry by the caller, the permitted
  writes before and after it, and the nonce unused before.
\<close>

definition tx_shape :: "tx_env \<Rightarrow> ledger \<Rightarrow> call \<Rightarrow> caller_identity \<Rightarrow> audit_entry \<Rightarrow> writes \<Rightarrow> bool" where
  "tx_shape env L c caller entry ws \<longleftrightarrow> caller_of env = Inr caller \<and> ae_actor entry = caller_id caller
     \<and> ae_tx entry = tx_id env
     \<and> (\<exists>post ws1 pre. ws = post @ ws1 \<and> audited env L pre entry ws1
          \<and> list_all (plain_write env L caller c) (post @ pre)
          \<and> (\<forall>n. nonce_of c = Some n \<longrightarrow> dict_get L (nonceKey (caller_id caller) n) = None
               \<and> (\<exists>pre1 keys. pre = pre1 @ nonce_writes env (caller_id caller) n keys)))"

lemma tx_shapeI:
  assumes "caller_of env = Inr caller" "ae_actor entry = caller_id caller" "ae_tx entry = tx_id env"
    and "audited env L (pre @ nw) entry ws1" "list_all (plain_write env L caller c) (post @ pre)"
    and "nonce_of c = Some n" "dict_get L (nonceKey (caller_id caller) n) = None"
    and "nw = nonce_writes env (caller_id caller) n keys"
  shows "tx_shape env L c caller entry (post @ ws1)"
  unfolding tx_shape_def
proof (intro conjI exI)
  show "list_all (plain_write env L caller c) (post @ pre @ nw)"
    using assms(5,8) nonce_writes_plain [OF assms(6)] by simp
qed (use assms in auto)

lemma entry_of_simps [simp]: "ae_actor (entry_of env a b r d x) = a" "ae_tx (entry_of env a b r d x) = tx_id env"
  by (simp_all add: entry_of_def)

lemma check_entry_simps [simp]:
  "ae_actor (check_entry env caller r b x) = caller_id caller" "ae_tx (check_entry env caller r b x) = tx_id env"
  by (simp_all add: check_entry_def)

lemma normalize_loop_ok:
  "normalize_loop zs seen acc = Inr zones \<Longrightarrow> list_all zone_ok acc \<Longrightarrow> list_all zone_ok zones"
  by (induction zs seen acc rule: normalize_loop.induct) (auto simp: zone_ok_def split: if_splits)

text \<open>All nonce-protected transactions have the shape, given their write between nonce and audit entry.\<close>

lemma nonce_tx_shape:
  assumes "open_tx n env L [] = Inr (caller, nw)" and "nonce_of c = Some n"
    and "writeAuditEntry (caller_id caller) act res dec reason env L (mid @ nw) = Inr (key, ws1)"
    and "list_all (plain_write env L caller c) (post @ mid)"
  shows "\<exists>caller entry. tx_shape env L c caller entry (post @ ws1)"
proof -
  from open_tx_Inr [OF assms(1)] obtain keys where
    nw: "caller_of env = Inr caller" "nw = nonce_writes env (caller_id caller) n keys"
    "dict_get L (nonceKey (caller_id caller) n) = None"
    by metis
  have "tx_shape env L c caller (entry_of env (caller_id caller) act res dec reason) (post @ ws1)"
    by (rule tx_shapeI [OF nw(1) _ _ writeAuditEntry_audited [OF assms(3)] assms(4,2) nw(3,2)]) simp_all
  then show ?thesis by blast
qed

lemma open_tx_view:
  assumes "open_tx n env L [] = Inr (caller, nw)"
  shows "view env L nw (roleKey s) = dict_get L (roleKey s)"
proof -
  from open_tx_Inr [OF assms] obtain keys where "nw = nonce_writes env (caller_id caller) n keys" by metis
  then show ?thesis by (simp add: view_nonce_writes)
qed

lemma AssignRole_shape:
  assumes "AssignRole subject rl zonesCSV expiry n env L [] = Inr (u, ws)"
  shows "\<exists>caller entry. tx_shape env L (CallAssignRole subject rl zonesCSV expiry n) caller entry ws"
proof -
  from assms obtain caller nw zones t key where open': "open_tx n env L [] = Inr (caller, nw)"
    and admin: "caller_role caller = ''Admin''" and valid: "IsRoleValid (TrimSpace rl)"
    and zones: "normalize_loop (map_order env (parseZones [zonesCSV])) [] [] = Inr zones"
    and au: "writeAuditEntry (caller_id caller) ''AssignRole'' (TrimSpace subject) ''GRANT'' (''assigned '' @ TrimSpace rl)
      env L ([(roleKey (TrimSpace subject), Some (RoleVal
        \<lparr>ra_subject = TrimSpace subject, ra_role = TrimSpace rl, ra_zones = zones, ra_issued_by = caller_id caller,
         ra_issued_at = unix (tx_time env), ra_expires_at = t\<rparr>))] @ nw) = Inr (key, ws)"
    by (auto simp: AssignRole_def tx_simps Let_def split: if_splits)
  have "plain_write env L caller (CallAssignRole subject rl zonesCSV expiry n) (roleKey (TrimSpace subject), Some (RoleVal
        \<lparr>ra_subject = TrimSpace subject, ra_role = TrimSpace rl, ra_zones = zones, ra_issued_by = caller_id caller,
         ra_issued_at = unix (tx_time env), ra_expires_at = t\<rparr>))"
    by (rule plain_write.assign) (use admin valid normalize_loop_ok [OF zones] in simp_all)
  then show ?thesis
    using nonce_tx_shape [where c = "CallAssignRole subject rl zonesCSV expiry n" and post = "[]", OF open' _ au] by simp
qed

lemma RevokeRole_shape:
  assumes "RevokeRole subject n env L [] = Inr (u, ws)"
  shows "\<exists>caller entry. tx_shape env L (CallRevokeRole subject n) caller entry ws"
proof -
  from assms obtain caller nw key where open': "open_tx n env L [] = Inr (caller, nw)"
    and admin: "caller_role caller = ''Admin''"
    and au: "writeAuditEntry (caller_id caller) ''RevokeRole'' (TrimSpace subject) ''GRANT'' ''role revoked''
      env L ([(roleKey (TrimSpace subject), None)] @ nw) = Inr (key, ws)"
    by (auto simp: RevokeRole_def tx_simps Let_def split: if_splits)
  then show ?thesis
    using nonce_tx_shape [where c = "CallRevokeRole subject n" and post = "[]", OF open' _ au] by (auto intro: plain_write.revoke)
qed

lemma RenewRole_shape:
  assumes "RenewRole subject expiry n env L [] = Inr (u, ws)"
  shows "\<exists>caller entry. tx_shape env L (CallRenewRole subject expiry n) caller entry ws"
proof -
  from assms obtain caller nw a t key where open': "open_tx n env L [] = Inr (caller, nw)"
    and admin: "caller_role caller = ''Admin''"
    and a: "view env L nw (roleKey (TrimSpace subject)) = Some (RoleVal a)"
    and au: "writeAuditEntry (caller_id caller) ''RenewRole'' subject ''GRANT'' ''role renewed''
      env L ([(roleKey subject, Some (RoleVal (a\<lparr>ra_expires_at := t\<rparr>)))] @ nw) = Inr (key, ws)"
    by (auto simp: RenewRole_def tx_simps split: if_splits)
  then show ?thesis
    using nonce_tx_shape [where c = "CallRenewRole subject expiry n" and post = "[]", OF open' _ au] open_tx_view [OF open'] by (auto intro: plain_write.renew)
qed

lemma IssueCrossZoneToken_shape:
  assumes "IssueCrossZoneToken user zones expiry n env L [] = Inr (i, ws)"
  shows "\<exists>caller entry. tx_shape env L (CallIssueToken user zones expiry n) caller entry ws"
proof -
  from assms obtain caller nw t key where open': "open_tx n env L [] = Inr (caller, nw)"
    and may: "may_issue caller"
    and au: "writeAuditEntry (caller_id caller) ''IssueCrossZoneToken'' user ''GRANT'' i
      env L ([(cztKey i, Some (TokenVal t))] @ nw) = Inr (key, ws)"
    by (auto simp: IssueCrossZoneToken_def tx_simps split: if_splits)
  then show ?thesis
    using nonce_tx_shape [where c = "CallIssueToken user zones expiry n" and post = "[]", OF open' _ au] by (auto intro: plain_write.token)
qed

lemma RevokeCrossZoneToken_shape:
  assumes "RevokeCrossZoneToken tok n env L [] = Inr (u, ws)"
  shows "\<exists>caller entry. tx_shape env L (CallRevokeToken tok n) caller entry ws"
proof -
  from assms obtain caller nw key where open': "open_tx n env L [] = Inr (caller, nw)"
    and may: "may_issue caller"
    and au: "writeAuditEntry (caller_id caller) ''RevokeCrossZoneToken'' (TrimSpace tok) ''GRANT'' ''token revoked''
      env L ([(cztKey (TrimSpace tok), None)] @ nw) = Inr (key, ws)"
    by (auto simp: RevokeCrossZoneToken_def tx_simps Let_def split: if_splits)
  then show ?thesis
    using nonce_tx_shape [where c = "CallRevokeToken tok n" and post = "[]", OF open' _ au] by (auto intro: plain_write.revoke_token)
qed

text \<open>The loop of \<open>PruneNonces\<close> only deletes old nonces, and keeps every other key of the index that is present.\<close>

lemma prune_loop_Inr:
  "prune_loop own before keys kept pruned env L ws = Inr ((kept', pruned'), ws') \<Longrightarrow>
     \<exists>dels. ws' = dels @ ws \<and> (\<forall>(k, v) \<in> set dels. v = None \<and> k \<noteq> own \<and>
        (\<exists>nr. view env L ws k = Some (NonceVal nr) \<and> nr_timestamp nr < before))"
proof (induction keys arbitrary: kept pruned ws)
  case (Cons key keys)
  from Cons.prems obtain payload where p: "payload = view env L ws key"
    and rest: "(case payload of
         None \<Rightarrow> prune_loop own before keys kept pruned
       | Some (NonceVal nr) \<Rightarrow>
           if nr_timestamp nr < before \<and> key \<noteq> own
           then bind_tx (wrap (''failed to delete nonce '' @ key) (deleteState key)) (\<lambda>_.
                  prune_loop own before keys kept (pruned + 1))
           else prune_loop own before keys (kept @ [key]) pruned
       | Some _ \<Rightarrow> err (''failed to unmarshal nonce '' @ key)) env L ws = Inr ((kept', pruned'), ws')"
    unfolding prune_loop.simps bind_tx_Inr wrap_Inr GetState_Inr by blast
  show ?case
  proof (cases "\<exists>nr. payload = Some (NonceVal nr) \<and> nr_timestamp nr < before \<and> key \<noteq> own")
    case True
    then obtain nr where nr: "payload = Some (NonceVal nr)" "nr_timestamp nr < before" "key \<noteq> own" by blast
    with rest have "prune_loop own before keys kept (pruned + 1) env L ((key, None) # ws) = Inr ((kept', pruned'), ws')"
      by (auto simp: tx_simps)
    from Cons.IH [OF this] obtain dels where d: "ws' = dels @ (key, None) # ws"
      "\<forall>(k, v) \<in> set dels. v = None \<and> k \<noteq> own \<and>
        (\<exists>nr. view env L ((key, None) # ws) k = Some (NonceVal nr) \<and> nr_timestamp nr < before)"
      by blast
    have stays: "view env L ((key, None) # ws) k = Some w \<Longrightarrow> view env L ws k = Some w" for k w
      by (auto simp: view_def split: if_splits)
    have "v = None \<and> k \<noteq> own \<and> (\<exists>nr. view env L ws k = Some (NonceVal nr) \<and> nr_timestamp nr < before)"
      if "(k, v) \<in> set (dels @ [(key, None)])" for k v
    proof (cases "(k, v) \<in> set dels")
      case True
      then show ?thesis using d(2) stays by blast
    next
      case False
      then have "k = key" "v = None" using that by simp_all
      then show ?thesis using nr p by simp
    qed
    then show ?thesis
      using d(1) by (intro exI [of _ "dels @ [(key, None)]"] conjI) (simp, blast)
  next
    case False
    then have "\<exists>kept2. prune_loop own before keys kept2 pruned env L ws = Inr ((kept', pruned'), ws')"
      using rest by (auto simp: tx_simps split: option.splits ledger_value.splits if_splits)
    with Cons.IH show ?thesis by blast
  qed
qed (simp add: tx_simps)

lemma PruneNonces_shape:
  assumes "PruneNonces before n env L [] = Inr (i, ws)"
  shows "\<exists>caller entry. tx_shape env L (CallPruneNonces before n) caller entry ws"
proof -
  from assms obtain caller nw keys kept key ws1 where open': "open_tx n env L [] = Inr (caller, nw)"
    and admin: "caller_role caller = ''Admin''"
    and loop: "prune_loop (nonceKey (caller_id caller) n) before keys [] 0 env L nw = Inr ((kept, i), ws1)"
    and au: "writeAuditEntry (caller_id caller) ''PruneNonces'' nonceIndexKey ''GRANT'' (''pruned '' @ int_str i)
      env L ((nonceIndexKey, Some (IndexVal kept)) # ws1) = Inr (key, ws)"
    by (auto simp: PruneNonces_def tx_simps split: if_splits)
  from open_tx_Inr [OF open'] obtain ks where nw: "nw = nonce_writes env (caller_id caller) n ks" by metis
  from prune_loop_Inr [OF loop] obtain dels where dels: "ws1 = dels @ nw"
    and old: "\<And>k v. (k, v) \<in> set dels \<Longrightarrow> v = None \<and> k \<noteq> nonceKey (caller_id caller) n \<and>
        (\<exists>nr. view env L nw k = Some (NonceVal nr) \<and> nr_timestamp nr < before)"
    by blast
  have "plain_write env L caller (CallPruneNonces before n) (k, v)" if kv: "(k, v) \<in> set dels" for k v
  proof -
    obtain nr where nr: "view env L nw k = Some (NonceVal nr)" "nr_timestamp nr < before" "v = None"
      "k \<noteq> nonceKey (caller_id caller) n"
      using old [OF kv] by blast
    have "k = nonceIndexKey \<Longrightarrow> dict_get L k = Some (NonceVal nr)"
      using nr(1) by (auto simp: nw view_def nonce_writes_def split: if_splits)
    then have "dict_get L k = Some (NonceVal nr)"
      using nr(1,4) by (cases "k = nonceIndexKey") (auto simp: nw view_nonce_writes)
    with nr admin show ?thesis by (auto intro: plain_write.prune)
  qed
  then have "list_all (plain_write env L caller (CallPruneNonces before n)) ((nonceIndexKey, Some (IndexVal kept)) # dels)"
    by (auto simp: list_all_iff intro: plain_write.nonce_index)
  then show ?thesis
    using nonce_tx_shape [OF open', where c = "CallPruneNonces before n" and post = "[]"
      and mid = "(nonceIndexKey, Some (IndexVal kept)) # dels"] au dels
    by simp
qed

lemma CheckAccess_shape:
  assumes "CheckAccess user perm zone tok env L [] = Inr (b, ws)"
  shows "\<exists>caller entry. tx_shape env L (CallCheckAccess user perm zone tok) caller entry ws"
proof -
  from CheckAccess_Inr [OF assms] obtain caller dels reason where caller: "caller_of env = Inr caller"
    and au: "audited env L (dels @ []) (check_entry env caller (TrimSpace zone) b reason) ws"
    and dels: "dels = [] \<or> dels = [(roleKey (TrimSpace user), None)] \<and>
      (\<exists>a. view env L [] (roleKey (TrimSpace user)) = Some (RoleVal a) \<and> \<not> role_live env a)"
    unfolding check_outcome_def by blast
  from dels have "list_all (plain_write env L caller (CallCheckAccess user perm zone tok)) ([] @ dels)"
    by (auto intro: plain_write.expire)
  then have "tx_shape env L (CallCheckAccess user perm zone tok) caller
      (check_entry env caller (TrimSpace zone) b reason) ([] @ ws)"
    unfolding tx_shape_def using caller au by (intro conjI exI [of _ "[]"] exI [of _ ws] exI [of _ dels]) simp_all
  then show ?thesis by auto
qed

lemma WriteSensorData_shape:
  assumes "WriteSensorData device reading zone n env L [] = Inr (u, ws)"
  shows "\<exists>caller entry. tx_shape env L (CallWriteSensor device reading zone n) caller entry ws"
proof -
  from assms obtain caller nw ws1 where open': "open_tx n env L [] = Inr (caller, nw)"
    and check: "CheckAccess (caller_id caller) ''WriteSensor'' zone [] env L nw = Inr (True, ws1)"
    and ws: "ws = [(sensorKey (TrimSpace device) (tx_time env), Some (RawVal reading))] @ ws1"
    by (auto simp: WriteSensorData_def tx_simps Let_def split: if_splits option.splits)
  from open_tx_Inr [OF open'] obtain keys where
    nw: "caller_of env = Inr caller" "nw = nonce_writes env (caller_id caller) n keys"
    "dict_get L (nonceKey (caller_id caller) n) = None"
    by metis
  from CheckAccess_Inr [OF check] nw(1) obtain reason where
    au: "audited env L ([] @ nw) (check_entry env caller (TrimSpace zone) True reason) ws1"
    unfolding check_outcome_def by auto
  have "tx_shape env L (CallWriteSensor device reading zone n) caller
      (check_entry env caller (TrimSpace zone) True reason) ws"
    unfolding ws by (rule tx_shapeI [OF nw(1) _ _ au _ _ nw(3,2)]) (simp_all add: plain_write.sensor)
  then show ?thesis by blast
qed

lemma read_entries_writes: "read_entries keys env L ws = Inr (entries, ws') \<Longrightarrow> ws' = ws"
proof (induction keys arbitrary: entries ws)
  case (Cons key keys)
  from Cons.prems obtain payload where
    "(case payload of
         None \<Rightarrow> read_entries keys
       | Some (AuditVal entry) \<Rightarrow> bind_tx (read_entries keys) (\<lambda>entries. ret (entry # entries))
       | Some _ \<Rightarrow> err (''failed to unmarshal audit entry '' @ key)) env L ws = Inr (entries, ws')"
    unfolding read_entries.simps bind_tx_Inr wrap_Inr GetState_Inr by blast
  with Cons.IH show ?case
    by (auto simp: tx_simps split: option.splits ledger_value.splits)
qed (simp add: tx_simps)

lemma GetAuditLog_writes: "GetAuditLog env L ws = Inr (entries, ws') \<Longrightarrow> ws' = ws"
  by (auto simp: GetAuditLog_def tx_simps dest: read_entries_writes split: if_splits)

lemma execute_shape:
  assumes "execute c env L [] = Inr (r, ws)"
  shows "c = CallAuditLog \<and> ws = [] \<or> c \<noteq> CallAuditLog \<and> (\<exists>caller entry. tx_shape env L c caller entry ws)"
  using assms
  by (cases c)
     (auto simp: tx_simps dest: AssignRole_shape RevokeRole_shape RenewRole_shape CheckAccess_shape
        IssueCrossZoneToken_shape RevokeCrossZoneToken_shape PruneNonces_shape WriteSensorData_shape GetAuditLog_writes)

section \<open>The ledger between transactions\<close>

lemma commit_get: "dict_get (commit ws L) k = (case map_of ws k of None \<Rightarrow> dict_get L k | Some v \<Rightarrow> v)"
proof (induction ws)
  case (Cons w ws)
  obtain key v where w: "w = (key, v)" by fastforce
  then show ?case
    using Cons by (cases v) (auto simp: commit_def dict_get_set dict_get_pop)
qed (simp add: commit_def)

lemma commit_changed: "dict_get (commit ws L) k \<noteq> dict_get L k \<Longrightarrow> (k, dict_get (commit ws L) k) \<in> set ws"
  by (auto simp: commit_get dest: map_of_SomeD split: option.splits)

text \<open>A step either changes nothing or commits a successful transaction.\<close>

lemma ledger_step_cases:
  assumes "ledger_step L (env, c, res) L'"
  obtains (same) "L' = L" "c = CallAuditLog \<or> (\<exists>e. res = Inl e)"
    | (changed) r ws caller entry where "res = Inr r" "L' = commit ws L" "tx_shape env L c caller entry ws"
      "tx_id env \<noteq> ''index''" "c \<noteq> CallAuditLog"
proof -
  from assms have tx: "tx_id env \<noteq> ''index''" and sub: "submit env (execute c) L = (res, L')"
    by (simp_all add: ledger_step_simp)
  show thesis
  proof (cases "execute c env L []")
    case (Inl e)
    with sub have "L' = L" "res = Inl e" by (simp_all add: submit_def)
    then show thesis using same by blast
  next
    case (Inr p)
    obtain r ws where p: "p = (r, ws)" by fastforce
    with Inr sub have r: "res = Inr r" "L' = commit ws L" by (simp_all add: submit_def)
    from execute_shape [of c env L r ws] Inr p consider
      "c = CallAuditLog" "ws = []" | caller entry where "c \<noteq> CallAuditLog" "tx_shape env L c caller entry ws"
      by blast
    then show thesis
    proof cases
      case 1
      then show thesis using r same by (simp add: commit_def)
    next
      case 2
      then show thesis using r tx changed by blast
    qed
  qed
qed

definition index_of :: "ledger \<Rightarrow> string \<Rightarrow> string list option" where
  "index_of L key =
     (case dict_get L key of None \<Rightarrow> Some [] | Some (IndexVal values) \<Rightarrow> Some values | Some _ \<Rightarrow> None)"

definition value_ok :: "string \<Rightarrow> ledger_value \<Rightarrow> bool" where
  "value_ok key v = (case v of
       RoleVal a \<Rightarrow> (\<exists>s. key = roleKey s \<and> ra_subject a = TrimSpace s) \<and> IsRoleValid (ra_role a) \<and> list_all zone_ok (ra_zones a)
     | TokenVal t \<Rightarrow> (\<exists>i. key = cztKey i)
     | NonceVal r \<Rightarrow> key = nonceKey (nr_subject r) (nr_value r)
     | AuditVal e \<Rightarrow> (\<exists>i. key = auditKeyWithSequence (ae_tx e) i)
     | IndexVal ks \<Rightarrow> key = nonceIndexKey \<or> key = auditIndexKey
     | RawVal j \<Rightarrow> (\<exists>d t. key = sensorKey d t))"

definition audit_ok :: "ledger \<Rightarrow> bool" where
  "audit_ok L \<longleftrightarrow> (\<exists>ks. index_of L auditIndexKey = Some ks \<and> distinct ks
     \<and> (\<forall>k. k \<in> set ks \<longleftrightarrow> (\<exists>e. dict_get L k = Some (AuditVal e))))"

definition ledger_ok :: "ledger \<Rightarrow> bool" where
  "ledger_ok L \<longleftrightarrow> (\<forall>k v. dict_get L k = Some v \<longrightarrow> value_ok k v) \<and> audit_ok L"

lemma ledger_ok_empty: "ledger_ok []"
  by (simp add: ledger_ok_def audit_ok_def index_of_def)

lemma audit_key_not_index: "tx \<noteq> ''index'' \<Longrightarrow> auditKeyWithSequence tx i \<noteq> auditIndexKey"
proof -
  have "CHR '':'' \<notin> set ''index''"
    by simp
  then have "tx @ '':'' @ nat_str i \<noteq> ''index''"
    by (metis append_Cons in_set_conv_decomp)
  then show "tx \<noteq> ''index'' \<Longrightarrow> auditKeyWithSequence tx i \<noteq> auditIndexKey"
    by (auto simp: auditKeyWithSequence_def auditIndexKey_def)
qed

lemma plain_write_ok:
  assumes "ledger_ok L" "plain_write env L caller c (k, v)"
  shows "k \<noteq> auditIndexKey" "k \<noteq> auditKeyWithSequence tx i" "v = Some w \<Longrightarrow> value_ok k w"
    "v \<noteq> Some (AuditVal e)" "k \<noteq> ''crl:'' @ x"
proof -
  have old: "dict_get L key = Some u \<Longrightarrow> value_ok key u" for key u
    using assms(1) by (simp add: ledger_ok_def)
  show "k \<noteq> auditIndexKey"
    using assms(2) by (cases rule: plain_writeE) (auto dest!: old simp: value_ok_def)
  show "k \<noteq> auditKeyWithSequence tx i"
    using assms(2) by (cases rule: plain_writeE) (auto dest!: old simp: value_ok_def)
  show "v \<noteq> Some (AuditVal e)"
    using assms(2) by (cases rule: plain_writeE) (auto simp: nonce_val_def)
  show "k \<noteq> ''crl:'' @ x"
    using assms(2) by (cases rule: plain_writeE) (auto dest!: old simp: value_ok_def roleKey_def nonceKey_def nonceIndexKey_def cztKey_def sensorKey_def)
  have renewed: "value_ok (roleKey subject) (RoleVal (a\<lparr>ra_expires_at := t\<rparr>))"
    if "dict_get L (roleKey (TrimSpace subject)) = Some (RoleVal a)" for subject a t
    using old [OF that] by (auto simp: value_ok_def go_space_strip)
  show "value_ok k w" if "v = Some w"
    using assms(2) that
    by (cases rule: plain_writeE) (auto simp: renewed, auto simp: value_ok_def nonce_val_def go_space_strip)
qed

text \<open>The committed ledger after a transaction, key by key.\<close>

lemma tx_shape_ledger:
  assumes ok: "ledger_ok L" and tx: "tx_id env \<noteq> ''index''" and shape: "tx_shape env L c caller entry ws"
  obtains keys key where "index_of L auditIndexKey = Some keys" "key \<notin> set keys" "key \<noteq> auditIndexKey"
    "dict_get L key = None" "dict_get (commit ws L) key = Some (AuditVal entry)" "\<exists>i. key = auditKeyWithSequence (tx_id env) i"
    "dict_get (commit ws L) auditIndexKey = Some (IndexVal (keys @ [key]))"
    "\<And>k. k \<noteq> key \<Longrightarrow> k \<noteq> auditIndexKey \<Longrightarrow> dict_get (commit ws L) k \<noteq> dict_get L k \<Longrightarrow>
       plain_write env L caller c (k, dict_get (commit ws L) k)"
proof -
  from shape obtain post ws1 pre where ws: "ws = post @ ws1" and au: "audited env L pre entry ws1"
    and plain: "list_all (plain_write env L caller c) (post @ pre)"
    unfolding tx_shape_def by blast
  have pw: "plain_write env L caller c (k, v)" if "(k, v) \<in> set (post @ pre)" for k v
    using plain that by (auto simp: list_all_iff)
  from au obtain keys key i where keys: "index_view env L pre auditIndexKey = Some keys"
    and key: "key = auditKeyWithSequence (tx_id env) i" "view env L pre key = None"
    and ws1: "ws1 = audit_writes env keys key entry @ pre"
    unfolding audited_def by blast
  have no_index: "(auditIndexKey, v) \<notin> set (post @ pre)" "(key, v) \<notin> set (post @ pre)" for v
    using plain_write_ok(1,2) [OF ok pw] key(1) by blast+
  then have same: "view env L pre auditIndexKey = dict_get L auditIndexKey" "view env L pre key = dict_get L key"
    by (auto intro!: view_other)
  have idx: "index_of L auditIndexKey = Some keys"
    using keys same(1) by (simp add: index_of_def index_view_def)
  have fresh: "dict_get L key = None"
    using key(2) same(2) by simp
  have "key \<notin> set keys"
    using ok idx fresh by (auto simp: ledger_ok_def audit_ok_def)
  have map_of_plain: "map_of (post @ pre) k = None" if "\<And>v. (k, v) \<notin> set (post @ pre)" for k
    using that by (meson map_of_SomeD not_None_eq)
  have none: "map_of post auditIndexKey = None" "map_of post key = None"
    using map_of_plain [OF no_index(1)] map_of_plain [OF no_index(2)] by (simp_all add: map_add_None)
  have kne: "key \<noteq> auditIndexKey"
    using audit_key_not_index [OF tx] key(1) by simp
  have commit: "dict_get (commit ws L) auditIndexKey = Some (IndexVal (keys @ [key]))"
    "dict_get (commit ws L) key = Some (AuditVal entry)"
    using none kne by (simp_all add: commit_get ws ws1 audit_writes_def map_add_def)
  have "plain_write env L caller c (k, dict_get (commit ws L) k)"
    if "k \<noteq> key" "k \<noteq> auditIndexKey" "dict_get (commit ws L) k \<noteq> dict_get L k" for k
    using commit_changed [OF that(3)] that(1,2) pw by (auto simp: ws ws1 audit_writes_def)
  then show thesis
    using that [of keys key] idx \<open>key \<notin> set keys\<close> kne fresh commit key(1) by blast
qed

lemma ledger_ok_commit:
  assumes ok: "ledger_ok L" and tx: "tx_id env \<noteq> ''index''" and shape: "tx_shape env L c caller entry ws"
  shows "ledger_ok (commit ws L)"
proof -
  from tx_shape_ledger [OF assms] obtain keys key where
    l: "index_of L auditIndexKey = Some keys" "key \<notin> set keys" "key \<noteq> auditIndexKey" "dict_get L key = None"
    "dict_get (commit ws L) key = Some (AuditVal entry)" "\<exists>i. key = auditKeyWithSequence (tx_id env) i"
    "dict_get (commit ws L) auditIndexKey = Some (IndexVal (keys @ [key]))"
    and other: "\<And>k. k \<noteq> key \<Longrightarrow> k \<noteq> auditIndexKey \<Longrightarrow> dict_get (commit ws L) k \<noteq> dict_get L k \<Longrightarrow>
       plain_write env L caller c (k, dict_get (commit ws L) k)"
    by blast
  have tx_entry: "ae_tx entry = tx_id env"
    using shape by (simp add: tx_shape_def)
  have "value_ok k v" if v: "dict_get (commit ws L) k = Some v" for k v
  proof -
    consider "k = key" | "k = auditIndexKey" | "dict_get (commit ws L) k = dict_get L k"
      | "plain_write env L caller c (k, dict_get (commit ws L) k)"
      using other by blast
    then show ?thesis
    proof cases
      case 1
      with l(5,6) v tx_entry show ?thesis by (auto simp: value_ok_def)
    next
      case 2
      with l(7) v show ?thesis by (auto simp: value_ok_def)
    next
      case 3
      with ok v show ?thesis by (simp add: ledger_ok_def)
    next
      case 4
      with plain_write_ok(3) [OF ok 4] v show ?thesis by simp
    qed
  qed
  moreover have "audit_ok (commit ws L)"
    unfolding audit_ok_def
  proof (intro exI conjI allI)
    show "index_of (commit ws L) auditIndexKey = Some (keys @ [key])"
      using l(7) by (simp add: index_of_def)
    from ok l(1) have old: "distinct keys" "\<And>k. k \<in> set keys \<longleftrightarrow> (\<exists>e. dict_get L k = Some (AuditVal e))"
      by (auto simp: ledger_ok_def audit_ok_def)
    then show "distinct (keys @ [key])"
      using l(2) by simp
    have index_val: "dict_get L auditIndexKey \<noteq> Some (AuditVal e)" for e
      using l(1) by (auto simp: index_of_def)
    show "k \<in> set (keys @ [key]) \<longleftrightarrow> (\<exists>e. dict_get (commit ws L) k = Some (AuditVal e))" for k
    proof (cases "k = key \<or> k = auditIndexKey")
      case True
      then show ?thesis
        using l(3,5,7) old(2) index_val by auto
    next
      case False
      have "(\<exists>e. dict_get (commit ws L) k = Some (AuditVal e)) \<longleftrightarrow> (\<exists>e. dict_get L k = Some (AuditVal e))"
      proof (cases "dict_get (commit ws L) k = dict_get L k")
        case changed: False
        have pw: "plain_write env L caller c (k, dict_get (commit ws L) k)"
          using other False changed by blast
        have "dict_get L k \<noteq> Some (AuditVal e)" for e
        proof
          assume "dict_get L k = Some (AuditVal e)"
          with ok have "value_ok k (AuditVal e)"
            by (simp add: ledger_ok_def)
          then obtain i where "k = auditKeyWithSequence (ae_tx e) i"
            by (auto simp: value_ok_def)
          with plain_write_ok(2) [OF ok pw] show False by blast
        qed
        with plain_write_ok(4) [OF ok pw] show ?thesis by blast
      qed simp
      with False old(2) show ?thesis by simp
    qed
  qed
  ultimately show ?thesis
    by (simp add: ledger_ok_def)
qed

lemma ledger_ok_step:
  assumes "ledger_ok L" "ledger_step L ev L'"
  shows "ledger_ok L'"
proof -
  obtain env c res where ev: "ev = (env, c, res)" by (cases ev)
  from assms(2) [unfolded ev] show ?thesis
    using assms(1) by (cases rule: ledger_step_cases) (simp_all add: ledger_ok_commit)
qed

lemma ledger_ok_run: "ledger_run L evs L' \<Longrightarrow> ledger_ok L \<Longrightarrow> ledger_ok L'"
  by (induction rule: ledger_run.induct) (auto intro: ledger_ok_step)

end
