(* ===== verification/Hrbac_Security.thy ===== *)
theory Hrbac_Security
  imports Hrbac_Properties
begin

text \<open>
  The theorems about the chaincode, over sequences of submitted transactions that start from an empty
  ledger: what the ledger holds, what the audit log records, how often a nonce is accepted, who changes
  role assignments, what \<open>CheckAccess\<close> answers, and that no transaction revokes a certificate.
\<close>

section \<open>The effect of a successful transaction\<close>

definition accepted :: "tx_env \<times> call \<times> (string + reply) \<Rightarrow> bool" where
  "accepted ev = (case ev of (env, c, res) \<Rightarrow> c \<noteq> CallAuditLog \<and> (case res of Inl _ \<Rightarrow> False | Inr _ \<Rightarrow> True))"

text \<open>What the audit log holds for an accepted transaction.\<close>

definition records :: "ledger \<Rightarrow> string \<Rightarrow> tx_env \<times> call \<times> (string + reply) \<Rightarrow> bool" where
  "records L key ev = (case ev of (env, c, res) \<Rightarrow>
     (case (dict_get L key, caller_of env) of
        (Some (AuditVal e), Inr caller) \<Rightarrow> ae_tx e = tx_id env \<and> ae_actor e = caller_id caller
      | _ \<Rightarrow> False))"

lemma ledger_step_accepted:
  assumes "ledger_ok L" "ledger_step L (env, c, res) L'"
  obtains (same) "L' = L" "\<not> accepted (env, c, res)"
    | (changed) caller entry keys key where "accepted (env, c, res)" "caller_of env = Inr caller"
      "ae_actor entry = caller_id caller" "ae_tx entry = tx_id env"
      "\<And>n. nonce_of c = Some n \<Longrightarrow> dict_get L (nonceKey (caller_id caller) n) = None"
      "\<And>n. nonce_of c = Some n \<Longrightarrow>
         dict_get L' (nonceKey (caller_id caller) n) = Some (nonce_val env (caller_id caller) n)"
      "index_of L auditIndexKey = Some keys" "key \<notin> set keys" "key \<noteq> auditIndexKey" "dict_get L key = None"
      "\<exists>i. key = auditKeyWithSequence (tx_id env) i"
      "dict_get L' key = Some (AuditVal entry)" "dict_get L' auditIndexKey = Some (IndexVal (keys @ [key]))"
      "\<And>k. k \<noteq> key \<Longrightarrow> k \<noteq> auditIndexKey \<Longrightarrow> dict_get L' k \<noteq> dict_get L k \<Longrightarrow>
         plain_write env L caller c (k, dict_get L' k)"
  using assms(2)
proof (cases rule: ledger_step_cases)
  case same
  then show thesis using that(1) by (auto simp: accepted_def)
next
  case (changed r ws caller entry)
  note shape = changed(3)
  have nonce: "dict_get L' (nonceKey (caller_id caller) n) = Some (nonce_val env (caller_id caller) n)"
    if n: "nonce_of c = Some n" for n
  proof -
    let ?k = "nonceKey (caller_id caller) n"
    from shape obtain post ws1 pre pre1 ks where ws: "ws = post @ ws1"
      and au: "audited env L pre entry ws1" and plain: "list_all (plain_write env L caller c) (post @ pre)"
      and none: "dict_get L ?k = None" and pre: "pre = pre1 @ nonce_writes env (caller_id caller) n ks"
      unfolding tx_shape_def using n by blast
    from au obtain keys i where ws1: "ws1 = audit_writes env keys (auditKeyWithSequence (tx_id env) i) entry @ pre"
      unfolding audited_def by blast
    have stored: "v = Some (nonce_val env (caller_id caller) n)" if "plain_write env L caller c (?k, v)" for v
      using that none n by (cases rule: plain_writeE) auto
    have "map_of (post @ pre) ?k \<noteq> None"
      by (auto simp: pre nonce_writes_def map_add_def split: option.splits)
    then obtain v where v: "map_of (post @ pre) ?k = Some v" by blast
    then have "(?k, v) \<in> set (post @ pre)"
      by (rule map_of_SomeD)
    then have "v = Some (nonce_val env (caller_id caller) n)"
      using plain stored by (auto simp: list_all_iff)
    moreover have "map_of ws ?k = map_of (post @ pre) ?k"
      by (auto simp: ws ws1 audit_writes_def map_add_def split: option.splits)
    ultimately show ?thesis
      using v by (simp add: changed(2) commit_get)
  qed
  have unused: "dict_get L (nonceKey (caller_id caller) n) = None" if "nonce_of c = Some n" for n
    using shape that unfolding tx_shape_def by blast
  have who: "caller_of env = Inr caller" "ae_actor entry = caller_id caller" "ae_tx entry = tx_id env"
    using shape by (simp_all add: tx_shape_def)
  have acc: "accepted (env, c, res)"
    using changed by (simp add: accepted_def)
  from tx_shape_ledger [OF assms(1) changed(4) shape] obtain keys key where
    l: "index_of L auditIndexKey = Some keys" "key \<notin> set keys" "key \<noteq> auditIndexKey"
    "dict_get L key = None" "dict_get L' key = Some (AuditVal entry)" "\<exists>i. key = auditKeyWithSequence (tx_id env) i"
    "dict_get L' auditIndexKey = Some (IndexVal (keys @ [key]))"
    and other: "\<And>k. k \<noteq> key \<Longrightarrow> k \<noteq> auditIndexKey \<Longrightarrow> dict_get L' k \<noteq> dict_get L k \<Longrightarrow>
       plain_write env L caller c (k, dict_get L' k)"
    unfolding changed(2) by blast
  show thesis
    by (rule that(2) [OF acc who unused nonce l(1-4,6,5,7) other])
qed

lemma ledger_run_append: "ledger_run L (evs @ evs') L' \<longleftrightarrow> (\<exists>M. ledger_run L evs M \<and> ledger_run M evs' L')"
proof (induction evs arbitrary: L)
  case Nil
  then show ?case by (auto intro: run_nil elim: run_nilE)
next
  case (Cons ev evs)
  then show ?case by (auto intro: run_step elim!: run_stepE) (meson run_step)
qed

lemma ledger_okD: "ledger_ok L \<Longrightarrow> dict_get L k = Some v \<Longrightarrow> value_ok k v"
  by (simp add: ledger_ok_def)

lemmas reachable_ok = ledger_ok_run [OF _ ledger_ok_empty]

section \<open>A concrete run\<close>

text \<open>
  Transactions of the caller \<open>who\<close> with the attribute \<open>rl\<close>, at second \<open>t\<close>: an administrator assigns a role
  with nonce \<open>n1\<close>, prunes the nonces older than second 50, and uses \<open>n1\<close> again.
\<close>

definition demo_env :: "string \<Rightarrow> int \<Rightarrow> string \<Rightarrow> string \<Rightarrow> tx_env" where
  "demo_env tx t who rl =
     \<lparr>tx_id = tx, tx_time = t * 1000000000, time_fault = None, read_fault = (\<lambda>_. None), write_fault = (\<lambda>_. None),
      reads_own_writes = False, parse_rfc3339 = (\<lambda>_. Inr 9000000000000000000), time_string = (\<lambda>_. []),
      sha256_hex = (\<lambda>s. s), json_error = (\<lambda>_. None), json_wrapper = (\<lambda>_. None), json_direct = (\<lambda>_. None),
      map_order = (\<lambda>zs. zs),
      stub_attributes = Some (\<lambda>name. Inr (if name = ''hf.EnrollmentID'' then Some who
        else if name = ''role'' then Some rl else None)),
      stub_creator = None\<rparr>"

definition assign_farmer :: call where
  "assign_farmer = CallAssignRole ''f1'' ''Farmer'' ''North,East'' [] ''n1''"

definition prune_old :: call where
  "prune_old = CallPruneNonces 50 ''n2''"

definition after_call :: "tx_env \<Rightarrow> call \<Rightarrow> ledger \<Rightarrow> ledger" where
  "after_call env c L = snd (submit env (execute c) L)"

definition assigned :: ledger where
  "assigned = after_call (demo_env ''t1'' 10 ''a'' ''Admin'') assign_farmer []"

definition pruned :: ledger where
  "pruned = after_call (demo_env ''t2'' 100 ''a'' ''Admin'') prune_old assigned"

lemma demo_caller:
  "caller_of (demo_env tx t ''a'' ''Admin'') =
     Inr \<lparr>caller_id = ''a'', caller_role = ''Admin'', caller_zone = [], caller_serial = []\<rparr>"
  "caller_of (demo_env tx t ''f1'' ''Farmer'') =
     Inr \<lparr>caller_id = ''f1'', caller_role = ''Farmer'', caller_zone = [], caller_serial = []\<rparr>"
  by code_simp+

lemma demo_id: "tx_id (demo_env tx t who rl) = tx" "tx_time (demo_env tx t who rl) = t * 1000000000"
  by (simp_all add: demo_env_def)

lemma after_call_step:
  "tx_id env \<noteq> ''index'' \<Longrightarrow> fst (submit env (execute c) L) = res \<Longrightarrow> ledger_step L (env, c, res) (after_call env c L)"
  by (rule submitted) (auto simp: after_call_def)

lemma demo_steps:
  "ledger_step [] (demo_env ''t1'' 10 ''a'' ''Admin'', assign_farmer, Inr Done) assigned"
  "ledger_step assigned (demo_env ''t2'' 100 ''a'' ''Admin'', prune_old, Inr (Pruned 1)) pruned"
  "ledger_step pruned (demo_env ''t3'' 120 ''a'' ''Admin'', assign_farmer, Inr Done)
     (after_call (demo_env ''t3'' 120 ''a'' ''Admin'') assign_farmer pruned)"
proof -
  have ran: "fst (submit (demo_env ''t1'' 10 ''a'' ''Admin'') (execute assign_farmer) []) = Inr Done"
    "fst (submit (demo_env ''t2'' 100 ''a'' ''Admin'') (execute prune_old) assigned) = Inr (Pruned 1)"
    "fst (submit (demo_env ''t3'' 120 ''a'' ''Admin'') (execute assign_farmer) pruned) = Inr Done"
    by code_simp+
  show "ledger_step [] (demo_env ''t1'' 10 ''a'' ''Admin'', assign_farmer, Inr Done) assigned"
    unfolding assigned_def by (rule after_call_step [OF _ ran(1)]) (simp add: demo_id)
  show "ledger_step assigned (demo_env ''t2'' 100 ''a'' ''Admin'', prune_old, Inr (Pruned 1)) pruned"
    unfolding pruned_def by (rule after_call_step [OF _ ran(2)]) (simp add: demo_id)
  show "ledger_step pruned (demo_env ''t3'' 120 ''a'' ''Admin'', assign_farmer, Inr Done)
     (after_call (demo_env ''t3'' 120 ''a'' ''Admin'') assign_farmer pruned)"
    by (rule after_call_step [OF _ ran(3)]) (simp add: demo_id)
qed

lemma demo_runs:
  "ledger_run [] [(demo_env ''t1'' 10 ''a'' ''Admin'', assign_farmer, Inr Done)] assigned"
  "ledger_run assigned [(demo_env ''t2'' 100 ''a'' ''Admin'', prune_old, Inr (Pruned 1))] pruned"
  using demo_steps by (blast intro: run_step run_nil)+

section \<open>What the ledger holds\<close>

text \<open>
  C18. On every ledger that transactions produce, each key holds a value of its own kind: a role key the
  assignment of its subject, with a valid role and valid zones, a nonce key the record of that subject and
  nonce, an audit key an entry of that transaction; and the indexes are lists of keys.
\<close>

theorem ledger_wellformed:
  assumes "ledger_run [] evs L" "dict_get L key = Some v"
  shows "value_ok key v"
  using assms by (blast intro: ledger_okD reachable_ok)

theorem ledger_wellformed_witness:
  "\<exists>a. dict_get assigned ''role:f1'' = Some (RoleVal a) \<and> value_ok ''role:f1'' (RoleVal a)"
proof -
  have "(case dict_get assigned ''role:f1'' of Some (RoleVal a) \<Rightarrow> True | _ \<Rightarrow> False)"
    by code_simp
  then obtain a where "dict_get assigned ''role:f1'' = Some (RoleVal a)"
    by (auto split: option.splits ledger_value.splits)
  then show ?thesis
    using ledger_wellformed [OF demo_runs(1)] by blast
qed

section \<open>The audit log\<close>

lemma audit_entry_kept_step:
  assumes ok: "ledger_ok L" and step: "ledger_step L ev L'" and e: "dict_get L k = Some (AuditVal e)"
  shows "dict_get L' k = Some (AuditVal e)"
proof -
  obtain env c res where ev: "ev = (env, c, res)" by (cases ev)
  from ok e have "value_ok k (AuditVal e)" by (simp add: ledger_ok_def)
  then obtain i where i: "k = auditKeyWithSequence (ae_tx e) i" by (auto simp: value_ok_def)
  from ok step [unfolded ev] show ?thesis
  proof (cases rule: ledger_step_accepted)
    case (changed caller entry keys key)
    have "k \<noteq> key" using changed(10) e by auto
    moreover have "k \<noteq> auditIndexKey" using changed(7) e by (auto simp: index_of_def)
    moreover have "\<not> plain_write env L caller c (k, v)" for v
      using plain_write_ok(2) [OF ok] i by blast
    ultimately show ?thesis
      using changed(14) e by metis
  qed (simp add: e)
qed

lemma audit_log_run:
  assumes "ledger_run L evs L'" "ledger_ok L" "index_of L auditIndexKey = Some keys"
  shows "\<exists>new. index_of L' auditIndexKey = Some (keys @ new) \<and> list_all2 (records L') new (filter accepted evs)
    \<and> (\<forall>k e. dict_get L k = Some (AuditVal e) \<longrightarrow> dict_get L' k = Some (AuditVal e))"
  using assms
proof (induction arbitrary: keys rule: ledger_run.induct)
  case (run_nil L)
  then show ?case by simp
next
  case (run_step L ev L1 evs L2)
  obtain env c res where ev: "ev = (env, c, res)" by (cases ev)
  note ok1 = ledger_ok_step [OF run_step.prems(1) run_step.hyps(1)]
  note kept = audit_entry_kept_step [OF run_step.prems(1) run_step.hyps(1)]
  from run_step.prems(1) run_step.hyps(1) [unfolded ev] show ?case
  proof (cases rule: ledger_step_accepted)
    case same
    then show ?thesis
      using run_step.IH [OF ok1] run_step.prems(2) ev by simp
  next
    case (changed caller entry keys1 key)
    then have idx: "index_of L1 auditIndexKey = Some (keys @ [key])"
      using run_step.prems(2) by (simp add: index_of_def)
    from run_step.IH [OF ok1 idx] obtain new where new: "index_of L2 auditIndexKey = Some ((keys @ [key]) @ new)"
      "list_all2 (records L2) new (filter accepted evs)"
      "\<And>k e. dict_get L1 k = Some (AuditVal e) \<Longrightarrow> dict_get L2 k = Some (AuditVal e)"
      by blast
    have "records L2 key ev"
      using new(3) [OF changed(12)] changed(2-4) by (simp add: records_def ev)
    then show ?thesis
      using new kept changed(1) ev by (intro exI [of _ "key # new"]) simp
  qed
qed

text \<open>
  C17. The audit log records exactly the transactions that succeeded, in their order: its index lists
  one entry per accepted transaction, with the transaction id and the caller, without repetition; whatever
  is submitted later only appends to the index and leaves the old entries as they are.
\<close>

theorem audit_log_complete:
  assumes "ledger_run [] evs L" "ledger_run L evs' L'"
  shows "\<exists>keys new. index_of L auditIndexKey = Some keys \<and> index_of L' auditIndexKey = Some (keys @ new)
    \<and> list_all2 (records L) keys (filter accepted evs) \<and> list_all2 (records L') new (filter accepted evs')
    \<and> distinct (keys @ new) \<and> (\<forall>k \<in> set keys. dict_get L' k = dict_get L k)"
proof -
  note ok = reachable_ok [OF assms(1)]
  have "index_of [] auditIndexKey = Some []"
    by (simp add: index_of_def)
  from audit_log_run [OF assms(1) ledger_ok_empty this] obtain keys where
    keys: "index_of L auditIndexKey = Some keys" "list_all2 (records L) keys (filter accepted evs)"
    by auto
  from audit_log_run [OF assms(2) ok keys(1)] obtain new where
    new: "index_of L' auditIndexKey = Some (keys @ new)" "list_all2 (records L') new (filter accepted evs')"
    "\<And>k e. dict_get L k = Some (AuditVal e) \<Longrightarrow> dict_get L' k = Some (AuditVal e)"
    by blast
  have "distinct (keys @ new)"
    using ledger_ok_run [OF assms(2) ok] new(1) by (simp add: ledger_ok_def audit_ok_def)
  moreover have "dict_get L' k = dict_get L k" if "k \<in> set keys" for k
  proof -
    from ok keys(1) that obtain e where "dict_get L k = Some (AuditVal e)"
      by (auto simp: ledger_ok_def audit_ok_def)
    with new(3) show ?thesis by simp
  qed
  ultimately show ?thesis
    using keys new by blast
qed

theorem audit_log_complete_witness:
  "\<exists>keys new. index_of assigned auditIndexKey = Some keys \<and> index_of pruned auditIndexKey = Some (keys @ new)
    \<and> list_all2 (records pruned) new
      (filter accepted [(demo_env ''t2'' 100 ''a'' ''Admin'', prune_old, Inr (Pruned 1))])"
  using audit_log_complete [OF demo_runs] by blast

section \<open>Nonces\<close>

text \<open>A successful pruning by an administrator that reaches records of the given time.\<close>

fun prunes :: "int \<Rightarrow> tx_env \<times> call \<times> (string + reply) \<Rightarrow> bool" where
  "prunes t (env, CallPruneNonces before n, Inr r) \<longleftrightarrow>
     t < before \<and> (case caller_of env of Inl _ \<Rightarrow> False | Inr caller \<Rightarrow> caller_role caller = ''Admin'')"
| "prunes t ev \<longleftrightarrow> False"

lemma nonce_kept_step:
  assumes ok: "ledger_ok L" and step: "ledger_step L ev L'" and nr: "dict_get L k = Some (NonceVal nr)"
  shows "dict_get L' k = Some (NonceVal nr) \<or> prunes (nr_timestamp nr) ev"
proof (cases "dict_get L' k = dict_get L k")
  case False
  obtain env c res where ev: "ev = (env, c, res)" by (cases ev)
  from ledger_okD [OF ok nr] have k: "k = nonceKey (nr_subject nr) (nr_value nr)"
    by (simp add: value_ok_def)
  from ok step [unfolded ev] show ?thesis
  proof (cases rule: ledger_step_accepted)
    case same
    with False show ?thesis by simp
  next
    case (changed caller entry keys key)
    from changed(1) obtain r where res: "res = Inr r"
      by (auto simp: accepted_def split: sum.splits)
    have "k \<noteq> key" using changed(10) nr by auto
    then have pw: "plain_write env L caller c (k, dict_get L' k)"
      using changed(14) False k by auto
    then show ?thesis
      using nr k changed(2,5) res ev by (cases rule: plain_writeE) auto
  qed
qed (simp add: nr)

lemma nonce_kept_run:
  assumes "ledger_run L evs L'" "ledger_ok L" "dict_get L k = Some (NonceVal nr)"
  shows "dict_get L' k = Some (NonceVal nr) \<or> (\<exists>ev \<in> set evs. prunes (nr_timestamp nr) ev)"
  using assms
proof (induction rule: ledger_run.induct)
  case (run_step L ev L1 evs L2)
  then show ?case
    using nonce_kept_step [OF run_step.prems(1) run_step.hyps(1) run_step.prems(2)] ledger_ok_step by auto
qed simp

text \<open>What a successful transaction with a nonce does to the key of the nonce.\<close>

lemma nonce_step:
  assumes "ledger_ok L" "ledger_step L (env, c, Inr r) L'" "nonce_of c = Some n" "caller_of env = Inr caller"
  shows "dict_get L (nonceKey (caller_id caller) n) = None
    \<and> dict_get L' (nonceKey (caller_id caller) n) = Some (nonce_val env (caller_id caller) n)"
  using assms(1,2)
proof (cases rule: ledger_step_accepted)
  case same
  then show ?thesis using assms(3) by (auto simp: accepted_def)
qed (use assms(3,4) in auto)

text \<open>
  C16. A nonce is accepted once: if two transactions with the same nonce key succeed, an administrator
  pruned the nonces in between, with a bound later than the first transaction. Nothing else, neither
  time nor a failed transaction, makes a nonce usable again.
\<close>

theorem nonce_accepted_once:
  assumes "ledger_run [] (evs @ (env1, c1, Inr r1) # between @ [(env2, c2, Inr r2)]) L"
    and "nonce_of c1 = Some n1" "caller_of env1 = Inr caller1"
    and "nonce_of c2 = Some n2" "caller_of env2 = Inr caller2"
    and "nonceKey (caller_id caller1) n1 = nonceKey (caller_id caller2) n2"
  shows "\<exists>ev \<in> set between. prunes (unix (tx_time env1)) ev"
proof -
  obtain L1 L2 L3 where run: "ledger_run [] evs L1" "ledger_step L1 (env1, c1, Inr r1) L2"
    "ledger_run L2 between L3" "ledger_step L3 (env2, c2, Inr r2) L"
    using assms(1) by (auto simp: ledger_run_append elim!: run_stepE run_nilE)
  note ok1 = reachable_ok [OF run(1)]
  note ok2 = ledger_ok_step [OF ok1 run(2)]
  note ok3 = ledger_ok_run [OF run(3) ok2]
  from nonce_step [OF ok1 run(2) assms(2,3)]
  have "dict_get L2 (nonceKey (caller_id caller1) n1) = Some (nonce_val env1 (caller_id caller1) n1)" ..
  from nonce_kept_run [OF run(3) ok2 this [unfolded nonce_val_def]]
  show ?thesis
    using nonce_step [OF ok3 run(4) assms(4,5)] assms(6) by auto
qed

theorem nonce_accepted_once_witness:
  "\<exists>ev \<in> set [(demo_env ''t2'' 100 ''a'' ''Admin'', prune_old, Inr (Pruned 1))].
     prunes (unix (tx_time (demo_env ''t1'' 10 ''a'' ''Admin''))) ev"
proof (rule nonce_accepted_once)
  show "ledger_run [] ([] @ (demo_env ''t1'' 10 ''a'' ''Admin'', assign_farmer, Inr Done)
      # [(demo_env ''t2'' 100 ''a'' ''Admin'', prune_old, Inr (Pruned 1))]
      @ [(demo_env ''t3'' 120 ''a'' ''Admin'', assign_farmer, Inr Done)])
      (after_call (demo_env ''t3'' 120 ''a'' ''Admin'') assign_farmer pruned)"
    using demo_steps by (auto intro: run_step run_nil)
qed (simp_all add: demo_caller assign_farmer_def)

section \<open>Role assignments and certificates\<close>

text \<open>The changes of a role assignment that a transaction may make.\<close>

fun role_change :: "tx_env \<Rightarrow> ledger \<Rightarrow> caller_identity \<Rightarrow> string \<Rightarrow> ledger_value option \<Rightarrow> call \<Rightarrow> bool" where
  "role_change env L caller s v (CallAssignRole subject rl zones expiry n) \<longleftrightarrow>
     caller_role caller = ''Admin'' \<and> s = TrimSpace subject
     \<and> (case v of Some (RoleVal a) \<Rightarrow> ra_role a = TrimSpace rl \<and> IsRoleValid (ra_role a) | _ \<Rightarrow> False)"
| "role_change env L caller s v (CallRevokeRole subject n) \<longleftrightarrow>
     caller_role caller = ''Admin'' \<and> s = TrimSpace subject \<and> v = None"
| "role_change env L caller s v (CallRenewRole subject expiry n) \<longleftrightarrow>
     caller_role caller = ''Admin'' \<and> s = subject
     \<and> (case (dict_get L (roleKey (TrimSpace subject)), v) of
          (Some (RoleVal a), Some (RoleVal b)) \<Rightarrow> b = a\<lparr>ra_expires_at := ra_expires_at b\<rparr>
        | _ \<Rightarrow> False)"
| "role_change env L caller s v (CallCheckAccess user perm zone tok) \<longleftrightarrow>
     s = TrimSpace user \<and> v = None
     \<and> (case dict_get L (roleKey s) of Some (RoleVal a) \<Rightarrow> \<not> role_live env a | _ \<Rightarrow> False)"
| "role_change env L caller s v c \<longleftrightarrow> False"

text \<open>
  C15. Only administrators change role assignments: a transaction that changes what a role key holds
  is an assignment, a revocation or a renewal by a caller with the role \<open>Admin\<close>, with the value that transaction
  promises, or a \<open>CheckAccess\<close> that removes an expired assignment.
\<close>

theorem role_changes_authorised:
  assumes "ledger_run [] evs L" "ledger_step L (env, c, res) L'"
    and "dict_get L' (roleKey s) \<noteq> dict_get L (roleKey s)"
  shows "\<exists>caller. caller_of env = Inr caller \<and> role_change env L caller s (dict_get L' (roleKey s)) c"
  using reachable_ok [OF assms(1)] assms(2)
proof (cases rule: ledger_step_accepted)
  case (changed caller entry keys key)
  have "roleKey s \<noteq> key" using changed(11) by auto
  then have "plain_write env L caller c (roleKey s, dict_get L' (roleKey s))"
    using changed(14) assms(3) by auto
  then have "role_change env L caller s (dict_get L' (roleKey s)) c"
    using assms(3)
    by (cases rule: plain_writeE) (auto dest: ledger_okD [OF reachable_ok [OF assms(1)]] simp: value_ok_def)
  then show ?thesis using changed(2) by blast
qed (use assms(3) in simp)

theorem role_changes_authorised_witness:
  "\<exists>caller. caller_of (demo_env ''t1'' 10 ''a'' ''Admin'') = Inr caller
    \<and> role_change (demo_env ''t1'' 10 ''a'' ''Admin'') [] caller ''f1'' (dict_get assigned (roleKey ''f1'')) assign_farmer"
proof (rule role_changes_authorised [OF run_nil demo_steps(1)])
  have "dict_get assigned (roleKey ''f1'') \<noteq> None"
    by code_simp
  then show "dict_get assigned (roleKey ''f1'') \<noteq> dict_get [] (roleKey ''f1'')"
    by simp
qed

text \<open>
  C19. No transaction revokes a certificate: \<open>CheckAccess\<close> looks for the serial number under \<open>crl:\<close>, but on
  every ledger that transactions produce no such key exists, so the check never finds a revoked
  certificate.
\<close>

theorem revocation_never_recorded:
  assumes "ledger_run [] evs L"
  shows "dict_get L (''crl:'' @ serial) = None \<and> certificate_revoked caller env L [] \<noteq> Inr (True, ws)"
proof -
  have "\<not> value_ok (''crl:'' @ s) v" for s v
    by (auto simp: value_ok_def roleKey_def nonceKey_def cztKey_def sensorKey_def auditKeyWithSequence_def
        auditIndexKey_def nonceIndexKey_def split: ledger_value.splits)
  then have none: "dict_get L (''crl:'' @ s) = None" for s
    using reachable_ok [OF assms] unfolding ledger_ok_def by (metis option.exhaust)
  then show ?thesis
    using certificate_revoked_Inr [of caller env L "[]" True ws] by auto
qed

theorem revocation_never_recorded_witness:
  "dict_get assigned (''crl:'' @ ''2a'') = None"
  using revocation_never_recorded [OF demo_runs(1)] by blast

section \<open>The answer of CheckAccess\<close>

text \<open>
  An environment in which the stub answers every call. Then the contract's own errors are the only ones,
  and on a reachable ledger there are none, so every check of an identified caller is answered.
\<close>

definition no_faults :: "tx_env \<Rightarrow> bool" where
  "no_faults env \<longleftrightarrow> time_fault env = None \<and> (\<forall>k. read_fault env k = None \<and> write_fault env k = None)"

lemma writeAuditEntry_total:
  assumes "no_faults env" "index_view env L ws auditIndexKey = Some keys"
  shows "\<exists>key ws'. writeAuditEntry actor action resource dec reason env L ws = Inr (key, ws')"
  using assms audit_slot_total [of env 0 L ws]
  by (auto simp: writeAuditEntry_def tx_simps no_faults_def)

lemma deny_total:
  assumes "no_faults env" "index_view env L ws auditIndexKey = Some keys"
  shows "\<exists>b ws'. deny caller resource reason env L ws = Inr (b, ws')"
  using writeAuditEntry_total [OF assms] by (simp add: deny_def tx_simps) blast

lemma zone_verdict_total:
  assumes "no_faults env" "ledger_ok L"
  shows "\<exists>v. zone_verdict a perm zone tok user env L [] = Inr (v, [])"
proof -
  have "\<exists>v. validCrossZoneToken tok user zone env L [] = Inr (v, [])"
  proof (cases "dict_get L (cztKey (TrimSpace tok))")
    case None
    then show ?thesis using assms(1) by (simp add: validCrossZoneToken_def tx_simps no_faults_def)
  next
    case (Some v)
    with ledger_okD [OF assms(2) this] obtain t where "v = TokenVal t"
      by (auto simp: value_ok_def split: ledger_value.splits)
    with Some show ?thesis using assms(1) by (simp add: validCrossZoneToken_def tx_simps no_faults_def)
  qed
  then show ?thesis
    by (auto simp: zone_verdict_def tx_simps split: option.splits)
qed

lemma decide_access_total:
  assumes "no_faults env" "ledger_ok L" "index_view env L [] auditIndexKey = Some keys"
  shows "\<exists>b ws. decide_access caller a perm resource zone tok user env L [] = Inr (b, ws)"
proof -
  from zone_verdict_total [OF assms(1,2)] obtain v where
    "zone_verdict a perm zone tok user env L [] = Inr (v, [])"
    by blast
  then show ?thesis
    using deny_total [OF assms(1,3)] writeAuditEntry_total [OF assms(1,3)]
    by (cases v) (simp_all add: decide_access_def tx_simps, blast+)
qed

lemma CheckAccess_total:
  assumes "no_faults env" "ledger_ok L" "caller_of env = Inr caller"
  shows "\<exists>b ws. CheckAccess user perm zone tok env L [] = Inr (b, ws)"
proof -
  from assms(2) obtain keys where keys: "index_of L auditIndexKey = Some keys"
    by (auto simp: ledger_ok_def audit_ok_def)
  have idx: "index_view env L ws auditIndexKey = Some keys"
    if "ws = [] \<or> ws = [(roleKey (TrimSpace user), None)]" for ws
  proof -
    have "view env L ws auditIndexKey = dict_get L auditIndexKey"
      using that by (intro view_other) auto
    then show ?thesis
      using keys by (simp add: index_view_def index_of_def)
  qed
  note denied = deny_total [OF assms(1) idx]
  have after: "\<exists>b ws. after_role caller a (TrimSpace perm) (TrimSpace zone) zone tok (TrimSpace user) env L [] = Inr (b, ws)" for a
  proof (cases "checkRoleExpiration a env L []")
    case (Inl e)
    have "deleteState (roleKey (TrimSpace user)) env L [] = Inr ((), [(roleKey (TrimSpace user), None)])"
      using assms(1) by (simp add: tx_simps no_faults_def)
    with Inl show ?thesis
      using denied [of "[(roleKey (TrimSpace user), None)]"]
      by (simp add: after_role_def bind_tx_def attempt_def)
  next
    case (Inr r)
    then have "checkRoleExpiration a env L [] = Inr ((), [])"
      by (cases r) (auto simp: tx_simps)
    then show ?thesis
      using decide_access_total [OF assms(1,2) idx]
      by (simp add: after_role_def bind_tx_def attempt_def)
  qed
  have "\<exists>revoked. certificate_revoked caller env L [] = Inr (revoked, [])"
    using assms(1) by (cases "caller_serial caller = []") (simp_all add: certificate_revoked_def tx_simps no_faults_def, blast)
  then obtain revoked where rev: "certificate_revoked caller env L [] = Inr (revoked, [])"
    by blast
  show ?thesis
  proof (cases revoked)
    case True
    then show ?thesis
      using rev denied [of "[]"] assms(3) by (simp add: CheckAccess_unfold bind_tx_def getCallerIdentity_def)
  next
    case False
    have "\<exists>b ws. (case found of
              Inl e \<Rightarrow> deny caller (TrimSpace zone) e
            | Inr a \<Rightarrow> after_role caller a (TrimSpace perm) (TrimSpace zone) zone tok (TrimSpace user)) env L []
        = Inr (b, ws)" for found
      using denied [of "[]"] after by (cases found) simp_all
    moreover obtain found where "attempt (getRoleAssignment (TrimSpace user)) env L [] = Inr (found, [])"
      by (cases "getRoleAssignment (TrimSpace user) env L []") (auto simp: tx_simps)
    ultimately show ?thesis
      using rev False assms(3) by (simp add: CheckAccess_unfold bind_tx_def getCallerIdentity_def)
  qed
qed

text \<open>
  C14. On every ledger that transactions produce and whenever the peer answers, \<open>CheckAccess\<close> returns for an
  identified caller without an error, and its answer is the access rule: the certificate is not revoked, the
  subject has an assignment that has not expired and grants the permission, and for the zone permissions the
  zone is assigned or a valid token of the subject covers it.
\<close>

theorem access_decision:
  assumes "ledger_run [] evs L" "no_faults env" "caller_of env = Inr caller"
  shows "\<exists>ws. CheckAccess user perm zone tok env L [] =
    Inr (access_allowed env (dict_get L) caller (TrimSpace user) (TrimSpace perm) zone tok, ws)"
proof -
  from CheckAccess_total [OF assms(2) reachable_ok [OF assms(1)] assms(3)] obtain b ws where
    b: "CheckAccess user perm zone tok env L [] = Inr (b, ws)"
    by blast
  have "view env L [] = dict_get L"
    by (rule ext) simp
  then have "b = access_allowed env (dict_get L) caller (TrimSpace user) (TrimSpace perm) zone tok"
    using CheckAccess_Inr [OF b] assms(2,3) by (auto simp: check_outcome_def no_faults_def Let_def)
  with b show ?thesis by blast
qed

theorem access_decision_witness:
  "\<exists>ws. CheckAccess ''f1'' ''WriteSensor'' ''North'' [] (demo_env ''t4'' 130 ''f1'' ''Farmer'') assigned [] = Inr (True, ws)"
proof -
  have "no_faults (demo_env ''t4'' 130 ''f1'' ''Farmer'')"
    by (simp add: no_faults_def demo_env_def)
  moreover have "access_allowed (demo_env ''t4'' 130 ''f1'' ''Farmer'') (dict_get assigned)
      \<lparr>caller_id = ''f1'', caller_role = ''Farmer'', caller_zone = [], caller_serial = []\<rparr>
      (TrimSpace ''f1'') (TrimSpace ''WriteSensor'') ''North'' []"
    by code_simp
  ultimately show ?thesis
    using access_decision [OF demo_runs(1) _ demo_caller(2)] by metis
qed

section \<open>The chaincode and the security tests' model\<close>

lemma add_permissions_set: "set (add_permissions ps acc) = set acc \<union> set ps"
  unfolding add_permissions_def by (induction ps arbitrary: acc) auto

lemma GetEffectivePermissions_set:
  "set (GetEffectivePermissions r) = oracle_permissions r ROLE_PERMISSIONS_DEPLOYED ROLE_ANCESTORS_DEPLOYED"
proof -
  have loop: "set (foldl (\<lambda>acc rl. add_permissions (f rl) acc) acc as) = fold (\<lambda>anc out. out \<union> set (f anc)) as (set acc)"
    for f :: "string \<Rightarrow> string list" and as acc
    by (induction as arbitrary: acc) (simp_all add: add_permissions_set)
  have "rolePermissions = ROLE_PERMISSIONS_DEPLOYED" "roleAncestors = ROLE_ANCESTORS_DEPLOYED"
    by (simp_all only: rolePermissions_def ROLE_PERMISSIONS_DEPLOYED_def roleAncestors_def ROLE_ANCESTORS_DEPLOYED_def)
  then show ?thesis
    by (simp add: GetEffectivePermissions_def oracle_permissions_def loop split: option.splits)
qed

lemma grants_any_iff: "grants_any ps perm \<longleftrightarrow> perm \<in> set ps \<or> ''AdminAll'' \<in> set ps"
  by (induction ps) auto

text \<open>
  C20. The permission check of the chaincode is the one the security oracle transcribes, except that the
  chaincode refuses the empty permission to everyone, and the guard of the two token transactions is the
  guard the security tests assume.
\<close>

theorem chaincode_permissions_match:
  "(hasPermission r p \<longleftrightarrow> p \<noteq> [] \<and> has_permission r p ROLE_PERMISSIONS_DEPLOYED ROLE_ANCESTORS_DEPLOYED)
   \<and> (may_issue (caller\<lparr>caller_role := role_value q\<rparr>) \<longleftrightarrow> issue_token_guard q)"
proof -
  have match: "hasPermission r p \<longleftrightarrow> p \<noteq> [] \<and> has_permission r p ROLE_PERMISSIONS_DEPLOYED ROLE_ANCESTORS_DEPLOYED" for r p
    by (simp add: hasPermission_def grants_any_iff GetEffectivePermissions_set has_permission_def Let_def)
  from match [of "role_value q" "permission_value ISSUE_CROSS_ZONE"]
  have "may_issue (caller\<lparr>caller_role := role_value q\<rparr>) \<longleftrightarrow> issue_token_guard q"
    by (cases q) (simp_all add: may_issue_def issue_token_guard_def caller_has_def)
  with match show ?thesis by blast
qed

section \<open>What the runs show\<close>

text \<open>
  When reads do not see the writes of the same transaction, pruning rewrites the index of nonces without
  the nonce it has just recorded itself.
\<close>

lemma prune_drops_own_nonce:
  "index_of pruned nonceIndexKey = Some [] \<and>
     (case dict_get pruned (nonceKey ''a'' ''n2'') of Some (NonceVal nr) \<Rightarrow> True | _ \<Rightarrow> False)"
  by code_simp

text \<open>The stored order of the zones depends on the order in which the map is iterated.\<close>

lemma zones_follow_map_order:
  "after_call ((demo_env ''t1'' 10 ''a'' ''Admin'')\<lparr>map_order := rev\<rparr>) assign_farmer [] \<noteq> assigned"
proof -
  have "dict_get (after_call ((demo_env ''t1'' 10 ''a'' ''Admin'')\<lparr>map_order := rev\<rparr>) assign_farmer []) ''role:f1''
      \<noteq> dict_get assigned ''role:f1''"
    by code_simp
  then show ?thesis by metis
qed

text \<open>
  \<open>RenewRole\<close> with blanks around the id succeeds and writes a second assignment under a key that no
  other transaction reads; the one that is read keeps its old expiry.
\<close>

lemma renew_writes_other_key:
  "dict_get (after_call (demo_env ''t5'' 20 ''a'' ''Admin'') (CallRenewRole '' f1 '' ''2255-03-06T00:00:00Z'' ''n5'') assigned) ''role:f1''
     = dict_get assigned ''role:f1''"
  "dict_get (after_call (demo_env ''t5'' 20 ''a'' ''Admin'') (CallRenewRole '' f1 '' ''2255-03-06T00:00:00Z'' ''n5'') assigned) ''role: f1 '' \<noteq> None"
  by code_simp+

text \<open>A denied write is an error, so its audit entry and its nonce are discarded.\<close>

lemma denied_write_leaves_no_trace:
  "after_call (demo_env ''t6'' 20 ''f1'' ''Farmer'') (CallWriteSensor ''d'' ''{}'' ''South'' ''n6'') assigned = assigned
   \<and> (case fst (submit (demo_env ''t6'' 20 ''f1'' ''Farmer'') (execute (CallWriteSensor ''d'' ''{}'' ''South'' ''n6'')) assigned)
        of Inl e \<Rightarrow> e = ''access denied: WriteSensor permission required'' | Inr r \<Rightarrow> False)"
  by code_simp

text \<open>
  An administrator whose assignment is revoked still administrates: the role of the caller is read from
  the certificate, not from the ledger.
\<close>

lemma revoked_admin_assigns:
  "fst (submit (demo_env ''t8'' 30 ''b'' ''Admin'') (execute (CallAssignRole ''b'' ''Admin'' [] [] ''n8''))
     (after_call (demo_env ''t7'' 20 ''a'' ''Admin'') (CallRevokeRole ''b'' ''n7'') assigned)) = Inr Done"
  by code_simp

end
