(* ===== verification/Field_Deployment.thy ===== *)
theory Field_Deployment
  imports Py_Frame Analysis_Outputs
begin

text \<open>
  \<open>paper_iot/V10/analysis/scripts/02_field_deployment.py\<close>: the reports on the field trace. The frames of
  the script are lists of rows (\<open>field_data\<close>); reading the CSV files is left out, every cell is present,
  and a time is its wall-clock nanoseconds, all with the one offset of the trace. Standard deviation and
  quantiles are the parameter \<open>stats_lib\<close>, the text of a time is a parameter too. A report is the
  dictionary the script writes. The theorems: the counts and rates of denials agree, the two uptime
  figures are ordered and proper percentages, and the readings per day add up.
\<close>

section \<open>The trace\<close>

record decision_row =
  ad_timestamp :: int
  ad_caller_role :: string
  ad_operation :: string
  ad_decision :: string
  ad_latency_ms :: rat

record sensor_row =
  st_timestamp :: int
  st_latency_ms :: rat
  st_crt_residues_received :: int
  st_signature_valid :: bool
  st_soil_moisture :: rat
  st_temp_c :: rat

record topology_row =
  tp_sensor_id :: string
  tp_gateway_id :: string
  tp_zone :: string

record outage_row =
  og_event_type :: string
  og_duration_hours :: rat
  og_affected_component :: string

record denial_row =
  rd_timestamp :: int
  rd_caller_id :: string
  rd_deny_reason :: string

record field_data =
  AD :: "decision_row list"
  ST :: "sensor_row list"
  TOPO :: "topology_row list"
  OUT :: "outage_row list"
  REVDENY :: "denial_row list"

definition strings_val :: "string list \<Rightarrow> pyval" where
  "strings_val xs = VList (map VStr xs)"

section \<open>The reports\<close>

definition deployment_summary :: "(int \<Rightarrow> string) \<Rightarrow> field_data \<Rightarrow> payload result" where
  "deployment_summary str_time fd =
     bind_result (min_of (map ad_timestamp (AD fd))) (\<lambda>first.
     bind_result (max_of (map ad_timestamp (AD fd))) (\<lambda>last.
     let days = span_days first last;
         zones = sort (unique (map tp_zone (TOPO fd)));
         gateways = sort (unique (map tp_gateway_id (TOPO fd)))
     in bind_result (divide_by (of_nat (length (ST fd))) (of_int days)) (\<lambda>per_day.
        bind_result (pct_where (\<lambda>r. ad_decision r = ''denied'') (AD fd)) (\<lambda>denied_pct.
          Inr [(''authorization_decisions'', count_val (length (AD fd))),
               (''sensor_readings'', count_val (length (ST fd))),
               (''sensors'', count_val (nunique (map tp_sensor_id (TOPO fd)))),
               (''gateways'', count_val (nunique (map tp_gateway_id (TOPO fd)))),
               (''zones'', count_val (length zones)),
               (''zone_names'', strings_val zones),
               (''gateway_names'', strings_val gateways),
               (''deployment_start'', VStr (str_time first)),
               (''deployment_end'', VStr (str_time last)),
               (''deployment_span_days'', VInt days),
               (''sensor_writes_per_day_mean'', VFloat per_day),
               (''decision_count_by_decision'', counts_val id (value_counts (map ad_decision (AD fd)))),
               (''ordinary_denials'', count_val (count_where (\<lambda>r. ad_decision r = ''denied'') (AD fd))),
               (''ordinary_denial_rate_pct'', VFloat denied_pct),
               (''decision_by_caller_role'', counts_val id (value_counts (map ad_caller_role (AD fd)))),
               (''decision_by_operation'', counts_val id (value_counts (map ad_operation (AD fd)))),
               (''sensors_per_zone'', payload_value (map (\<lambda>(z, rows). (z, count_val (nunique (map tp_sensor_id rows))))
                  (groups tp_zone (TOPO fd))))]))))"

text \<open>The local function \<open>stats\<close>.\<close>

definition latency_stats :: "stats_lib \<Rightarrow> rat list \<Rightarrow> pyval result" where
  "latency_stats lib s =
     bind_result (mean_of s) (\<lambda>m.
     bind_result (sd_of lib s) (\<lambda>sd.
     bind_result (quantile_of lib s (95 / 100)) (\<lambda>p95.
     bind_result (quantile_of lib s (99 / 100)) (\<lambda>p99.
       Inr (payload_value [(''n'', count_val (length s)), (''mean_ms'', VFloat m), (''sd_ms'', VFloat sd),
         (''p95_ms'', VFloat p95), (''p99_ms'', VFloat p99)])))))"

text \<open>The grant rate of every pair of role and operation in the trace, by their text.\<close>

definition role_op :: "field_data \<Rightarrow> ((string \<times> string) \<times> rat) list result" where
  "role_op fd =
     map_result (\<lambda>(k, rows). bind_result (pct_where (\<lambda>r. ad_decision r = ''allowed'') rows) (\<lambda>q. Inr (k, q)))
       (groups (\<lambda>r. (ad_caller_role r, ad_operation r)) (AD fd))"

definition grant_rates :: "((string \<times> string) \<times> rat) list \<Rightarrow> (string, rat) dict" where
  "grant_rates cells = dict_of (map (\<lambda>((r, oper), q). (r @ ''|'' @ oper, q)) cells)"

definition latency_by_class :: "stats_lib \<Rightarrow> field_data \<Rightarrow> payload result" where
  "latency_by_class lib fd =
     (let checkaccess = map ad_latency_ms (filter (\<lambda>r. ad_operation r \<noteq> ''WriteSensor'') (AD fd));
          write = map st_latency_ms (ST fd)
      in bind_result (role_op fd) (\<lambda>cells.
         bind_result (latency_stats lib checkaccess) (\<lambda>nonwrite.
         bind_result (latency_stats lib write) (\<lambda>sensor_write.
         bind_result (mean_of write) (\<lambda>mw.
         bind_result (mean_of checkaccess) (\<lambda>mc.
           Inr [(''checkaccess_nonwrite'', nonwrite),
                (''sensor_write'', sensor_write),
                (''gap_ms'', VFloat (mw - mc)),
                (''role_operation_cells'', count_val (length cells)),
                (''grant_rate_min_pct'', if cells = [] then VNone else VFloat (Min (set (map snd cells)))),
                (''grant_rate_max_pct'', if cells = [] then VNone else VFloat (Max (set (map snd cells)))),
                (''grant_rate_by_cell_pct'', payload_value (map (\<lambda>(k, q). (k, VFloat q)) (grant_rates cells)))]))))))"

text \<open>\<open>set_index("timestamp").resample("1D").size()\<close>: the number of readings of every day from the first to the last.\<close>

definition writes_by_day :: "int list \<Rightarrow> int list" where
  "writes_by_day ts =
     (let days = map (\<lambda>t. t div day_ns) ts
      in if ts = [] then [] else map (\<lambda>d. int (count_list days d)) [Min (set days)..Max (set days)])"

definition hours_between :: "int \<Rightarrow> int \<Rightarrow> rat" where
  "hours_between a b = of_int (b - a) / 10 ^ 9 / 3600"

definition availability :: "field_data \<Rightarrow> payload result" where
  "availability fd =
     bind_result (min_of (map ad_timestamp (AD fd))) (\<lambda>start.
     bind_result (max_of (map ad_timestamp (AD fd))) (\<lambda>end.
     let total_hours = hours_between start end;
         durations = map og_duration_hours (OUT fd);
         outage_hours = sum_list durations;
         n_gateways = nunique (map tp_gateway_id (TOPO fd));
         writes = writes_by_day (map st_timestamp (ST fd))
     in bind_result (divide_by outage_hours total_hours) (\<lambda>down.
        bind_result (divide_by outage_hours (total_hours * of_nat n_gateways)) (\<lambda>gateway_down.
        bind_result (min_of durations) (\<lambda>dmin.
        bind_result (max_of durations) (\<lambda>dmax.
        bind_result (min_of writes) (\<lambda>wmin.
        bind_result (max_of writes) (\<lambda>wmax.
          Inr [(''total_deployment_hours'', VFloat total_hours),
               (''outage_count'', count_val (length (OUT fd))),
               (''outage_durations_hours'', VList (map VFloat durations)),
               (''outage_total_hours'', VFloat outage_hours),
               (''outage_min_hours'', VFloat dmin),
               (''outage_max_hours'', VFloat dmax),
               (''outage_types'', strings_val (map og_event_type (OUT fd))),
               (''outage_affected_components'', strings_val (map og_affected_component (OUT fd))),
               (''decision_path_uptime_pct'', VFloat ((1 - down) * 100)),
               (''gateway_hour_uptime_pct'', VFloat ((1 - gateway_down) * 100)),
               (''sensor_writes_per_day_min'', VInt wmin),
               (''sensor_writes_per_day_max'', VInt wmax),
               (''sensor_writes_per_day_constant'', VBool (wmin = wmax)),
               (''days_observed'', count_val (length writes))]))))))))"

definition field_revocation_denials :: "field_data \<Rightarrow> payload result" where
  "field_revocation_denials fd =
     bind_result (min_of (map rd_timestamp (REVDENY fd))) (\<lambda>first.
     bind_result (max_of (map rd_timestamp (REVDENY fd))) (\<lambda>last.
     let days = span_days first last
     in bind_result (divide_by (of_nat (length (REVDENY fd))) (of_int days)) (\<lambda>per_day.
        Inr [(''field_revocation_denial_count'', count_val (length (REVDENY fd))),
             (''per_day_mean'', VFloat per_day),
             (''deny_reason_counts'', counts_val id (value_counts (map rd_deny_reason (REVDENY fd)))),
             (''span_days'', VInt days),
             (''unique_callers'', count_val (nunique (map rd_caller_id (REVDENY fd))))])))"

definition bool_str :: "bool \<Rightarrow> string" where
  "bool_str b = (if b then ''True'' else ''False'')"

definition crt_field_summary :: "field_data \<Rightarrow> payload result" where
  "crt_field_summary fd =
     bind_result (pct_where st_signature_valid (ST fd)) (\<lambda>valid_pct.
     bind_result (min_of (map st_soil_moisture (ST fd))) (\<lambda>soil_min.
     bind_result (max_of (map st_soil_moisture (ST fd))) (\<lambda>soil_max.
     bind_result (min_of (map st_temp_c (ST fd))) (\<lambda>temp_min.
     bind_result (max_of (map st_temp_c (ST fd))) (\<lambda>temp_max.
       Inr [(''crt_residues_received_counts'', counts_val int_str (value_counts (map st_crt_residues_received (ST fd)))),
            (''signature_valid_counts'', counts_val bool_str (value_counts (map st_signature_valid (ST fd)))),
            (''signature_valid_pct'', VFloat valid_pct),
            (''soil_moisture_min'', VFloat soil_min),
            (''soil_moisture_max'', VFloat soil_max),
            (''temp_c_min'', VFloat temp_min),
            (''temp_c_max'', VFloat temp_max)])))))"

text \<open>The five files, in the order in which they are written; an exception ends the script.\<close>

definition field_main :: "stats_lib \<Rightarrow> (int \<Rightarrow> string) \<Rightarrow> field_data \<Rightarrow> (string \<times> pyval) list result" where
  "field_main lib str_time fd =
     map_result (\<lambda>(name, report). bind_result report (\<lambda>d. Inr (name, payload_value d)))
       [(''02_deployment_summary.json'', deployment_summary str_time fd),
        (''02_latency_by_class.json'', latency_by_class lib fd),
        (''02_availability.json'', availability fd),
        (''02_field_revocation_denials.json'', field_revocation_denials fd),
        (''02_crt_field_summary.json'', crt_field_summary fd)]"

section \<open>Denials\<close>

lemma count_where_eq: "count_where (\<lambda>r. f r = x) rows = count_list (map f rows) x"
  by (induction rows) (simp_all add: count_where_def)

lemma min_le_max: "min_of xs = Inr a \<Longrightarrow> max_of xs = Inr b \<Longrightarrow> a \<le> b"
  by (auto simp: frame_Inr)

lemma span_days_pos: "a \<le> b \<Longrightarrow> 1 \<le> span_days a b"
  by (simp add: span_days_def day_ns_def pos_imp_zdiv_nonneg_iff)

text \<open>Every sensor is counted in at least one zone.\<close>

lemma nunique_groups: "nunique (map f rows) \<le> (\<Sum>(k, rs) \<leftarrow> groups key rows. nunique (map f rs))"
proof -
  let ?ks = "sort (remdups (map key rows))"
  have "f ` set rows = (\<Union>k \<in> set ?ks. f ` set (filter (\<lambda>r. key r = k) rows))"
    by auto
  then have "nunique (map f rows) = card (\<Union>k \<in> set ?ks. f ` set (filter (\<lambda>r. key r = k) rows))"
    by (simp add: nunique_card)
  also have "\<dots> \<le> (\<Sum>k \<in> set ?ks. card (f ` set (filter (\<lambda>r. key r = k) rows)))"
    by (rule card_UN_le) simp
  also have "\<dots> = (\<Sum>(k, rs) \<leftarrow> groups key rows. nunique (map f rs))"
    by (simp add: groups_def comp_def nunique_card sum_list_distinct_conv_sum_set)
  finally show ?thesis .
qed

text \<open>
  The counts of the deployment summary agree: the denials are the count of the value \<open>denied\<close> among the
  decisions, the counts of all decisions add up to the number of decisions, the denial rate is their
  quotient and a percentage, and the daily mean times the days, which are at least one, is the number
  of readings.
\<close>

theorem deployment_counts_agree:
  assumes "deployment_summary str_time fd = Inr d"
  shows "\<exists>days mean. let n = length (AD fd); denied = count_list (map ad_decision (AD fd)) ''denied'';
      counts = value_counts (map ad_decision (AD fd))
    in payload_get d ''authorization_decisions'' = count_val n
     \<and> payload_get d ''ordinary_denials'' = count_val denied
     \<and> payload_get d ''decision_count_by_decision'' = counts_val id counts
     \<and> sum_list (map snd counts) = n \<and> (0 < denied \<longrightarrow> dict_get counts ''denied'' = Some denied)
     \<and> payload_get d ''ordinary_denial_rate_pct'' = VFloat (of_nat denied / of_nat n * 100)
     \<and> of_nat denied / of_nat n * 100 \<in> {0..100 :: rat}
     \<and> payload_get d ''deployment_span_days'' = VInt days \<and> 1 \<le> days
     \<and> payload_get d ''sensor_writes_per_day_mean'' = VFloat mean \<and> mean * of_int days = of_nat (length (ST fd))"
proof -
  from assms obtain first last mean denied_pct where
    f: "min_of (map ad_timestamp (AD fd)) = Inr first" "max_of (map ad_timestamp (AD fd)) = Inr last"
    "divide_by (of_nat (length (ST fd))) (of_int (span_days first last)) = Inr mean"
    and pct: "pct_where (\<lambda>r. ad_decision r = ''denied'') (AD fd) = Inr denied_pct"
    and d: "payload_get d ''authorization_decisions'' = count_val (length (AD fd))"
      "payload_get d ''ordinary_denials'' = count_val (count_where (\<lambda>r. ad_decision r = ''denied'') (AD fd))"
      "payload_get d ''decision_count_by_decision'' = counts_val id (value_counts (map ad_decision (AD fd)))"
      "payload_get d ''ordinary_denial_rate_pct'' = VFloat denied_pct"
      "payload_get d ''deployment_span_days'' = VInt (span_days first last)"
      "payload_get d ''sensor_writes_per_day_mean'' = VFloat mean"
    by (auto simp: deployment_summary_def Let_def result_simps payload_get_def)
  have days: "1 \<le> span_days first last"
    by (rule span_days_pos [OF min_le_max [OF f(1,2)]])
  have counted: "dict_get (value_counts (map ad_decision (AD fd))) ''denied'' =
      Some (count_list (map ad_decision (AD fd)) ''denied'')"
    if "0 < count_list (map ad_decision (AD fd)) ''denied''"
    using that by (metis count_list_0_iff less_numeral_extra(3) value_counts_get)
  have "mean * of_int (span_days first last) = of_nat (length (ST fd))"
    using f(3) by (simp add: frame_Inr)
  then show ?thesis
    using d days pct pct_where_bounds [OF pct] counted value_counts_total [of "map ad_decision (AD fd)"]
    by (intro exI [of _ "span_days first last"] exI [of _ mean]) (simp add: pct_where_Inr Let_def count_where_eq)
qed

section \<open>Availability\<close>

lemma writes_by_day_sum: "sum_list (writes_by_day ts) = int (length ts)"
proof (cases "ts = []")
  case False
  let ?days = "map (\<lambda>t. t div day_ns) ts"
  let ?ds = "[Min (set ?days)..Max (set ?days)]"
  have "set ?days \<subseteq> set ?ds"
    using False by auto
  then have "(\<Sum>d \<in> set ?ds. count_list ?days d) = length ?days"
    by (intro sum_count_set) simp_all
  moreover have "sum_list (writes_by_day ts) = int (\<Sum>d \<in> set ?ds. count_list ?days d)"
    using False by (simp add: writes_by_day_def Let_def sum_list_distinct_conv_sum_set)
  ultimately show ?thesis by simp
qed (simp add: writes_by_day_def)

lemma sum_between:
  assumes "\<And>x. x \<in> set xs \<Longrightarrow> lo \<le> x \<and> x \<le> (hi :: int)"
  shows "lo * int (length xs) \<le> sum_list xs" "sum_list xs \<le> hi * int (length xs)"
  using assms by (induction xs) (auto simp: algebra_simps intro: add_mono)

lemma min_max_sum:
  "min_of xs = Inr lo \<Longrightarrow> max_of xs = Inr hi \<Longrightarrow>
     lo * int (length xs) \<le> sum_list xs \<and> sum_list xs \<le> hi * int (length xs)"
  using sum_between [of xs lo hi] by (auto simp: frame_Inr)

lemma uptime_facts:
  fixes hours :: rat
  assumes "divide_by outage hours = Inr down" "divide_by outage (hours * of_nat n) = Inr gateway_down" "0 \<le> hours" "0 \<le> outage"
  shows "(100 - (1 - gateway_down) * 100) * of_nat n = 100 - (1 - down) * 100"
    "(1 - down) * 100 \<le> (1 - gateway_down) * 100" "(1 - gateway_down) * 100 \<le> 100"
    "outage \<le> hours \<Longrightarrow> 0 \<le> (1 - down) * 100"
proof -
  have n: "hours \<noteq> 0" "(of_nat n :: rat) \<noteq> 0" "down = outage / hours" "gateway_down = down / of_nat n"
    using assms(1,2) by (auto simp: frame_Inr)
  with assms(3) have pos: "0 < hours" "1 \<le> (of_nat n :: rat)"
    by (simp_all add: Suc_le_eq)
  then have "0 \<le> down"
    using assms(4) n(3) by simp
  then have "0 \<le> gateway_down" "gateway_down \<le> down"
    using pos(2) n(4) by (simp_all add: divide_le_eq mult_left_le_one_le mult_le_cancel_left1)
  then show "(1 - down) * 100 \<le> (1 - gateway_down) * 100" "(1 - gateway_down) * 100 \<le> 100"
    by simp_all
  show "(100 - (1 - gateway_down) * 100) * of_nat n = 100 - (1 - down) * 100"
    using n(2,4) by (simp add: field_simps)
  have "outage \<le> hours \<Longrightarrow> down \<le> 1"
    using pos(1) n(3) by simp
  then show "outage \<le> hours \<Longrightarrow> 0 \<le> (1 - down) * 100"
    by simp
qed

text \<open>
  C35. The availability figures are consistent: the down time per gateway-hour is the down time of the
  decision path divided by the number of gateways; with durations that are not negative and add up to at
  most the time observed both figures are percentages and the gateway figure is not the smaller
  one; and the least and the greatest number of readings per day bound the readings, so when the report
  calls them constant, readings are days times that number.
\<close>

theorem availability_consistent:
  assumes "availability fd = Inr d" "\<forall>r \<in> set (OUT fd). 0 \<le> og_duration_hours r"
  shows "\<exists>hours down path gw lo hi days.
    payload_get d ''total_deployment_hours'' = VFloat hours \<and> payload_get d ''outage_total_hours'' = VFloat down
    \<and> payload_get d ''decision_path_uptime_pct'' = VFloat path \<and> payload_get d ''gateway_hour_uptime_pct'' = VFloat gw
    \<and> (100 - gw) * of_nat (nunique (map tp_gateway_id (TOPO fd))) = 100 - path
    \<and> path \<le> gw \<and> gw \<le> 100 \<and> (down \<le> hours \<longrightarrow> 0 \<le> path)
    \<and> payload_get d ''sensor_writes_per_day_min'' = VInt lo \<and> payload_get d ''sensor_writes_per_day_max'' = VInt hi
    \<and> payload_get d ''days_observed'' = VInt days
    \<and> lo * days \<le> int (length (ST fd)) \<and> int (length (ST fd)) \<le> hi * days
    \<and> (payload_get d ''sensor_writes_per_day_constant'' = VBool True \<longrightarrow> int (length (ST fd)) = lo * days)"
proof -
  let ?durations = "map og_duration_hours (OUT fd)"
  let ?n = "of_nat (nunique (map tp_gateway_id (TOPO fd))) :: rat"
  let ?writes = "writes_by_day (map st_timestamp (ST fd))"
  from assms(1) obtain start stop down gateway_down lo hi where
    t: "min_of (map ad_timestamp (AD fd)) = Inr start" "max_of (map ad_timestamp (AD fd)) = Inr stop"
    and quot: "divide_by (sum_list ?durations) (hours_between start stop) = Inr down"
      "divide_by (sum_list ?durations) (hours_between start stop * ?n) = Inr gateway_down"
    and w: "min_of ?writes = Inr lo" "max_of ?writes = Inr hi"
    and d: "payload_get d ''total_deployment_hours'' = VFloat (hours_between start stop)"
      "payload_get d ''outage_total_hours'' = VFloat (sum_list ?durations)"
      "payload_get d ''decision_path_uptime_pct'' = VFloat ((1 - down) * 100)"
      "payload_get d ''gateway_hour_uptime_pct'' = VFloat ((1 - gateway_down) * 100)"
      "payload_get d ''sensor_writes_per_day_min'' = VInt lo" "payload_get d ''sensor_writes_per_day_max'' = VInt hi"
      "payload_get d ''days_observed'' = count_val (length ?writes)"
      "payload_get d ''sensor_writes_per_day_constant'' = VBool (lo = hi)"
    by (auto simp: availability_def Let_def result_simps payload_get_def)
  have hours: "0 \<le> hours_between start stop"
    using min_le_max [OF t] by (simp add: hours_between_def)
  have "0 \<le> sum_list ?durations"
    using assms(2) by (intro sum_list_nonneg) auto
  note facts = uptime_facts [OF quot hours this]
  have sums: "lo * int (length ?writes) \<le> int (length (ST fd))" "int (length (ST fd)) \<le> hi * int (length ?writes)"
    using min_max_sum [OF w] by (simp_all add: writes_by_day_sum)
  have regular: "payload_get d ''sensor_writes_per_day_constant'' = VBool True \<Longrightarrow>
      int (length (ST fd)) = lo * int (length ?writes)"
    using sums d(8) by simp
  show ?thesis
    by (rule exI [of _ "hours_between start stop"], rule exI [of _ "sum_list ?durations"], rule exI [of _ "(1 - down) * 100"],
        rule exI [of _ "(1 - gateway_down) * 100"], rule exI [of _ lo], rule exI [of _ hi],
        rule exI [of _ "int (length ?writes)"])
       (intro conjI impI d(1-7) facts sums regular)
qed

section \<open>A concrete trace\<close>

definition demo_field :: field_data where
  "demo_field =
     \<lparr>AD = [\<lparr>ad_timestamp = 0, ad_caller_role = ''Farmer'', ad_operation = ''ReadZone'', ad_decision = ''denied'', ad_latency_ms = 10\<rparr>,
            \<lparr>ad_timestamp = 7200000000000, ad_caller_role = ''Sensor'', ad_operation = ''WriteSensor'', ad_decision = ''allowed'', ad_latency_ms = 30\<rparr>],
      ST = [\<lparr>st_timestamp = 0, st_latency_ms = 30, st_crt_residues_received = 2, st_signature_valid = True, st_soil_moisture = 40, st_temp_c = 20\<rparr>,
            \<lparr>st_timestamp = 7200000000000, st_latency_ms = 34, st_crt_residues_received = 3, st_signature_valid = True, st_soil_moisture = 50, st_temp_c = 21\<rparr>],
      TOPO = [\<lparr>tp_sensor_id = ''s1'', tp_gateway_id = ''g1'', tp_zone = ''North''\<rparr>,
              \<lparr>tp_sensor_id = ''s2'', tp_gateway_id = ''g2'', tp_zone = ''West''\<rparr>],
      OUT = [\<lparr>og_event_type = ''reset'', og_duration_hours = 1 / 2, og_affected_component = ''g1''\<rparr>],
      REVDENY = [\<lparr>rd_timestamp = 0, rd_caller_id = ''u'', rd_deny_reason = ''REVOKED_CREDENTIAL''\<rparr>]\<rparr>"

lemmas demo_eval = demo_field_def min_of_def max_of_def mean_of_def divide_by_def pct_where_def span_days_def day_ns_def
  payload_get_def

theorem deployment_counts_agree_witness:
  "\<exists>d. deployment_summary (\<lambda>t. []) demo_field = Inr d \<and> payload_get d ''ordinary_denial_rate_pct'' = VFloat 50"
proof -
  obtain d where d: "deployment_summary (\<lambda>t. []) demo_field = Inr d"
    by (simp add: deployment_summary_def demo_eval Let_def)
  moreover have "map ad_decision (AD demo_field) = [''denied'', ''allowed'']"
    by (simp add: demo_field_def)
  ultimately show ?thesis
    using deployment_counts_agree [OF d] by (auto simp: Let_def)
qed

theorem availability_consistent_witness:
  "\<exists>d path gw. availability demo_field = Inr d \<and> payload_get d ''decision_path_uptime_pct'' = VFloat path
     \<and> payload_get d ''gateway_hour_uptime_pct'' = VFloat gw \<and> path \<le> gw"
proof -
  obtain d where d: "availability demo_field = Inr d"
    by (simp add: availability_def demo_eval Let_def writes_by_day_def hours_between_def nunique_def)
  moreover have "\<forall>r \<in> set (OUT demo_field). 0 \<le> og_duration_hours r"
    by (simp add: demo_field_def)
  ultimately show ?thesis
    using availability_consistent [OF d] by blast
qed

end
