(* ===== verification/Peer_Scaling.thy ===== *)
theory Peer_Scaling
  imports Py_Frame Analysis_Outputs
begin

text \<open>
  \<open>paper_iot/V10/analysis/scripts/03_peer_scaling.py\<close>: the table of runs made from the transactions, the check
  of the experiment's design, and the comparisons between peer counts. Percentiles, deviations, square
  roots, logarithms, the t distribution, the tests, the random generator and the regressions are the
  parameter \<open>peer_lib\<close>; what they return is an exact rational here. Rows with the same start time keep
  their order. The theorems: the run table is numbered as the code says, the counterbalancing check
  accepts every order in which the repetitions may have run, and the equivalence test accepts exactly
  when the 90 percent interval lies inside the margin.
\<close>

section \<open>Transactions and runs\<close>

record pr_tx =
  tx_run_id :: string
  tx_peer_count :: int
  tx_host_id :: string
  tx_session_id :: string
  tx_latency_ms :: rat
  tx_rbac_overhead_ms :: rat

record pr_run =
  pr_run_id :: string
  pr_start_timestamp :: int

record ols_fit =
  fit_nobs :: nat
  fit_rsquared :: rat
  fit_rsquared_adj :: rat
  fit_param :: "string \<Rightarrow> rat"
  fit_pvalue :: "string \<Rightarrow> rat"
  fit_shapiro_p :: rat
  fit_anova_F :: "string \<Rightarrow> rat"
  fit_anova_p :: "string \<Rightarrow> rat"

record run_row =
  run_id :: string
  peer_count :: int
  host_id :: string
  session_id :: string
  n_tx :: nat
  total_latency_mean :: rat
  total_latency_p95 :: rat
  span_mean :: rat
  remaining_mean :: rat
  remaining_p95 :: rat
  start_timestamp :: int
  serial_position :: nat
  repetition :: int
  cycle :: int
  position_in_cycle :: int
  log2_peers :: rat
  serial_c :: rat

record peer_lib =
  pl_percentile :: "rat list \<Rightarrow> rat \<Rightarrow> rat"
  pl_std :: "rat list \<Rightarrow> rat"
  pl_median :: "rat list \<Rightarrow> rat"
  pl_sqrt :: "rat \<Rightarrow> rat"
  pl_log2 :: "int \<Rightarrow> rat"
  pl_t_ppf :: "rat \<Rightarrow> nat \<Rightarrow> rat"
  pl_t_cdf :: "rat \<Rightarrow> nat \<Rightarrow> rat"
  pl_ttest_rel :: "rat list \<Rightarrow> rat list \<Rightarrow> rat \<times> rat"
  pl_linregress :: "rat list \<Rightarrow> rat list \<Rightarrow> rat \<times> rat \<times> rat \<times> rat"
  pl_resample :: "string \<Rightarrow> int \<Rightarrow> rat list \<Rightarrow> rat list list"
  pl_ols :: "string \<Rightarrow> run_row list \<Rightarrow> ols_fit"

text \<open>\<open>str.extract(r"-R(\d+)$").astype(int)\<close>; an id without a match is not a number.\<close>

definition repetition_of :: "string \<Rightarrow> int result" where
  "repetition_of rid =
     (let digits = rev (takeWhile is_digit (rev rid)); rest = dropWhile is_digit (rev rid)
      in if digits \<noteq> [] \<and> take 2 rest = ''R-''
         then case parse_int digits of None \<Rightarrow> Inl (ValueError ''cannot convert NA to integer'') | Some i \<Rightarrow> Inr i
         else Inl (ValueError ''cannot convert NA to integer''))"

text \<open>One group of transactions with the start of its run: the columns before the sort.\<close>

definition run_columns :: "peer_lib \<Rightarrow> string \<Rightarrow> pr_tx list \<Rightarrow> int \<Rightarrow> run_row result" where
  "run_columns lib rid rows start =
     (let lat = map tx_latency_ms rows; first = hd rows
      in bind_result (mean_of lat) (\<lambda>lat_mean.
         bind_result (mean_of (map tx_rbac_overhead_ms rows)) (\<lambda>span.
           let p95 = pl_percentile lib lat 95
           in Inr \<lparr>run_id = rid, peer_count = tx_peer_count first, host_id = tx_host_id first,
                   session_id = tx_session_id first, n_tx = length rows, total_latency_mean = lat_mean,
                   total_latency_p95 = p95, span_mean = span, remaining_mean = lat_mean - span,
                   remaining_p95 = p95 - span, start_timestamp = start, serial_position = 0, repetition = 0,
                   cycle = 0, position_in_cycle = 0, log2_peers = 0, serial_c = 0\<rparr>)))"

text \<open>The inner join on the run id: one row for each entry of \<open>RUNS\<close> with the id.\<close>

definition joined :: "(string \<times> pr_tx list) list \<Rightarrow> pr_run list \<Rightarrow> (string \<times> pr_tx list \<times> int) list" where
  "joined gs RUNS =
     concat (map (\<lambda>(rid, rows). map (\<lambda>r. (rid, rows, pr_start_timestamp r)) (filter (\<lambda>r. pr_run_id r = rid) RUNS)) gs)"

text \<open>The columns added after the sort; \<open>n\<close> is the number of runs.\<close>

definition place_row :: "peer_lib \<Rightarrow> nat \<Rightarrow> nat \<times> run_row \<Rightarrow> run_row result" where
  "place_row lib n = (\<lambda>(i, r).
     bind_result (repetition_of (run_id r)) (\<lambda>rep.
       Inr (r\<lparr>serial_position := i, repetition := rep, cycle := (if rep \<le> 4 then 1 else 2),
              position_in_cycle := (rep - 1) mod 4 + 1, log2_peers := pl_log2 lib (peer_count r),
              serial_c := of_nat i - of_nat (n + 1) / 2\<rparr>)))"

definition build_run_table :: "peer_lib \<Rightarrow> pr_tx list \<Rightarrow> pr_run list \<Rightarrow> run_row list result" where
  "build_run_table lib TX RUNS =
     bind_result (map_result (\<lambda>(rid, rows, start). run_columns lib rid rows start)
       (joined (groups tx_run_id TX) RUNS)) (\<lambda>agg.
       let agg = sort_key start_timestamp agg
       in map_result (place_row lib (length agg)) (zip [1..<Suc (length agg)] agg))"

section \<open>The design\<close>

definition latin_square_holds :: "run_row list \<Rightarrow> bool" where
  "latin_square_holds run_tbl =
     list_all (\<lambda>(pc, cells). list_all (\<lambda>(pos, n). n = 2) cells) (crosstab peer_count position_in_cycle run_tbl)"

definition int_counts :: "(int \<times> nat) list \<Rightarrow> pyval" where
  "int_counts cells = payload_value (map (\<lambda>(k, n). (int_str k, count_val n)) cells)"

definition counterbalancing_check :: "pr_tx list \<Rightarrow> run_row list \<Rightarrow> payload result" where
  "counterbalancing_check TX run_tbl =
     (let sizes = map (\<lambda>(rid, rows). length rows) (groups tx_run_id TX)
      in if sizes = [] then Inl (IndexError ''single positional indexer is out-of-bounds'')
         else Inr
          [(''n_runs'', count_val (length run_tbl)),
           (''n_peer_counts'', count_val (nunique (map peer_count run_tbl))),
           (''runs_per_peer_count'', int_counts (map (\<lambda>(pc, rows). (pc, length rows)) (groups peer_count run_tbl))),
           (''n_repetitions'', count_val (nunique (map repetition run_tbl))),
           (''cycles_detected'', count_val (nunique (map cycle run_tbl))),
           (''peer_count_by_position_in_cycle_crosstab'',
            payload_value (map (\<lambda>(pc, cells). (int_str pc, int_counts cells)) (crosstab peer_count position_in_cycle run_tbl))),
           (''each_config_occupies_each_position_exactly_twice'', VBool (latin_square_holds run_tbl)),
           (''host_ids_used'', VList (map VStr (sort (unique (map host_id run_tbl))))),
           (''session_ids_used'', VList (map VStr (sort (unique (map session_id run_tbl))))),
           (''single_physical_host'', VBool (nunique (map host_id run_tbl) = 1)),
           (''tx_per_run'', count_val (hd sizes)),
           (''tx_per_run_constant'', VBool (nunique sizes = 1))])"

section \<open>Statistics per peer count\<close>

definition column_val :: "string \<Rightarrow> run_row \<Rightarrow> rat" where
  "column_val col r =
     (if col = ''total_latency_mean'' then total_latency_mean r
      else if col = ''span_mean'' then span_mean r
      else if col = ''remaining_mean'' then remaining_mean r
      else total_latency_p95 r)"

definition peer_column :: "run_row list \<Rightarrow> string \<Rightarrow> rat list" where
  "peer_column rows col = map (column_val col) rows"

definition std1 :: "peer_lib \<Rightarrow> rat list \<Rightarrow> rat result" where
  "std1 lib xs = (if length xs < 2 then Inl Unmodelled else Inr (pl_std lib xs))"

definition group_stat :: "peer_lib \<Rightarrow> rat list \<Rightarrow> pyval result" where
  "group_stat lib vals =
     bind_result (mean_of vals) (\<lambda>mean.
     bind_result (std1 lib vals) (\<lambda>sd.
       let n = length vals; se = sd / pl_sqrt lib (of_nat n); tcrit = pl_t_ppf lib (975 / 1000) (n - 1)
       in Inr (payload_value [(''n'', count_val n), (''mean'', VFloat mean), (''sd'', VFloat sd),
            (''median'', VFloat (pl_median lib vals)),
            (''ci95_low'', VFloat (mean - tcrit * se)), (''ci95_high'', VFloat (mean + tcrit * se))])))"

text \<open>A report by peer count; the keys are texts in the written file.\<close>

definition by_peer_count :: "(int \<Rightarrow> run_row list \<Rightarrow> pyval result) \<Rightarrow> run_row list \<Rightarrow> pyval result" where
  "by_peer_count f run_tbl =
     bind_result (map_result (\<lambda>(pc, grp). bind_result (f pc grp) (\<lambda>v. Inr (int_str pc, v))) (groups peer_count run_tbl))
       (\<lambda>out. Inr (payload_value out))"

definition group_stats :: "peer_lib \<Rightarrow> run_row list \<Rightarrow> string \<Rightarrow> pyval result" where
  "group_stats lib run_tbl col = by_peer_count (\<lambda>pc grp. group_stat lib (peer_column grp col)) run_tbl"

definition bootstrap_group_p95_ci :: "peer_lib \<Rightarrow> run_row list \<Rightarrow> string \<Rightarrow> pyval result" where
  "bootstrap_group_p95_ci lib run_tbl col =
     by_peer_count (\<lambda>pc grp.
       let vals = peer_column grp col
       in bind_result (map_result mean_of (pl_resample lib col pc vals)) (\<lambda>boots.
          bind_result (mean_of vals) (\<lambda>mean.
            Inr (payload_value [(''mean'', VFloat mean), (''ci95_low'', VFloat (pl_percentile lib boots (25 / 10))),
              (''ci95_high'', VFloat (pl_percentile lib boots (975 / 10)))])))) run_tbl"

definition log_linear_fit :: "peer_lib \<Rightarrow> run_row list \<Rightarrow> string \<Rightarrow> pyval result" where
  "log_linear_fit lib run_tbl col =
     bind_result (map_result (\<lambda>(pc, grp). bind_result (mean_of (peer_column grp col)) (\<lambda>m. Inr (pc, m)))
       (groups peer_count run_tbl)) (\<lambda>means.
       let (slope, intercept, r, p) = pl_linregress lib (map (\<lambda>(pc, m). pl_log2 lib pc) means) (map snd means)
       in Inr (payload_value [(''slope_per_doubling'', VFloat slope), (''intercept'', VFloat intercept),
            (''r2'', VFloat (r ^ 2)), (''p'', VFloat p), (''n_configs'', count_val (length means))]))"

section \<open>The extreme peer counts\<close>

text \<open>\<open>lo.merge(hi, on="repetition")\<close>: the pairs with the same repetition.\<close>

definition extreme_pairs :: "run_row list \<Rightarrow> (run_row \<times> run_row) list" where
  "extreme_pairs run_tbl =
     (let lo = sort_key repetition (filter (\<lambda>r. peer_count r = 4) run_tbl);
          hi = sort_key repetition (filter (\<lambda>r. peer_count r = 32) run_tbl)
      in concat (map (\<lambda>a. map (\<lambda>b. (a, b)) (filter (\<lambda>b. repetition b = repetition a) hi)) lo))"

definition tost_p :: "peer_lib \<Rightarrow> nat \<Rightarrow> rat \<Rightarrow> rat \<Rightarrow> rat \<Rightarrow> rat" where
  "tost_p lib n mean_d se_d margin_ms =
     (let t_low = (mean_d - (- margin_ms)) / se_d; t_high = (mean_d - margin_ms) / se_d;
          p_tost_low = 1 - pl_t_cdf lib t_low (n - 1); p_tost_high = pl_t_cdf lib t_high (n - 1)
      in max p_tost_low p_tost_high)"

definition pairwise_extreme :: "peer_lib \<Rightarrow> run_row list \<Rightarrow> string \<Rightarrow> rat \<Rightarrow> payload result" where
  "pairwise_extreme lib run_tbl col margin_ms =
     (let merged = extreme_pairs run_tbl;
          xs = map (\<lambda>(a, b). column_val col a) merged; ys = map (\<lambda>(a, b). column_val col b) merged;
          diffs = map (\<lambda>(a, b). column_val col a - column_val col b) merged; n = length diffs
      in bind_result (mean_of diffs) (\<lambda>mean_d.
         bind_result (std1 lib diffs) (\<lambda>sd_d.
         if \<not> 0 < sd_d then Inl Unmodelled
         else
           let se_d = sd_d / pl_sqrt lib (of_nat n);
               t90 = pl_t_ppf lib (95 / 100) (n - 1); t95 = pl_t_ppf lib (975 / 1000) (n - 1);
               p_tost = tost_p lib n mean_d se_d margin_ms
           in Inr [(''n_pairs'', count_val n),
                   (''block_level_differences'', payload_value (dict_of (map (\<lambda>((a, b), d). (int_str (repetition a), VFloat d))
                      (zip merged diffs)))),
                   (''mean_diff_4_minus_32'', VFloat mean_d),
                   (''sd_diff'', VFloat sd_d),
                   (''ci95_low'', VFloat (mean_d - t95 * se_d)), (''ci95_high'', VFloat (mean_d + t95 * se_d)),
                   (''ci90_low'', VFloat (mean_d - t90 * se_d)), (''ci90_high'', VFloat (mean_d + t90 * se_d)),
                   (''paired_t'', VFloat (fst (pl_ttest_rel lib xs ys))),
                   (''paired_p'', VFloat (snd (pl_ttest_rel lib xs ys))),
                   (''cohens_d'', VFloat (mean_d / sd_d)),
                   (''tost_margin_ms'', VFloat margin_ms),
                   (''tost_p'', VFloat p_tost),
                   (''tost_equivalent_at_alpha_05'', VBool (p_tost < 5 / 100))])))"

section \<open>Regressions and the report\<close>

definition order_effect_model :: "peer_lib \<Rightarrow> run_row list \<Rightarrow> string \<Rightarrow> pyval" where
  "order_effect_model lib run_tbl col =
     (let fit = pl_ols lib (col @ '' ~ log2_peers + serial_c'') run_tbl
      in payload_value [(''n'', count_val (fit_nobs fit)), (''r2'', VFloat (fit_rsquared fit)),
           (''log2_peers_coef'', VFloat (fit_param fit ''log2_peers'')), (''log2_peers_p'', VFloat (fit_pvalue fit ''log2_peers'')),
           (''serial_c_coef'', VFloat (fit_param fit ''serial_c'')), (''serial_c_p'', VFloat (fit_pvalue fit ''serial_c'')),
           (''intercept'', VFloat (fit_param fit ''Intercept''))])"

definition block_design_model :: "peer_lib \<Rightarrow> run_row list \<Rightarrow> string \<Rightarrow> pyval" where
  "block_design_model lib run_tbl col =
     (let fit = pl_ols lib (col @ '' ~ C(peer_count) + C(block) + serial_position'') run_tbl
      in payload_value [(''n'', count_val (fit_nobs fit)), (''r2'', VFloat (fit_rsquared fit)),
           (''r2_adj'', VFloat (fit_rsquared_adj fit)),
           (''peer_count_F'', VFloat (fit_anova_F fit ''C(peer_count)'')), (''peer_count_p'', VFloat (fit_anova_p fit ''C(peer_count)'')),
           (''block_F'', VFloat (fit_anova_F fit ''C(block)'')), (''block_p'', VFloat (fit_anova_p fit ''C(block)'')),
           (''serial_position_F'', VFloat (fit_anova_F fit ''serial_position'')),
           (''serial_position_p'', VFloat (fit_anova_p fit ''serial_position'')),
           (''residual_shapiro_p'', VFloat (fit_shapiro_p fit))])"

definition sensitivity_without_extremes :: "peer_lib \<Rightarrow> run_row list \<Rightarrow> string \<Rightarrow> pyval result" where
  "sensitivity_without_extremes lib run_tbl col =
     (let vals = peer_column run_tbl col
      in group_stats lib (filter (\<lambda>r. column_val col r \<noteq> Min (set vals) \<and> column_val col r \<noteq> Max (set vals)) run_tbl) col)"

definition label_report :: "peer_lib \<Rightarrow> run_row list \<Rightarrow> string \<Rightarrow> pyval result" where
  "label_report lib run_tbl col =
     bind_result (group_stats lib run_tbl col) (\<lambda>gs.
     bind_result (bootstrap_group_p95_ci lib run_tbl col) (\<lambda>boot.
     bind_result (log_linear_fit lib run_tbl col) (\<lambda>fit.
     bind_result (pairwise_extreme lib run_tbl col 10) (\<lambda>pairwise.
       Inr (payload_value [(''group_stats'', gs), (''bootstrap_ci'', boot), (''log_linear_fit'', fit),
         (''pairwise_4v32'', payload_value pairwise), (''order_effect_model'', order_effect_model lib run_tbl col),
         (''block_design_model'', block_design_model lib run_tbl col)])))))"

definition span_share :: "run_row list \<Rightarrow> pyval result" where
  "span_share run_tbl =
     by_peer_count (\<lambda>pc grp.
       bind_result (map_result (\<lambda>r. divide_by (span_mean r) (total_latency_mean r)) grp) (\<lambda>qs.
       bind_result (mean_of qs) (\<lambda>m. Inr (VFloat (m * 100))))) run_tbl"

definition labels :: "(string \<times> string) list" where
  "labels = [(''total_latency'', ''total_latency_mean''), (''recorded_span'', ''span_mean''),
     (''remaining_latency'', ''remaining_mean''), (''p95_latency'', ''total_latency_p95'')]"

definition peer_main :: "peer_lib \<Rightarrow> pr_tx list \<Rightarrow> pr_run list \<Rightarrow> (string \<times> pyval) list result" where
  "peer_main lib TX RUNS =
     bind_result (build_run_table lib TX RUNS) (\<lambda>run_tbl.
     bind_result (counterbalancing_check TX run_tbl) (\<lambda>design.
     bind_result (map_result (\<lambda>(label, col). bind_result (label_report lib run_tbl col) (\<lambda>v. Inr (label, v))) labels) (\<lambda>reports.
     bind_result (sensitivity_without_extremes lib run_tbl ''total_latency_mean'') (\<lambda>trim.
     bind_result (span_share run_tbl) (\<lambda>share.
       Inr [(''03_design_check.json'', payload_value design),
            (''03_peer_scaling_results.json'', payload_value
               ([(''design'', payload_value design)] @ reports @
                [(''sensitivity_trim_extremes_total_latency'', trim),
                 (''recorded_span_share_pct_by_peer_count'', share)]))])))))"

section \<open>Reports by peer count\<close>

text \<open>The value of a peer count is found under the count's text.\<close>

lemma by_peer_count_get:
  assumes "by_peer_count f tbl = Inr v" "pc \<in> peer_count ` set tbl"
  shows "\<exists>out x. v = payload_value out \<and> f pc (filter (\<lambda>r. peer_count r = pc) tbl) = Inr x \<and> payload_get out (int_str pc) = x"
proof -
  obtain out where out: "map_result (\<lambda>(pc, grp). bind_result (f pc grp) (\<lambda>v. Inr (int_str pc, v))) (groups peer_count tbl) = Inr out"
    and v: "v = payload_value out"
    using assms(1) by (auto simp: by_peer_count_def result_simps)
  have "map_result (\<lambda>(pc, grp). bind_result (f pc grp) (\<lambda>v. Inr (int_str pc, v))) gs = Inr out \<Longrightarrow> (pc, grp) \<in> set gs \<Longrightarrow>
      distinct (map fst gs) \<Longrightarrow> \<exists>x. f pc grp = Inr x \<and> payload_get out (int_str pc) = x" for gs grp
  proof (induction gs arbitrary: out)
    case (Cons h gs)
    obtain pc' grp' where h: "h = (pc', grp')" by fastforce
    from Cons.prems(1) obtain y rest where y: "f pc' grp' = Inr y" "out = (int_str pc', y) # rest"
      and rest: "map_result (\<lambda>(pc, grp). bind_result (f pc grp) (\<lambda>v. Inr (int_str pc, v))) gs = Inr rest"
      by (auto simp: h result_simps)
    show ?case
    proof (cases "pc = pc'")
      case True
      with Cons.prems(2,3) have "grp = grp'"
        by (force simp: h)
      with True y show ?thesis by (simp add: payload_get_def)
    next
      case False
      with Cons.IH [OF rest] Cons.prems(2,3) y(2) show ?thesis
        by (auto simp: h int_str_inject payload_get_def)
    qed
  qed simp
  from this [OF out _ groups_distinct, of "filter (\<lambda>r. peer_count r = pc) tbl"] assms(2) v show ?thesis
    by (auto simp: groups_mem)
qed

section \<open>The run table\<close>

definition gap :: "run_row \<Rightarrow> rat" where
  "gap r = remaining_mean r - (total_latency_mean r - span_mean r)"

lemma place_row_fields:
  "place_row lib n (i, r) = Inr r' \<Longrightarrow> serial_position r' = i \<and> start_timestamp r' = start_timestamp r \<and> gap r' = gap r
     \<and> position_in_cycle r' = (repetition r' - 1) mod 4 + 1 \<and> repetition_of (run_id r') = Inr (repetition r')"
  by (auto simp: place_row_def result_simps gap_def)

lemma place_rows:
  assumes "map_result (place_row lib n) (zip is agg) = Inr tbl" "length is = length agg"
  shows "map serial_position tbl = is \<and> map start_timestamp tbl = map start_timestamp agg \<and> map gap tbl = map gap agg
    \<and> (\<forall>r \<in> set tbl. position_in_cycle r = (repetition r - 1) mod 4 + 1 \<and> repetition_of (run_id r) = Inr (repetition r))"
  using assms(2,1)
proof (induction "is" agg arbitrary: tbl rule: list_induct2)
  case (Cons i "is" r agg)
  from Cons.prems obtain r' rest where r': "place_row lib n (i, r) = Inr r'" and tbl: "tbl = r' # rest"
    and rest: "map_result (place_row lib n) (zip is agg) = Inr rest"
    by (auto simp: result_simps)
  from Cons.IH [OF rest] place_row_fields [OF r'] show ?case
    unfolding tbl by simp
qed simp

lemma run_columns_Inr:
  "run_columns lib rid rows start = Inr r \<Longrightarrow> gap r = 0"
  by (auto simp: run_columns_def Let_def result_simps gap_def)

lemma run_table_facts:
  assumes "build_run_table lib TX RUNS = Inr tbl"
  shows "map serial_position tbl = [1..<Suc (length tbl)] \<and> sorted (map start_timestamp tbl)
    \<and> (\<forall>r \<in> set tbl. repetition_of (run_id r) = Inr (repetition r)
         \<and> position_in_cycle r \<in> {1..4} \<and> position_in_cycle r = (repetition r - 1) mod 4 + 1
         \<and> remaining_mean r = total_latency_mean r - span_mean r)"
proof -
  from assms obtain agg0 where agg0: "map_result (\<lambda>(rid, rows, start). run_columns lib rid rows start)
      (joined (groups tx_run_id TX) RUNS) = Inr agg0"
    and place: "map_result (place_row lib (length (sort_key start_timestamp agg0)))
      (zip [1..<Suc (length (sort_key start_timestamp agg0))] (sort_key start_timestamp agg0)) = Inr tbl"
    by (auto simp: build_run_table_def Let_def result_simps simp del: upt_Suc)
  let ?agg = "sort_key start_timestamp agg0"
  have "gap r0 = 0" if r0: "r0 \<in> set agg0" for r0
  proof -
    obtain x where x: "(case x of (rid, rows, start) \<Rightarrow> run_columns lib rid rows start) = Inr r0"
      using map_result_mem [OF agg0 r0] by blast
    obtain rid rows start where "x = (rid, rows, start)"
      by (cases x)
    with x have "run_columns lib rid rows start = Inr r0"
      by simp
    then show ?thesis
      by (rule run_columns_Inr)
  qed
  then have "\<forall>g \<in> set (map gap ?agg). g = 0"
    by simp
  moreover have "length [1..<Suc (length ?agg)] = length ?agg"
    by (simp only: length_upt diff_Suc_1)
  note rows = place_rows [OF place this]
  ultimately have "\<forall>r \<in> set tbl. gap r = 0"
    by (metis image_eqI set_map)
  moreover have serial: "map serial_position tbl = [1..<Suc (length ?agg)]"
    using rows by blast
  moreover have "length tbl = length ?agg"
    using arg_cong [OF serial, of length] by (simp only: length_map length_upt diff_Suc_1)
  moreover have "sorted (map start_timestamp tbl)"
    using rows by simp
  moreover have "(k - 1) mod 4 + 1 \<in> {1..4 :: int}" for k
    by simp
  ultimately show ?thesis
    using rows by (simp add: gap_def del: upt_Suc)
qed

text \<open>
  The run table lists the joined runs by start time and numbers them from one; cycle and position in the
  cycle are computed from the repetition in the run id; the remaining latency is the difference of the
  two means.
\<close>

theorem run_table_numbered:
  assumes "build_run_table lib TX RUNS = Inr tbl"
  shows "map serial_position tbl = [1..<Suc (length tbl)] \<and> sorted (map start_timestamp tbl)
    \<and> (\<forall>r \<in> set tbl. repetition_of (run_id r) = Inr (repetition r)
         \<and> position_in_cycle r \<in> {1..4} \<and> position_in_cycle r = (repetition r - 1) mod 4 + 1
         \<and> remaining_mean r = total_latency_mean r - span_mean r)"
  by (rule run_table_facts [OF assms])

section \<open>The design check\<close>

lemma latin_square_iff:
  "latin_square_holds tbl \<longleftrightarrow> (\<forall>pc \<in> peer_count ` set tbl. \<forall>pos \<in> position_in_cycle ` set tbl.
     count_where (\<lambda>r. peer_count r = pc \<and> position_in_cycle r = pos) tbl = 2)"
  by (auto simp: latin_square_holds_def crosstab_def Let_def list_all_iff)

lemma count_mset: "count_where p rows = size (filter_mset p (mset rows))"
  by (simp add: count_where_def flip: mset_filter)

text \<open>
  C34. The counterbalancing check does not look at the order of the runs. Whenever each peer count has the
  repetitions 1 to 8, the check holds, whatever times the runs started at and hence whatever place each
  configuration had in its cycle.
\<close>

theorem counterbalancing_ignores_order:
  assumes "build_run_table lib TX RUNS = Inr tbl"
    and "\<forall>pc \<in> peer_count ` set tbl. mset (map repetition (filter (\<lambda>r. peer_count r = pc) tbl)) = mset [1..8]"
  shows "latin_square_holds tbl"
  unfolding latin_square_iff
proof (intro ballI)
  fix pc pos
  assume pc: "pc \<in> peer_count ` set tbl" and pos: "pos \<in> position_in_cycle ` set tbl"
  have place: "position_in_cycle r = (repetition r - 1) mod 4 + 1" if "r \<in> set tbl" for r
    using run_table_facts [OF assms(1)] that by blast
  let ?f = "\<lambda>k :: int. (k - 1) mod 4 + 1"
  have "count_where (\<lambda>r. peer_count r = pc \<and> position_in_cycle r = pos) tbl =
      count_where (\<lambda>r. ?f (repetition r) = pos) (filter (\<lambda>r. peer_count r = pc) tbl)"
    unfolding count_where_def filter_filter
    by (rule arg_cong [where f = length], rule filter_cong) (auto simp: place)
  also have "\<dots> = count_where (\<lambda>k. ?f k = pos) (map repetition (filter (\<lambda>r. peer_count r = pc) tbl))"
    by (simp add: count_where_def filter_map comp_def)
  also have "\<dots> = count_where (\<lambda>k. ?f k = pos) [1..8]"
    unfolding count_mset bspec [OF assms(2) pc] ..
  also have "\<dots> = 2"
  proof -
    from pos place obtain k where "pos = ?f k" by auto
    then have "pos = 1 \<or> pos = 2 \<or> pos = 3 \<or> pos = 4"
      using pos_mod_bound [of 4 "k - 1"] pos_mod_sign [of 4 "k - 1"] by linarith
    then show ?thesis
      by (auto simp: count_where_def upto.simps)
  qed
  finally show "count_where (\<lambda>r. peer_count r = pc \<and> position_in_cycle r = pos) tbl = 2" .
qed

section \<open>Equivalence of the extremes\<close>

text \<open>What is documented of the t distribution and of the square root.\<close>

definition t_documented :: "peer_lib \<Rightarrow> bool" where
  "t_documented lib \<longleftrightarrow> (\<forall>df x y. x < y \<longrightarrow> pl_t_cdf lib x df < pl_t_cdf lib y df)
     \<and> (\<forall>df x. pl_t_cdf lib (- x) df = 1 - pl_t_cdf lib x df)
     \<and> (\<forall>df. pl_t_cdf lib (pl_t_ppf lib (95 / 100) df) df = 95 / 100)
     \<and> (\<forall>q. 0 < q \<longrightarrow> 0 < pl_sqrt lib q)"

lemma low_side: "0 < se \<Longrightarrow> t < (m - (- margin)) / se \<longleftrightarrow> - margin < m - t * (se :: rat)"
  by (auto simp: less_divide_eq)

lemma high_side: "0 < se \<Longrightarrow> (m - margin) / se < - t \<longleftrightarrow> m + t * se < (margin :: rat)"
  by (auto simp: divide_less_eq)

lemma tost_iff:
  assumes "t_documented lib" "0 < se"
  shows "tost_p lib n m se margin < 5 / 100 \<longleftrightarrow>
    - margin < m - pl_t_ppf lib (95 / 100) (n - 1) * se \<and> m + pl_t_ppf lib (95 / 100) (n - 1) * se < margin"
proof -
  let ?cdf = "\<lambda>x. pl_t_cdf lib x (n - 1)" and ?t = "pl_t_ppf lib (95 / 100) (n - 1)"
  have mono: "?cdf x < ?cdf y \<longleftrightarrow> x < y" for x y
    using assms(1) unfolding t_documented_def by (metis less_irrefl linorder_less_linear order_less_trans)
  have at_t: "?cdf ?t = 95 / 100" "?cdf (- ?t) = 5 / 100"
    using assms(1) by (simp_all add: t_documented_def)
  have "1 - ?cdf ((m - (- margin)) / se) < 5 / 100 \<longleftrightarrow> ?cdf ?t < ?cdf ((m - (- margin)) / se)"
    using at_t by linarith
  also have "\<dots> \<longleftrightarrow> - margin < m - ?t * se"
    unfolding mono by (rule low_side [OF assms(2)])
  finally have low: "1 - ?cdf ((m - (- margin)) / se) < 5 / 100 \<longleftrightarrow> - margin < m - ?t * se" .
  have "?cdf ((m - margin) / se) < 5 / 100 \<longleftrightarrow> ?cdf ((m - margin) / se) < ?cdf (- ?t)"
    by (simp only: at_t)
  also have "\<dots> \<longleftrightarrow> m + ?t * se < margin"
    unfolding mono by (rule high_side [OF assms(2)])
  finally show ?thesis
    using low unfolding tost_p_def Let_def max_less_iff_conj by blast
qed

text \<open>
  C33. The exploratory equivalence test and the reported 90 percent interval say the same: the difference
  between 4 and 32 peers is called equivalent exactly when the interval lies strictly inside the margin.
\<close>

theorem tost_is_interval_inclusion:
  assumes "pairwise_extreme lib run_tbl col margin_ms = Inr d" "t_documented lib"
  shows "\<exists>lo hi equivalent. payload_get d ''ci90_low'' = VFloat lo \<and> payload_get d ''ci90_high'' = VFloat hi
    \<and> payload_get d ''tost_equivalent_at_alpha_05'' = VBool equivalent
    \<and> (equivalent \<longleftrightarrow> - margin_ms < lo \<and> hi < margin_ms)"
proof -
  let ?n = "length (extreme_pairs run_tbl)"
  from assms(1) obtain m sd where sd: "0 < sd" and n: "0 < ?n"
    and d: "payload_get d ''ci90_low'' = VFloat (m - pl_t_ppf lib (95 / 100) (?n - 1) * (sd / pl_sqrt lib (of_nat ?n)))"
      "payload_get d ''ci90_high'' = VFloat (m + pl_t_ppf lib (95 / 100) (?n - 1) * (sd / pl_sqrt lib (of_nat ?n)))"
      "payload_get d ''tost_equivalent_at_alpha_05'' = VBool (tost_p lib ?n m (sd / pl_sqrt lib (of_nat ?n)) margin_ms < 5 / 100)"
    by (auto simp: pairwise_extreme_def Let_def result_simps payload_get_def mean_of_Inr split: if_splits)
  have "0 < sd / pl_sqrt lib (of_nat ?n)"
    using sd n assms(2) by (simp add: t_documented_def)
  from tost_iff [OF assms(2) this] show ?thesis
    using d by blast
qed

section \<open>A concrete experiment\<close>

text \<open>A distribution function that meets the documented facts, with its values at 0.95 and 0.975.\<close>

definition demo_peer_lib :: peer_lib where
  "demo_peer_lib =
     \<lparr>pl_percentile = (\<lambda>xs q. Max (set xs)), pl_std = (\<lambda>xs. 1), pl_median = hd, pl_sqrt = (\<lambda>q. q), pl_log2 = of_int,
      pl_t_ppf = (\<lambda>q df. if q = 95 / 100 then 9 else 19),
      pl_t_cdf = (\<lambda>x df. if 0 \<le> x then 1 - 1 / (2 * (1 + x)) else 1 / (2 * (1 - x))),
      pl_ttest_rel = (\<lambda>xs ys. (0, 1)), pl_linregress = (\<lambda>xs ys. (0, 0, 0, 1)), pl_resample = (\<lambda>col pc xs. [xs]),
      pl_ols = (\<lambda>f rows. \<lparr>fit_nobs = length rows, fit_rsquared = 0, fit_rsquared_adj = 0, fit_param = (\<lambda>x. 0),
        fit_pvalue = (\<lambda>x. 1), fit_shapiro_p = 1, fit_anova_F = (\<lambda>x. 0), fit_anova_p = (\<lambda>x. 1)\<rparr>)\<rparr>"

lemma demo_t: "t_documented demo_peer_lib"
proof -
  let ?F = "\<lambda>x :: rat. if 0 \<le> x then 1 - 1 / (2 * (1 + x)) else 1 / (2 * (1 - x))"
  have "?F x < ?F y" if "x < y" for x y
  proof -
    consider "0 \<le> x" | "x < 0" "0 \<le> y" | "y < 0" using that by linarith
    then show ?thesis
    proof cases
      case 1
      then show ?thesis using that by (simp add: frac_less2)
    next
      case 2
      then have "1 / (2 * (1 - x)) < 1 / 2" "1 / (2 * (1 + y)) \<le> 1 / 2"
        by (simp_all add: divide_simps)
      then have "1 / (2 * (1 - x)) < 1 - 1 / (2 * (1 + y))" by linarith
      with 2 show ?thesis by (simp only: if_False if_True not_le [symmetric]) simp
    next
      case 3
      then show ?thesis using that by (simp add: frac_less2)
    qed
  qed
  moreover have "?F (- x) = 1 - ?F x" for x
    by auto
  ultimately show ?thesis
    by (simp add: t_documented_def demo_peer_lib_def)
qed

definition demo_tx :: "string \<Rightarrow> int \<Rightarrow> rat \<Rightarrow> pr_tx" where
  "demo_tx rid pc lat = \<lparr>tx_run_id = rid, tx_peer_count = pc, tx_host_id = ''h'', tx_session_id = ''s'',
     tx_latency_ms = lat, tx_rbac_overhead_ms = 300\<rparr>"

definition demo_runs_of :: "(string \<times> int) list" where
  "demo_runs_of = [(''P-R1'', 4), (''P-R2'', 3), (''P-R3'', 1), (''P-R4'', 2), (''P-R5'', 8), (''P-R6'', 7), (''P-R7'', 6), (''P-R8'', 5)]"

definition demo_TX :: "pr_tx list" where
  "demo_TX = map (\<lambda>(rid, t). demo_tx rid 4 1000) demo_runs_of"

definition demo_RUNS :: "pr_run list" where
  "demo_RUNS = map (\<lambda>(rid, t). \<lparr>pr_run_id = rid, pr_start_timestamp = t\<rparr>) demo_runs_of"

lemma demo_table:
  "case build_run_table demo_peer_lib demo_TX demo_RUNS of Inl e \<Rightarrow> False
   | Inr tbl \<Rightarrow> map repetition tbl = [3, 4, 2, 1, 8, 7, 6, 5] \<and> map peer_count tbl = replicate 8 4"
  by code_simp

lemma demo_tbl:
  obtains tbl where "build_run_table demo_peer_lib demo_TX demo_RUNS = Inr tbl"
    "map repetition tbl = [3, 4, 2, 1, 8, 7, 6, 5]" "\<forall>r \<in> set tbl. peer_count r = 4"
proof (cases "build_run_table demo_peer_lib demo_TX demo_RUNS")
  case (Inr tbl)
  then have "map repetition tbl = [3, 4, 2, 1, 8, 7, 6, 5]" and pcs: "map peer_count tbl = replicate 8 4"
    using demo_table by simp_all
  moreover have "\<forall>r \<in> set tbl. peer_count r = 4"
    using arg_cong [OF pcs, of set] by auto
  ultimately show thesis
    using Inr by (intro that)
qed (use demo_table in simp)

lemma run_table_numbered_witness:
  "\<exists>tbl. build_run_table demo_peer_lib demo_TX demo_RUNS = Inr tbl \<and> map repetition tbl = [3, 4, 2, 1, 8, 7, 6, 5]
    \<and> map serial_position tbl = [1..<9] \<and> sorted (map start_timestamp tbl)"
proof -
  obtain tbl where tbl: "build_run_table demo_peer_lib demo_TX demo_RUNS = Inr tbl"
    "map repetition tbl = [3, 4, 2, 1, 8, 7, 6, 5]"
    by (rule demo_tbl)
  have "length tbl = 8"
    using arg_cong [OF tbl(2), of length] by simp
  then show ?thesis
    using run_table_numbered [OF tbl(1)] tbl by (simp add: numeral_nat del: upt_Suc)
qed

lemma counterbalancing_ignores_order_witness:
  "\<exists>tbl. build_run_table demo_peer_lib demo_TX demo_RUNS = Inr tbl \<and> map repetition tbl = [3, 4, 2, 1, 8, 7, 6, 5]
    \<and> latin_square_holds tbl"
proof -
  obtain tbl where tbl: "build_run_table demo_peer_lib demo_TX demo_RUNS = Inr tbl"
    "map repetition tbl = [3, 4, 2, 1, 8, 7, 6, 5]" "\<forall>r \<in> set tbl. peer_count r = 4"
    by (rule demo_tbl)
  have "latin_square_holds tbl"
  proof (rule counterbalancing_ignores_order [OF tbl(1)], rule ballI)
    fix pc
    assume "pc \<in> peer_count ` set tbl"
    then have "filter (\<lambda>r. peer_count r = pc) tbl = tbl"
      using tbl(3) by (auto simp: filter_id_conv)
    moreover have "mset [3, 4, 2, 1, 8, 7, 6, 5] = mset [1..8 :: int]"
      by (simp add: upto.simps add_mset_commute)
    ultimately show "mset (map repetition (filter (\<lambda>r. peer_count r = pc) tbl)) = mset [1..8]"
      by (simp only: tbl(2))
  qed
  with tbl(1,2) show ?thesis
    by (intro exI conjI)
qed

text \<open>Two blocks in which 4 peers took 5 ms more, and 7 ms more, than 32 peers.\<close>

definition demo_row :: "int \<Rightarrow> int \<Rightarrow> rat \<Rightarrow> run_row" where
  "demo_row pc rep lat =
     \<lparr>run_id = ''r'', peer_count = pc, host_id = ''h'', session_id = ''s'', n_tx = 1, total_latency_mean = lat,
      total_latency_p95 = lat, span_mean = 300, remaining_mean = lat - 300, remaining_p95 = lat - 300,
      start_timestamp = 0, serial_position = 1, repetition = rep, cycle = 1, position_in_cycle = rep,
      log2_peers = 2, serial_c = 0\<rparr>"

lemma demo_pairwise:
  "case pairwise_extreme demo_peer_lib [demo_row 4 1 905, demo_row 4 2 907, demo_row 32 1 900, demo_row 32 2 900]
       ''total_latency_mean'' 100 of Inl e \<Rightarrow> False
   | Inr d \<Rightarrow> payload_get d ''ci90_low'' = VFloat (3 / 2) \<and> payload_get d ''ci90_high'' = VFloat (21 / 2)"
  by (simp add: pairwise_extreme_def extreme_pairs_def demo_row_def mean_of_def std1_def demo_peer_lib_def column_val_def
     payload_get_def Let_def result_simps)

lemma tost_is_interval_inclusion_witness:
  "\<exists>d. pairwise_extreme demo_peer_lib [demo_row 4 1 905, demo_row 4 2 907, demo_row 32 1 900, demo_row 32 2 900]
       ''total_latency_mean'' 100 = Inr d \<and> payload_get d ''tost_equivalent_at_alpha_05'' = VBool True"
proof -
  from demo_pairwise obtain d where
    d: "pairwise_extreme demo_peer_lib [demo_row 4 1 905, demo_row 4 2 907, demo_row 32 1 900, demo_row 32 2 900]
         ''total_latency_mean'' 100 = Inr d"
      "payload_get d ''ci90_low'' = VFloat (3 / 2)" "payload_get d ''ci90_high'' = VFloat (21 / 2)"
    by (auto split: sum.splits)
  from tost_is_interval_inclusion [OF d(1) demo_t] obtain lo hi b where
    e: "payload_get d ''ci90_low'' = VFloat lo" "payload_get d ''ci90_high'' = VFloat hi"
      "payload_get d ''tost_equivalent_at_alpha_05'' = VBool b" "b \<longleftrightarrow> - 100 < lo \<and> hi < 100"
    by (elim exE conjE)
  from e(1,2) d(2,3) have "lo = 3 / 2" "hi = 21 / 2"
    by simp_all
  with e(4) have "b = True"
    by simp
  with e(3) have "payload_get d ''tost_equivalent_at_alpha_05'' = VBool True"
    by (simp only:)
  with d(1) show ?thesis
    by (intro exI conjI)
qed

end
