(* ===== verification/Throughput_Report.thy ===== *)
theory Throughput_Report
  imports Throughput Analysis_Outputs
begin

text \<open>
  The rest of \<open>paper_iot/V10/analysis/scripts/04_throughput.py\<close>: the columns it adds to the frame of runs
  when it is loaded, the design check, the regression report and the four files it writes. The
  correlation and the fitted model are parameters (\<open>tp_lib\<close>), the CSV copy of the frame is left out.
  Runs with the same start time keep their order. The theorems: the added columns number the campaign and
  every concurrency cell and are centred, and the counts of the design check add up.
\<close>

section \<open>The frame\<close>

record campaign_run = run +
  tr_session_id :: string
  tr_start_timestamp :: int

record frame_row = campaign_run +
  campaign_seq :: nat
  cell_position :: nat
  concurrency_c :: rat
  position_c :: rat
  condition_hrbac :: int

text \<open>\<open>groupby(...).cumcount() + 1\<close>: one more than the earlier rows with the same level.\<close>

definition cell_positions :: "int list \<Rightarrow> nat list" where
  "cell_positions levels = map (\<lambda>i. count_list (take i levels) (levels ! i) + 1) [0..<length levels]"

definition frame_row_of :: "rat \<Rightarrow> rat \<Rightarrow> nat \<times> nat \<times> campaign_run \<Rightarrow> frame_row" where
  "frame_row_of level_mean position_mean = (\<lambda>(seq, pos, r).
     campaign_run.extend r
       (frame_row.fields seq pos (of_int (concurrency_level r) - level_mean) (of_nat pos - position_mean)
          (if run_condition r = ''hrbac'' then 1 else 0)))"

definition prepare_runs :: "campaign_run list \<Rightarrow> frame_row list result" where
  "prepare_runs loaded =
     (let RUNS = sort_key tr_start_timestamp loaded;
          positions = cell_positions (map concurrency_level RUNS)
      in bind_result (mean_of (map (\<lambda>r. of_int (concurrency_level r)) RUNS)) (\<lambda>level_mean.
         bind_result (mean_of (map of_nat positions)) (\<lambda>position_mean.
           Inr (map (frame_row_of level_mean position_mean) (zip [1..<Suc (length RUNS)] (zip positions RUNS))))))"

definition run_of :: "frame_row \<Rightarrow> run" where
  "run_of r = \<lparr>concurrency_level = concurrency_level r, run_condition = run_condition r, tps = tps r\<rparr>"

section \<open>Reports\<close>

record model_fit =
  mf_nobs :: nat
  mf_rsquared :: rat
  mf_param :: "string \<Rightarrow> rat"
  mf_conf_int :: "string \<Rightarrow> rat \<times> rat"
  mf_pvalue :: "string \<Rightarrow> rat"
  mf_shapiro_p :: rat

record tp_lib =
  tl_argsort :: "rat list \<Rightarrow> nat list"
  tl_welch_p :: "rat list \<Rightarrow> rat list \<Rightarrow> rat"
  tl_std :: "rat list \<Rightarrow> rat"
  tl_corr :: "rat list \<Rightarrow> rat list \<Rightarrow> rat"
  tl_ols :: "string \<Rightarrow> frame_row list \<Rightarrow> model_fit"

text \<open>
  \<open>groupby([level, condition]).size().unstack().to_dict()\<close>: a cell without runs is not a number.
\<close>

definition runs_per_condition :: "frame_row list \<Rightarrow> pyval result" where
  "runs_per_condition RUNS =
     (let cells = crosstab run_condition concurrency_level RUNS
      in if list_ex (\<lambda>(cond, col). list_ex (\<lambda>(lvl, n). n = 0) col) cells then Inl Unmodelled
         else Inr (payload_value (map (\<lambda>(cond, col).
           (cond, payload_value (map (\<lambda>(lvl, n). (int_str lvl, count_val n)) col))) cells)))"

definition design_check :: "tp_lib \<Rightarrow> frame_row list \<Rightarrow> payload result" where
  "design_check lib RUNS =
     (let corr = tl_corr lib (map (\<lambda>r. of_nat (campaign_seq r)) RUNS) (map (\<lambda>r. of_int (concurrency_level r)) RUNS)
      in bind_result (runs_per_condition RUNS) (\<lambda>cells.
         Inr [(''n_runs'', count_val (length RUNS)),
              (''n_concurrency_levels'', count_val (nunique (map concurrency_level RUNS))),
              (''concurrency_levels'', VList (map VInt (sort (unique (map concurrency_level RUNS))))),
              (''runs_per_condition_per_level'', cells),
              (''n_sessions'', count_val (nunique (map tr_session_id RUNS))),
              (''session_ids'', VList (map VStr (unique (map tr_session_id RUNS)))),
              (''concurrency_order'', VStr ''single fixed ascending sequence (one session)''),
              (''conditions_interleaved_within_cell'', VBool True),
              (''campaign_seq_vs_concurrency_correlation'', VFloat corr),
              (''campaign_seq_usable_as_independent_order_covariate'', VBool (\<bar>corr\<bar> < 9 / 10))]))"

definition primary_model :: "tp_lib \<Rightarrow> frame_row list \<Rightarrow> payload" where
  "primary_model lib RUNS =
     (let model = tl_ols lib ''tps ~ condition_hrbac * concurrency_c + position_c'' RUNS
      in [(''n'', count_val (mf_nobs model)), (''r2'', VFloat (mf_rsquared model)),
          (''condition_coef_tps'', VFloat (mf_param model ''condition_hrbac'')),
          (''condition_ci_low'', VFloat (fst (mf_conf_int model ''condition_hrbac''))),
          (''condition_ci_high'', VFloat (snd (mf_conf_int model ''condition_hrbac''))),
          (''condition_p'', VFloat (mf_pvalue model ''condition_hrbac'')),
          (''interaction_coef_tps_per_client'', VFloat (mf_param model ''condition_hrbac:concurrency_c'')),
          (''interaction_ci_low'', VFloat (fst (mf_conf_int model ''condition_hrbac:concurrency_c''))),
          (''interaction_ci_high'', VFloat (snd (mf_conf_int model ''condition_hrbac:concurrency_c''))),
          (''interaction_p'', VFloat (mf_pvalue model ''condition_hrbac:concurrency_c'')),
          (''position_coef'', VFloat (mf_param model ''position_c'')),
          (''position_p'', VFloat (mf_pvalue model ''position_c'')),
          (''residual_shapiro_p'', VFloat (mf_shapiro_p model))])"

text \<open>Dictionaries with integer keys have texts as keys in the written file.\<close>

definition int_floats :: "(int, rat) dict \<Rightarrow> pyval" where
  "int_floats d = payload_value (map (\<lambda>(k, q). (int_str k, VFloat q)) d)"

definition holm_val :: "holm \<Rightarrow> pyval" where
  "holm_val h = payload_value
     [(''raw_p_by_level'', int_floats (raw_p_by_level h)),
      (''holm_adjusted_p_by_level'', int_floats (holm_adjusted_p_by_level h)),
      (''n_significant_after_adjustment'', count_val (n_significant_after_adjustment h)),
      (''n_levels'', count_val (holm_levels h))]"

definition per_level_report :: "per_level \<Rightarrow> payload" where
  "per_level_report d =
     [(''pct_diff_by_level'', int_floats (pct_diff_by_level d)), (''pct_diff_mean'', VFloat (pct_diff_mean d)),
      (''pct_diff_sd'', VFloat (pct_diff_sd d)), (''pct_diff_min'', VFloat (pct_diff_min d)),
      (''pct_diff_max'', VFloat (pct_diff_max d)), (''holm_bonferroni'', holm_val (holm_of d))]"

definition peaks_report :: "peaks \<Rightarrow> payload" where
  "peaks_report p =
     [(''mean_tps_by_level_and_condition'',
       payload_value (map (\<lambda>(cond, col). (cond, int_floats col)) (mean_tps_by_level_and_condition p))),
      (''baseline_peak_tps'', VFloat (baseline_peak_tps p)), (''baseline_peak_level'', VInt (baseline_peak_level p)),
      (''hrbac_peak_tps'', VFloat (hrbac_peak_tps p)), (''hrbac_peak_level'', VInt (hrbac_peak_level p)),
      (''same_tested_peak_level'', VBool (same_tested_peak_level p)),
      (''hrbac_decline_pct_peak_to_100'', VFloat (hrbac_decline_pct_peak_to_100 p)),
      (''baseline_decline_pct_peak_to_100'', VFloat (baseline_decline_pct_peak_to_100 p))]"

definition throughput_main :: "tp_lib \<Rightarrow> campaign_run list \<Rightarrow> (string \<times> pyval) list result" where
  "throughput_main lib loaded =
     bind_result (prepare_runs loaded) (\<lambda>RUNS.
     bind_result (design_check lib RUNS) (\<lambda>design.
     bind_result (per_level_percent_diff (tl_argsort lib) (tl_welch_p lib) (tl_std lib) (map run_of RUNS)) (\<lambda>levels.
     bind_result (observed_peaks (map run_of RUNS)) (\<lambda>peaks.
       Inr [(''04_throughput_design_check.json'', payload_value design),
            (''04_throughput_primary_model.json'', payload_value (primary_model lib RUNS)),
            (''04_throughput_per_level.json'', payload_value (per_level_report levels)),
            (''04_throughput_peaks.json'', payload_value (peaks_report peaks))]))))"

section \<open>The added columns\<close>

lemma cell_positions_Nil [simp]: "cell_positions [] = []"
  by (simp add: cell_positions_def)

lemma cell_positions_snoc: "cell_positions (ls @ [l]) = cell_positions ls @ [count_list ls l + 1]"
  by (simp add: cell_positions_def nth_append)

lemma length_cell_positions [simp]: "length (cell_positions ls) = length ls"
  by (simp add: cell_positions_def)

lemma positions_in_cell:
  "map fst (filter (\<lambda>(p, l). l = lvl) (zip (cell_positions ls) ls)) = [1..<Suc (count_list ls lvl)]"
  by (induction ls rule: rev_induct) (auto simp: cell_positions_snoc count_list_append)

lemma centred: "xs \<noteq> [] \<Longrightarrow> sum_list (map (\<lambda>x. x - sum_list xs / of_nat (length xs)) xs) = (0 :: rat)"
  by (simp add: sum_list_subtractf sum_list_triv)

lemma frame_row_of_simps [simp]:
  "campaign_seq (frame_row_of m q (i, pos, r)) = i"
  "cell_position (frame_row_of m q (i, pos, r)) = pos"
  "concurrency_level (frame_row_of m q (i, pos, r)) = concurrency_level r"
  "run_condition (frame_row_of m q (i, pos, r)) = run_condition r"
  "tps (frame_row_of m q (i, pos, r)) = tps r"
  "tr_start_timestamp (frame_row_of m q (i, pos, r)) = tr_start_timestamp r"
  "concurrency_c (frame_row_of m q (i, pos, r)) = of_int (concurrency_level r) - m"
  "position_c (frame_row_of m q (i, pos, r)) = of_nat pos - q"
  by (simp_all add: frame_row_of_def campaign_run.extend_def frame_row.fields_def)

text \<open>The columns of the frame, one by one.\<close>

lemma frame_columns:
  assumes "length seqs = length runs" "length ps = length runs"
  shows "map campaign_seq (map (frame_row_of m q) (zip seqs (zip ps runs))) = seqs"
    "map (\<lambda>r. (cell_position r, concurrency_level r)) (map (frame_row_of m q) (zip seqs (zip ps runs))) =
       zip ps (map concurrency_level runs)"
    "map tr_start_timestamp (map (frame_row_of m q) (zip seqs (zip ps runs))) = map tr_start_timestamp runs"
    "map concurrency_c (map (frame_row_of m q) (zip seqs (zip ps runs))) = map (\<lambda>r. of_int (concurrency_level r) - m) runs"
    "map position_c (map (frame_row_of m q) (zip seqs (zip ps runs))) = map (\<lambda>p. of_nat p - q) ps"
    "map run_of (map (frame_row_of m q) (zip seqs (zip ps runs))) = map run.truncate runs"
  using assms by (auto intro!: nth_equalityI simp: run_of_def run.truncate_def)

text \<open>
  The columns the script adds when it is loaded: the runs are the loaded ones in the order of their start,
  numbered from one; within every concurrency level they are numbered from one to the number of runs of the
  level, in the same order; and the two centred columns add up to zero.
\<close>

theorem campaign_columns:
  assumes "prepare_runs loaded = Inr RUNS"
  shows "mset (map run_of RUNS) = mset (map run.truncate loaded)
    \<and> map campaign_seq RUNS = [1..<Suc (length loaded)] \<and> sorted (map tr_start_timestamp RUNS)
    \<and> (\<forall>lvl. map cell_position (filter (\<lambda>r. concurrency_level r = lvl) RUNS) =
           [1..<Suc (count_list (map concurrency_level loaded) lvl)])
    \<and> sum_list (map concurrency_c RUNS) = 0 \<and> sum_list (map position_c RUNS) = 0"
proof -
  let ?runs = "sort_key tr_start_timestamp loaded"
  let ?ps = "cell_positions (map concurrency_level ?runs)"
  from assms obtain m q where m: "mean_of (map (\<lambda>r. of_int (concurrency_level r)) ?runs) = Inr m"
    and q: "mean_of (map of_nat ?ps) = Inr q"
    and RUNS: "RUNS = map (frame_row_of m q) (zip [1..<Suc (length ?runs)] (zip ?ps ?runs))"
    by (auto simp: prepare_runs_def Let_def result_simps simp del: upt_Suc)
  have len: "length [1..<Suc (length ?runs)] = length ?runs" "length ?ps = length ?runs"
    by (simp_all only: length_upt diff_Suc_1 length_cell_positions length_map)
  note columns = frame_columns [OF len, of m q, folded RUNS]
  have cells: "map cell_position (filter (\<lambda>r. concurrency_level r = lvl) RUNS) =
      [1..<Suc (count_list (map concurrency_level loaded) lvl)]" for lvl
  proof -
    have "map cell_position (filter (\<lambda>r. concurrency_level r = lvl) RUNS) =
        map fst (filter (\<lambda>(p, l). l = lvl) (map (\<lambda>r. (cell_position r, concurrency_level r)) RUNS))"
      by (simp add: filter_map comp_def)
    also have "\<dots> = [1..<Suc (count_list (map concurrency_level ?runs) lvl)]"
      by (simp only: columns positions_in_cell)
    also have "count_list (map concurrency_level ?runs) lvl = count_list (map concurrency_level loaded) lvl"
      by (metis count_mset mset_map mset_sort)
    finally show ?thesis .
  qed
  have "sum_list (map concurrency_c RUNS) = 0"
    using m centred [of "map (\<lambda>r. of_int (concurrency_level r)) ?runs"]
    by (simp add: columns frame_Inr comp_def del: upt_Suc)
  moreover have "sum_list (map position_c RUNS) = 0"
    using q centred [of "map of_nat ?ps"] by (simp add: columns frame_Inr comp_def del: upt_Suc)
  moreover have "mset (map run_of RUNS) = mset (map run.truncate loaded)"
    by (simp only: columns mset_map mset_sort)
  moreover have "sorted (map tr_start_timestamp RUNS)"
    by (simp only: columns sorted_sort_key)
  ultimately show ?thesis
    using cells columns(1) by (simp only: length_sort) blast
qed

definition demo_campaign :: "campaign_run list" where
  "demo_campaign =
     [\<lparr>concurrency_level = 20, run_condition = ''hrbac'', tps = 50, tr_session_id = ''S'', tr_start_timestamp = 3\<rparr>,
      \<lparr>concurrency_level = 10, run_condition = ''baseline'', tps = 70, tr_session_id = ''S'', tr_start_timestamp = 1\<rparr>,
      \<lparr>concurrency_level = 20, run_condition = ''baseline'', tps = 60, tr_session_id = ''S'', tr_start_timestamp = 2\<rparr>]"

lemma campaign_columns_witness:
  "\<exists>RUNS. prepare_runs demo_campaign = Inr RUNS \<and> map campaign_seq RUNS = [1, 2, 3]
    \<and> map cell_position (filter (\<lambda>r. concurrency_level r = 20) RUNS) = [1, 2]"
proof -
  have "\<exists>RUNS. prepare_runs demo_campaign = Inr RUNS"
    by (simp add: prepare_runs_def mean_of_def demo_campaign_def cell_positions_def Let_def)
  then obtain RUNS where RUNS: "prepare_runs demo_campaign = Inr RUNS" ..
  have n: "[1..<Suc (length demo_campaign)] = [1, 2, 3]"
    "[1..<Suc (count_list (map concurrency_level demo_campaign) 20)] = [1, 2]"
    by (simp_all add: demo_campaign_def)
  have seq: "map campaign_seq RUNS = [1..<Suc (length demo_campaign)]"
    and cells: "\<forall>lvl. map cell_position (filter (\<lambda>r. concurrency_level r = lvl) RUNS) =
      [1..<Suc (count_list (map concurrency_level demo_campaign) lvl)]"
    using campaign_columns [OF RUNS] by blast+
  have "map campaign_seq RUNS = [1, 2, 3]"
    using seq unfolding n .
  moreover have "map cell_position (filter (\<lambda>r. concurrency_level r = 20) RUNS) = [1, 2]"
    using spec [OF cells, of 20] unfolding n .
  ultimately show ?thesis
    using RUNS by (intro exI conjI)
qed

section \<open>The design check\<close>

text \<open>The report says that the conditions are interleaved, and how the levels are ordered, whatever the runs are.\<close>

lemma design_texts_unconditional:
  "design_check lib RUNS = Inr d \<Longrightarrow> payload_get d ''conditions_interleaved_within_cell'' = VBool True
     \<and> payload_get d ''concurrency_order'' = VStr ''single fixed ascending sequence (one session)''"
  by (auto simp: design_check_def Let_def result_simps payload_get_def)

end
