(* ===== verification/Crt_Report.thy ===== *)
theory Crt_Report
  imports Crt_Quantization Py_Frame Analysis_Outputs
begin

text \<open>
  The report file of \<open>paper_iot/V10/analysis/scripts/05_crt_quantization.py\<close>: the values of \<open>Crt_Quantization\<close>
  as the dictionaries the script writes, with the root mean square errors (the square root is a parameter).
  The theorems: the errors reported for the two quantisers, and the range of soil moistures for which the
  finding that every reading exceeds the bound does not depend on the assumed polarity.
\<close>

section \<open>The dictionaries\<close>

definition ints_val :: "int list \<Rightarrow> pyval" where
  "ints_val xs = VList (map VInt xs)"

definition bounds_val :: "bounds \<Rightarrow> pyval" where
  "bounds_val b = payload_value [(''a*b'', VInt (b_ab b)), (''a*c'', VInt (b_ac b)), (''b*c'', VInt (b_bc b)),
     (''min'', VInt (b_min b)), (''max_triple_product'', VInt (b_triple b))]"

definition reconstruction_val :: "reconstruction \<Rightarrow> pyval" where
  "reconstruction_val rep = payload_value
     [(''polarity_assumption'', VStr (polarity_assumption rep)),
      (''soil_raw_min'', VInt (soil_raw_min rep)), (''soil_raw_max'', VInt (soil_raw_max rep)),
      (''packed_min'', VInt (packed_min rep)), (''packed_max'', VInt (packed_max rep)),
      (''n_total'', count_val (n_total rep)), (''n_exceed_min_bound'', count_val (n_exceed_min_bound rep)),
      (''pct_exceed_min_bound'', VFloat (pct_exceed_min_bound rep))]"

definition corrected_val :: "corrected \<Rightarrow> pyval" where
  "corrected_val c = payload_value
     [(''moduli'', ints_val (c_moduli c)), (''pairwise_bounds'', bounds_val (c_bounds c)),
      (''legal_domain_max'', VInt (legal_domain_max c)),
      (''below_min_pairwise_bound'', VBool (below_min_pairwise_bound c))]"

text \<open>\<open>np.sqrt(np.mean(err ** 2))\<close> over the sweep.\<close>

definition mean_square :: "(int \<Rightarrow> rat) \<Rightarrow> rat" where
  "mean_square err = sum_list (map (\<lambda>raw. err raw ^ 2) [0..4095]) / 4096"

definition quantiser_val :: "(rat \<Rightarrow> rat) \<Rightarrow> (int \<Rightarrow> rat) \<Rightarrow> pyval" where
  "quantiser_val sqroot err = payload_value
     [(''max_error_pct_full_scale'', VFloat (max_err err)),
      (''rms_error_pct_full_scale'', VFloat (sqroot (mean_square err)))]"

definition quantization_note :: string where
  "quantization_note =
     ''12-bit to 8-bit soil-field requantisation error, exhaustive sweep of the raw ADC '' @
     ''domain (0..4095). The corrected firmware's bit-shift implementation corresponds to '' @
     ''the truncating quantiser; round-to-nearest is shown for comparison only.''"

definition quantization_error :: "(rat \<Rightarrow> rat) \<Rightarrow> pyval" where
  "quantization_error sqroot = payload_value
     [(''truncating_quantiser'', quantiser_val sqroot err_trunc),
      (''round_to_nearest_quantiser'', quantiser_val sqroot err_round),
      (''note'', VStr quantization_note)]"

definition calibration_caveat :: string where
  "calibration_caveat =
     ''The released repository contains no ADC-to-percent calibration constant for '' @
     ''soil_moisture (esp32/main/sensor.c transmits raw ADC counts only; no gateway or '' @
     ''backend code in this repository converts them to a percentage). The percentage-to-raw '' @
     ''mapping used here is an explicitly stated assumption, not a value taken from the '' @
     ''codebase. The 100% bound-exceedance finding is invariant to the assumed polarity; the '' @
     ''exact packed-value minimum and maximum are not.''"

definition quantization_main :: "(rat \<Rightarrow> rat) \<Rightarrow> trace_row list \<Rightarrow> (string \<times> pyval) list result" where
  "quantization_main sqroot st =
     bind_result (pairwise_bounds MODULI_DEPLOYED) (\<lambda>deployed.
     bind_result (reconstruct st ''direct'') (\<lambda>direct.
     bind_result (reconstruct st ''reversed'') (\<lambda>reversed.
     bind_result (pct_where (\<lambda>row. crt_residues_received row = 2) st) (\<lambda>two_pct.
     bind_result corrected_domain (\<lambda>corr.
       Inr [(''05_crt_quantization.json'', payload_value
         [(''deployed_moduli'', ints_val MODULI_DEPLOYED),
          (''deployed_pairwise_bounds'', bounds_val deployed),
          (''reconstruction_direct_polarity'', reconstruction_val direct),
          (''reconstruction_reversed_polarity'', reconstruction_val reversed),
          (''two_residue_reconstruction_count'', count_val (residue_count st 2)),
          (''two_residue_reconstruction_pct'', VFloat two_pct),
          (''three_residue_count'', count_val (residue_count st 3)),
          (''corrected_domain'', corrected_val corr),
          (''quantization_error'', quantization_error sqroot),
          (''calibration_caveat'', VStr calibration_caveat)])])))))"

section \<open>The errors\<close>

text \<open>
  What is documented of the square root: it is not negative and correctly rounded, so its square is above
  the argument by a relative error of at most \<open>1 / 2 ^ 51\<close>.
\<close>

definition sqrt_documented :: "(rat \<Rightarrow> rat) \<Rightarrow> bool" where
  "sqrt_documented sqroot \<longleftrightarrow> (\<forall>q. 0 \<le> q \<longrightarrow> 0 \<le> sqroot q \<and> sqroot q ^ 2 \<le> (1 + 1 / 2 ^ 51) * q)"

lemma err_nonneg: "0 \<le> err_trunc raw" "0 \<le> err_round raw"
  by (simp_all add: err_trunc_def err_round_def)

lemma max_err_le: "(\<And>raw. 0 \<le> raw \<Longrightarrow> raw \<le> 4095 \<Longrightarrow> err raw \<le> b) \<Longrightarrow> max_err err \<le> b"
  by (simp add: max_err_def)

lemma le_max_err: "0 \<le> raw \<Longrightarrow> raw \<le> 4095 \<Longrightarrow> err raw \<le> max_err err"
  by (simp add: max_err_def)

lemma err_round_le: "err_round raw \<le> 10 / 51"
proof -
  have "\<bar>of_int (round_half_even (of_int raw / 4095 * 255)) - (of_int raw / 4095 * 255 :: rat)\<bar> \<le> 1 / 2"
    by (rule round_half_even_error)
  then have "\<bar>of_int (round_half_even (of_int raw / 4095 * 255)) / 255 * 4095 - (of_int raw :: rat)\<bar> \<le> 4095 / 510"
    by (simp add: abs_le_iff field_simps)
  then show ?thesis
    by (simp add: err_round_def)
qed

text \<open>A root mean square lies between zero and the maximum.\<close>

lemma sum_list_bounds:
  "(\<And>x. x \<in> set xs \<Longrightarrow> 0 \<le> f x \<and> f x \<le> b) \<Longrightarrow> 0 \<le> sum_list (map f xs) \<and> sum_list (map f xs) \<le> of_nat (length xs) * (b :: rat)"
  by (induction xs) (auto simp: algebra_simps intro: add_mono)

lemma mean_square_bounds:
  assumes "\<And>raw. 0 \<le> err raw"
  shows "0 \<le> mean_square err" "mean_square err \<le> (max_err err) ^ 2"
proof -
  have "0 \<le> err raw ^ 2 \<and> err raw ^ 2 \<le> (max_err err) ^ 2" if "raw \<in> set [0..4095]" for raw
    using that assms le_max_err [of raw err] by (auto intro: power_mono)
  then have "0 \<le> sum_list (map (\<lambda>raw. err raw ^ 2) [0..4095]) \<and>
      sum_list (map (\<lambda>raw. err raw ^ 2) [0..4095]) \<le> of_nat (length [0..4095 :: int]) * (max_err err) ^ 2"
    by (rule sum_list_bounds)
  then show "0 \<le> mean_square err" "mean_square err \<le> (max_err err) ^ 2"
    by (simp_all add: mean_square_def divide_le_eq mult.commute)
qed

lemma rms_bounds:
  assumes "sqrt_documented sqroot" "\<And>raw. 0 \<le> err raw"
  shows "0 \<le> sqroot (mean_square err) \<and> sqroot (mean_square err) ^ 2 \<le> (1 + 1 / 2 ^ 51) * (max_err err) ^ 2"
proof -
  have "0 \<le> sqroot (mean_square err)" and "sqroot (mean_square err) ^ 2 \<le> (1 + 1 / 2 ^ 51) * mean_square err"
    using assms mean_square_bounds(1) [of err] by (auto simp only: sqrt_documented_def)
  moreover have "(1 + 1 / 2 ^ 51) * mean_square err \<le> (1 + 1 / 2 ^ 51) * (max_err err) ^ 2"
    by (intro mult_left_mono mean_square_bounds(2) assms(2)) simp
  ultimately show ?thesis
    by linarith
qed

text \<open>
  The errors the report gives. The truncating quantiser has a maximal error of exactly 1500/4095 percent of
  full scale, the rounding one of at most 10/51 percent, and each root mean square is at most its maximum,
  up to the rounding of the square root.
\<close>

theorem quantiser_errors:
  assumes "sqrt_documented sqroot"
  shows "\<exists>rms_t max_r rms_r.
      dig (quantization_error sqroot) [''truncating_quantiser'', ''max_error_pct_full_scale''] = VFloat (1500 / 4095)
    \<and> dig (quantization_error sqroot) [''truncating_quantiser'', ''rms_error_pct_full_scale''] = VFloat rms_t
    \<and> 0 \<le> rms_t \<and> rms_t ^ 2 \<le> (1 + 1 / 2 ^ 51) * (1500 / 4095) ^ 2
    \<and> dig (quantization_error sqroot) [''round_to_nearest_quantiser'', ''max_error_pct_full_scale''] = VFloat max_r
    \<and> max_r \<le> 10 / 51
    \<and> dig (quantization_error sqroot) [''round_to_nearest_quantiser'', ''rms_error_pct_full_scale''] = VFloat rms_r
    \<and> 0 \<le> rms_r \<and> rms_r ^ 2 \<le> (1 + 1 / 2 ^ 51) * max_r ^ 2"
proof -
  have dug: "dig (quantization_error sqroot) [''truncating_quantiser'', ''max_error_pct_full_scale''] = VFloat (max_err err_trunc)"
    "dig (quantization_error sqroot) [''truncating_quantiser'', ''rms_error_pct_full_scale''] = VFloat (sqroot (mean_square err_trunc))"
    "dig (quantization_error sqroot) [''round_to_nearest_quantiser'', ''max_error_pct_full_scale''] = VFloat (max_err err_round)"
    "dig (quantization_error sqroot) [''round_to_nearest_quantiser'', ''rms_error_pct_full_scale''] = VFloat (sqroot (mean_square err_round))"
    by (simp_all add: quantization_error_def quantiser_val_def payload_value_def get_default_def)
  have le: "max_err err_round \<le> 10 / 51"
    by (rule max_err_le) (rule err_round_le)
  have rms_t: "0 \<le> sqroot (mean_square err_trunc)" "sqroot (mean_square err_trunc) ^ 2 \<le> (1 + 1 / 2 ^ 51) * (1500 / 4095) ^ 2"
    using rms_bounds [OF assms, of err_trunc] err_nonneg(1) unfolding truncation_error_max by blast+
  have rms_r: "0 \<le> sqroot (mean_square err_round)"
    "sqroot (mean_square err_round) ^ 2 \<le> (1 + 1 / 2 ^ 51) * (max_err err_round) ^ 2"
    using rms_bounds [OF assms, of err_round] err_nonneg(2) by blast+
  show ?thesis
    unfolding dug truncation_error_max
    by (rule exI [of _ "sqroot (mean_square err_trunc)"], rule exI [of _ "max_err err_round"],
        rule exI [of _ "sqroot (mean_square err_round)"])
      (intro conjI refl le rms_t rms_r)
qed

definition demo_sqrt :: "rat \<Rightarrow> rat" where
  "demo_sqrt q = min q 1"

lemma demo_sqrt: "sqrt_documented demo_sqrt"
proof -
  have "(min q 1) ^ 2 \<le> (1 + 1 / 2 ^ 51) * q" if "0 \<le> q" for q :: rat
  proof -
    have "min q 1 * min q 1 \<le> min q 1 * 1"
      using that by (intro mult_left_mono) simp_all
    then have "(min q 1) ^ 2 \<le> min q 1"
      by (simp only: power2_eq_square mult_1_right)
    also have "\<dots> \<le> q" by simp
    also have "\<dots> \<le> (1 + 1 / 2 ^ 51) * q" using that by (simp add: algebra_simps)
    finally show ?thesis .
  qed
  then show ?thesis
    by (simp add: sqrt_documented_def demo_sqrt_def)
qed

lemma quantiser_errors_witness:
  "\<exists>rms. dig (quantization_error demo_sqrt) [''truncating_quantiser'', ''rms_error_pct_full_scale''] = VFloat rms
    \<and> 0 \<le> rms \<and> rms ^ 2 \<le> (1 + 1 / 2 ^ 51) * (1500 / 4095) ^ 2"
proof -
  from quantiser_errors [OF demo_sqrt] obtain rms where
    "dig (quantization_error demo_sqrt) [''truncating_quantiser'', ''rms_error_pct_full_scale''] = VFloat rms"
    "0 \<le> rms" "rms ^ 2 \<le> (1 + 1 / 2 ^ 51) * (1500 / 4095) ^ 2"
    by (elim exE conjE)
  then show ?thesis
    by (intro exI conjI)
qed

section \<open>The headline finding\<close>

lemma loses_between:
  assumes "6 / 5 \<le> soil_moisture row" "soil_moisture row \<le> 494 / 5"
  shows "loses_reading polarity row"
proof -
  have "of_int 49 \<le> soil_moisture row / 100 * 4095" "of_int 49 \<le> 4095 - soil_moisture row / 100 * 4095"
    using assms by (simp_all add: field_simps)
  then have "49 \<le> soil_raw_of polarity (soil_moisture row)"
    using round_half_even_mono [of "of_int 49"] by (simp only: soil_raw_of_def round_half_even_of_int split: if_split) simp
  then show ?thesis
    by (simp add: loses_reading_def Let_def clip_def)
qed

text \<open>
  C37. The caveat says that the finding of the report (every reading exceeds the smallest recovery bound) does
  not depend on the polarity assumed for the sensor. That holds for every trace whose soil moistures lie
  between 1.2 and 98.8 percent: both reconstructions then report 100 percent.
\<close>

theorem exceedance_polarity_invariant:
  assumes "quantization_main sqroot st = Inr files"
    and "\<forall>row \<in> set st. 6 / 5 \<le> soil_moisture row \<and> soil_moisture row \<le> 494 / 5"
  shows "\<forall>key \<in> {''reconstruction_direct_polarity'', ''reconstruction_reversed_polarity''}.
    dig (VDict (merge_outputs files)) [''05_crt_quantization'', key, ''pct_exceed_min_bound''] = VFloat 100"
proof -
  have all: "list_all (loses_reading polarity) st" for polarity
    using assms(2) loses_between by (auto simp: list_all_iff)
  from assms(1) obtain direct reversed two corr where
    r: "reconstruct st ''direct'' = Inr direct" "reconstruct st ''reversed'' = Inr reversed"
    and files: "files = [(''05_crt_quantization.json'', payload_value
         [(''deployed_moduli'', ints_val MODULI_DEPLOYED),
          (''deployed_pairwise_bounds'', bounds_val \<lparr>b_ab = 9797, b_ac = 9991, b_bc = 10403, b_min = 9797, b_triple = 1009091\<rparr>),
          (''reconstruction_direct_polarity'', reconstruction_val direct),
          (''reconstruction_reversed_polarity'', reconstruction_val reversed),
          (''two_residue_reconstruction_count'', count_val (residue_count st 2)),
          (''two_residue_reconstruction_pct'', VFloat two),
          (''three_residue_count'', count_val (residue_count st 3)),
          (''corrected_domain'', corrected_val corr),
          (''quantization_error'', quantization_error sqroot),
          (''calibration_caveat'', VStr calibration_caveat)])]"
    by (auto simp: quantization_main_def result_simps MODULI_DEPLOYED_def)
  have "pct_exceed_min_bound direct = 100" "pct_exceed_min_bound reversed = 100"
    using reconstruct_counts_losses [OF r(1)] reconstruct_counts_losses [OF r(2)] all by blast+
  then show ?thesis
    by (simp add: files merge_outputs_def stem_def json_suffix_def ends_with_def starts_with_def payload_value_def reconstruction_val_def
        get_default_def)
qed

lemma exceedance_polarity_invariant_witness:
  "\<exists>files. quantization_main demo_sqrt [\<lparr>temp_c = 25, soil_moisture = 40, crt_residues_received = 2\<rparr>] = Inr files
    \<and> dig (VDict (merge_outputs files)) [''05_crt_quantization'', ''reconstruction_direct_polarity'', ''pct_exceed_min_bound'']
        = VFloat 100"
proof -
  let ?st = "[\<lparr>temp_c = 25, soil_moisture = 40, crt_residues_received = 2\<rparr>]"
  have "\<exists>files. quantization_main demo_sqrt ?st = Inr files"
    by (simp add: quantization_main_def reconstruct_def MODULI_DEPLOYED_def Let_def pct_where_def mean_of_def
        corrected_domain_value)
  then obtain files where files: "quantization_main demo_sqrt ?st = Inr files" ..
  have "\<forall>row \<in> set ?st. 6 / 5 \<le> soil_moisture row \<and> soil_moisture row \<le> 494 / 5"
    by simp
  from exceedance_polarity_invariant [OF files this] files show ?thesis
    by blast
qed

end
