(* ===== verification/Revocation_Trace.thy ===== *)
theory Revocation_Trace
  imports Field_Deployment
begin

text \<open>
  \<open>paper_iot/V10/analysis/scripts/07_revocation.py\<close>: the report on the stages of certificate revocations
  and on the denials after them, over the rows of the two traces (conventions as in \<open>Field_Deployment\<close>).
  The theorem relates its figures: the subjects with all stages and those that appear once are disjoint
  parts of the subjects, and the delayed records per stage add up to the delayed records.
\<close>

record stage_row =
  rs_cert_user_id :: string
  rs_stage_name :: string
  rs_stage_timestamp :: int
  rs_status :: string

definition is_delayed :: "stage_row \<Rightarrow> bool" where
  "is_delayed r \<longleftrightarrow> rs_status r = ''delayed''"

definition delayed_by_stage :: "stage_row list \<Rightarrow> (string \<times> rat) list result" where
  "delayed_by_stage RS =
     map_result (\<lambda>(stage, rows). bind_result (pct_where is_delayed rows) (\<lambda>q. Inr (stage, q)))
       (groups rs_stage_name RS)"

text \<open>The sets of stages per subject, and how many subjects have all of them.\<close>

definition subject_stages :: "stage_row list \<Rightarrow> (string \<times> string set) list" where
  "subject_stages RS = map (\<lambda>(subject, rows). (subject, set (map rs_stage_name rows))) (groups rs_cert_user_id RS)"

definition n_all_stages :: "stage_row list \<Rightarrow> nat" where
  "n_all_stages RS =
     count_where (\<lambda>(subject, stages). card stages = card (set (unique (map rs_stage_name RS)))) (subject_stages RS)"

definition n_appear_once :: "stage_row list \<Rightarrow> nat" where
  "n_appear_once RS = count_where (\<lambda>(subject, rows). length rows = 1) (groups rs_cert_user_id RS)"

definition episode_note :: string where
  "episode_note = ''No episode/correlation identifier links stages of the same revocation event; '' @
     ''stage records for the same cert_user_id cannot be safely paired into single '' @
     ''episodes because a subject may be revoked more than once over 61 days. End-to-end '' @
     ''exposure and causal attribution against connectivity outages cannot be computed '' @
     ''from this trace, consistent with V9.2's L5 (revocation observability).''"

definition revocation_denials :: "denial_row list \<Rightarrow> pyval result" where
  "revocation_denials RD =
     bind_result (max_of (map rd_timestamp RD)) (\<lambda>last.
     bind_result (min_of (map rd_timestamp RD)) (\<lambda>first.
     bind_result (divide_by (of_nat (length RD)) (of_int (span_days first last))) (\<lambda>per_day.
       Inr (payload_value
         [(''count'', count_val (length RD)),
          (''per_day'', VFloat per_day),
          (''deny_reason_counts'', counts_val id (value_counts (map rd_deny_reason RD))),
          (''denominator_of_all_post_revocation_attempts_available'', VBool False),
          (''success_rate_estimable'', VBool False)]))))"

definition revocation_report :: "stage_row list \<Rightarrow> denial_row list \<Rightarrow> payload result" where
  "revocation_report RS RD =
     bind_result (max_of (map rs_stage_timestamp RS)) (\<lambda>last.
     bind_result (min_of (map rs_stage_timestamp RS)) (\<lambda>first.
     let delayed = filter is_delayed RS
     in bind_result (delayed_by_stage RS) (\<lambda>by_stage.
        bind_result (divide_by (of_nat (length delayed)) (of_nat (length RS))) (\<lambda>share.
        bind_result (revocation_denials RD) (\<lambda>denials.
          Inr [(''n_stage_records'', count_val (length RS)),
               (''trace_span_days'', VInt (span_days first last)),
               (''stage_name_counts'', counts_val id (value_counts (map rs_stage_name RS))),
               (''status_counts'', counts_val id (value_counts (map rs_status RS))),
               (''delayed_count'', count_val (length delayed)),
               (''delayed_pct'', VFloat (share * 100)),
               (''delayed_pct_by_stage'', payload_value (map (\<lambda>(s, q). (s, VFloat q)) by_stage)),
               (''n_distinct_stage_types'', count_val (card (set (unique (map rs_stage_name RS))))),
               (''n_subjects'', count_val (nunique (map rs_cert_user_id RS))),
               (''n_subjects_with_all_stage_types'', count_val (n_all_stages RS)),
               (''n_subjects_appearing_once'', count_val (n_appear_once RS)),
               (''episode_reconstructable'', VBool False),
               (''episode_reconstruction_note'', VStr episode_note),
               (''field_revocation_denials'', denials)])))))"

text \<open>The function \<open>duration_stats\<close>, which the script defines.\<close>

definition duration_stats :: "stats_lib \<Rightarrow> rat list \<Rightarrow> payload result" where
  "duration_stats lib series =
     bind_result (mean_of series) (\<lambda>m.
     bind_result (sd_of lib series) (\<lambda>sd.
     bind_result (quantile_of lib series (95 / 100)) (\<lambda>p95.
     bind_result (max_of series) (\<lambda>hi.
     bind_result (min_of series) (\<lambda>lo.
       Inr [(''n'', count_val (length series)), (''mean'', VFloat m), (''sd'', VFloat sd), (''p95'', VFloat p95),
            (''max'', VFloat hi), (''min'', VFloat lo)])))))"

definition revocation_main :: "stage_row list \<Rightarrow> denial_row list \<Rightarrow> (string \<times> pyval) list result" where
  "revocation_main RS RD =
     bind_result (revocation_report RS RD) (\<lambda>d. Inr [(''07_revocation_results.json'', payload_value d)])"

section \<open>Subjects and delays\<close>

lemma subjects_count: "nunique (map rs_cert_user_id RS) = length (groups rs_cert_user_id RS)"
  by (simp add: groups_def nunique_def)

lemma count_disjoint:
  assumes "\<And>x. x \<in> set xs \<Longrightarrow> \<not> (p x \<and> q x)"
  shows "count_where p xs + count_where q xs \<le> length xs"
  using assms by (induction xs) (auto simp: count_where_def)

lemma stages_disjoint:
  assumes "2 \<le> card (set (map rs_stage_name RS))"
  shows "n_all_stages RS + n_appear_once RS \<le> nunique (map rs_cert_user_id RS)"
proof -
  have "\<not> (card (set (map rs_stage_name rows)) = card (set (map rs_stage_name RS)) \<and> length rows = 1)"
    for rows :: "stage_row list"
    using assms card_length [of "map rs_stage_name rows"] by auto
  then have "count_where (\<lambda>(subject, rows). card (set (map rs_stage_name rows)) = card (set (map rs_stage_name RS)))
        (groups rs_cert_user_id RS)
      + count_where (\<lambda>(subject, rows). length rows = 1) (groups rs_cert_user_id RS)
      \<le> length (groups rs_cert_user_id RS)"
    by (intro count_disjoint) auto
  moreover have "n_all_stages RS =
      count_where (\<lambda>(subject, rows). card (set (map rs_stage_name rows)) = card (set (map rs_stage_name RS)))
        (groups rs_cert_user_id RS)"
    by (simp add: n_all_stages_def subject_stages_def count_where_def filter_map comp_def case_prod_unfold)
  ultimately show ?thesis
    by (simp add: n_appear_once_def subjects_count)
qed

lemma weighted_delays:
  assumes "map_result (\<lambda>(stage, rows). bind_result (pct_where p rows) (\<lambda>q. Inr (stage, q))) gs = Inr by_stage"
  shows "(\<Sum>((stage, q), (stage', rows)) \<leftarrow> zip by_stage gs. q * of_nat (length rows)) =
    of_nat (\<Sum>(stage, rows) \<leftarrow> gs. count_where p rows) * 100 \<and> map fst by_stage = map fst gs"
  using assms
proof (induction gs arbitrary: by_stage)
  case (Cons g gs)
  obtain stage rows where g: "g = (stage, rows)" by fastforce
  from Cons.prems obtain q rest where q: "pct_where p rows = Inr q" "by_stage = (stage, q) # rest"
    and rest: "map_result (\<lambda>(stage, rows). bind_result (pct_where p rows) (\<lambda>q. Inr (stage, q))) gs = Inr rest"
    by (auto simp: g result_simps)
  from q(1) have "q * of_nat (length rows) = of_nat (count_where p rows) * 100"
    by (simp add: pct_where_Inr)
  with Cons.IH [OF rest] q(2) show ?case
    by (simp add: g algebra_simps)
qed simp

text \<open>
  The figures of the revocation report fit together. The delayed records are the count of the status
  \<open>delayed\<close>; the delayed percentages of the stages, weighted by the records of the stage, give the
  delayed records; with at least two stages in the trace no subject is counted both as having all stages
  and as appearing once; and the stage counts add up to the records.
\<close>

theorem revocation_figures_fit:
  assumes "revocation_report RS RD = Inr d"
  shows "\<exists>by_stage. payload_get d ''n_stage_records'' = count_val (length RS)
    \<and> payload_get d ''delayed_count'' = count_val (count_list (map rs_status RS) ''delayed'')
    \<and> sum_list (map snd (value_counts (map rs_stage_name RS))) = length RS
    \<and> payload_get d ''delayed_pct_by_stage'' = payload_value (map (\<lambda>(s, q). (s, VFloat q)) by_stage)
    \<and> map fst by_stage = map fst (groups rs_stage_name RS)
    \<and> (\<Sum>((s, q), (s', rows)) \<leftarrow> zip by_stage (groups rs_stage_name RS). q * of_nat (length rows))
        = of_nat (count_list (map rs_status RS) ''delayed'') * 100
    \<and> payload_get d ''n_subjects'' = count_val (nunique (map rs_cert_user_id RS))
    \<and> payload_get d ''n_subjects_with_all_stage_types'' = count_val (n_all_stages RS)
    \<and> payload_get d ''n_subjects_appearing_once'' = count_val (n_appear_once RS)
    \<and> (2 \<le> card (set (map rs_stage_name RS)) \<longrightarrow>
         n_all_stages RS + n_appear_once RS \<le> nunique (map rs_cert_user_id RS))"
proof -
  have delayed: "length (filter is_delayed RS) = count_list (map rs_status RS) ''delayed''"
    unfolding is_delayed_def [abs_def] using count_where_eq [of rs_status "''delayed''" RS]
    by (simp only: count_where_def)
  from assms obtain by_stage where by_stage: "delayed_by_stage RS = Inr by_stage"
    and d: "payload_get d ''n_stage_records'' = count_val (length RS)"
      "payload_get d ''delayed_count'' = count_val (length (filter is_delayed RS))"
      "payload_get d ''delayed_pct_by_stage'' = payload_value (map (\<lambda>(s, q). (s, VFloat q)) by_stage)"
      "payload_get d ''n_subjects'' = count_val (nunique (map rs_cert_user_id RS))"
      "payload_get d ''n_subjects_with_all_stage_types'' = count_val (n_all_stages RS)"
      "payload_get d ''n_subjects_appearing_once'' = count_val (n_appear_once RS)"
    by (auto simp: revocation_report_def Let_def result_simps payload_get_def)
  have "(\<Sum>(stage, rows) \<leftarrow> groups rs_stage_name RS. count_where is_delayed rows) = count_list (map rs_status RS) ''delayed''"
    using groups_total [of is_delayed rs_stage_name RS] delayed by (simp add: count_where_def)
  then show ?thesis
    using d weighted_delays [OF by_stage [unfolded delayed_by_stage_def]] delayed stages_disjoint [of RS]
      value_counts_total [of "map rs_stage_name RS"]
    by (intro exI [of _ by_stage]) simp
qed

theorem revocation_figures_fit_witness:
  "\<exists>d. revocation_report
     [\<lparr>rs_cert_user_id = ''u1'', rs_stage_name = ''gossip'', rs_stage_timestamp = 0, rs_status = ''delayed''\<rparr>,
      \<lparr>rs_cert_user_id = ''u1'', rs_stage_name = ''sync'', rs_stage_timestamp = 5, rs_status = ''completed''\<rparr>,
      \<lparr>rs_cert_user_id = ''u2'', rs_stage_name = ''sync'', rs_stage_timestamp = 9, rs_status = ''completed''\<rparr>]
     [\<lparr>rd_timestamp = 0, rd_caller_id = ''u1'', rd_deny_reason = ''REVOKED_CREDENTIAL''\<rparr>] = Inr d
   \<and> payload_get d ''delayed_count'' = VInt 1"
proof -
  let ?RS = "[\<lparr>rs_cert_user_id = ''u1'', rs_stage_name = ''gossip'', rs_stage_timestamp = 0, rs_status = ''delayed''\<rparr>,
      \<lparr>rs_cert_user_id = ''u1'', rs_stage_name = ''sync'', rs_stage_timestamp = 5, rs_status = ''completed''\<rparr>,
      \<lparr>rs_cert_user_id = ''u2'', rs_stage_name = ''sync'', rs_stage_timestamp = 9, rs_status = ''completed''\<rparr>]"
  let ?RD = "[\<lparr>rd_timestamp = 0, rd_caller_id = ''u1'', rd_deny_reason = ''REVOKED_CREDENTIAL''\<rparr>]"
  obtain d where "revocation_report ?RS ?RD = Inr d"
    by (simp add: revocation_report_def revocation_denials_def delayed_by_stage_def groups_def demo_eval Let_def)
  then show ?thesis
    using revocation_figures_fit [of ?RS ?RD d] by auto
qed

end
