(* ===== verification/Bench_Measurements.thy ===== *)
theory Bench_Measurements
  imports Py_Frame Analysis_Outputs
begin

text \<open>
  \<open>paper_iot/V10/analysis/scripts/08_energy_crypto.py\<close>: the energy comparison and the cryptographic timings.
  The random generator is the parameter \<open>choice\<close>, whose first argument numbers its calls; the percentile,
  the standard deviation, the median and Welch's test are parameters too. The theorem bounds the bootstrap
  interval by the measured energies, whatever the generator draws.
\<close>

record energy_sample =
  em_mode :: string
  em_energy_mj :: rat
  em_payload_bytes :: int
  em_airtime_ms :: rat

record timing_sample =
  ct_operation :: string
  ct_duration_us :: rat

record bench_lib =
  bl_std :: "rat list \<Rightarrow> rat"
  bl_median :: "rat list \<Rightarrow> rat"
  bl_percentile :: "rat list \<Rightarrow> rat \<Rightarrow> rat"
  bl_choice :: "nat \<Rightarrow> rat list \<Rightarrow> nat \<Rightarrow> rat list"
  bl_welch :: "rat list \<Rightarrow> rat list \<Rightarrow> rat \<times> rat"

definition bench_sd :: "bench_lib \<Rightarrow> rat list \<Rightarrow> rat result" where
  "bench_sd lib xs = (if length xs < 2 then Inl Unmodelled else Inr (bl_std lib xs))"

section \<open>Energy\<close>

definition energies :: "string \<Rightarrow> energy_sample list \<Rightarrow> rat list" where
  "energies mode EM = map em_energy_mj (filter (\<lambda>r. em_mode r = mode) EM)"

text \<open>\<open>(1 - c.mean() / s.mean()) * 100\<close>.\<close>

definition reduction :: "rat list \<Rightarrow> rat list \<Rightarrow> rat result" where
  "reduction c s =
     bind_result (mean_of c) (\<lambda>mc. bind_result (mean_of s) (\<lambda>ms. bind_result (divide_by mc ms) (\<lambda>q. Inr ((1 - q) * 100))))"

definition boot :: "bench_lib \<Rightarrow> rat list \<Rightarrow> rat list \<Rightarrow> nat \<Rightarrow> rat result" where
  "boot lib sc crt i =
     reduction (bl_choice lib (2 * i + 1) crt (length crt)) (bl_choice lib (2 * i) sc (length sc))"

definition n_boots :: nat where
  "n_boots = 10000"

definition mode_val :: "rat list \<Rightarrow> rat \<Rightarrow> rat \<Rightarrow> pyval" where
  "mode_val xs m sd = payload_value [(''n'', count_val (length xs)), (''mean_mj'', VFloat m), (''sd_mj'', VFloat sd)]"

definition airtime_by_mode :: "energy_sample list \<Rightarrow> (string \<times> rat) list result" where
  "airtime_by_mode EM =
     map_result (\<lambda>(mode, rows). bind_result (mean_of (map em_airtime_ms rows)) (\<lambda>m. Inr (mode, m))) (groups em_mode EM)"

definition energy_analysis :: "bench_lib \<Rightarrow> energy_sample list \<Rightarrow> payload result" where
  "energy_analysis lib EM =
     (let sc = energies ''single_channel'' EM; crt = energies ''crt'' EM
      in bind_result (reduction crt sc) (\<lambda>diff_pct.
         bind_result (map_result (boot lib sc crt) [0..<n_boots]) (\<lambda>boots.
         bind_result (mean_of sc) (\<lambda>msc. bind_result (bench_sd lib sc) (\<lambda>sdsc.
         bind_result (mean_of crt) (\<lambda>mcrt. bind_result (bench_sd lib crt) (\<lambda>sdcrt.
         bind_result (min_of (map em_payload_bytes EM)) (\<lambda>pmin. bind_result (max_of (map em_payload_bytes EM)) (\<lambda>pmax.
         bind_result (airtime_by_mode EM) (\<lambda>airtime.
           Inr [(''single_channel'', mode_val sc msc sdsc),
                (''crt'', mode_val crt mcrt sdcrt),
                (''reduction_pct'', VFloat diff_pct),
                (''reduction_ci95_low'', VFloat (bl_percentile lib boots (25 / 10))),
                (''reduction_ci95_high'', VFloat (bl_percentile lib boots (975 / 10))),
                (''welch_t'', VFloat (fst (bl_welch lib sc crt))),
                (''welch_p'', VFloat (snd (bl_welch lib sc crt))),
                (''payload_bytes_range'', VList [VInt pmin, VInt pmax]),
                (''airtime_ms_by_mode'', payload_value (map (\<lambda>(m, q). (m, VFloat q)) airtime)),
                (''measurement_note'',
                 VStr ''Single-node INA219-style bench measurement; not generalized across all 50 devices.'')]))))))))))"

section \<open>Cryptographic timings\<close>

record timing_stats =
  tm_n :: nat
  tm_mean_us :: rat
  tm_sd_us :: rat
  tm_median_us :: rat

definition timing_of :: "bench_lib \<Rightarrow> timing_sample list \<Rightarrow> timing_stats result" where
  "timing_of lib rows =
     (let ds = map ct_duration_us rows
      in bind_result (mean_of ds) (\<lambda>m. bind_result (bench_sd lib ds) (\<lambda>sd.
           Inr \<lparr>tm_n = length rows, tm_mean_us = m, tm_sd_us = sd, tm_median_us = bl_median lib ds\<rparr>)))"

definition timings :: "bench_lib \<Rightarrow> timing_sample list \<Rightarrow> (string, timing_stats) dict result" where
  "timings lib CT =
     map_result (\<lambda>(oper, rows). bind_result (timing_of lib rows) (\<lambda>s. Inr (oper, s))) (groups ct_operation CT)"

text \<open>\<open>out.get(op, {}).get("mean_us", 0)\<close>.\<close>

definition mean_us :: "(string, timing_stats) dict \<Rightarrow> string \<Rightarrow> rat" where
  "mean_us out oper = (case dict_get out oper of None \<Rightarrow> 0 | Some s \<Rightarrow> tm_mean_us s)"

definition timing_val :: "timing_stats \<Rightarrow> pyval" where
  "timing_val s = payload_value [(''n'', count_val (tm_n s)), (''mean_us'', VFloat (tm_mean_us s)),
     (''sd_us'', VFloat (tm_sd_us s)), (''median_us'', VFloat (tm_median_us s))]"

definition crypto_timing_analysis :: "bench_lib \<Rightarrow> timing_sample list \<Rightarrow> payload result" where
  "crypto_timing_analysis lib CT =
     bind_result (timings lib CT) (\<lambda>out.
       Inr [(''by_operation'', payload_value (map (\<lambda>(oper, s). (oper, timing_val s)) out)),
            (''sign_pipeline_us_sha256_plus_sign'', VFloat (mean_us out ''sha256'' + mean_us out ''ed25519_sign'')),
            (''verify_us'', VFloat (mean_us out ''ed25519_verify'')),
            (''n_samples_total'', count_val (length CT))])"

definition bench_main :: "bench_lib \<Rightarrow> energy_sample list \<Rightarrow> timing_sample list \<Rightarrow> (string \<times> pyval) list result" where
  "bench_main lib EM CT =
     bind_result (energy_analysis lib EM) (\<lambda>energy. bind_result (crypto_timing_analysis lib CT) (\<lambda>crypto.
       Inr [(''08_energy_results.json'', payload_value energy), (''08_crypto_timing_results.json'', payload_value crypto)]))"

section \<open>Bounds of the bootstrap\<close>

text \<open>
  What is documented of the two library functions: \<open>choice\<close> draws as many elements as asked for, all of them
  from the given values; a percentile lies between the extreme values and grows with its level.
\<close>

definition draws_from :: "bench_lib \<Rightarrow> bool" where
  "draws_from lib \<longleftrightarrow> (\<forall>i xs n. xs \<noteq> [] \<longrightarrow> length (bl_choice lib i xs n) = n \<and> set (bl_choice lib i xs n) \<subseteq> set xs)"

definition percentile_between :: "bench_lib \<Rightarrow> bool" where
  "percentile_between lib \<longleftrightarrow> (\<forall>xs p q. xs \<noteq> [] \<longrightarrow> 0 \<le> p \<longrightarrow> p \<le> q \<longrightarrow> q \<le> 100 \<longrightarrow>
     Min (set xs) \<le> bl_percentile lib xs p \<and> bl_percentile lib xs p \<le> bl_percentile lib xs q
     \<and> bl_percentile lib xs q \<le> Max (set xs))"

lemma sum_bounds:
  assumes "\<And>x. x \<in> set xs \<Longrightarrow> lo \<le> x \<and> x \<le> (hi :: rat)"
  shows "lo * of_nat (length xs) \<le> sum_list xs \<and> sum_list xs \<le> hi * of_nat (length xs)"
  using assms by (induction xs) (fastforce simp: algebra_simps intro: add_mono)+

lemma mean_of_bounds:
  assumes "mean_of xs = Inr m" "\<And>x. x \<in> set xs \<Longrightarrow> lo \<le> x \<and> x \<le> hi"
  shows "lo \<le> m" "m \<le> hi"
proof -
  from assms(1) have m: "0 < (of_nat (length xs) :: rat)" "m = sum_list xs / (of_nat (length xs) :: rat)"
    by (auto simp: mean_of_Inr)
  then show "lo \<le> m" "m \<le> hi"
    using sum_bounds [of xs lo hi] assms(2) by (simp_all add: le_divide_eq divide_le_eq)
qed

lemma reduction_bounds:
  assumes "reduction c s = Inr q" "0 < slo" "0 \<le> clo"
    and "\<And>x. x \<in> set c \<Longrightarrow> clo \<le> x \<and> x \<le> chi" "\<And>x. x \<in> set s \<Longrightarrow> slo \<le> x \<and> x \<le> shi"
  shows "(1 - chi / slo) * 100 \<le> q" "q \<le> (1 - clo / shi) * 100"
proof -
  from assms(1) obtain mc ms where m: "mean_of c = Inr mc" "mean_of s = Inr ms" "q = (1 - mc / ms) * 100"
    by (auto simp: reduction_def result_simps frame_Inr)
  note b = mean_of_bounds [OF m(1) assms(4)] mean_of_bounds [OF m(2) assms(5)]
  have "mc / ms \<le> chi / slo"
    using b assms(2,3) by (intro frac_le) auto
  moreover have "clo / shi \<le> mc / ms"
    using b assms(2,3) by (intro frac_le) auto
  ultimately show "(1 - chi / slo) * 100 \<le> q" "q \<le> (1 - clo / shi) * 100"
    unfolding m(3) by (intro mult_right_mono diff_left_mono; simp)+
qed

lemma percentiles_between:
  assumes "percentile_between lib" "boots \<noteq> []" "\<And>x. x \<in> set boots \<Longrightarrow> least \<le> x \<and> x \<le> most"
  shows "least \<le> bl_percentile lib boots (25 / 10)" "bl_percentile lib boots (25 / 10) \<le> bl_percentile lib boots (975 / 10)"
    "bl_percentile lib boots (975 / 10) \<le> most"
proof -
  have "Min (set boots) \<in> set boots" "Max (set boots) \<in> set boots"
    using assms(2) by simp_all
  moreover have between: "Min (set boots) \<le> bl_percentile lib boots (25 / 10)"
    "bl_percentile lib boots (25 / 10) \<le> bl_percentile lib boots (975 / 10)"
    "bl_percentile lib boots (975 / 10) \<le> Max (set boots)"
    using assms(1) [unfolded percentile_between_def, rule_format, of boots "25 / 10" "975 / 10"] assms(2) by simp_all
  ultimately show "least \<le> bl_percentile lib boots (25 / 10)" "bl_percentile lib boots (975 / 10) \<le> most"
    using assms(3) by (meson order_trans)+
  show "bl_percentile lib boots (25 / 10) \<le> bl_percentile lib boots (975 / 10)"
    by (rule between)
qed

text \<open>
  C38. Whatever the random generator draws, the reported reduction and both ends of its bootstrap interval lie
  between the reduction from the smallest single-channel energy to the greatest residue-coded one and
  the reduction from the greatest to the smallest, the ends are in order, and with positive energies
  none of them reaches 100 percent.
\<close>

theorem energy_reduction_bounded:
  assumes "energy_analysis lib EM = Inr d" "draws_from lib" "percentile_between lib"
    and "\<forall>r \<in> set EM. 0 < em_energy_mj r"
  shows "\<exists>q lo hi. let sc = set (energies ''single_channel'' EM); crt = set (energies ''crt'' EM);
      least = (1 - Max crt / Min sc) * 100; most = (1 - Min crt / Max sc) * 100
    in payload_get d ''reduction_pct'' = VFloat q \<and> payload_get d ''reduction_ci95_low'' = VFloat lo
     \<and> payload_get d ''reduction_ci95_high'' = VFloat hi
     \<and> least \<le> q \<and> q \<le> most \<and> least \<le> lo \<and> lo \<le> hi \<and> hi \<le> most \<and> most < 100"
proof -
  let ?sc = "energies ''single_channel'' EM" and ?crt = "energies ''crt'' EM"
  let ?least = "(1 - Max (set ?crt) / Min (set ?sc)) * 100" and ?most = "(1 - Min (set ?crt) / Max (set ?sc)) * 100"
  from assms(1) obtain q boots where q: "reduction ?crt ?sc = Inr q"
    and boots: "map_result (boot lib ?sc ?crt) [0..<n_boots] = Inr boots"
    and d: "payload_get d ''reduction_pct'' = VFloat q"
      "payload_get d ''reduction_ci95_low'' = VFloat (bl_percentile lib boots (25 / 10))"
      "payload_get d ''reduction_ci95_high'' = VFloat (bl_percentile lib boots (975 / 10))"
    by (auto simp: energy_analysis_def Let_def result_simps payload_get_def)
  have ne: "?sc \<noteq> []" "?crt \<noteq> []"
    using q by (auto simp: reduction_def result_simps frame_Inr)
  have "\<forall>x \<in> set ?sc. 0 < x" "\<forall>x \<in> set ?crt. 0 < x"
    using assms(4) by (auto simp: energies_def)
  then have pos: "0 < Min (set ?sc)" "0 < Min (set ?crt)" "0 < Max (set ?sc)"
    using ne Max_in [of "set ?sc"] by auto
  have within: "?least \<le> x \<and> x \<le> ?most"
    if "reduction c s = Inr x" "set c \<subseteq> set ?crt" "set s \<subseteq> set ?sc" for c s x
    using reduction_bounds [OF that(1), of "Min (set ?sc)" "Min (set ?crt)" "Max (set ?crt)" "Max (set ?sc)"] pos that(2,3)
    by (meson List.finite_set Max_ge Min_le less_imp_le subsetD)
  have drawn: "?least \<le> x \<and> x \<le> ?most" if x: "x \<in> set boots" for x
  proof -
    obtain i where "boot lib ?sc ?crt i = Inr x"
      using map_result_mem [OF boots x] by blast
    then show ?thesis
      using assms(2) ne within by (simp add: boot_def draws_from_def)
  qed
  have "length boots = n_boots"
    using map_result_Inr_length [OF boots] by simp
  then have "boots \<noteq> []"
    by (auto simp: n_boots_def)
  note ends = percentiles_between [OF assms(3) this drawn]
  have "?most < 100"
    using pos by simp
  then show ?thesis
    using d within [OF q] ends unfolding Let_def by blast
qed

text \<open>A generator that always draws the first value, and a percentile that is the minimum.\<close>

definition demo_lib :: bench_lib where
  "demo_lib = \<lparr>bl_std = (\<lambda>xs. 0), bl_median = hd, bl_percentile = (\<lambda>xs p. Min (set xs)),
     bl_choice = (\<lambda>i xs n. replicate n (hd xs)), bl_welch = (\<lambda>a b. (0, 1))\<rparr>"

definition demo_energy :: "energy_sample list" where
  "demo_energy = map (\<lambda>(m, e). \<lparr>em_mode = m, em_energy_mj = e, em_payload_bytes = 20, em_airtime_ms = 50\<rparr>)
     [(''single_channel'', 24), (''single_channel'', 20), (''crt'', 12), (''crt'', 10)]"

lemma demo_energy_run: "\<exists>d. energy_analysis demo_lib demo_energy = Inr d"
proof -
  have e: "energies ''single_channel'' demo_energy = [24, 20]" "energies ''crt'' demo_energy = [12, 10]"
    by (simp_all add: energies_def demo_energy_def)
  have "boot demo_lib [24, 20] [12, 10] i = Inr 50" for i
    by (simp add: boot_def demo_lib_def reduction_def mean_of_def divide_by_def numeral_2_eq_2)
  then have boots: "map_result (boot demo_lib [24, 20] [12, 10]) [0..<n_boots] = Inr (map (\<lambda>i. 50) [0..<n_boots])"
    by (intro map_result_all_Inr) simp
  have "\<exists>airtime. airtime_by_mode demo_energy = Inr airtime"
    by (simp add: airtime_by_mode_def groups_def demo_energy_def mean_of_def)
  then obtain airtime where airtime: "airtime_by_mode demo_energy = Inr airtime" ..
  have payload: "map em_payload_bytes demo_energy = [20, 20, 20, 20]"
    by (simp add: demo_energy_def)
  show ?thesis
    by (simp add: energy_analysis_def e boots airtime payload reduction_def mean_of_def divide_by_def bench_sd_def
        min_of_def max_of_def Let_def)
qed

theorem energy_reduction_bounded_witness:
  "\<exists>d q. energy_analysis demo_lib demo_energy = Inr d \<and> payload_get d ''reduction_pct'' = VFloat q \<and> q < 100"
proof -
  obtain d where d: "energy_analysis demo_lib demo_energy = Inr d"
    using demo_energy_run by blast
  moreover have "draws_from demo_lib"
    by (auto simp: draws_from_def demo_lib_def split: if_splits)
  moreover have "percentile_between demo_lib"
    by (auto simp: percentile_between_def demo_lib_def)
  moreover have "\<forall>r \<in> set demo_energy. 0 < em_energy_mj r"
    by (simp add: demo_energy_def)
  ultimately show ?thesis
    using energy_reduction_bounded [of demo_lib demo_energy d] by (auto simp: Let_def intro: order_le_less_trans)
qed

end
