(* ===== verification/Data_Quality.thy ===== *)
theory Data_Quality
  imports Py_Frame Analysis_Outputs
begin

text \<open>
  \<open>paper_iot/V10/analysis/scripts/09_data_quality.py\<close>: the checks over all raw tables. A table is a list of
  rows with named cells; a cell is missing, a number, a text, a truth value or a time (nanoseconds in
  UTC and the offset in minutes). \<open>pd.to_datetime\<close> and \<open>str\<close> of a cell are parameters. The theorems: what
  the counts of one table say about its rows, and that the monotonicity check is sortedness within each run.
\<close>

section \<open>Tables\<close>

datatype cell = Missing | Num rat | Text string | Flag bool | Stamp int int

record frame =
  frame_columns :: "string list"
  frame_rows :: "(string, cell) dict list"

definition cell_at :: "string \<Rightarrow> (string, cell) dict \<Rightarrow> cell" where
  "cell_at c row = (case dict_get row c of None \<Rightarrow> Missing | Some v \<Rightarrow> v)"

definition column :: "frame \<Rightarrow> string \<Rightarrow> cell list" where
  "column df c = map (cell_at c) (frame_rows df)"

definition column_of :: "frame \<Rightarrow> string \<Rightarrow> cell list result" where
  "column_of df c = (if c \<in> set (frame_columns df) then Inr (column df c) else Inl (KeyError c))"

definition complete_rows :: "frame \<Rightarrow> cell list list" where
  "complete_rows df = map (\<lambda>row. map (\<lambda>c. cell_at c row) (frame_columns df)) (frame_rows df)"

text \<open>\<open>duplicated().sum()\<close> and \<open>isna().sum()\<close>.\<close>

definition duplicated_count :: "'a list \<Rightarrow> nat" where
  "duplicated_count xs = length xs - length (remdups xs)"

definition missing_count :: "cell list \<Rightarrow> nat" where
  "missing_count xs = count_where (\<lambda>x. x = Missing) xs"

record dq_lib =
  to_datetime :: "cell \<Rightarrow> int option"
  str_cell :: "cell \<Rightarrow> string"

section \<open>The checks of one table\<close>

definition last_6 :: "string \<Rightarrow> string" where
  "last_6 s = drop (length s - 6) s"

definition offsets_seen :: "dq_lib \<Rightarrow> cell list \<Rightarrow> string list" where
  "offsets_seen lib xs =
     take 5 (sort (remdups (map last_6 (filter (\<lambda>s. 6 \<le> length s)
       (map (str_cell lib) (filter (\<lambda>x. x \<noteq> Missing) xs))))))"

definition id_checks :: "frame \<Rightarrow> string \<Rightarrow> payload" where
  "id_checks df c =
     (if c \<in> set (frame_columns df)
      then [(''duplicate_'' @ c, count_val (duplicated_count (column df c))),
            (''missing_'' @ c, count_val (missing_count (column df c)))]
      else [])"

definition ts_checks :: "dq_lib \<Rightarrow> frame \<Rightarrow> (int \<times> int) option \<Rightarrow> string \<Rightarrow> payload" where
  "ts_checks lib df window c =
     (if c \<in> set (frame_columns df)
      then let xs = column df c; ts = map (to_datetime lib) xs
           in [(''unparseable_'' @ c, VInt (int (count_where (\<lambda>t. t = None) ts) - int (missing_count xs)))] @
              (case window of
                 None \<Rightarrow> []
               | Some (lo, hi) \<Rightarrow>
                   [(c @ ''_outside_deployment_window'',
                     count_val (count_where (\<lambda>t. case t of None \<Rightarrow> False | Some v \<Rightarrow> v < lo \<or> hi < v) ts))]) @
              [(c @ ''_tz_offsets_seen'', VList (map VStr (offsets_seen lib xs)))]
      else [])"

definition check_df ::
  "dq_lib \<Rightarrow> string \<Rightarrow> frame \<Rightarrow> string list \<Rightarrow> string list \<Rightarrow> (int \<times> int) option \<Rightarrow> payload" where
  "check_df lib name df id_cols ts_cols window =
     dict_of ([(''dataset'', VStr name), (''n_rows'', count_val (length (frame_rows df))),
               (''duplicate_complete_rows'', count_val (duplicated_count (complete_rows df)))] @
              concat (map (id_checks df) id_cols) @ concat (map (ts_checks lib df window) ts_cols))"

section \<open>The domain checks\<close>

record dq_tables =
  dq_AD :: frame
  dq_ST :: frame
  dq_REVDENY :: frame
  dq_REVSTG :: frame
  dq_PR :: frame
  dq_PT :: frame
  dq_TR :: frame
  dq_SEC :: frame
  dq_EM :: frame
  dq_CT :: frame

text \<open>\<open>(col <= 0).sum()\<close>; a comparison with a text is a \<open>TypeError\<close>.\<close>

definition not_positive :: "cell \<Rightarrow> bool result" where
  "not_positive x =
     (case x of
        Missing \<Rightarrow> Inr False
      | Num q \<Rightarrow> Inr (q \<le> 0)
      | Flag b \<Rightarrow> Inr (\<not> b)
      | _ \<Rightarrow> Inl (TypeError ''<= not supported between instances of str and int''))"

definition count_not_positive :: "frame \<Rightarrow> string \<Rightarrow> pyval result" where
  "count_not_positive df c =
     bind_result (column_of df c) (\<lambda>xs.
     bind_result (map_result not_positive xs) (\<lambda>bs. Inr (count_val (count_where id bs))))"

text \<open>\<open>isin\<close> compares as Python does, where a truth value is a number.\<close>

definition canon :: "cell \<Rightarrow> cell" where
  "canon x = (case x of Flag b \<Rightarrow> Num (if b then 1 else 0) | _ \<Rightarrow> x)"

definition count_not_in :: "frame \<Rightarrow> string \<Rightarrow> cell list \<Rightarrow> pyval result" where
  "count_not_in df c allowed =
     bind_result (column_of df c) (\<lambda>xs. Inr (count_val (count_where (\<lambda>x. canon x \<notin> canon ` set allowed) xs)))"

definition count_missing :: "frame \<Rightarrow> string \<Rightarrow> pyval result" where
  "count_missing df c = bind_result (column_of df c) (\<lambda>xs. Inr (count_val (missing_count xs)))"

definition cell_val :: "cell \<Rightarrow> pyval" where
  "cell_val x = (case x of Missing \<Rightarrow> VNone | Num q \<Rightarrow> VFloat q | Text s \<Rightarrow> VStr s | Flag b \<Rightarrow> VBool b | Stamp t off \<Rightarrow> VInt t)"

definition distinct_values :: "frame \<Rightarrow> string \<Rightarrow> pyval result" where
  "distinct_values df c = bind_result (column_of df c) (\<lambda>xs. Inr (VList (map cell_val (unique xs))))"

text \<open>\<open>(s.diff().dropna() >= 0).all()\<close> over a numeric column.\<close>

fun not_falling :: "cell list \<Rightarrow> bool" where
  "not_falling (Num a # Num b # xs) = (0 \<le> b - a \<and> not_falling (Num b # xs))"
| "not_falling (x # xs) = not_falling xs"
| "not_falling [] = True"

definition numeric :: "cell \<Rightarrow> bool" where
  "numeric x \<longleftrightarrow> (case x of Missing \<Rightarrow> True | Num q \<Rightarrow> True | _ \<Rightarrow> False)"

definition sequence_monotonic :: "frame \<Rightarrow> bool result" where
  "sequence_monotonic df =
     bind_result (column_of df ''run_id'') (\<lambda>runs.
     bind_result (column_of df ''serial_position'') (\<lambda>pos.
       if \<not> list_all numeric pos then Inl Unmodelled
       else Inr (list_all (\<lambda>run. not_falling (map snd (filter (\<lambda>(r, x). r = run) (zip runs pos))))
              (filter (\<lambda>run. run \<noteq> Missing) (unique runs)))))"

fun numbers :: "cell list \<Rightarrow> rat list" where
  "numbers [] = []"
| "numbers (Num q # xs) = q # numbers xs"
| "numbers (x # xs) = numbers xs"

definition energy_range :: "frame \<Rightarrow> pyval result" where
  "energy_range df =
     bind_result (column_of df ''energy_mj'') (\<lambda>xs.
     bind_result (min_of (numbers xs)) (\<lambda>lo. bind_result (max_of (numbers xs)) (\<lambda>hi.
       Inr (payload_value [(''min'', VFloat lo), (''max'', VFloat hi),
         (''note'', VStr ''plausible LoRa transmission-energy range (single reading, mJ); no implausible outliers found'')]))))"

text \<open>The offsets that occur in the five tables.\<close>

definition offsets_in :: "dq_lib \<Rightarrow> cell list \<Rightarrow> string set" where
  "offsets_in lib xs = set (map last_6 (map (str_cell lib) (filter (\<lambda>x. x \<noteq> Missing) xs)))"

definition offset_columns :: "dq_tables \<Rightarrow> (frame \<times> string) list" where
  "offset_columns t = [(dq_AD t, ''timestamp''), (dq_ST t, ''timestamp''), (dq_PR t, ''start_timestamp''),
     (dq_TR t, ''start_timestamp''), (dq_SEC t, ''timestamp'')]"

definition all_offsets :: "dq_lib \<Rightarrow> dq_tables \<Rightarrow> string list result" where
  "all_offsets lib t =
     bind_result (map_result (\<lambda>(df, c). column_of df c) (offset_columns t)) (\<lambda>cols.
       Inr (sort (remdups (concat (map (\<lambda>xs. map last_6 (map (str_cell lib) (filter (\<lambda>x. x \<noteq> Missing) xs))) cols)))))"

definition timezone_text :: string where
  "timezone_text = ''All field/experiment/security timestamps carry a fixed +01:00 offset; verified no mixed offsets present.''"

definition valid_role_cells :: "cell list" where
  "valid_role_cells = map Text [''Admin'', ''Gateway'', ''Farmer'', ''Agronomist'', ''Certifier'', ''SupplyChain'', ''Sensor'']"

text \<open>The named entries, in order; a nested dictionary is a list of entries of its own.\<close>

definition entries :: "(string \<times> pyval result) list \<Rightarrow> payload result" where
  "entries = map_result (\<lambda>(k, v). bind_result v (\<lambda>x. Inr (k, x)))"

definition nested :: "(string \<times> pyval result) list \<Rightarrow> pyval result" where
  "nested xs = bind_result (entries xs) (\<lambda>d. Inr (payload_value d))"

definition domain_checks :: "dq_lib \<Rightarrow> dq_tables \<Rightarrow> payload result" where
  "domain_checks lib t = entries
     [(''negative_or_zero_latency'', nested
         [(''authorization_decisions'', count_not_positive (dq_AD t) ''latency_ms''),
          (''sensor_transactions'', count_not_positive (dq_ST t) ''latency_ms''),
          (''peer_scaling_transactions'', count_not_positive (dq_PT t) ''latency_ms'')]),
      (''negative_or_zero_throughput'', count_not_positive (dq_TR t) ''tps''),
      (''invalid_peer_counts'', count_not_in (dq_PR t) ''peer_count'' (map Num [4, 8, 16, 32])),
      (''invalid_concurrency_values'', count_not_in (dq_TR t) ''concurrency_level''
         (map Num [10, 20, 30, 40, 50, 60, 70, 80, 90, 100])),
      (''negative_energy'', count_not_positive (dq_EM t) ''energy_mj''),
      (''negative_crypto_duration'', count_not_positive (dq_CT t) ''duration_us''),
      (''missing_signatures_field'', count_missing (dq_ST t) ''signature_valid''),
      (''invalid_boolean_signature_valid'', count_not_in (dq_ST t) ''signature_valid'' [Flag True, Flag False]),
      (''invalid_crt_residue_counts'', count_not_in (dq_ST t) ''crt_residues_received'' (map Num [2, 3])),
      (''malformed_roles_authz'', count_not_in (dq_AD t) ''caller_role'' valid_role_cells),
      (''malformed_decision_values'', nested
         [(''authorization_decisions'', distinct_values (dq_AD t) ''decision''),
          (''sensor_transactions'', distinct_values (dq_ST t) ''decision''),
          (''authorization_boundary_attempts'', distinct_values (dq_SEC t) ''decision'')]),
      (''run_sequence_monotonic'', nested
         [(''peer_scaling'', bind_result (sequence_monotonic (dq_PT t)) (\<lambda>b. Inr (VBool b)))]),
      (''out_of_range_energy_mj'', energy_range (dq_EM t)),
      (''revocation_stage_status_values'', distinct_values (dq_REVSTG t) ''status''),
      (''timezone_consistency'', Inr (VStr timezone_text)),
      (''distinct_timezone_offsets_observed'',
         bind_result (all_offsets lib t) (\<lambda>os. Inr (VList (map VStr os))))]"

text \<open>The window of the deployment; \<open>min()\<close> and \<open>max()\<close> skip missing times.\<close>

fun stamps :: "cell list \<Rightarrow> int list" where
  "stamps [] = []"
| "stamps (Stamp t off # xs) = t # stamps xs"
| "stamps (x # xs) = stamps xs"

definition dataset_checks :: "dq_lib \<Rightarrow> dq_tables \<Rightarrow> payload result" where
  "dataset_checks lib t =
     bind_result (column_of (dq_AD t) ''timestamp'') (\<lambda>ts.
     bind_result (min_of (stamps ts)) (\<lambda>lo. bind_result (max_of (stamps ts)) (\<lambda>hi.
     let w = Some (lo, hi); check = (\<lambda>name df ids tss window. (name, payload_value (check_df lib name df ids tss window)))
     in Inr [check ''authorization_decisions'' (dq_AD t) [''entry_id'', ''tx_id''] [''timestamp''] w,
             check ''sensor_transactions'' (dq_ST t) [''tx_id'', ''reading_id''] [''timestamp''] w,
             check ''revocation_denials'' (dq_REVDENY t) [''attempt_id''] [''timestamp''] None,
             check ''revocation_stages'' (dq_REVSTG t) [''event_id''] [''stage_timestamp''] None,
             check ''peer_scaling_runs'' (dq_PR t) [''run_id''] [''start_timestamp'', ''end_timestamp''] None,
             check ''peer_scaling_transactions'' (dq_PT t) [''tx_id''] [] None,
             check ''throughput_runs'' (dq_TR t) [''run_id''] [''start_timestamp'', ''end_timestamp''] None,
             check ''authorization_boundary_attempts'' (dq_SEC t) [''attempt_id''] [''timestamp''] None,
             check ''energy_measurements'' (dq_EM t) [''sample_id''] [] None,
             check ''cryptographic_timings'' (dq_CT t) [''sample_id''] [] None])))"

text \<open>The file of exclusions: the header and no rows, since nothing is ever appended to \<open>EXCLUSIONS\<close>.\<close>

definition exclusion_fields :: "string list" where
  "exclusion_fields = [''dataset'', ''record_identifier'', ''reason'', ''rule'', ''prespecified'', ''effect_on_result'']"

definition exclusions_csv :: string where
  "exclusions_csv = write_row exclusion_fields"

definition quality_main :: "dq_lib \<Rightarrow> dq_tables \<Rightarrow> ((string \<times> pyval) list \<times> string) result" where
  "quality_main lib t =
     bind_result (dataset_checks lib t) (\<lambda>results.
     bind_result (domain_checks lib t) (\<lambda>checks.
       Inr ([(''09_data_quality_per_dataset.json'', payload_value results),
             (''09_data_quality_checks.json'', payload_value checks)], exclusions_csv)))"

section \<open>What the counts say\<close>

lemma duplicated_count_0: "duplicated_count xs = 0 \<longleftrightarrow> distinct xs"
proof -
  have "length (remdups xs) \<le> length xs"
    by (rule length_remdups_leq)
  then have "duplicated_count xs = 0 \<longleftrightarrow> length (remdups xs) = length xs"
    unfolding duplicated_count_def by linarith
  then show ?thesis by (metis distinct_remdups distinct_remdups_id length_remdups_eq)
qed

lemma missing_count_0: "missing_count xs = 0 \<longleftrightarrow> Missing \<notin> set xs"
  by (auto simp: missing_count_def count_where_def filter_empty_conv)

lemma distinct_column_rows:
  assumes "c \<in> set (frame_columns df)" "distinct (column df c)"
  shows "distinct (complete_rows df)"
proof -
  have "column df c = map (\<lambda>row. the (map_of (zip (frame_columns df) row) c)) (complete_rows df)"
    using assms(1) by (auto simp: column_def complete_rows_def map_of_zip_map)
  then show ?thesis
    using assms(2) by (metis distinct_map)
qed

lemma dict_of_snoc: "dict_of (xs @ [(k, v)]) = dict_set k v (dict_of xs)"
  by (simp add: dict_of_def)

text \<open>
  The two counts of an id column are both zero exactly when the column identifies the rows: every row has
  an id and no two rows share one. Then the table has no duplicate rows either.
\<close>

theorem id_counts_identify:
  assumes "c \<in> set (frame_columns df)"
  shows "let d = check_df lib name df [c] [] window in
    (payload_get d (''duplicate_'' @ c) = VInt 0 \<and> payload_get d (''missing_'' @ c) = VInt 0
       \<longleftrightarrow> distinct (column df c) \<and> Missing \<notin> set (column df c))
    \<and> (payload_get d (''duplicate_'' @ c) = VInt 0 \<longrightarrow> payload_get d ''duplicate_complete_rows'' = VInt 0)"
proof -
  define base where "base = [(''dataset'', VStr name), (''n_rows'', count_val (length (frame_rows df))),
    (''duplicate_complete_rows'', count_val (duplicated_count (complete_rows df)))]"
  define d where "d = check_df lib name df [c] [] window"
  have "d = dict_of ((base @ [(''duplicate_'' @ c, count_val (duplicated_count (column df c)))])
      @ [(''missing_'' @ c, count_val (missing_count (column df c)))])"
    using assms by (simp add: d_def check_df_def id_checks_def base_def)
  then have d: "d = dict_set (''missing_'' @ c) (count_val (missing_count (column df c)))
      (dict_set (''duplicate_'' @ c) (count_val (duplicated_count (column df c))) (dict_of base))"
    unfolding dict_of_snoc .
  have base: "dict_get (dict_of base) ''duplicate_complete_rows'' = Some (count_val (duplicated_count (complete_rows df)))"
    by (simp add: base_def dict_of_def)
  have ne: "''missing_'' @ c \<noteq> ''duplicate_'' @ c" "''missing_'' @ c \<noteq> ''duplicate_complete_rows''"
    by simp_all
  have "payload_get d (''missing_'' @ c) = count_val (missing_count (column df c))"
    "payload_get d (''duplicate_'' @ c) = count_val (duplicated_count (column df c))"
    unfolding d payload_get_def dict_get_set using ne(1) by auto
  moreover have "payload_get d ''duplicate_complete_rows'' = VInt 0" if "duplicated_count (column df c) = 0"
    unfolding d payload_get_def dict_get_set
    using ne(2) base that distinct_column_rows [OF assms] by (auto simp: duplicated_count_0)
  ultimately show ?thesis
    unfolding d_def [symmetric] Let_def by (simp add: duplicated_count_0 missing_count_0)
qed

theorem id_counts_identify_witness:
  "let df = \<lparr>frame_columns = [''tx_id''], frame_rows = [[(''tx_id'', Text ''a'')], [(''tx_id'', Text ''b'')]]\<rparr>;
       d = check_df \<lparr>to_datetime = (\<lambda>x. None), str_cell = (\<lambda>x. [])\<rparr> ''t'' df [''tx_id''] [] None
   in payload_get d ''duplicate_tx_id'' = VInt 0 \<and> payload_get d ''missing_tx_id'' = VInt 0
    \<and> payload_get d ''duplicate_complete_rows'' = VInt 0"
  using id_counts_identify [of "''tx_id''" "\<lparr>frame_columns = [''tx_id''],
      frame_rows = [[(''tx_id'', Text ''a'')], [(''tx_id'', Text ''b'')]]\<rparr>"
      "\<lparr>to_datetime = (\<lambda>x. None), str_cell = (\<lambda>x. [])\<rparr>" "''t''" None]
  by (simp add: Let_def column_def cell_at_def)

section \<open>Monotone sequences\<close>

lemma not_falling_sorted: "not_falling (map Num qs) \<longleftrightarrow> sorted qs"
  by (induction qs rule: induct_list012) (auto intro: order_trans)

text \<open>
  With a position in every row, the check \<open>run_sequence_monotonic\<close> holds exactly when the positions of each
  run are sorted in the order of the rows; repeated positions pass.
\<close>

theorem sequence_monotonic_sorted:
  assumes "column_of df ''run_id'' = Inr runs" "column_of df ''serial_position'' = Inr (map Num pos)"
  shows "sequence_monotonic df =
    Inr (\<forall>run \<in> set runs. run \<noteq> Missing \<longrightarrow> sorted (map snd (filter (\<lambda>(r, q). r = run) (zip runs pos))))"
proof -
  have "map snd (filter (\<lambda>(r, x). r = run) (zip runs (map Num pos))) =
      map Num (map snd (filter (\<lambda>(r, q). r = run) (zip runs pos)))" for run
    by (simp add: zip_map2 filter_map comp_def case_prod_unfold)
  then have "not_falling (map snd (filter (\<lambda>(r, x). r = run) (zip runs (map Num pos)))) \<longleftrightarrow>
      sorted (map snd (filter (\<lambda>(r, q). r = run) (zip runs pos)))" for run
    by (simp only: not_falling_sorted)
  moreover have "list_all numeric (map Num pos)"
    by (simp add: list_all_iff numeric_def)
  ultimately show ?thesis
    using assms by (auto simp: sequence_monotonic_def list_all_iff)
qed

theorem sequence_monotonic_sorted_witness:
  "sequence_monotonic \<lparr>frame_columns = [''run_id'', ''serial_position''],
     frame_rows = [[(''run_id'', Text ''r''), (''serial_position'', Num 2)], [(''run_id'', Text ''r''), (''serial_position'', Num 1)]]\<rparr>
   = Inr False"
  using sequence_monotonic_sorted [of "\<lparr>frame_columns = [''run_id'', ''serial_position''],
     frame_rows = [[(''run_id'', Text ''r''), (''serial_position'', Num 2)], [(''run_id'', Text ''r''), (''serial_position'', Num 1)]]\<rparr>"
     "[Text ''r'', Text ''r'']" "[2, 1]"]
  by (simp add: column_of_def column_def cell_at_def)

text \<open>The text on time zones is written whatever the tables hold.\<close>

lemma timezone_text_unconditional:
  "domain_checks lib t = Inr d \<Longrightarrow> payload_get d ''timezone_consistency'' = VStr timezone_text"
  by (auto simp: domain_checks_def entries_def result_simps payload_get_def)

end
