(* ===== verification/Supplement_Runs.thy ===== *)
theory Supplement_Runs
  imports Supplement_Tables Peer_Scaling Field_Deployment
begin

text \<open>
  The tables of \<open>paper_iot/V10/analysis/scripts/13_make_supplement_tables.py\<close> that are made from data frames:
  S7 and S8 from the run table that \<open>03_peer_scaling.py\<close> saved (a list of rows here; the CSV file keeps
  every float), S11 from the attempts of the security trace. The theorems compose scripts: S5 lists the grant
  rates of \<open>02_field_deployment.py\<close>, S7 the runs of \<open>03_peer_scaling.py\<close> in their order, the runs of S8 add up
  to the experiment, and the rows of S11 to the attempts that were denied with a reason.
\<close>

section \<open>S7: the runs\<close>

definition s7_names :: string where
  "s7_names = ''Serial pos. & Run ID & Peers & Block (rep.) & Total lat.'' @ cmd '' (ms) & Span (ms) & P95 (ms)'' @ row_end"

definition s7_head :: "string list" where
  "s7_head = [cmd ''begin{longtable}{rrrrrrr}'',
     cmd ''caption{All 32 peer-scaling run-level observations.}'' @ cmd ''label{tab:s7}'' @ [BS, BS],
     cmd ''toprule'', s7_names, cmd ''midrule'', cmd ''endfirsthead'',
     cmd ''toprule'', s7_names, cmd ''midrule'', cmd ''endhead'', cmd ''bottomrule'', cmd ''endfoot'']"

definition s7_line :: "run_row \<Rightarrow> string" where
  "s7_line r =
     nat_str (serial_position r) @ '' & '' @ esc (run_id r) @ '' & '' @ int_str (peer_count r) @ '' & '' @
     int_str (repetition r) @ '' & '' @ fixed_str 1 (total_latency_mean r) @ '' & '' @ fixed_str 1 (span_mean r) @
     '' & '' @ fixed_str 1 (total_latency_p95 r) @ row_end"

definition s7_peer_runs :: "run_row list \<Rightarrow> string" where
  "s7_peer_runs df =
     join [LF] (s7_head @ map s7_line (sort_key serial_position df) @ [cmd ''end{longtable}''])"

section \<open>S8: the counterbalancing schedule\<close>

definition s8_cells :: "run_row list \<Rightarrow> ((int \<times> int \<times> int) \<times> nat) list" where
  "s8_cells df =
     (let ct = map (\<lambda>(k, rows). (k, length rows)) (groups (\<lambda>r. (peer_count r, position_in_cycle r, cycle r)) df)
      in sort_key (\<lambda>((pc, pos, cyc), n). (cyc, pos, pc)) ct)"

definition s8_line :: "(int \<times> int \<times> int) \<times> nat \<Rightarrow> string" where
  "s8_line = (\<lambda>((pc, pos, cyc), n).
     int_str pc @ '' & '' @ int_str pos @ '' & '' @ int_str cyc @ '' & '' @ nat_str n @ row_end)"

definition s8_counterbalancing :: "run_row list \<Rightarrow> string" where
  "s8_counterbalancing df =
     join [LF]
       ([cmd ''begin{tabular}{rrrr}'', cmd ''toprule'', ''Peer count & Position in cycle & Cycle & Runs'' @ row_end,
         cmd ''midrule''] @
        map s8_line (s8_cells df) @ [cmd ''bottomrule'', cmd ''end{tabular}''])"

section \<open>S11: denial mechanisms\<close>

text \<open>\<open>pd.crosstab\<close> leaves out the rows without a value.\<close>

definition denied_pairs :: "attempt list \<Rightarrow> (string \<times> string) list" where
  "denied_pairs sec = List.map_filter (\<lambda>a. map_option (Pair (scenario a)) (deny_reason a)) sec"

definition s11_line :: "string \<times> (string \<times> nat) list \<Rightarrow> string" where
  "s11_line = (\<lambda>(idx, cells). esc idx @ '' & '' @ join '' & '' (map (\<lambda>(c, v). nat_str v) cells) @ row_end)"

definition s11_columns :: "attempt list \<Rightarrow> string list" where
  "s11_columns sec = sort (remdups (map snd (denied_pairs sec)))"

definition s11_denial_mechanism_breakdown :: "attempt list \<Rightarrow> string" where
  "s11_denial_mechanism_breakdown sec =
     join [LF]
       ([cmd ''begin{tabular}{l'' @ replicate (length (s11_columns sec)) CHR ''r'' @ ''}'', cmd ''toprule'',
         ''Scenario & '' @ join '' & '' (map esc (s11_columns sec)) @ row_end, cmd ''midrule''] @
        map s11_line (crosstab fst snd (denied_pairs sec)) @ [cmd ''bottomrule'', cmd ''end{tabular}''])"

section \<open>All tables\<close>

text \<open>The script's main block, in the order of its calls, on what the other scripts left.\<close>

definition supplement_main ::
  "(string, rat) dict \<Rightarrow> per_level \<Rightarrow> peaks \<Rightarrow> run_row list \<Rightarrow> bounds \<Rightarrow> bounds \<Rightarrow> attempt list \<Rightarrow>
     (string \<times> string) list result" where
  "supplement_main cells levels peaks df b cb sec =
     bind_result (s5_latency_by_cell cells) (\<lambda>s5.
     bind_result (s6_throughput_per_level levels peaks) (\<lambda>s6.
       Inr [(''s2_permission_matrix.tex'', s2_permission_matrix), (''s5_latency_by_cell.tex'', s5),
            (''s6_throughput_per_level.tex'', s6), (''s7_peer_runs.tex'', s7_peer_runs df),
            (''s8_counterbalancing.tex'', s8_counterbalancing df), (''s10_crt_bounds.tex'', s10_crt_bounds b cb),
            (''s11_denial_breakdown.tex'', s11_denial_mechanism_breakdown sec)]))"

section \<open>The grant rates of the field trace\<close>

definition no_bar :: "string \<Rightarrow> bool" where
  "no_bar s \<longleftrightarrow> CHR ''|'' \<notin> set s"

lemma s5_line_cell: "no_bar r \<Longrightarrow> no_bar oper \<Longrightarrow>
    s5_line (r @ ''|'' @ oper, q) = Inr (esc r @ '' & '' @ esc oper @ '' & '' @ fixed_str 2 q @ row_end)"
  by (simp add: s5_line_def no_bar_def split_on_append_sep split_on_word)

lemma role_op_keys: "role_op fd = Inr cells \<Longrightarrow>
    map fst cells = sort (remdups (map (\<lambda>r. (ad_caller_role r, ad_operation r)) (AD fd)))"
proof -
  have "map_result (\<lambda>(k, rows). bind_result (pct_where p rows) (\<lambda>q. Inr (k, q))) gs = Inr cells \<Longrightarrow>
      map fst cells = map fst gs" for p :: "decision_row \<Rightarrow> bool" and gs :: "((string \<times> string) \<times> decision_row list) list"
    by (induction gs arbitrary: cells) (auto simp: result_simps)
  then show "role_op fd = Inr cells \<Longrightarrow> ?thesis"
    unfolding role_op_def by (simp only: groups_keys)
qed

lemma cell_name_inj:
  "no_bar r \<Longrightarrow> no_bar r' \<Longrightarrow> r @ ''|'' @ oper = r' @ ''|'' @ oper' \<longleftrightarrow> r = r' \<and> oper = oper'"
proof -
  assume "no_bar r" "no_bar r'"
  then have "CHR ''|'' \<notin> set r" "CHR ''|'' \<notin> set r'"
    by (simp_all add: no_bar_def)
  then show ?thesis
    by (auto simp: append_eq_append_conv2 append_eq_Cons_conv Cons_eq_append_conv)
qed

text \<open>The line of a cell, and the grant rate of a pair.\<close>

definition cell_text :: "(string \<times> string) \<times> rat \<Rightarrow> string" where
  "cell_text = (\<lambda>((r, oper), q). esc r @ '' & '' @ esc oper @ '' & '' @ fixed_str 2 q @ row_end)"

lemma map_result_total: "(\<And>x. x \<in> set xs \<Longrightarrow> f x = Inr (g x)) \<Longrightarrow> map_result f xs = Inr (map g xs)"
  by (induction xs) simp_all

lemma role_op_rate:
  assumes "role_op fd = Inr cells" "((r, oper), q) \<in> set cells"
  shows "q = of_nat (count_where (\<lambda>d. ad_decision d = ''allowed'' \<and> ad_caller_role d = r \<and> ad_operation d = oper) (AD fd))
    / of_nat (count_where (\<lambda>d. ad_caller_role d = r \<and> ad_operation d = oper) (AD fd)) * 100"
proof -
  obtain k rows where "(k, rows) \<in> set (groups (\<lambda>d. (ad_caller_role d, ad_operation d)) (AD fd))"
    and q: "pct_where (\<lambda>d. ad_decision d = ''allowed'') rows = Inr q" "k = (r, oper)"
    using map_result_mem [OF assms [unfolded role_op_def]] by (auto simp: result_simps)
  then have "rows = filter (\<lambda>d. ad_caller_role d = r \<and> ad_operation d = oper) (AD fd)"
    by (auto simp: groups_mem)
  with q(1) show ?thesis
    by (simp add: pct_where_Inr count_where_def conj_commute conj_left_commute)
qed

lemma grant_rates_cells:
  assumes "role_op fd = Inr cells" "\<And>r oper q. ((r, oper), q) \<in> set cells \<Longrightarrow> no_bar r \<and> no_bar oper"
  shows "grant_rates cells = map (\<lambda>((r, oper), q). (r @ ''|'' @ oper, q)) cells"
proof -
  let ?named = "map (\<lambda>((r, oper), q). (r @ ''|'' @ oper, q)) cells"
  have "inj_on (\<lambda>(r, oper). r @ ''|'' @ oper) (set (map fst cells))"
  proof (rule inj_onI)
    fix x y
    assume x: "x \<in> set (map fst cells)" and y: "y \<in> set (map fst cells)"
      and eq: "(case x of (r, oper) \<Rightarrow> r @ ''|'' @ oper) = (case y of (r, oper) \<Rightarrow> r @ ''|'' @ oper)"
    obtain r oper where rx: "x = (r, oper)" by fastforce
    obtain r' oper' where ry: "y = (r', oper')" by fastforce
    have "no_bar r" "no_bar r'"
      using x y assms(2) unfolding rx ry by auto
    from cell_name_inj [OF this] eq show "x = y"
      unfolding rx ry by simp
  qed
  moreover have "distinct (map fst cells)"
    unfolding role_op_keys [OF assms(1)] by simp
  ultimately have "distinct (map (\<lambda>(r, oper). r @ ''|'' @ oper) (map fst cells))"
    by (simp only: distinct_map simp_thms)
  moreover have "map (\<lambda>(r, oper). r @ ''|'' @ oper) (map fst cells) = map fst ?named"
    by (simp add: case_prod_beta)
  ultimately show "grant_rates cells = ?named"
    unfolding grant_rates_def by (simp only: dict_of_distinct)
qed

text \<open>
  Table S5 lists the grant rates of the field trace: it has exactly one line for every pair of caller role and
  operation that occurs, with the percentage of the pair's decisions that were allowed. The names may not
  contain a bar, which is what joins them in the report.
\<close>

theorem s5_follows_grants:
  assumes "role_op fd = Inr cells"
    and "\<forall>d \<in> set (AD fd). no_bar (ad_caller_role d) \<and> no_bar (ad_operation d)"
  shows "\<exists>rows. s5_latency_by_cell (grant_rates cells) = Inr (join [LF] (s5_head @ rows @ [cmd ''end{longtable}'']))
    \<and> mset rows = mset (map cell_text cells)
    \<and> map fst cells = sort (remdups (map (\<lambda>d. (ad_caller_role d, ad_operation d)) (AD fd)))
    \<and> (\<forall>((r, oper), q) \<in> set cells.
         q = of_nat (count_where (\<lambda>d. ad_decision d = ''allowed'' \<and> ad_caller_role d = r \<and> ad_operation d = oper) (AD fd))
           / of_nat (count_where (\<lambda>d. ad_caller_role d = r \<and> ad_operation d = oper) (AD fd)) * 100)"
proof -
  let ?named = "map (\<lambda>((r, oper), q). (r @ ''|'' @ oper, q)) cells"
  let ?text = "\<lambda>kv. case s5_line kv of Inl e \<Rightarrow> [] | Inr line \<Rightarrow> line"
  note keys = role_op_keys [OF assms(1)]
  have "set (map fst cells) \<subseteq> (\<lambda>d. (ad_caller_role d, ad_operation d)) ` set (AD fd)"
    unfolding keys by auto
  then have bars: "no_bar r \<and> no_bar oper" if "((r, oper), q) \<in> set cells" for r oper q
    using that assms(2) by fastforce
  have line: "s5_line (r @ ''|'' @ oper, q) = Inr (cell_text ((r, oper), q))" if "((r, oper), q) \<in> set cells" for r oper q
    using s5_line_cell bars [OF that] by (simp only: cell_text_def prod.case)
  have rates: "grant_rates cells = ?named"
    by (rule grant_rates_cells [OF assms(1)]) (use bars in blast)
  have "s5_line kv = Inr (?text kv)" if "kv \<in> set (sort_key fst ?named)" for kv
    using that line by auto
  then have lines: "map_result s5_line (sort_key fst ?named) = Inr (map ?text (sort_key fst ?named))"
    by (rule map_result_total)
  have table: "s5_latency_by_cell (grant_rates cells) =
      Inr (join [LF] (s5_head @ map ?text (sort_key fst ?named) @ [cmd ''end{longtable}'']))"
    unfolding s5_latency_by_cell_def rates lines by (simp only: bind_result.simps)
  have texts: "map ?text ?named = map cell_text cells"
    using line by (auto simp: line)
  have cells: "mset (map ?text (sort_key fst ?named)) = mset (map cell_text cells)"
    unfolding texts [symmetric] by (simp only: mset_map mset_sort)
  have rate: "\<forall>((r, oper), q) \<in> set cells.
         q = of_nat (count_where (\<lambda>d. ad_decision d = ''allowed'' \<and> ad_caller_role d = r \<and> ad_operation d = oper) (AD fd))
           / of_nat (count_where (\<lambda>d. ad_caller_role d = r \<and> ad_operation d = oper) (AD fd)) * 100"
    by clarify (rule role_op_rate [OF assms(1)])
  show ?thesis
    by (intro exI [of _ "map ?text (sort_key fst ?named)"] conjI table cells keys rate)
qed

lemma s5_follows_grants_witness:
  "\<exists>cells rows. role_op demo_field = Inr cells
    \<and> s5_latency_by_cell (grant_rates cells) = Inr (join [LF] (s5_head @ rows @ [cmd ''end{longtable}''])) \<and> length rows = 2"
proof -
  have "\<exists>cells. role_op demo_field = Inr cells"
    by (simp add: role_op_def groups_def demo_eval)
  then obtain cells where cells: "role_op demo_field = Inr cells" ..
  moreover have "\<forall>d \<in> set (AD demo_field). no_bar (ad_caller_role d) \<and> no_bar (ad_operation d)"
    by (simp add: demo_field_def no_bar_def)
  ultimately obtain rows where rows: "s5_latency_by_cell (grant_rates cells) = Inr (join [LF] (s5_head @ rows @ [cmd ''end{longtable}'']))"
    "mset rows = mset (map cell_text cells)"
    "map fst cells = sort (remdups (map (\<lambda>d. (ad_caller_role d, ad_operation d)) (AD demo_field)))"
    using s5_follows_grants by blast
  have "length rows = length cells"
    using arg_cong [OF rows(2), of size] by simp
  also have "\<dots> = length (map fst cells)" by simp
  also have "\<dots> = 2"
    by (simp add: rows(3) demo_field_def)
  finally show ?thesis
    using cells rows(1) by blast
qed

section \<open>The runs of the peer experiment\<close>

lemma s8_cells_mset:
  "mset (s8_cells df) = mset (map (\<lambda>(k, rows). (k, length rows)) (groups (\<lambda>r. (peer_count r, position_in_cycle r, cycle r)) df))"
  by (simp only: s8_cells_def Let_def mset_sort)

lemma sum_list_mset: "mset xs = mset ys \<Longrightarrow> sum_list xs = sum_list (ys :: nat list)"
  using sum_mset_sum_list [of xs] sum_mset_sum_list [of ys] by simp

lemma count_all: "count_where (\<lambda>r. True) rows = length rows"
  by (simp add: count_where_def)

lemma s8_cells_total: "sum_list (map snd (s8_cells df)) = length df"
proof -
  let ?gs = "groups (\<lambda>r. (peer_count r, position_in_cycle r, cycle r)) df"
  have "mset (map snd (s8_cells df)) = mset (map (\<lambda>(k, rows). length rows) ?gs)"
    unfolding mset_map s8_cells_mset by (simp add: image_mset.compositionality comp_def case_prod_unfold)
  then have "sum_list (map snd (s8_cells df)) = (\<Sum>(k, rows) \<leftarrow> ?gs. length rows)"
    by (rule sum_list_mset)
  also have "\<dots> = (\<Sum>(k, rows) \<leftarrow> ?gs. count_where (\<lambda>r. True) rows)"
    by (simp only: count_all)
  also have "\<dots> = count_where (\<lambda>r. True) df"
    by (rule groups_total)
  also have "\<dots> = length df"
    by (rule count_all)
  finally show ?thesis .
qed

lemma s8_cells_mem:
  "((pc, pos, cyc), n) \<in> set (s8_cells df) \<longleftrightarrow> (pc, pos, cyc) \<in> (\<lambda>r. (peer_count r, position_in_cycle r, cycle r)) ` set df
     \<and> n = count_where (\<lambda>r. peer_count r = pc \<and> position_in_cycle r = pos \<and> cycle r = cyc) df"
proof -
  have "((pc, pos, cyc), n) \<in> set (s8_cells df) \<longleftrightarrow>
      (\<exists>rows. ((pc, pos, cyc), rows) \<in> set (groups (\<lambda>r. (peer_count r, position_in_cycle r, cycle r)) df) \<and> n = length rows)"
    unfolding mset_eq_setD [OF s8_cells_mset] by force
  then show ?thesis
    by (auto simp: groups_mem count_where_def)
qed

text \<open>
  Tables S7 and S8 follow the run table of \<open>03_peer_scaling.py\<close>: S7 has one line per run in the order and with
  the numbers of the run table, and S8 lists, in the order of cycle, position and peer count, how many runs
  each place of the schedule has, which adds up to all runs.
\<close>

theorem s7_s8_follow_runs:
  assumes "build_run_table lib TX RUNS = Inr tbl"
  shows "s7_peer_runs tbl = join [LF] (s7_head @ map s7_line tbl @ [cmd ''end{longtable}''])
    \<and> map serial_position tbl = [1..<Suc (length tbl)]
    \<and> sorted (map (\<lambda>((pc, pos, cyc), n). (cyc, pos, pc)) (s8_cells tbl))
    \<and> (\<forall>pc pos cyc n. ((pc, pos, cyc), n) \<in> set (s8_cells tbl) \<longrightarrow>
         n = count_where (\<lambda>r. peer_count r = pc \<and> position_in_cycle r = pos \<and> cycle r = cyc) tbl)
    \<and> sum_list (map snd (s8_cells tbl)) = length tbl"
proof -
  have serial: "map serial_position tbl = [1..<Suc (length tbl)]"
    using run_table_facts [OF assms] by blast
  then have "sort_key serial_position tbl = tbl"
    by (intro sort_key_id_if_sorted) (simp only: sorted_upt)
  then have "s7_peer_runs tbl = join [LF] (s7_head @ map s7_line tbl @ [cmd ''end{longtable}''])"
    by (simp only: s7_peer_runs_def)
  moreover have "sorted (map (\<lambda>((pc, pos, cyc), n). (cyc, pos, pc)) (s8_cells tbl))"
    by (simp only: s8_cells_def Let_def sorted_sort_key)
  ultimately show ?thesis
    using serial s8_cells_total s8_cells_mem by blast
qed

lemma s7_s8_follow_runs_witness:
  "\<exists>tbl. build_run_table demo_peer_lib demo_TX demo_RUNS = Inr tbl \<and> sum_list (map snd (s8_cells tbl)) = 8
    \<and> s7_peer_runs tbl = join [LF] (s7_head @ map s7_line tbl @ [cmd ''end{longtable}''])"
proof -
  obtain tbl where tbl: "build_run_table demo_peer_lib demo_TX demo_RUNS = Inr tbl"
    "map repetition tbl = [3, 4, 2, 1, 8, 7, 6, 5]"
    by (rule demo_tbl)
  have "length tbl = 8"
    using arg_cong [OF tbl(2), of length] by simp
  with s7_s8_follow_runs [OF tbl(1)] tbl(1) show ?thesis
    by (intro exI [of _ tbl]) (simp only: simp_thms)
qed

section \<open>Denial mechanisms\<close>

lemma count_denied: "count_where P (denied_pairs sec) = count_where (\<lambda>a. \<exists>c. deny_reason a = Some c \<and> P (scenario a, c)) sec"
  by (induction sec) (auto simp: denied_pairs_def count_where_def List.map_filter_def)

text \<open>
  Table S11 breaks the denials down: each line belongs to one scenario with a denial that has a reason, its
  cells count the attempts of the scenario with each reason, and they add up to the attempts of the scenario
  that have one.
\<close>

theorem s11_counts_denials:
  shows "\<exists>table. s11_denial_mechanism_breakdown sec =
      join [LF]
        ([cmd ''begin{tabular}{l'' @ replicate (length (s11_columns sec)) CHR ''r'' @ ''}'', cmd ''toprule'',
          ''Scenario & '' @ join '' & '' (map esc (s11_columns sec)) @ row_end, cmd ''midrule''] @
         map s11_line table @ [cmd ''bottomrule'', cmd ''end{tabular}''])
    \<and> map fst table = sort (remdups (map scenario (filter (\<lambda>a. deny_reason a \<noteq> None) sec)))
    \<and> list_all (\<lambda>(idx, cells). map fst cells = s11_columns sec
        \<and> list_all (\<lambda>(c, n). n = count_where (\<lambda>a. scenario a = idx \<and> deny_reason a = Some c) sec) cells
        \<and> sum_list (map snd cells) = count_where (\<lambda>a. scenario a = idx \<and> deny_reason a \<noteq> None) sec) table"
proof -
  let ?table = "crosstab fst snd (denied_pairs sec)"
  have "map fst (denied_pairs sec) = map scenario (filter (\<lambda>a. deny_reason a \<noteq> None) sec)"
    by (induction sec) (auto simp: denied_pairs_def List.map_filter_def)
  then have keys: "map fst ?table = sort (remdups (map scenario (filter (\<lambda>a. deny_reason a \<noteq> None) sec)))"
    by (simp only: crosstab_keys)
  have "map fst cells = s11_columns sec
      \<and> list_all (\<lambda>(c, n). n = count_where (\<lambda>a. scenario a = idx \<and> deny_reason a = Some c) sec) cells
      \<and> sum_list (map snd cells) = count_where (\<lambda>a. scenario a = idx \<and> deny_reason a \<noteq> None) sec"
    if mem: "(idx, cells) \<in> set ?table" for idx cells
  proof -
    have "n = count_where (\<lambda>a. scenario a = idx \<and> deny_reason a = Some c) sec" if "(c, n) \<in> set cells" for c n
      using crosstab_row(3) [OF mem that] by (simp add: count_denied conj_commute)
    moreover have "sum_list (map snd cells) = count_where (\<lambda>a. scenario a = idx \<and> deny_reason a \<noteq> None) sec"
      using crosstab_row(4) [OF mem] by (simp add: count_denied conj_commute)
    ultimately show ?thesis
      using crosstab_row(2) [OF mem] by (auto simp: s11_columns_def list_all_iff)
  qed
  then have "list_all (\<lambda>(idx, cells). map fst cells = s11_columns sec
      \<and> list_all (\<lambda>(c, n). n = count_where (\<lambda>a. scenario a = idx \<and> deny_reason a = Some c) sec) cells
      \<and> sum_list (map snd cells) = count_where (\<lambda>a. scenario a = idx \<and> deny_reason a \<noteq> None) sec) ?table"
    unfolding list_all_iff [of _ ?table] by blast
  with keys show ?thesis
    by (intro exI [of _ ?table] conjI) (simp_all only: s11_denial_mechanism_breakdown_def)
qed

end
