(* ===== verification/Figures.thy ===== *)
theory Figures
  imports Throughput Peer_Scaling
begin

text \<open>
  \<open>paper_iot/V10/analysis/scripts/12_make_figures.py\<close>: what the two figures show, as the data of the drawing
  calls. Drawing itself, fonts and colours of the axes are left out; the draws of the random generator
  (\<open>rng.uniform\<close>, for each panel and peer count) are a parameter with their documented law.
  The theorems: the points of figure 4 are the runs that \<open>03_peer_scaling.py\<close> reports, and its error bars
  are the reported confidence intervals; figure 3 shows the mean throughputs that \<open>04_throughput.py\<close> reports.
\<close>

section \<open>Figure 3\<close>

text \<open>The points of one condition: level, mean and standard deviation.\<close>

definition fig3_points :: "(rat list \<Rightarrow> rat) \<Rightarrow> run list \<Rightarrow> string \<Rightarrow> (int \<times> rat \<times> rat) list result" where
  "fig3_points std RUNS cond =
     map_result (\<lambda>(lvl, rows).
       bind_result (mean_of (map tps rows)) (\<lambda>avg.
         if length rows < 2 then Inl Unmodelled else Inr (lvl, avg, std (map tps rows))))
       (groups concurrency_level (filter (\<lambda>r. run_condition r = cond) RUNS))"

definition figure3_throughput :: "(rat list \<Rightarrow> rat) \<Rightarrow> run list \<Rightarrow> (string \<times> (int \<times> rat \<times> rat) list) list result" where
  "figure3_throughput std RUNS =
     map_result (\<lambda>cond. bind_result (fig3_points std RUNS cond) (\<lambda>points.
         Inr (if cond = ''baseline'' then ''Fabric without access control'' else ''HRBAC'', points)))
       [''baseline'', ''hrbac'']"

section \<open>Figure 4\<close>

record fig_row =
  fr_run_id :: string
  fr_peer_count :: int
  fr_mean_latency :: rat
  fr_p95_latency :: rat
  fr_start_timestamp :: int
  fr_block :: int

definition fig_columns :: "peer_lib \<Rightarrow> string \<Rightarrow> pr_tx list \<Rightarrow> int \<Rightarrow> fig_row result" where
  "fig_columns lib rid rows start =
     bind_result (mean_of (map tx_latency_ms rows)) (\<lambda>avg.
       Inr \<lparr>fr_run_id = rid, fr_peer_count = tx_peer_count (hd rows), fr_mean_latency = avg,
            fr_p95_latency = pl_percentile lib (map tx_latency_ms rows) 95, fr_start_timestamp = start, fr_block = 0\<rparr>)"

definition with_block :: "fig_row \<Rightarrow> fig_row result" where
  "with_block r = bind_result (repetition_of (fr_run_id r)) (\<lambda>rep. Inr (r\<lparr>fr_block := rep\<rparr>))"

definition figure4_rows :: "peer_lib \<Rightarrow> pr_tx list \<Rightarrow> pr_run list \<Rightarrow> fig_row list result" where
  "figure4_rows lib TX RUNS =
     bind_result (map_result (\<lambda>(rid, rows, start). fig_columns lib rid rows start) (joined (groups tx_run_id TX) RUNS)) (\<lambda>agg.
       map_result with_block (sort_key fr_start_timestamp agg))"

text \<open>The error bar of one peer count: place, mean and half width.\<close>

definition error_bar :: "peer_lib \<Rightarrow> (fig_row \<Rightarrow> rat) \<Rightarrow> int \<Rightarrow> fig_row list \<Rightarrow> (rat \<times> rat \<times> rat) result" where
  "error_bar lib col pc sub =
     bind_result (mean_of (map col sub)) (\<lambda>avg.
     bind_result (std1 lib (map col sub)) (\<lambda>sd.
       let se = sd / pl_sqrt lib (of_nat (length sub)); tcrit = pl_t_ppf lib (975 / 1000) (length sub - 1)
       in Inr (pl_log2 lib pc, avg, tcrit * se)))"

text \<open>The points of one peer count: place with jitter, value and the number of the colour.\<close>

type_synonym jitter_source = "int \<Rightarrow> rat \<Rightarrow> rat \<Rightarrow> nat \<Rightarrow> rat list"

definition scatter :: "peer_lib \<Rightarrow> jitter_source \<Rightarrow> (fig_row \<Rightarrow> rat) \<Rightarrow> int \<Rightarrow> fig_row list \<Rightarrow> (rat \<times> rat \<times> int) list" where
  "scatter lib jitter col pc sub =
     map (\<lambda>(j, r). (pl_log2 lib pc + j, col r, fr_block r mod 10)) (zip (jitter pc (- 15 / 100) (15 / 100) (length sub)) sub)"

definition panel ::
  "peer_lib \<Rightarrow> jitter_source \<Rightarrow> (fig_row \<Rightarrow> rat) \<Rightarrow> fig_row list \<Rightarrow>
     ((rat \<times> rat \<times> int) list \<times> rat \<times> rat \<times> rat) list result" where
  "panel lib jitter col agg =
     map_result (\<lambda>(pc, sub). bind_result (error_bar lib col pc sub) (\<lambda>bar. Inr (scatter lib jitter col pc sub, bar)))
       (groups fr_peer_count agg)"

definition figure4_peer_latency ::
  "peer_lib \<Rightarrow> jitter_source \<Rightarrow> jitter_source \<Rightarrow> pr_tx list \<Rightarrow> pr_run list \<Rightarrow>
     (string \<times> ((rat \<times> rat \<times> int) list \<times> rat \<times> rat \<times> rat) list) list result" where
  "figure4_peer_latency lib jitter1 jitter2 TX RUNS =
     bind_result (figure4_rows lib TX RUNS) (\<lambda>agg.
     bind_result (panel lib jitter1 fr_mean_latency agg) (\<lambda>panel1.
     bind_result (panel lib jitter2 fr_p95_latency agg) (\<lambda>panel2.
       Inr [(''Mean write latency (ms)'', panel1), (''P95 (ms)'', panel2)])))"

section \<open>The same runs\<close>

definition fig_of :: "run_row \<Rightarrow> fig_row" where
  "fig_of r = \<lparr>fr_run_id = run_id r, fr_peer_count = peer_count r, fr_mean_latency = total_latency_mean r,
     fr_p95_latency = total_latency_p95 r, fr_start_timestamp = start_timestamp r, fr_block = repetition r\<rparr>"

lemma map_result_transfer:
  assumes "map_result f xs = Inr ys" "\<And>x y. x \<in> set xs \<Longrightarrow> f x = Inr y \<Longrightarrow> f' x = Inr (h y)"
  shows "map_result f' xs = Inr (map h ys)"
  using assms by (induction xs arbitrary: ys) (auto simp: result_simps)

lemma run_columns_fig: "run_columns lib rid rows start = Inr r \<Longrightarrow> fig_columns lib rid rows start = Inr (fig_of r)"
  by (auto simp: run_columns_def fig_columns_def Let_def result_simps fig_of_def)

lemma place_rows_fig:
  assumes "map_result (place_row lib n) (zip is agg) = Inr tbl" "length is = length agg"
  shows "map_result with_block (map fig_of agg) = Inr (map fig_of tbl)"
  using assms(2,1)
proof (induction "is" agg arbitrary: tbl rule: list_induct2)
  case (Cons i "is" r agg)
  then show ?case
    by (auto simp: result_simps place_row_def with_block_def fig_of_def)
qed simp

lemma figure4_rows_table:
  assumes "build_run_table lib TX RUNS = Inr tbl"
  shows "figure4_rows lib TX RUNS = Inr (map fig_of tbl)"
proof -
  from assms obtain agg where agg: "map_result (\<lambda>(rid, rows, start). run_columns lib rid rows start)
      (joined (groups tx_run_id TX) RUNS) = Inr agg"
    and tbl: "map_result (place_row lib (length (sort_key start_timestamp agg)))
      (zip [1..<Suc (length (sort_key start_timestamp agg))] (sort_key start_timestamp agg)) = Inr tbl"
    by (auto simp: build_run_table_def Let_def result_simps simp del: upt_Suc)
  have "map_result (\<lambda>(rid, rows, start). fig_columns lib rid rows start) (joined (groups tx_run_id TX) RUNS) = Inr (map fig_of agg)"
    using agg by (rule map_result_transfer) (auto intro: run_columns_fig)
  moreover have "sort_key fr_start_timestamp (map fig_of agg) = map fig_of (sort_key start_timestamp agg)"
    by (simp add: sort_key_map fig_of_def)
  moreover have "map_result with_block (map fig_of (sort_key start_timestamp agg)) = Inr (map fig_of tbl)"
    by (rule place_rows_fig [OF tbl]) (simp only: length_upt diff_Suc_1)
  ultimately show ?thesis
    by (simp only: figure4_rows_def bind_result.simps)
qed

section \<open>The error bars\<close>

lemma groups_map: "groups key (map h rows) = map (\<lambda>(k, rs). (k, map h rs)) (groups (\<lambda>r. key (h r)) rows)"
  by (simp add: groups_def filter_map comp_def)

lemma map_result_list_all2: "map_result f xs = Inr ys \<Longrightarrow> list_all2 (\<lambda>x y. f x = Inr y) xs ys"
  by (induction xs arbitrary: ys) (auto simp: result_simps)

text \<open>A bar shows the mean and the interval that a report gives for the peer count.\<close>

definition shows_interval :: "pyval \<Rightarrow> int \<Rightarrow> rat \<times> rat \<Rightarrow> bool" where
  "shows_interval v pc = (\<lambda>(avg, err).
     dig v [int_str pc, ''mean''] = VFloat avg \<and> dig v [int_str pc, ''ci95_low''] = VFloat (avg - err)
     \<and> dig v [int_str pc, ''ci95_high''] = VFloat (avg + err))"

lemma bar_shows_interval:
  assumes "group_stats lib tbl col = Inr v" "pc \<in> peer_count ` set tbl" "\<And>r. fcol (fig_of r) = column_val col r"
    and "error_bar lib fcol pc (map fig_of (filter (\<lambda>r. peer_count r = pc) tbl)) = Inr (x, avg, err)"
  shows "x = pl_log2 lib pc \<and> shows_interval v pc (avg, err)"
proof -
  let ?sub = "filter (\<lambda>r. peer_count r = pc) tbl"
  have vals: "map fcol (map fig_of ?sub) = peer_column ?sub col"
    by (simp add: assms(3) peer_column_def)
  obtain out st where v: "v = payload_value out" and st: "group_stat lib (peer_column ?sub col) = Inr st"
    and at: "payload_get out (int_str pc) = st"
    using by_peer_count_get [OF assms(1) [unfolded group_stats_def] assms(2)] by blast
  from st obtain sd where mean: "mean_of (peer_column ?sub col) = Inr avg" and sd: "std1 lib (peer_column ?sub col) = Inr sd"
    and err: "err = pl_t_ppf lib (975 / 1000) (length ?sub - 1) * (sd / pl_sqrt lib (of_nat (length ?sub)))" "x = pl_log2 lib pc"
    using assms(4) unfolding error_bar_def vals by (auto simp: Let_def result_simps)
  from st mean sd err have "st = payload_value [(''n'', count_val (length ?sub)), (''mean'', VFloat avg), (''sd'', VFloat sd),
      (''median'', VFloat (pl_median lib (peer_column ?sub col))), (''ci95_low'', VFloat (avg - err)), (''ci95_high'', VFloat (avg + err))]"
    by (auto simp: group_stat_def Let_def peer_column_def)
  then show ?thesis
    using err(2) at by (simp only: shows_interval_def v dig_payload prod.case) (simp add: payload_get_def)
qed

text \<open>\<open>rng.uniform(low, high, size=n)\<close> draws \<open>n\<close> numbers between its bounds (documented behaviour, a hypothesis below).\<close>

definition jitter_law :: "jitter_source \<Rightarrow> bool" where
  "jitter_law jitter \<longleftrightarrow> (\<forall>pc low high n. low \<le> high \<longrightarrow>
     length (jitter pc low high n) = n \<and> (\<forall>x \<in> set (jitter pc low high n). low \<le> x \<and> x \<le> high))"

text \<open>
  The points of a peer count are the runs of the table with this count, in the order of the table: one point for
  each, at most 0.15 beside the logarithm of the count, at the value of the run, coloured by its repetition.
\<close>

definition shows_runs :: "peer_lib \<Rightarrow> run_row list \<Rightarrow> (run_row \<Rightarrow> rat) \<Rightarrow> int \<Rightarrow> (rat \<times> rat \<times> int) list \<Rightarrow> bool" where
  "shows_runs lib tbl val pc points \<longleftrightarrow>
     list_all2 (\<lambda>r (x, y, colour). \<bar>x - pl_log2 lib pc\<bar> \<le> 15 / 100 \<and> y = val r \<and> colour = repetition r mod 10)
       (filter (\<lambda>r. peer_count r = pc) tbl) points"

lemma scatter_shows_runs:
  assumes "jitter_law jitter" "\<And>r. fcol (fig_of r) = val r"
  shows "shows_runs lib tbl val pc (scatter lib jitter fcol pc (map fig_of (filter (\<lambda>r. peer_count r = pc) tbl)))"
proof -
  let ?sub = "filter (\<lambda>r. peer_count r = pc) tbl"
  let ?js = "jitter pc (- 15 / 100) (15 / 100) (length ?sub)"
  have "(- 15 / 100 :: rat) \<le> 15 / 100"
    by simp
  then have law: "length ?js = length ?sub \<and> (\<forall>x \<in> set ?js. - 15 / 100 \<le> x \<and> x \<le> 15 / 100)"
    using assms(1) unfolding jitter_law_def by blast
  then have js: "length ?js = length ?sub"
    by blast
  show ?thesis
    unfolding shows_runs_def
  proof (rule list_all2_all_nthI)
    fix i
    assume i: "i < length ?sub"
    then have "- 15 / 100 \<le> ?js ! i \<and> ?js ! i \<le> 15 / 100"
      using law js by (metis nth_mem)
    then have "\<bar>?js ! i\<bar> \<le> 15 / 100"
      by (simp add: abs_if)
    moreover have "scatter lib jitter fcol pc (map fig_of ?sub) ! i = (pl_log2 lib pc + ?js ! i, val (?sub ! i), repetition (?sub ! i) mod 10)"
      using i js by (simp add: scatter_def assms(2)) (simp add: fig_of_def)
    ultimately show "case scatter lib jitter fcol pc (map fig_of ?sub) ! i of (x, y, colour) \<Rightarrow>
        \<bar>x - pl_log2 lib pc\<bar> \<le> 15 / 100 \<and> y = val (?sub ! i) \<and> colour = repetition (?sub ! i) mod 10"
      by simp
  qed (use js in \<open>simp add: scatter_def\<close>)
qed

text \<open>One entry of a panel for each peer count of the table: its points and its error bar.\<close>

definition panel_shows :: "peer_lib \<Rightarrow> run_row list \<Rightarrow> (run_row \<Rightarrow> rat) \<Rightarrow> pyval \<Rightarrow> ((rat \<times> rat \<times> int) list \<times> rat \<times> rat \<times> rat) list \<Rightarrow> bool" where
  "panel_shows lib tbl val stats pts \<longleftrightarrow>
     list_all2 (\<lambda>pc (points, x, bar). shows_runs lib tbl val pc points \<and> x = pl_log2 lib pc \<and> shows_interval stats pc bar)
       (sort (remdups (map peer_count tbl))) pts"

lemma panel_shows_report:
  assumes "panel lib jitter fcol (map fig_of tbl) = Inr pts" "group_stats lib tbl col = Inr v" "jitter_law jitter"
    and "\<And>r. fcol (fig_of r) = column_val col r" "\<And>r. column_val col r = val r"
  shows "panel_shows lib tbl val v pts"
proof -
  have "groups fr_peer_count (map fig_of tbl) = map (\<lambda>(pc, rs). (pc, map fig_of rs)) (groups peer_count tbl)"
    unfolding groups_map by (simp add: fig_of_def)
  with assms(1) have "map_result (\<lambda>(pc, sub). bind_result (error_bar lib fcol pc sub) (\<lambda>bar. Inr (scatter lib jitter fcol pc sub, bar)))
      (map (\<lambda>(pc, rs). (pc, map fig_of rs)) (groups peer_count tbl)) = Inr pts"
    by (simp only: panel_def)
  from map_result_list_all2 [OF this] have "list_all2 (\<lambda>pc (points, x, bar).
        points = scatter lib jitter fcol pc (map fig_of (filter (\<lambda>r. peer_count r = pc) tbl))
        \<and> error_bar lib fcol pc (map fig_of (filter (\<lambda>r. peer_count r = pc) tbl)) = Inr (x, bar))
      (sort (remdups (map peer_count tbl))) pts"
    by (auto simp: groups_def list_all2_map1 result_simps elim!: list.rel_mono_strong)
  then show ?thesis
    unfolding panel_shows_def
    using bar_shows_interval [OF assms(2) _ assms(4)] scatter_shows_runs [OF assms(3), of fcol val lib tbl] assms(4,5)
    by (elim list.rel_mono_strong) fastforce
qed

text \<open>
  C40. Figure 4 shows what the report of \<open>03_peer_scaling.py\<close> says. Both panels have one entry for every peer count
  of the run table: its points are the runs with this count, each at the mean (in the second panel the 95th
  percentile) of the table, and its error bar stands at the logarithm of the count, with the reported mean in the
  middle and the reported 95 percent confidence interval as its ends.
\<close>

theorem figure4_shows_report:
  assumes "build_run_table lib TX RUNS = Inr tbl"
    and "figure4_peer_latency lib jitter1 jitter2 TX RUNS = Inr panels"
    and "group_stats lib tbl ''total_latency_mean'' = Inr means" "group_stats lib tbl ''total_latency_p95'' = Inr tails"
    and "jitter_law jitter1" "jitter_law jitter2"
  shows "\<exists>panel1 panel2. panels = [(''Mean write latency (ms)'', panel1), (''P95 (ms)'', panel2)]
    \<and> panel_shows lib tbl total_latency_mean means panel1 \<and> panel_shows lib tbl total_latency_p95 tails panel2"
proof -
  obtain panel1 panel2 where panels: "panels = [(''Mean write latency (ms)'', panel1), (''P95 (ms)'', panel2)]"
    and p1: "panel lib jitter1 fr_mean_latency (map fig_of tbl) = Inr panel1"
    and p2: "panel lib jitter2 fr_p95_latency (map fig_of tbl) = Inr panel2"
    using assms(2) unfolding figure4_peer_latency_def figure4_rows_table [OF assms(1)] by (auto simp: result_simps)
  have "panel_shows lib tbl total_latency_mean means panel1"
    by (rule panel_shows_report [OF p1 assms(3,5)]) (simp_all add: fig_of_def column_val_def)
  moreover have "panel_shows lib tbl total_latency_p95 tails panel2"
    by (rule panel_shows_report [OF p2 assms(4,6)]) (simp_all add: fig_of_def column_val_def)
  ultimately show ?thesis
    using panels by blast
qed

text \<open>Two runs with 4 peers and two with 32, whose means are the latencies of their single write.\<close>

definition fig_TX :: "pr_tx list" where
  "fig_TX = [demo_tx ''P-R1'' 4 1000, demo_tx ''P-R2'' 4 1010, demo_tx ''Q-R1'' 32 990, demo_tx ''Q-R2'' 32 980]"

definition fig_RUNS :: "pr_run list" where
  "fig_RUNS = map (\<lambda>(rid, t). \<lparr>pr_run_id = rid, pr_start_timestamp = t\<rparr>) [(''P-R1'', 4), (''P-R2'', 3), (''Q-R1'', 1), (''Q-R2'', 2)]"

definition low_jitter :: jitter_source where
  "low_jitter pc low high n = replicate n low"

lemma low_jitter_law: "jitter_law low_jitter"
  by (simp add: jitter_law_def low_jitter_def)

lemma fig_demo_reported:
  "case build_run_table demo_peer_lib fig_TX fig_RUNS of Inl e \<Rightarrow> False
   | Inr tbl \<Rightarrow> map peer_count tbl = [32, 32, 4, 4] \<and> \<not> isl (group_stats demo_peer_lib tbl ''total_latency_mean'')
       \<and> \<not> isl (group_stats demo_peer_lib tbl ''total_latency_p95'')"
  by code_simp

lemma fig_demo_drawn:
  "case figure4_peer_latency demo_peer_lib low_jitter low_jitter fig_TX fig_RUNS of Inl e \<Rightarrow> False
   | Inr panels \<Rightarrow> map fst panels = [''Mean write latency (ms)'', ''P95 (ms)''] \<and> map (map (snd \<circ> snd) \<circ> snd) panels
       = [[(1005, 19 / 2), (985, 19 / 2)], [(1005, 19 / 2), (985, 19 / 2)]]"
  by code_simp

lemma not_isl_Inr: "\<not> isl r \<Longrightarrow> \<exists>y. r = Inr y"
  by (cases r) auto

lemma figure4_shows_report_witness:
  "\<exists>tbl panel1 panel2 means tails.
     build_run_table demo_peer_lib fig_TX fig_RUNS = Inr tbl \<and> map peer_count tbl = [32, 32, 4, 4]
     \<and> figure4_peer_latency demo_peer_lib low_jitter low_jitter fig_TX fig_RUNS
         = Inr [(''Mean write latency (ms)'', panel1), (''P95 (ms)'', panel2)]
     \<and> group_stats demo_peer_lib tbl ''total_latency_mean'' = Inr means \<and> group_stats demo_peer_lib tbl ''total_latency_p95'' = Inr tails
     \<and> panel_shows demo_peer_lib tbl total_latency_mean means panel1 \<and> panel_shows demo_peer_lib tbl total_latency_p95 tails panel2"
proof -
  obtain tbl means tails where tbl: "build_run_table demo_peer_lib fig_TX fig_RUNS = Inr tbl" "map peer_count tbl = [32, 32, 4, 4]"
    and reports: "group_stats demo_peer_lib tbl ''total_latency_mean'' = Inr means"
      "group_stats demo_peer_lib tbl ''total_latency_p95'' = Inr tails"
    using fig_demo_reported by (auto split: sum.splits dest!: not_isl_Inr)
  obtain panels where drawn: "figure4_peer_latency demo_peer_lib low_jitter low_jitter fig_TX fig_RUNS = Inr panels"
    using fig_demo_drawn by (auto split: sum.splits)
  obtain panel1 panel2 where "panels = [(''Mean write latency (ms)'', panel1), (''P95 (ms)'', panel2)]"
    "panel_shows demo_peer_lib tbl total_latency_mean means panel1" "panel_shows demo_peer_lib tbl total_latency_p95 tails panel2"
    using figure4_shows_report [OF tbl(1) drawn reports low_jitter_law low_jitter_law] by (elim exE conjE)
  with tbl drawn reports show ?thesis
    by (intro exI conjI) simp_all
qed

section \<open>Figure 3 shows the reported means\<close>

lemma sort_remdups_cong: "set xs = set ys \<Longrightarrow> sort (remdups xs) = sort (remdups ys)"
  by (metis sorted_list_of_set_sort_remdups)

lemma level_means_present:
  assumes "level_means RUNS cond = Inr ms" "lvl \<in> concurrency_level ` set RUNS"
  shows "lvl \<in> concurrency_level ` {r \<in> set RUNS. run_condition r = cond}"
proof -
  have "lvl \<in> set (levels_of RUNS)"
    using assms(2) by (simp add: levels_of_def)
  then obtain i where "i < length (levels_of RUNS)" "levels_of RUNS ! i = lvl"
    by (auto simp: in_set_conv_nth)
  then have "bind_result (mean_of (tps_of RUNS lvl cond)) (\<lambda>q. Inr (lvl, q)) = Inr (ms ! i)"
    using list_all2_nthD [OF map_result_list_all2 [OF assms(1) [unfolded level_means_def]]] by blast
  then have "tps_of RUNS lvl cond \<noteq> []"
    by (auto simp: mean_of_def result_simps)
  then show ?thesis
    by (auto simp: tps_of_def filter_empty_conv)
qed

lemma fig3_points_means:
  assumes "fig3_points std RUNS cond = Inr points" "level_means RUNS cond = Inr ms"
  shows "map (\<lambda>(lvl, avg, sd). (lvl, avg)) points = ms"
proof -
  have levels: "sort (remdups (map concurrency_level (filter (\<lambda>r. run_condition r = cond) RUNS))) = levels_of RUNS"
    unfolding levels_of_def by (rule sort_remdups_cong) (use level_means_present [OF assms(2)] in auto)
  have 1: "map_result (\<lambda>lvl. bind_result (mean_of (tps_of RUNS lvl cond)) (\<lambda>q. Inr (lvl, q))) ls = Inr (map (\<lambda>(lvl, avg, sd). (lvl, avg)) ps)"
    if "map_result (\<lambda>(lvl, rows). bind_result (mean_of (map tps rows)) (\<lambda>avg.
         if length rows < 2 then Inl Unmodelled else Inr (lvl, avg, std (map tps rows))))
        (map (\<lambda>k. (k, filter (\<lambda>r. concurrency_level r = k) (filter (\<lambda>r. run_condition r = cond) RUNS))) ls) = Inr ps" for ls ps
    using that
    by (induction ls arbitrary: ps) (auto simp: result_simps tps_of_def conj_commute split: if_splits)
  from 1 [of "levels_of RUNS"] assms show ?thesis
    by (simp add: fig3_points_def groups_def levels level_means_def)
qed

text \<open>
  Figure 3 shows the reported throughputs: in both curves the points are the levels of the campaign in ascending
  order, each at the mean that \<open>04_throughput.py\<close> reports for the level and the condition.
\<close>

theorem figure3_shows_report:
  assumes "observed_peaks RUNS = Inr p" "figure3_throughput std RUNS = Inr curves"
  shows "map (\<lambda>(label, points). map (\<lambda>(lvl, avg, sd). (lvl, avg)) points) curves = map snd (mean_tps_by_level_and_condition p)
    \<and> map fst curves = [''Fabric without access control'', ''HRBAC'']"
proof -
  from assms(1) obtain base hr where means: "level_means RUNS ''baseline'' = Inr base" "level_means RUNS ''hrbac'' = Inr hr"
      "mean_tps_by_level_and_condition p = [(''baseline'', base), (''hrbac'', hr)]"
    by (auto simp: observed_peaks_def result_simps)
  from assms(2) obtain ps qs where "fig3_points std RUNS ''baseline'' = Inr ps" "fig3_points std RUNS ''hrbac'' = Inr qs"
      "curves = [(''Fabric without access control'', ps), (''HRBAC'', qs)]"
    by (auto simp: figure3_throughput_def result_simps)
  with means show ?thesis
    by (simp add: fig3_points_means)
qed

text \<open>Two levels, with two runs of each condition.\<close>

definition fig_campaign :: "run list" where
  "fig_campaign = concat (map (\<lambda>(lvl, cond, q). replicate 2 \<lparr>concurrency_level = lvl, run_condition = cond, tps = q\<rparr>)
     [(100, ''baseline'', 40), (100, ''hrbac'', 30), (20, ''baseline'', 60), (20, ''hrbac'', 50)])"

lemma fig_campaign_reported: "\<not> isl (observed_peaks fig_campaign)"
  by code_simp

lemma fig_campaign_drawn: "\<not> isl (figure3_throughput (\<lambda>xs. 0) fig_campaign)"
  by code_simp

lemma figure3_shows_report_witness:
  "\<exists>p curves. observed_peaks fig_campaign = Inr p \<and> figure3_throughput (\<lambda>xs. 0) fig_campaign = Inr curves
     \<and> map (\<lambda>(label, points). map (\<lambda>(lvl, avg, sd). (lvl, avg)) points) curves = map snd (mean_tps_by_level_and_condition p)"
proof -
  obtain p curves where facts: "observed_peaks fig_campaign = Inr p" "figure3_throughput (\<lambda>xs. 0) fig_campaign = Inr curves"
    using not_isl_Inr [OF fig_campaign_reported] not_isl_Inr [OF fig_campaign_drawn] by blast
  with conjunct1 [OF figure3_shows_report [OF facts]] show ?thesis
    by (intro exI conjI)
qed

end
