(* ===== verification/Pipeline.thy ===== *)
theory Pipeline
  imports Claim_Map Build_Macros Field_Deployment Peer_Scaling Throughput_Report Crt_Report Role_Model
    Revocation_Trace Bench_Measurements
begin

text \<open>
  The reporting scripts of \<open>paper_iot/V10/analysis/scripts/run_all.sh\<close>: 02 to 08 one after the other on one set of
  traces, the report file of \<open>06_security_oracle.py\<close>, and what the scripts 10 and 11 read from the files (all
  scripts together are in \<open>Full_Run\<close>). The theorems compose these scripts: after their run every path that a claim
  or a macro is taken from exists in the merged files and holds a number, so the macro file is written and no claim is
  reported as missing.
\<close>

section \<open>The report of the security oracle\<close>

definition intended_note :: string where
  "intended_note =
     ''discrepant_role_operation_pairs are evaluated against the DEPLOYED hierarchy only, '' @
     ''matching V9.2's Section 6.6 method; a parallel check against the INTENDED hierarchy is '' @
     ''in 'discrepant_vs_intended_oracle' below for comparison.''"

definition oracle_val :: "oracle_report \<Rightarrow> pyval" where
  "oracle_val rep = payload_value
     [(''total_attempts'', count_val (total_attempts rep)),
      (''scenario_counts'', counts_val id (scenario_counts rep)),
      (''deny_reason_counts'', counts_val id (deny_reason_counts rep)),
      (''n_deny_reason_types'', count_val (n_deny_reason_types rep)),
      (''all_blocked'', VBool (all_blocked rep)),
      (''all_denied'', VBool (all_denied rep)),
      (''role_operation_scoped_attempts'', count_val (scoped_attempts rep)),
      (''role_operation_scoped_pct'', VFloat (scoped_pct rep)),
      (''confirmed_by_deployed_oracle'', count_val (confirmed_deployed rep)),
      (''confirmed_pct_of_scoped'', VFloat (confirmed_pct rep)),
      (''discrepant_vs_deployed_oracle'', count_val (discrepant_deployed rep)),
      (''discrepant_pct_of_scoped'', VFloat (discrepant_pct rep)),
      (''discrepant_role_operation_pairs'', VList (map VStr (report_pairs rep))),
      (''unmapped_operation_rows'', count_val (unmapped_rows rep)),
      (''operation_permission_mapping'', payload_value (map (\<lambda>(k, p). (k, VStr p)) OPERATION_PERMISSION)),
      (''note_intended_vs_deployed'', VStr intended_note),
      (''confirmed_by_intended_oracle'', count_val (confirmed_intended rep)),
      (''discrepant_vs_intended_oracle'', count_val (discrepant_intended rep))]"

definition security_main :: "attempt list \<Rightarrow> (string \<times> pyval) list result" where
  "security_main sec = bind_result (oracle_main sec) (\<lambda>rep. Inr [(''06_security_oracle.json'', oracle_val rep)])"

section \<open>The run\<close>

record pipeline_lib =
  pp_stats :: stats_lib
  pp_str_time :: "int \<Rightarrow> string"
  pp_peer :: peer_lib
  pp_throughput :: tp_lib
  pp_sqrt :: "rat \<Rightarrow> rat"
  pp_bench :: bench_lib

record pipeline_data =
  pd_field :: field_data
  pd_TX :: "pr_tx list"
  pd_RUNS :: "pr_run list"
  pd_campaign :: "campaign_run list"
  pd_attempts :: "attempt list"
  pd_stages :: "stage_row list"
  pd_energy :: "energy_sample list"
  pd_timings :: "timing_sample list"

text \<open>Script 05 reads three columns of the sensor transactions.\<close>

definition trace_of :: "sensor_row \<Rightarrow> trace_row" where
  "trace_of r = \<lparr>temp_c = st_temp_c r, soil_moisture = st_soil_moisture r, crt_residues_received = st_crt_residues_received r\<rparr>"

text \<open>\<open>set -e\<close>: the first script that fails ends the run.\<close>

definition run_reports :: "pipeline_lib \<Rightarrow> pipeline_data \<Rightarrow> (string \<times> pyval) list result" where
  "run_reports lib pd =
     bind_result (map_result id
       [field_main (pp_stats lib) (pp_str_time lib) (pd_field pd),
        peer_main (pp_peer lib) (pd_TX pd) (pd_RUNS pd),
        throughput_main (pp_throughput lib) (pd_campaign pd),
        quantization_main (pp_sqrt lib) (map trace_of (ST (pd_field pd))),
        security_main (pd_attempts pd),
        revocation_main (pd_stages pd) (REVDENY (pd_field pd)),
        bench_main (pp_bench lib) (pd_energy pd) (pd_timings pd)]) (\<lambda>outputs.
       Inr (concat outputs))"

section \<open>Digging into written files\<close>

definition number_at :: "pyval \<Rightarrow> string list \<Rightarrow> bool" where
  "number_at content path \<longleftrightarrow> num_of (dig content path) \<noteq> None"

declare dig_payload [simp]

lemma payload_get_Cons [simp]: "payload_get ((k, v) # d) k' = (if k' = k then v else payload_get d k')"
  by (simp add: payload_get_def)

lemma number_payload [simp]: "number_at (payload_value d) (k # ks) = number_at (payload_get d k) ks"
  by (simp only: number_at_def dig_payload)

lemma number_here [simp]: "number_at (VInt i) []" "number_at (VFloat q) []" "number_at (VBool b) []"
  by (simp_all add: number_at_def num_of_def)

text \<open>A written file is found in the merged outputs under its stem.\<close>

lemma stem_suffix: "ends_with json_suffix a \<Longrightarrow> a = stem a @ json_suffix"
proof -
  assume "ends_with json_suffix a"
  then have "rev (drop (length a - length json_suffix) a) = rev json_suffix"
    by (simp add: ends_with_def starts_with_def take_rev)
  then have "drop (length a - length json_suffix) a = json_suffix"
    by (simp only: rev_is_rev_conv)
  then show ?thesis
    unfolding stem_def by (metis append_take_drop_id)
qed

lemma distinct_map_sort_key: "distinct (map f (sort_key k xs)) \<longleftrightarrow> distinct (map f xs)"
  by (metis mset_map mset_sort mset_eq_imp_distinct_iff)

lemma merged_file:
  assumes "distinct (map fst files)" "(name, content) \<in> set files" "ends_with json_suffix name"
  shows "dig (VDict (merge_outputs files)) (stem name # path) = dig content path"
proof -
  let ?json = "sort_key fst (filter (\<lambda>(name, content). ends_with json_suffix name) files)"
  let ?pairs = "map (\<lambda>(name, content). (VStr (stem name), content)) ?json"
  have json: "(n, c) \<in> set ?json \<longleftrightarrow> (n, c) \<in> set files \<and> ends_with json_suffix n" for n c
    by auto
  have "distinct (map fst files) \<Longrightarrow> distinct (map fst (filter P files))" for P
    by (rule distinct_map_filter)
  then have "distinct (map fst ?json)"
    using assms(1) by (simp add: distinct_map_sort_key)
  then have "distinct (map (\<lambda>n. VStr (stem n)) (map fst ?json))"
  proof (subst distinct_map, intro conjI inj_onI)
    fix a b
    assume "a \<in> set (map fst ?json)" "b \<in> set (map fst ?json)" "VStr (stem a) = VStr (stem b)"
    then show "a = b"
      using stem_suffix [of a] stem_suffix [of b] by auto
  qed
  moreover have "map (\<lambda>n. VStr (stem n)) (map fst ?json) = map fst ?pairs"
    by (simp add: case_prod_beta)
  ultimately have distinct: "distinct (map fst ?pairs)"
    by (simp only:)
  have "merge_outputs files = dict_of ?pairs"
    by (simp add: merge_outputs_def dict_of_def fold_map comp_def case_prod_unfold)
  also have "\<dots> = ?pairs"
    by (rule dict_of_distinct [OF distinct])
  finally have "dict_get (merge_outputs files) (VStr (stem name)) = Some content"
    using distinct assms json [of name content] by (auto intro!: map_of_is_SomeI rev_image_eqI)
  then show ?thesis
    by (simp add: get_default_def)
qed

section \<open>What each script writes\<close>

definition numbers_at :: "pyval \<Rightarrow> string list list \<Rightarrow> bool" where
  "numbers_at content paths \<longleftrightarrow> list_all (number_at content) paths"

lemma numbers_at_simps [simp]:
  "numbers_at content []"
  "numbers_at content (p # ps) \<longleftrightarrow> number_at content p \<and> numbers_at content ps"
  by (simp_all add: numbers_at_def)

definition deployment_paths :: "string list list" where
  "deployment_paths = [[''authorization_decisions''], [''sensor_readings''], [''sensors''], [''gateways''], [''zones''],
     [''deployment_span_days''], [''ordinary_denials''], [''ordinary_denial_rate_pct'']]"

lemma deployment_numbers:
  "deployment_summary str_time fd = Inr d \<Longrightarrow> numbers_at (payload_value d) deployment_paths"
  by (auto simp: deployment_summary_def deployment_paths_def Let_def result_simps)

definition latency_paths :: "string list list" where
  "latency_paths = [[''checkaccess_nonwrite'', ''mean_ms''], [''checkaccess_nonwrite'', ''sd_ms''], [''sensor_write'', ''mean_ms''],
     [''sensor_write'', ''sd_ms''], [''sensor_write'', ''p95_ms''], [''sensor_write'', ''p99_ms''], [''gap_ms''],
     [''role_operation_cells''], [''grant_rate_min_pct''], [''grant_rate_max_pct'']]"

lemma latency_stats_numbers:
  "latency_stats lib xs = Inr v \<Longrightarrow> numbers_at v [[''mean_ms''], [''sd_ms''], [''p95_ms''], [''p99_ms'']]"
  by (auto simp: latency_stats_def result_simps)

lemma role_op_nonempty: "role_op fd = Inr cells \<Longrightarrow> AD fd \<noteq> [] \<Longrightarrow> cells \<noteq> []"
  by (cases "AD fd") (auto simp: role_op_def groups_def split: if_splits dest!: map_result_Inr_length)

lemma latency_numbers:
  assumes "latency_by_class lib fd = Inr d"
  shows "numbers_at (payload_value d) latency_paths"
proof -
  from assms have "AD fd \<noteq> []"
    by (auto simp: latency_by_class_def latency_stats_def Let_def result_simps mean_of_def)
  with assms show ?thesis
    by (auto simp: latency_by_class_def latency_paths_def Let_def result_simps
        dest!: latency_stats_numbers dest: role_op_nonempty)
qed

definition availability_paths :: "string list list" where
  "availability_paths = [[''outage_count''], [''outage_total_hours''], [''outage_min_hours''], [''outage_max_hours''],
     [''decision_path_uptime_pct''], [''gateway_hour_uptime_pct'']]"

lemma availability_numbers: "availability fd = Inr d \<Longrightarrow> numbers_at (payload_value d) availability_paths"
  by (auto simp: availability_def availability_paths_def Let_def result_simps)

lemma crt_field_numbers: "crt_field_summary fd = Inr d \<Longrightarrow> numbers_at (payload_value d) [[''signature_valid_pct'']]"
  by (auto simp: crt_field_summary_def result_simps)

text \<open>Values by peer count are found under the count's text.\<close>

lemma by_peer_count_number:
  assumes "by_peer_count f tbl = Inr v" "pc \<in> peer_count ` set tbl"
  shows "\<exists>x. f pc (filter (\<lambda>r. peer_count r = pc) tbl) = Inr x \<and> number_at v (int_str pc # ks) = number_at x ks"
  using by_peer_count_get [OF assms] by (elim exE conjE) simp

lemma int_str_peers: "int_str 4 = ''4''" "int_str 8 = ''8''" "int_str 16 = ''16''" "int_str 32 = ''32''"
  by code_simp+

definition design_paths :: "string list list" where
  "design_paths = [[''n_runs''], [''runs_per_peer_count'', ''4''], [''tx_per_run''],
     [''each_config_occupies_each_position_exactly_twice'']]"

lemma runs_per_count_number:
  fixes tbl :: "run_row list"
  shows "pc \<in> peer_count ` set tbl \<Longrightarrow>
     number_at (int_counts (map (\<lambda>(pc, rows). (pc, length rows)) (groups peer_count tbl))) [int_str pc]"
proof -
  have "(pc, rows) \<in> set gs \<Longrightarrow> number_at (int_counts (map (\<lambda>(pc, rows). (pc, length rows)) gs)) [int_str pc]"
    for gs :: "(int \<times> run_row list) list" and rows
    by (induction gs) (auto simp: int_counts_def int_str_inject)
  moreover assume "pc \<in> peer_count ` set tbl"
  then have "(pc, filter (\<lambda>r. peer_count r = pc) tbl) \<in> set (groups peer_count tbl)"
    by (simp add: groups_mem)
  ultimately show ?thesis by blast
qed

lemma design_numbers:
  assumes "counterbalancing_check TX tbl = Inr d" "4 \<in> peer_count ` set tbl"
  shows "numbers_at (payload_value d) design_paths"
  using assms runs_per_count_number [OF assms(2)]
  by (auto simp: counterbalancing_check_def design_paths_def Let_def int_str_peers split: if_splits)

definition label_paths :: "string list list" where
  "label_paths = [[''pairwise_4v32'', ''mean_diff_4_minus_32''], [''pairwise_4v32'', ''ci95_low''], [''pairwise_4v32'', ''ci95_high''],
     [''pairwise_4v32'', ''ci90_low''], [''pairwise_4v32'', ''ci90_high''], [''pairwise_4v32'', ''paired_t''],
     [''pairwise_4v32'', ''paired_p''], [''pairwise_4v32'', ''tost_p''],
     [''log_linear_fit'', ''slope_per_doubling''], [''log_linear_fit'', ''r2''], [''log_linear_fit'', ''p''],
     [''order_effect_model'', ''serial_c_p''], [''order_effect_model'', ''log2_peers_p''],
     [''block_design_model'', ''peer_count_p''], [''block_design_model'', ''block_p''],
     [''group_stats'', ''4'', ''mean''], [''group_stats'', ''8'', ''mean''], [''group_stats'', ''16'', ''mean''],
     [''group_stats'', ''32'', ''mean'']]"

lemma group_stats_number:
  assumes "group_stats lib tbl col = Inr v" "pc \<in> peer_count ` set tbl"
  shows "number_at v [int_str pc, ''mean'']"
proof -
  obtain x where x: "group_stat lib (peer_column (filter (\<lambda>r. peer_count r = pc) tbl) col) = Inr x"
    and v: "number_at v [int_str pc, ''mean''] = number_at x [''mean'']"
    using by_peer_count_number [OF assms [unfolded group_stats_def], of "[''mean'']"] by blast
  from x have "number_at x [''mean'']"
    by (auto simp: group_stat_def Let_def result_simps)
  with v show ?thesis by simp
qed

lemma fit_numbers: "log_linear_fit lib tbl col = Inr v \<Longrightarrow> numbers_at v [[''slope_per_doubling''], [''r2''], [''p'']]"
  by (auto simp: log_linear_fit_def result_simps case_prod_unfold Let_def)

lemma pairwise_numbers:
  "pairwise_extreme lib tbl col margin = Inr d \<Longrightarrow> numbers_at (payload_value d)
     [[''mean_diff_4_minus_32''], [''ci95_low''], [''ci95_high''], [''ci90_low''], [''ci90_high''], [''paired_t''], [''paired_p''], [''tost_p'']]"
  by (auto simp: pairwise_extreme_def Let_def result_simps split: if_splits)

lemma label_numbers:
  assumes "label_report lib tbl col = Inr v" "{4, 8, 16, 32} \<subseteq> peer_count ` set tbl"
  shows "numbers_at v label_paths"
proof -
  from assms(1) obtain gs bt fit pairwise where r: "group_stats lib tbl col = Inr gs" "log_linear_fit lib tbl col = Inr fit"
    "pairwise_extreme lib tbl col 10 = Inr pairwise"
    and v: "v = payload_value [(''group_stats'', gs), (''bootstrap_ci'', bt), (''log_linear_fit'', fit),
         (''pairwise_4v32'', payload_value pairwise), (''order_effect_model'', order_effect_model lib tbl col),
         (''block_design_model'', block_design_model lib tbl col)]"
    by (auto simp: label_report_def result_simps)
  have "number_at gs [int_str pc, ''mean'']" if "pc \<in> {4, 8, 16, 32}" for pc
    using group_stats_number [OF r(1)] assms(2) that by blast
  from this [of 4] this [of 8] this [of 16] this [of 32] fit_numbers [OF r(2)] pairwise_numbers [OF r(3)]
  show ?thesis
    by (simp add: v label_paths_def int_str_peers order_effect_model_def block_design_model_def Let_def)
qed

definition peer_paths :: "string list list" where
  "peer_paths =
     concat (map (\<lambda>label. map ((#) label) label_paths) [''total_latency'', ''recorded_span'', ''remaining_latency'', ''p95_latency'']) @
     map (\<lambda>pc. [''recorded_span_share_pct_by_peer_count'', pc]) [''4'', ''8'', ''16'', ''32'']"

lemma span_share_number:
  assumes "span_share tbl = Inr v" "pc \<in> peer_count ` set tbl"
  shows "number_at v [int_str pc]"
  using by_peer_count_number [OF assms [unfolded span_share_def], of "[]"] by (auto simp: result_simps)

lemma numbers_at_append [simp]: "numbers_at v (ps @ qs) \<longleftrightarrow> numbers_at v ps \<and> numbers_at v qs"
  by (simp add: numbers_at_def)

lemma numbers_at_map_Cons [simp]: "numbers_at (payload_value d) (map ((#) k) ps) = numbers_at (payload_get d k) ps"
  by (induction ps) simp_all

lemma peer_files:
  assumes "peer_main lib TX RUNS = Inr files" "build_run_table lib TX RUNS = Inr tbl"
    "{4, 8, 16, 32} \<subseteq> peer_count ` set tbl"
  shows "\<exists>design results. files = [(''03_design_check.json'', design), (''03_peer_scaling_results.json'', results)]
    \<and> numbers_at design design_paths \<and> numbers_at results peer_paths"
proof -
  from assms(1,2) obtain design r1 r2 r3 r4 trim share where design: "counterbalancing_check TX tbl = Inr design"
    and r: "label_report lib tbl ''total_latency_mean'' = Inr r1" "label_report lib tbl ''span_mean'' = Inr r2"
      "label_report lib tbl ''remaining_mean'' = Inr r3" "label_report lib tbl ''total_latency_p95'' = Inr r4"
    and share: "span_share tbl = Inr share"
    and files: "files = [(''03_design_check.json'', payload_value design),
            (''03_peer_scaling_results.json'', payload_value
               ([(''design'', payload_value design), (''total_latency'', r1), (''recorded_span'', r2),
                 (''remaining_latency'', r3), (''p95_latency'', r4),
                 (''sensitivity_trim_extremes_total_latency'', trim), (''recorded_span_share_pct_by_peer_count'', share)]))]"
    by (auto simp: peer_main_def labels_def result_simps)
  have four: "4 \<in> peer_count ` set tbl"
    using assms(3) by blast
  have "number_at share [int_str pc]" if "pc \<in> {4, 8, 16, 32}" for pc
    using span_share_number [OF share] assms(3) that by blast
  from this [of 4] this [of 8] this [of 16] this [of 32] label_numbers [OF r(1) assms(3)] label_numbers [OF r(2) assms(3)]
    label_numbers [OF r(3) assms(3)] label_numbers [OF r(4) assms(3)]
  show ?thesis
    by (simp add: files peer_paths_def int_str_peers design_numbers [OF design four])
qed

definition throughput_design_paths :: "string list list" where
  "throughput_design_paths = [[''n_runs''], [''campaign_seq_vs_concurrency_correlation'']]"

definition model_paths :: "string list list" where
  "model_paths = [[''condition_coef_tps''], [''condition_ci_low''], [''condition_ci_high''], [''condition_p''],
     [''interaction_coef_tps_per_client''], [''interaction_p''], [''position_p''], [''r2'']]"

definition level_paths :: "string list list" where
  "level_paths = [[''pct_diff_mean''], [''pct_diff_sd''], [''pct_diff_min''], [''pct_diff_max''],
     [''holm_bonferroni'', ''n_significant_after_adjustment'']]"

definition peak_paths :: "string list list" where
  "peak_paths = [[''baseline_peak_tps''], [''baseline_peak_level''], [''hrbac_peak_tps''], [''hrbac_decline_pct_peak_to_100'']]"

lemma throughput_files:
  assumes "throughput_main lib loaded = Inr files"
  shows "\<exists>design model levels peaks. files = [(''04_throughput_design_check.json'', design), (''04_throughput_primary_model.json'', model),
      (''04_throughput_per_level.json'', levels), (''04_throughput_peaks.json'', peaks)]
    \<and> numbers_at design throughput_design_paths \<and> numbers_at model model_paths \<and> numbers_at levels level_paths
    \<and> numbers_at peaks peak_paths"
proof -
  have "numbers_at (payload_value (per_level_report d)) level_paths" "numbers_at (payload_value (peaks_report p)) peak_paths" for d p
    by (simp_all add: per_level_report_def level_paths_def holm_val_def peaks_report_def peak_paths_def)
  moreover have "numbers_at (payload_value (primary_model l RUNS)) model_paths" for l RUNS
    by (simp add: primary_model_def model_paths_def Let_def)
  moreover have "design_check l RUNS = Inr d \<Longrightarrow> numbers_at (payload_value d) throughput_design_paths" for l RUNS d
    by (auto simp: design_check_def throughput_design_paths_def Let_def result_simps)
  ultimately show ?thesis
    using assms by (auto simp: throughput_main_def result_simps)
qed

definition crt_paths :: "string list list" where
  "crt_paths = [[''deployed_pairwise_bounds'', ''min''], [''reconstruction_direct_polarity'', ''pct_exceed_min_bound''],
     [''two_residue_reconstruction_count''], [''two_residue_reconstruction_pct''],
     [''corrected_domain'', ''pairwise_bounds'', ''min''], [''corrected_domain'', ''legal_domain_max''],
     [''quantization_error'', ''truncating_quantiser'', ''max_error_pct_full_scale''],
     [''quantization_error'', ''truncating_quantiser'', ''rms_error_pct_full_scale'']]"

lemma crt_files:
  "quantization_main sqroot st = Inr files \<Longrightarrow> \<exists>report. files = [(''05_crt_quantization.json'', report)] \<and> numbers_at report crt_paths"
  by (auto simp: quantization_main_def crt_paths_def bounds_val_def reconstruction_val_def corrected_val_def
      quantization_error_def quantiser_val_def result_simps)

definition security_paths :: "string list list" where
  "security_paths = [[''total_attempts''], [''n_deny_reason_types''], [''role_operation_scoped_attempts''],
     [''confirmed_by_deployed_oracle''], [''confirmed_pct_of_scoped''], [''discrepant_vs_deployed_oracle''],
     [''discrepant_pct_of_scoped'']]"

lemma security_files:
  "security_main sec = Inr files \<Longrightarrow> \<exists>report. files = [(''06_security_oracle.json'', report)] \<and> numbers_at report security_paths"
  by (auto simp: security_main_def security_paths_def oracle_val_def result_simps)

definition revocation_paths :: "string list list" where
  "revocation_paths = [[''n_stage_records''], [''trace_span_days''], [''delayed_count''], [''delayed_pct''], [''n_subjects''],
     [''n_subjects_with_all_stage_types''], [''n_subjects_appearing_once''],
     [''field_revocation_denials'', ''count''], [''field_revocation_denials'', ''per_day'']]"

lemma revocation_files:
  "revocation_main RS RD = Inr files \<Longrightarrow>
     \<exists>report. files = [(''07_revocation_results.json'', report)] \<and> numbers_at report revocation_paths"
  by (auto simp: revocation_main_def revocation_report_def revocation_denials_def revocation_paths_def Let_def result_simps)

definition energy_paths :: "string list list" where
  "energy_paths = [[''single_channel'', ''mean_mj''], [''crt'', ''mean_mj''], [''reduction_pct''], [''reduction_ci95_low''],
     [''reduction_ci95_high'']]"

definition timing_paths :: "string list list" where
  "timing_paths = [[''sign_pipeline_us_sha256_plus_sign''], [''by_operation'', ''sha256'', ''mean_us''],
     [''by_operation'', ''ed25519_sign'', ''mean_us''], [''by_operation'', ''ed25519_verify'', ''mean_us'']]"

lemma timing_number:
  assumes "timings lib CT = Inr out" "oper \<in> ct_operation ` set CT"
  shows "number_at (payload_get (map (\<lambda>(oper, s). (oper, timing_val s)) out) oper) [''mean_us'']"
proof -
  have "map_result (\<lambda>(oper, rows). bind_result (timing_of lib rows) (\<lambda>s. Inr (oper, s))) gs = Inr out \<Longrightarrow>
      (oper, rows) \<in> set gs \<Longrightarrow> number_at (payload_get (map (\<lambda>(oper, s). (oper, timing_val s)) out) oper) [''mean_us'']" for gs rows
  proof (induction gs arbitrary: out)
    case (Cons h gs)
    then show ?case
      by (cases h) (auto simp: result_simps timing_val_def)
  qed simp
  with assms show ?thesis
    by (auto simp: timings_def groups_mem)
qed

lemma bench_files:
  assumes "bench_main lib EM CT = Inr files" "{''sha256'', ''ed25519_sign'', ''ed25519_verify''} \<subseteq> ct_operation ` set CT"
  shows "\<exists>energy crypto. files = [(''08_energy_results.json'', energy), (''08_crypto_timing_results.json'', crypto)]
    \<and> numbers_at energy energy_paths \<and> numbers_at crypto timing_paths"
proof -
  from assms(1) obtain energy out where e: "energy_analysis lib EM = Inr energy" and out: "timings lib CT = Inr out"
    and files: "files = [(''08_energy_results.json'', payload_value energy), (''08_crypto_timing_results.json'', payload_value
       [(''by_operation'', payload_value (map (\<lambda>(oper, s). (oper, timing_val s)) out)),
        (''sign_pipeline_us_sha256_plus_sign'', VFloat (mean_us out ''sha256'' + mean_us out ''ed25519_sign'')),
        (''verify_us'', VFloat (mean_us out ''ed25519_verify'')), (''n_samples_total'', count_val (length CT))])]"
    by (auto simp: bench_main_def crypto_timing_analysis_def result_simps)
  have "numbers_at (payload_value energy) energy_paths"
    using e by (auto simp: energy_analysis_def energy_paths_def mode_val_def Let_def result_simps)
  moreover have "''sha256'' \<in> ct_operation ` set CT" "''ed25519_sign'' \<in> ct_operation ` set CT" "''ed25519_verify'' \<in> ct_operation ` set CT"
    using assms(2) by blast+
  note this [THEN timing_number [OF out]]
  ultimately show ?thesis
    by (simp add: files timing_paths_def)
qed

section \<open>What the reports read\<close>

definition claim_paths :: "string list list" where
  "claim_paths = concat (map (\<lambda>(claim_id, sect, claim, dataset, script, get, key).
     case get of Fetch path \<Rightarrow> [path] | FetchAbs path \<Rightarrow> [path] | TotalRows \<Rightarrow> []) ROWS)"

definition validation_paths :: "string list list" where
  "validation_paths = map (\<lambda>(label, expected, path). path) expected_vs_real"

fun macro_path :: "macro_value \<Rightarrow> string list list" where
  "macro_path (FmtInt path) = [path]"
| "macro_path (Fmt path nd) = [path]"
| "macro_path (FmtPct path nd) = [path]"
| "macro_path (FmtAbs path nd) = [path]"
| "macro_path (PFloat path nd) = [path]"
| "macro_path (PChecked path nd) = [path]"
| "macro_path (Literal s) = []"

definition macro_paths :: "string list list" where
  "macro_paths = concat (map (\<lambda>(name, v). macro_path v) macro_table)"

section \<open>Every path resolves\<close>

lemma run_reports_files:
  assumes "run_reports lib pd = Inr files"
  shows "\<exists>f2 f3 f4 f5 f6 f7 f8. files = f2 @ f3 @ f4 @ f5 @ f6 @ f7 @ f8
    \<and> field_main (pp_stats lib) (pp_str_time lib) (pd_field pd) = Inr f2
    \<and> peer_main (pp_peer lib) (pd_TX pd) (pd_RUNS pd) = Inr f3
    \<and> throughput_main (pp_throughput lib) (pd_campaign pd) = Inr f4
    \<and> quantization_main (pp_sqrt lib) (map trace_of (ST (pd_field pd))) = Inr f5
    \<and> security_main (pd_attempts pd) = Inr f6
    \<and> revocation_main (pd_stages pd) (REVDENY (pd_field pd)) = Inr f7
    \<and> bench_main (pp_bench lib) (pd_energy pd) (pd_timings pd) = Inr f8"
  using assms by (auto simp: run_reports_def result_simps)

lemma field_files:
  assumes "field_main lib str_time fd = Inr files"
  shows "\<exists>summary latency avail denials crt. files = [(''02_deployment_summary.json'', summary), (''02_latency_by_class.json'', latency),
      (''02_availability.json'', avail), (''02_field_revocation_denials.json'', denials), (''02_crt_field_summary.json'', crt)]
    \<and> numbers_at summary deployment_paths \<and> numbers_at latency latency_paths \<and> numbers_at avail availability_paths
    \<and> numbers_at crt [[''signature_valid_pct'']]"
  using assms deployment_numbers latency_numbers availability_numbers crt_field_numbers
  by (auto simp: field_main_def result_simps simp del: numbers_at_simps)

lemma merged_number:
  assumes "distinct (map fst files)" "(st @ json_suffix, content) \<in> set files"
  shows "number_at (VDict (merge_outputs files)) (st # path) = number_at content path"
proof -
  have "ends_with json_suffix (st @ json_suffix)" "stem (st @ json_suffix) = st"
    by (simp_all add: ends_with_def starts_with_def stem_def)
  with merged_file [OF assms, of path] show ?thesis
    by (simp only: number_at_def)
qed

lemmas path_tables = deployment_paths_def latency_paths_def availability_paths_def design_paths_def peer_paths_def label_paths_def
  throughput_design_paths_def model_paths_def level_paths_def peak_paths_def crt_paths_def security_paths_def
  revocation_paths_def energy_paths_def timing_paths_def

text \<open>Files that other scripts write before or after do not matter as long as they have other names.\<close>

definition report_names :: "string list" where
  "report_names = [''02_deployment_summary.json'', ''02_latency_by_class.json'', ''02_availability.json'',
     ''02_field_revocation_denials.json'', ''02_crt_field_summary.json'', ''03_design_check.json'', ''03_peer_scaling_results.json'',
     ''04_throughput_design_check.json'', ''04_throughput_primary_model.json'', ''04_throughput_per_level.json'',
     ''04_throughput_peaks.json'', ''05_crt_quantization.json'', ''06_security_oracle.json'', ''07_revocation_results.json'',
     ''08_energy_results.json'', ''08_crypto_timing_results.json'']"

lemma all_paths:
  assumes "run_reports lib pd = Inr reports"
    and "build_run_table (pp_peer lib) (pd_TX pd) (pd_RUNS pd) = Inr tbl" "{4, 8, 16, 32} \<subseteq> peer_count ` set tbl"
    and "{''sha256'', ''ed25519_sign'', ''ed25519_verify''} \<subseteq> ct_operation ` set (pd_timings pd)"
    and "files = before @ reports @ after" "distinct (map fst (before @ after))" "set (map fst (before @ after)) \<inter> set report_names = {}"
  shows "list_all (number_at (VDict (merge_outputs files))) claim_paths"
    "list_all (number_at (VDict (merge_outputs files))) validation_paths"
    "list_all (number_at (VDict (merge_outputs files))) macro_paths"
proof -
  obtain f2 f3 f4 f5 f6 f7 f8 where split: "reports = f2 @ f3 @ f4 @ f5 @ f6 @ f7 @ f8"
    and mains: "field_main (pp_stats lib) (pp_str_time lib) (pd_field pd) = Inr f2"
      "peer_main (pp_peer lib) (pd_TX pd) (pd_RUNS pd) = Inr f3"
      "throughput_main (pp_throughput lib) (pd_campaign pd) = Inr f4"
      "quantization_main (pp_sqrt lib) (map trace_of (ST (pd_field pd))) = Inr f5"
      "security_main (pd_attempts pd) = Inr f6" "revocation_main (pd_stages pd) (REVDENY (pd_field pd)) = Inr f7"
      "bench_main (pp_bench lib) (pd_energy pd) (pd_timings pd) = Inr f8"
    using run_reports_files [OF assms(1)] by (elim exE conjE) (rule that)
  obtain c1 c2 c3 c4 c5 where f2: "f2 = [(''02_deployment_summary.json'', c1), (''02_latency_by_class.json'', c2),
      (''02_availability.json'', c3), (''02_field_revocation_denials.json'', c4), (''02_crt_field_summary.json'', c5)]"
    and n2: "numbers_at c1 deployment_paths" "numbers_at c2 latency_paths" "numbers_at c3 availability_paths"
      "numbers_at c5 [[''signature_valid_pct'']]"
    using field_files [OF mains(1)] by (elim exE conjE) (rule that)
  obtain c6 c7 where f3: "f3 = [(''03_design_check.json'', c6), (''03_peer_scaling_results.json'', c7)]"
    and n3: "numbers_at c6 design_paths" "numbers_at c7 peer_paths"
    using peer_files [OF mains(2) assms(2,3)] by (elim exE conjE) (rule that)
  obtain c8 c9 c10 c11 where f4: "f4 = [(''04_throughput_design_check.json'', c8), (''04_throughput_primary_model.json'', c9),
      (''04_throughput_per_level.json'', c10), (''04_throughput_peaks.json'', c11)]"
    and n4: "numbers_at c8 throughput_design_paths" "numbers_at c9 model_paths" "numbers_at c10 level_paths" "numbers_at c11 peak_paths"
    using throughput_files [OF mains(3)] by (elim exE conjE) (rule that)
  obtain c12 where f5: "f5 = [(''05_crt_quantization.json'', c12)]" and n5: "numbers_at c12 crt_paths"
    using crt_files [OF mains(4)] by (elim exE conjE) (rule that)
  obtain c13 where f6: "f6 = [(''06_security_oracle.json'', c13)]" and n6: "numbers_at c13 security_paths"
    using security_files [OF mains(5)] by (elim exE conjE) (rule that)
  obtain c14 where f7: "f7 = [(''07_revocation_results.json'', c14)]" and n7: "numbers_at c14 revocation_paths"
    using revocation_files [OF mains(6)] by (elim exE conjE) (rule that)
  obtain c15 c16 where f8: "f8 = [(''08_energy_results.json'', c15), (''08_crypto_timing_results.json'', c16)]"
    and n8: "numbers_at c15 energy_paths" "numbers_at c16 timing_paths"
    using bench_files [OF mains(7) assms(4)] by (elim exE conjE) (rule that)
  note reports = split [unfolded f2 f3 f4 f5 f6 f7 f8 append.simps]
  have names: "map fst reports = report_names"
    by (simp add: reports report_names_def)
  have "distinct report_names"
    by (simp add: report_names_def)
  then have distinct: "distinct (map fst files)"
    using assms(6,7) unfolding assms(5) map_append distinct_append set_append names by blast
  have at:
    "number_at (VDict (merge_outputs files)) (''02_deployment_summary'' # p) = number_at c1 p"
    "number_at (VDict (merge_outputs files)) (''02_latency_by_class'' # p) = number_at c2 p"
    "number_at (VDict (merge_outputs files)) (''02_availability'' # p) = number_at c3 p"
    "number_at (VDict (merge_outputs files)) (''02_crt_field_summary'' # p) = number_at c5 p"
    "number_at (VDict (merge_outputs files)) (''03_design_check'' # p) = number_at c6 p"
    "number_at (VDict (merge_outputs files)) (''03_peer_scaling_results'' # p) = number_at c7 p"
    "number_at (VDict (merge_outputs files)) (''04_throughput_design_check'' # p) = number_at c8 p"
    "number_at (VDict (merge_outputs files)) (''04_throughput_primary_model'' # p) = number_at c9 p"
    "number_at (VDict (merge_outputs files)) (''04_throughput_per_level'' # p) = number_at c10 p"
    "number_at (VDict (merge_outputs files)) (''04_throughput_peaks'' # p) = number_at c11 p"
    "number_at (VDict (merge_outputs files)) (''05_crt_quantization'' # p) = number_at c12 p"
    "number_at (VDict (merge_outputs files)) (''06_security_oracle'' # p) = number_at c13 p"
    "number_at (VDict (merge_outputs files)) (''07_revocation_results'' # p) = number_at c14 p"
    "number_at (VDict (merge_outputs files)) (''08_energy_results'' # p) = number_at c15 p"
    "number_at (VDict (merge_outputs files)) (''08_crypto_timing_results'' # p) = number_at c16 p" for p
    by - ((rule merged_number [OF distinct]; simp add: assms(5) reports json_suffix_def; fail)+)
  note numbers = n2 n3 n4 n5 n6 n7 n8
  note facts = numbers [unfolded path_tables, simplified]
  show "list_all (number_at (VDict (merge_outputs files))) claim_paths"
    by (simp add: claim_paths_def ROWS_def at facts)
  show "list_all (number_at (VDict (merge_outputs files))) validation_paths"
    by (simp add: validation_paths_def expected_vs_real_def at facts)
  show "list_all (number_at (VDict (merge_outputs files))) macro_paths"
    by (simp add: macro_paths_def macro_table_def FIELD_MACROS_def PEER_RUN_MACROS_def peer_macros_def PEER_MODEL_MACROS_def
        THROUGHPUT_MACROS_def SECURITY_MACROS_def CRT_MACROS_def REVOCATION_MACROS_def ENERGY_MACROS_def Let_def int_str_peers at facts)
qed

text \<open>
  C31. The scripts fit together: after a run of the scripts 02 to 08 in which the peer experiment has runs with 4, 8, 16
  and 32 peers and the timings have the three operations, every path that a claim, a validated count or a macro
  is taken from leads to a number in the merged output files.
\<close>

theorem every_path_resolves:
  assumes "run_reports lib pd = Inr files"
    and "build_run_table (pp_peer lib) (pd_TX pd) (pd_RUNS pd) = Inr tbl" "{4, 8, 16, 32} \<subseteq> peer_count ` set tbl"
    and "{''sha256'', ''ed25519_sign'', ''ed25519_verify''} \<subseteq> ct_operation ` set (pd_timings pd)"
  shows "\<forall>path \<in> set (claim_paths @ validation_paths @ macro_paths). number_at (VDict (merge_outputs files)) path"
  using all_paths [OF assms, of files "[]" "[]"] by (simp add: list_all_iff ball_Un)

section \<open>The reports are written\<close>

lemma number_g:
  assumes "number_at (VDict outputs) path"
  shows "num_of (g outputs path) \<noteq> None" "g outputs path \<noteq> VStr s"
proof -
  have "g outputs path = dig (VDict outputs) path"
    using assms by (cases "dig (VDict outputs) path") (simp_all add: number_at_def num_of_def g_def)
  then show "num_of (g outputs path) \<noteq> None"
    using assms by (simp only: number_at_def simp_thms)
  then show "g outputs path \<noteq> VStr s"
    by (auto simp: num_of_def)
qed

lemma fmt_number: "num_of v \<noteq> None \<Longrightarrow> \<exists>t. fmt v nd = Inr t" "num_of v \<noteq> None \<Longrightarrow> \<exists>t. fmt_int v = Inr t"
  by (cases v; simp add: fmt_def fmt_int_def num_of_def)+

lemma macro_prints:
  assumes "\<forall>path \<in> set (macro_path v). number_at (VDict outputs) path"
  shows "\<exists>t. macro_text outputs v = Inr t"
proof (cases v)
  case (FmtAbs path nd)
  with assms have "num_of (g outputs path) \<noteq> None"
    by (simp add: number_g)
  then have "\<exists>q. py_float (g outputs path) = Inr q"
    by (cases "g outputs path") (auto simp: num_of_def)
  then show ?thesis
    using FmtAbs fmt_number(1) [of "VFloat q" for q] by (auto simp: num_of_def)
next
  case (PFloat path nd)
  with assms have "num_of (g outputs path) \<noteq> None"
    by (simp add: number_g)
  with PFloat fmt_number(1) [OF this] show ?thesis
    by (cases "g outputs path") auto
next
  case (PChecked path nd)
  with assms have "num_of (g outputs path) \<noteq> None" "g outputs path \<noteq> VStr ''?''"
    by (simp_all add: number_g)
  with PChecked fmt_number(1) [OF this(1)] show ?thesis
    by (auto simp: Let_def)
qed (use assms in \<open>auto simp: number_g fmt_number fmt_pct_def\<close>)

lemma map_result_exists_all: "(\<And>x. x \<in> set xs \<Longrightarrow> \<exists>y. f x = Inr y) \<Longrightarrow> \<exists>ys. map_result f xs = Inr ys"
  using map_result_cases [where f = f and xs = xs] by (cases "map_result f xs") fastforce+

lemma claim_value_present:
  assumes "list_all (number_at (VDict outputs)) claim_paths" "inventory_totals inventory = Inr totals"
    and row: "(claim_id, sect, claim, dataset, script, get, key) \<in> set ROWS"
  shows "v10_value outputs inventory get \<noteq> VNone"
proof (cases get)
  case (Fetch path)
  with row have "path \<in> set claim_paths"
    by (force simp: claim_paths_def)
  with assms(1) have "number_at (VDict outputs) path"
    by (simp add: list_all_iff)
  then show ?thesis
    unfolding Fetch by (auto simp: v10_value_def run_getter_def number_at_def num_of_def)
next
  case (FetchAbs path)
  with row have "path \<in> set claim_paths"
    by (force simp: claim_paths_def)
  with assms(1) have "number_at (VDict outputs) path"
    by (simp add: list_all_iff)
  then show ?thesis
    unfolding FetchAbs by (cases "dig (VDict outputs) path") (auto simp: v10_value_def run_getter_def number_at_def num_of_def)
next
  case TotalRows
  then show ?thesis
    using assms(2) by (cases totals) (simp add: v10_value_def run_getter_def total_csv_rows_def)
qed

text \<open>What follows for the last scripts.\<close>

lemma reports_from_paths:
  assumes "list_all (number_at (VDict outputs)) claim_paths" "list_all (number_at (VDict outputs)) macro_paths"
    and "inventory_totals inventory = Inr totals"
  shows "(\<exists>contents. build_macros outputs inventory = Inr contents)
    \<and> list_all (\<lambda>(name, v). \<forall>path \<in> set (macro_path v). num_of (g outputs path) \<noteq> None) macro_table
    \<and> list_all (\<lambda>(claim_id, sect, claim, dataset, script, get, key). v10_value outputs inventory get \<noteq> VNone) ROWS"
proof -
  have macro: "number_at (VDict outputs) path" if "(name, v) \<in> set macro_table" "path \<in> set (macro_path v)" for name v path
    using assms(2) that by (fastforce simp: macro_paths_def list_all_iff)
  have "\<exists>t. macro_text outputs v = Inr t" if "(name, v) \<in> set macro_table" for name v
    using macro [OF that] by (blast intro: macro_prints)
  then have "\<exists>ms. map_result (\<lambda>(name, v). bind_result (macro_text outputs v) (\<lambda>t. Inr (name, t))) macro_table = Inr ms"
    by (intro map_result_exists_all) fastforce
  then have "\<exists>contents. build_macros outputs inventory = Inr contents"
    using assms(3) by (cases totals) (auto simp: build_macros_def dataset_macros_def fmt_int_def num_of_def)
  moreover have "list_all (\<lambda>(name, v). \<forall>path \<in> set (macro_path v). num_of (g outputs path) \<noteq> None) macro_table"
    unfolding list_all_iff
  proof
    fix x
    assume x: "x \<in> set macro_table"
    obtain name v where nv: "x = (name, v)" by fastforce
    show "case x of (name, v) \<Rightarrow> \<forall>path \<in> set (macro_path v). num_of (g outputs path) \<noteq> None"
      unfolding nv prod.case by (intro ballI number_g(1) macro [OF x [unfolded nv]])
  qed
  moreover have "list_all (\<lambda>(claim_id, sect, claim, dataset, script, get, key). v10_value outputs inventory get \<noteq> VNone) ROWS"
    using claim_value_present [OF assms(1,3)] by (auto simp: list_all_iff)
  ultimately show ?thesis
    by (intro conjI)
qed

text \<open>
  C32. After such a run the last two scripts find what they need: with a readable inventory the macro file is
  written, every macro in it being taken from a number, and no claim is reported as missing.
\<close>

theorem reports_are_written:
  assumes "run_reports lib pd = Inr files"
    and "build_run_table (pp_peer lib) (pd_TX pd) (pd_RUNS pd) = Inr tbl" "{4, 8, 16, 32} \<subseteq> peer_count ` set tbl"
    and "{''sha256'', ''ed25519_sign'', ''ed25519_verify''} \<subseteq> ct_operation ` set (pd_timings pd)"
    and "inventory_totals inventory = Inr totals"
  shows "(\<exists>contents. build_macros (merge_outputs files) inventory = Inr contents)
    \<and> list_all (\<lambda>(name, v). \<forall>path \<in> set (macro_path v). num_of (g (merge_outputs files) path) \<noteq> None) macro_table
    \<and> list_all (\<lambda>(claim_id, sect, claim, dataset, script, get, key). v10_value (merge_outputs files) inventory get \<noteq> VNone) ROWS"
  using all_paths [OF assms(1-4), of files "[]" "[]"] by (intro reports_from_paths [OF _ _ assms(5)]) simp_all

section \<open>A concrete run\<close>

definition demo_ids :: "(string \<times> int) list" where
  "demo_ids = [(''A-R1'', 4), (''A-R2'', 4), (''B-R1'', 8), (''B-R2'', 8), (''C-R1'', 16), (''C-R2'', 16), (''D-R1'', 32), (''D-R2'', 32)]"

definition demo_pipeline_lib :: pipeline_lib where
  "demo_pipeline_lib =
     \<lparr>pp_stats = \<lparr>lib_std = (\<lambda>xs. 1), lib_quantile = (\<lambda>xs q. hd xs)\<rparr>, pp_str_time = (\<lambda>t. []), pp_peer = demo_peer_lib,
      pp_throughput = \<lparr>tl_argsort = stable_argsort, tl_welch_p = (\<lambda>a b. 1 / 100), tl_std = (\<lambda>xs. 1), tl_corr = (\<lambda>xs ys. 1),
        tl_ols = (\<lambda>f rows. \<lparr>mf_nobs = length rows, mf_rsquared = 0, mf_param = (\<lambda>x. 0), mf_conf_int = (\<lambda>x. (0, 0)),
          mf_pvalue = (\<lambda>x. 1), mf_shapiro_p = 1\<rparr>)\<rparr>,
      pp_sqrt = demo_sqrt, pp_bench = demo_lib\<rparr>"

definition demo_data :: pipeline_data where
  "demo_data =
     \<lparr>pd_field = demo_field\<lparr>AD :=
        [\<lparr>ad_timestamp = 0, ad_caller_role = ''Farmer'', ad_operation = ''ReadZone'', ad_decision = ''denied'', ad_latency_ms = 10\<rparr>,
         \<lparr>ad_timestamp = 7200000000000, ad_caller_role = ''Farmer'', ad_operation = ''ReadZone'', ad_decision = ''allowed'', ad_latency_ms = 12\<rparr>]\<rparr>,
      pd_TX = map (\<lambda>(rid, pc). demo_tx rid pc 1000) demo_ids,
      pd_RUNS = map (\<lambda>(rid, pc). \<lparr>pr_run_id = rid, pr_start_timestamp = pc\<rparr>) demo_ids,
      pd_campaign =
        [\<lparr>concurrency_level = 100, run_condition = ''baseline'', tps = 80, tr_session_id = ''S'', tr_start_timestamp = 1\<rparr>,
         \<lparr>concurrency_level = 100, run_condition = ''hrbac'', tps = 60, tr_session_id = ''S'', tr_start_timestamp = 2\<rparr>],
      pd_attempts = [\<lparr>scenario = ''role_escalation'', attacker_role = ''Sensor'', operation = ''ReadAudit'',
         deny_reason = Some ''ROLE_INSUFFICIENT'', blocked = True, decision = ''denied''\<rparr>],
      pd_stages = [\<lparr>rs_cert_user_id = ''u1'', rs_stage_name = ''gossip'', rs_stage_timestamp = 0, rs_status = ''delayed''\<rparr>],
      pd_energy = demo_energy,
      pd_timings = map (\<lambda>oper. \<lparr>ct_operation = oper, ct_duration_us = 5\<rparr>)
         [''sha256'', ''ed25519_sign'', ''ed25519_verify'', ''sha256'', ''ed25519_sign'', ''ed25519_verify'']\<rparr>"

lemma demo_field_run: "\<exists>files. field_main (pp_stats demo_pipeline_lib) (pp_str_time demo_pipeline_lib) (pd_field demo_data) = Inr files"
  by (simp add: demo_data_def demo_pipeline_lib_def field_main_def deployment_summary_def latency_by_class_def latency_stats_def
      role_op_def groups_def sd_of_def quantile_of_def availability_def hours_between_def writes_by_day_def nunique_def
      field_revocation_denials_def crt_field_summary_def demo_eval Let_def)

lemma demo_peer_table:
  "case build_run_table demo_peer_lib (pd_TX demo_data) (pd_RUNS demo_data) of Inl e \<Rightarrow> False
   | Inr tbl \<Rightarrow> map peer_count tbl = [4, 4, 8, 8, 16, 16, 32, 32]"
  by code_simp

lemma demo_peer_run:
  "case peer_main demo_peer_lib (pd_TX demo_data) (pd_RUNS demo_data) of Inl e \<Rightarrow> False | Inr files \<Rightarrow> True"
  by code_simp

lemma demo_throughput_run:
  "case throughput_main (pp_throughput demo_pipeline_lib) (pd_campaign demo_data) of Inl e \<Rightarrow> False | Inr files \<Rightarrow> True"
  by code_simp

lemma demo_security_run: "\<exists>files. security_main (pd_attempts demo_data) = Inr files"
proof -
  have "case oracle_main (pd_attempts demo_data) of Inl e \<Rightarrow> False | Inr rep \<Rightarrow> scoped_attempts rep = 1"
    by code_simp
  then show ?thesis
    by (auto simp: security_main_def split: sum.splits)
qed

lemma demo_crt_run: "\<exists>files. quantization_main (pp_sqrt demo_pipeline_lib) (map trace_of (ST (pd_field demo_data))) = Inr files"
  by (simp add: quantization_main_def reconstruct_def MODULI_DEPLOYED_def Let_def pct_where_def mean_of_def
      corrected_domain_value demo_data_def demo_pipeline_lib_def demo_field_def)

lemma demo_revocation_run: "\<exists>files. revocation_main (pd_stages demo_data) (REVDENY (pd_field demo_data)) = Inr files"
  by (simp add: revocation_main_def revocation_report_def revocation_denials_def delayed_by_stage_def groups_def demo_eval
      demo_data_def Let_def)

lemma demo_bench_run: "\<exists>files. bench_main (pp_bench demo_pipeline_lib) (pd_energy demo_data) (pd_timings demo_data) = Inr files"
proof -
  have "\<exists>d. energy_analysis demo_lib demo_energy = Inr d"
    by (rule demo_energy_run)
  moreover have "\<exists>out. timings demo_lib (pd_timings demo_data) = Inr out"
    by (simp add: timings_def groups_def timing_of_def mean_of_def bench_sd_def demo_data_def Let_def)
  ultimately show ?thesis
    by (auto simp: bench_main_def crypto_timing_analysis_def demo_data_def demo_pipeline_lib_def)
qed

lemma demo_pipeline:
  obtains files tbl where "run_reports demo_pipeline_lib demo_data = Inr files"
    "build_run_table (pp_peer demo_pipeline_lib) (pd_TX demo_data) (pd_RUNS demo_data) = Inr tbl"
    "{4, 8, 16, 32} \<subseteq> peer_count ` set tbl"
    "{''sha256'', ''ed25519_sign'', ''ed25519_verify''} \<subseteq> ct_operation ` set (pd_timings demo_data)"
proof -
  have peer: "pp_peer demo_pipeline_lib = demo_peer_lib"
    by (simp add: demo_pipeline_lib_def)
  obtain tbl where tbl: "build_run_table demo_peer_lib (pd_TX demo_data) (pd_RUNS demo_data) = Inr tbl"
    and pcs: "map peer_count tbl = [4, 4, 8, 8, 16, 16, 32, 32]"
    using demo_peer_table by (auto split: sum.splits)
  have "peer_count ` set tbl = set [4, 4, 8, 8, 16, 16, 32, 32]"
    using arg_cong [OF pcs, of set] by (simp only: set_map)
  then have counts: "{4, 8, 16, 32} \<subseteq> peer_count ` set tbl"
    by simp
  have opers: "{''sha256'', ''ed25519_sign'', ''ed25519_verify''} \<subseteq> ct_operation ` set (pd_timings demo_data)"
    by (simp add: demo_data_def)
  have "\<exists>files. run_reports demo_pipeline_lib demo_data = Inr files"
    using demo_field_run demo_peer_run demo_throughput_run demo_crt_run demo_security_run demo_revocation_run demo_bench_run
    unfolding run_reports_def peer by (auto split: sum.splits)
  then show thesis
    using tbl counts opers that unfolding peer by blast
qed

lemma every_path_resolves_witness:
  "\<exists>files. run_reports demo_pipeline_lib demo_data = Inr files
    \<and> number_at (VDict (merge_outputs files)) [''02_availability'', ''decision_path_uptime_pct'']"
proof -
  obtain files tbl where run: "run_reports demo_pipeline_lib demo_data = Inr files"
    "build_run_table (pp_peer demo_pipeline_lib) (pd_TX demo_data) (pd_RUNS demo_data) = Inr tbl"
    "{4, 8, 16, 32} \<subseteq> peer_count ` set tbl"
    "{''sha256'', ''ed25519_sign'', ''ed25519_verify''} \<subseteq> ct_operation ` set (pd_timings demo_data)"
    by (rule demo_pipeline)
  have "[''02_availability'', ''decision_path_uptime_pct''] \<in> set (claim_paths @ validation_paths @ macro_paths)"
    by (simp add: claim_paths_def ROWS_def)
  with every_path_resolves [OF run] run(1) show ?thesis
    by blast
qed

lemma reports_are_written_witness:
  "\<exists>files contents. run_reports demo_pipeline_lib demo_data = Inr files
    \<and> build_macros (merge_outputs files) (Some ''file_format,row_count'') = Inr contents"
proof -
  obtain files tbl where run: "run_reports demo_pipeline_lib demo_data = Inr files"
    "build_run_table (pp_peer demo_pipeline_lib) (pd_TX demo_data) (pd_RUNS demo_data) = Inr tbl"
    "{4, 8, 16, 32} \<subseteq> peer_count ` set tbl"
    "{''sha256'', ''ed25519_sign'', ''ed25519_verify''} \<subseteq> ct_operation ` set (pd_timings demo_data)"
    by (rule demo_pipeline)
  have "inventory_totals (Some ''file_format,row_count'') = Inr (0, 0)"
    by code_simp
  with reports_are_written [OF run] run(1) show ?thesis
    by blast
qed

end
