(* ===== verification/Py_Json.thy ===== *)
theory Py_Json
  imports Py_Number "HOL-Library.List_Lexorder" "HOL-Library.Char_ord"
begin

text \<open>
  The part of Python's \<open>json\<close> module the source uses. Writing covers the options of \<open>json.dump\<close> that occur
  (\<open>indent\<close>, \<open>sort_keys\<close>, \<open>default=str\<close>); reading is a scanner that cuts the text into tokens and an automaton
  with a stack of open lists and dictionaries. The texts of floats are the parameter \<open>json_lib\<close>; a code point
  of 256 or more, an infinity or NaN is \<open>Unmodelled\<close>. Error messages come without their position. The main
  theorem is the round trip in \<open>Json_Roundtrip\<close>: what was written is read back, up to the order and the texts of the keys.
\<close>

section \<open>Characters\<close>

abbreviation NL :: char where "NL \<equiv> CHR 0x0A"
abbreviation DQ :: char where "DQ \<equiv> CHR 0x22"
abbreviation BSL :: char where "BSL \<equiv> CHR 0x5C"

definition hex_char :: "nat \<Rightarrow> char" where
  "hex_char n = (if n < 10 then digit_char n else char_of (87 + n))"

definition hex_of_char :: "char \<Rightarrow> nat option" where
  "hex_of_char c = (let n = (of_char c :: nat) in
     if 48 \<le> n \<and> n \<le> 57 then Some (n - 48)
     else if 97 \<le> n \<and> n \<le> 102 then Some (n - 87)
     else if 65 \<le> n \<and> n \<le> 70 then Some (n - 55) else None)"

text \<open>The escapes with a letter of their own.\<close>

definition short_escapes :: "(char \<times> char) list" where
  "short_escapes = [(DQ, DQ), (BSL, BSL), (CHR ''/'', CHR ''/''), (CHR ''b'', CHR 0x08), (CHR ''f'', CHR 0x0C),
     (CHR ''n'', NL), (CHR ''r'', CHR 0x0D), (CHR ''t'', CHR 0x09)]"

section \<open>Writing\<close>

definition escape_char :: "char \<Rightarrow> string" where
  "escape_char c =
     (let n = (of_char c :: nat) in
      if n = 34 then [BSL, DQ] else if n = 92 then [BSL, BSL]
      else if n = 10 then [BSL, CHR ''n''] else if n = 13 then [BSL, CHR ''r''] else if n = 9 then [BSL, CHR ''t'']
      else if n = 12 then [BSL, CHR ''f''] else if n = 8 then [BSL, CHR ''b'']
      else if 32 \<le> n \<and> n \<le> 126 then [c]
      else [BSL, CHR ''u'', CHR ''0'', CHR ''0'', hex_char (n div 16), hex_char (n mod 16)])"

definition quoted :: "string \<Rightarrow> string" where
  "quoted s = DQ # concat (map escape_char s) @ [DQ]"

text \<open>How a float is written, and what its text is read as.\<close>

record json_lib =
  float_repr :: "rat \<Rightarrow> string"
  float_of :: "string \<Rightarrow> rat"

record dump_opts =
  do_indent :: "nat option"
  do_sort :: bool
  do_default :: bool

text \<open>A key that is no string is replaced by its text.\<close>

fun key_text :: "json_lib \<Rightarrow> pyval \<Rightarrow> string result" where
  "key_text lib (VStr s) = Inr s"
| "key_text lib (VFloat q) = Inr (float_repr lib q)"
| "key_text lib (VBool b) = Inr (if b then ''true'' else ''false'')"
| "key_text lib VNone = Inr ''null''"
| "key_text lib (VInt i) = Inr (int_str i)"
| "key_text lib _ = Inl (TypeError ''keys must be str, int, float, bool or None'')"

text \<open>\<open>sorted(d.items())\<close>: keys are distinct, so that only keys are compared; strings with strings, numbers with numbers.\<close>

fun string_key :: "pyval \<Rightarrow> bool" where
  "string_key (VStr s) = True"
| "string_key _ = False"

fun key_string :: "pyval \<Rightarrow> string" where
  "key_string (VStr s) = s"
| "key_string _ = []"

fun number_key :: "pyval \<Rightarrow> bool" where
  "number_key (VInt i) = True"
| "number_key (VBool b) = True"
| "number_key (VFloat q) = True"
| "number_key _ = False"

fun key_number :: "pyval \<Rightarrow> rat" where
  "key_number (VInt i) = of_int i"
| "key_number (VBool b) = (if b then 1 else 0)"
| "key_number (VFloat q) = q"
| "key_number _ = 0"

definition sort_items :: "pydict \<Rightarrow> pydict result" where
  "sort_items d =
     (if length d \<le> 1 then Inr d
      else if list_all (\<lambda>(k, v). string_key k) d then Inr (sort_key (\<lambda>(k, v). key_string k) d)
      else if list_all (\<lambda>(k, v). number_key k) d then Inr (sort_key (\<lambda>(k, v). key_number k) d)
      else Inl (TypeError ''not supported between instances''))"

text \<open>\<open>sort_keys\<close> in every dictionary of a value.\<close>

fun sort_value :: "pyval \<Rightarrow> pyval result"
  and sort_values :: "pyval list \<Rightarrow> pyval list result"
  and sort_pairs :: "(pyval \<times> pyval) list \<Rightarrow> (pyval \<times> pyval) list result" where
  "sort_value (VList xs) = bind_result (sort_values xs) (\<lambda>ys. Inr (VList ys))"
| "sort_value (VTuple xs) = bind_result (sort_values xs) (\<lambda>ys. Inr (VTuple ys))"
| "sort_value (VDict d) = bind_result (sort_pairs d) (\<lambda>e. bind_result (sort_items e) (\<lambda>e'. Inr (VDict e')))"
| "sort_value v = Inr v"
| "sort_values [] = Inr []"
| "sort_values (x # xs) = bind_result (sort_value x) (\<lambda>y. bind_result (sort_values xs) (\<lambda>ys. Inr (y # ys)))"
| "sort_pairs [] = Inr []"
| "sort_pairs ((k, x) # d) = bind_result (sort_value x) (\<lambda>y. bind_result (sort_pairs d) (\<lambda>e. Inr ((k, y) # e)))"

text \<open>Line ends and separators at a depth.\<close>

definition fresh_line :: "nat option \<Rightarrow> nat \<Rightarrow> string" where
  "fresh_line ind depth = (case ind of None \<Rightarrow> [] | Some w \<Rightarrow> NL # replicate (w * depth) CHR '' '')"

definition separator :: "nat option \<Rightarrow> nat \<Rightarrow> string" where
  "separator ind depth = (case ind of None \<Rightarrow> '', '' | Some w \<Rightarrow> CHR '','' # fresh_line ind depth)"

fun enclosed :: "nat option \<Rightarrow> nat \<Rightarrow> char \<Rightarrow> char \<Rightarrow> string list \<Rightarrow> string" where
  "enclosed ind depth a b [] = [a, b]"
| "enclosed ind depth a b (t # ts) =
     a # fresh_line ind (Suc depth) @ join (separator ind (Suc depth)) (t # ts) @ fresh_line ind depth @ [b]"

fun json_text :: "json_lib \<Rightarrow> dump_opts \<Rightarrow> nat \<Rightarrow> pyval \<Rightarrow> string result"
  and json_texts :: "json_lib \<Rightarrow> dump_opts \<Rightarrow> nat \<Rightarrow> pyval list \<Rightarrow> string list result"
  and json_pairs :: "json_lib \<Rightarrow> dump_opts \<Rightarrow> nat \<Rightarrow> (pyval \<times> pyval) list \<Rightarrow> string list result" where
  "json_text lib opts depth VNone = Inr ''null''"
| "json_text lib opts depth (VBool b) = Inr (if b then ''true'' else ''false'')"
| "json_text lib opts depth (VInt i) = Inr (int_str i)"
| "json_text lib opts depth (VFloat q) = Inr (float_repr lib q)"
| "json_text lib opts depth (VStr s) = Inr (quoted s)"
| "json_text lib opts depth (VBytes bs) =
     Inl (if do_default opts then Unmodelled else TypeError ''Object of type bytes is not JSON serializable'')"
| "json_text lib opts depth (VList xs) =
     bind_result (json_texts lib opts (Suc depth) xs) (\<lambda>ts. Inr (enclosed (do_indent opts) depth CHR ''['' CHR '']'' ts))"
| "json_text lib opts depth (VTuple xs) =
     bind_result (json_texts lib opts (Suc depth) xs) (\<lambda>ts. Inr (enclosed (do_indent opts) depth CHR ''['' CHR '']'' ts))"
| "json_text lib opts depth (VDict d) =
     bind_result (json_pairs lib opts (Suc depth) d) (\<lambda>ts. Inr (enclosed (do_indent opts) depth CHR ''{'' CHR ''}'' ts))"
| "json_texts lib opts depth [] = Inr []"
| "json_texts lib opts depth (x # xs) =
     bind_result (json_text lib opts depth x) (\<lambda>t. bind_result (json_texts lib opts depth xs) (\<lambda>ts. Inr (t # ts)))"
| "json_pairs lib opts depth [] = Inr []"
| "json_pairs lib opts depth ((k, x) # d) =
     bind_result (key_text lib k) (\<lambda>kt. bind_result (json_text lib opts depth x) (\<lambda>t.
       bind_result (json_pairs lib opts depth d) (\<lambda>ts. Inr ((quoted kt @ '': '' @ t) # ts))))"

text \<open>\<open>json.dumps(obj, ...)\<close>.\<close>

definition json_dumps :: "json_lib \<Rightarrow> dump_opts \<Rightarrow> pyval \<Rightarrow> string result" where
  "json_dumps lib opts obj =
     bind_result (if do_sort opts then sort_value obj else Inr obj) (\<lambda>v. json_text lib opts 0 v)"

definition plain_opts :: dump_opts where
  "plain_opts = \<lparr>do_indent = None, do_sort = False, do_default = False\<rparr>"

section \<open>The scanner\<close>

datatype json_token =
    OpenDict | CloseDict | OpenList | CloseList | CommaTok | ColonTok
  | StringTok string
  | AtomTok pyval

text \<open>The rest of a string after the opening quotation mark.\<close>

fun scan_string :: "string \<Rightarrow> (string \<times> string) result" where
  "scan_string [] = Inl (ValueError ''Unterminated string starting at'')"
| "scan_string (c # cs) =
     (if c = DQ then Inr ([], cs)
      else if c = BSL then
        (case cs of
           [] \<Rightarrow> Inl (ValueError ''Unterminated string starting at'')
         | e # es \<Rightarrow>
             if e = CHR ''u'' then
               (case es of
                  h1 # h2 # h3 # h4 # rest \<Rightarrow>
                    (case (hex_of_char h1, hex_of_char h2, hex_of_char h3, hex_of_char h4) of
                       (Some d1, Some d2, Some d3, Some d4) \<Rightarrow>
                         if d1 = 0 \<and> d2 = 0
                         then bind_result (scan_string rest) (\<lambda>(s, r). Inr (char_of (16 * d3 + d4) # s, r))
                         else Inl Unmodelled
                     | _ \<Rightarrow> Inl (ValueError ''Invalid backslash-uXXXX escape''))
                | _ \<Rightarrow> Inl (ValueError ''Invalid backslash-uXXXX escape''))
             else (case map_of short_escapes e of
                     None \<Rightarrow> Inl (ValueError ''Invalid backslash escape'')
                   | Some x \<Rightarrow> bind_result (scan_string es) (\<lambda>(s, r). Inr (x # s, r))))
      else if (of_char c :: nat) < 32 then Inl (ValueError ''Invalid control character at'')
      else bind_result (scan_string cs) (\<lambda>(s, r). Inr (c # s, r)))"

text \<open>The longest number at the front of a text: its text, whether it is a float, and the rest.\<close>

definition split_digits :: "string \<Rightarrow> string \<times> string" where
  "split_digits s = (takeWhile is_digit s, dropWhile is_digit s)"

definition split_minus :: "string \<Rightarrow> string \<times> string" where
  "split_minus s = (case s of c # cs \<Rightarrow> if c = CHR ''-'' then ([c], cs) else ([], s) | [] \<Rightarrow> ([], s))"

definition split_int :: "string \<Rightarrow> (string \<times> string) option" where
  "split_int s =
     (case s of [] \<Rightarrow> None
      | c # cs \<Rightarrow> if c = CHR ''0'' then Some ([c], cs) else if is_digit c then Some (split_digits s) else None)"

definition split_frac :: "string \<Rightarrow> string \<times> string" where
  "split_frac s =
     (case s of [] \<Rightarrow> ([], s)
      | c # cs \<Rightarrow>
          if c = CHR ''.'' then (case split_digits cs of (ds, r) \<Rightarrow> if ds = [] then ([], s) else (c # ds, r))
          else ([], s))"

definition split_exp_sign :: "string \<Rightarrow> string \<times> string" where
  "split_exp_sign s =
     (case s of [] \<Rightarrow> ([], s) | c # cs \<Rightarrow> if c = CHR ''-'' \<or> c = CHR ''+'' then ([c], cs) else ([], s))"

definition split_exp :: "string \<Rightarrow> string \<times> string" where
  "split_exp s =
     (case s of [] \<Rightarrow> ([], s)
      | c # cs \<Rightarrow>
          if c = CHR ''e'' \<or> c = CHR ''E'' then
            (case split_exp_sign cs of (sg, r) \<Rightarrow> case split_digits r of (ds, r') \<Rightarrow>
               if ds = [] then ([], s) else (c # sg @ ds, r'))
          else ([], s))"

definition split_number :: "string \<Rightarrow> (string \<times> bool \<times> string) option" where
  "split_number s =
     (case split_minus s of (neg, r) \<Rightarrow>
        (case split_int r of
           None \<Rightarrow> None
         | Some (ip, r1) \<Rightarrow>
             case split_frac r1 of (fp, r2) \<Rightarrow> case split_exp r2 of (ex, r3) \<Rightarrow>
               Some (neg @ ip @ fp @ ex, fp @ ex \<noteq> [], r3)))"

definition number_value :: "json_lib \<Rightarrow> string \<Rightarrow> bool \<Rightarrow> pyval" where
  "number_value lib txt is_float =
     (if is_float then VFloat (float_of lib txt)
      else case split_minus txt of (neg, ds) \<Rightarrow> VInt (if neg = [] then int (nat_of_digits ds) else - int (nat_of_digits ds)))"

definition literals :: "(string \<times> pyval) list" where
  "literals = [(''null'', VNone), (''true'', VBool True), (''false'', VBool False)]"

definition scan_literal :: "string \<Rightarrow> (pyval \<times> string) result" where
  "scan_literal s =
     (case List.find (\<lambda>(word, v). starts_with word s) literals of
        Some (word, v) \<Rightarrow> Inr (v, drop (length word) s)
      | None \<Rightarrow> if list_ex (\<lambda>word. starts_with word s) [''NaN'', ''Infinity'', ''-Infinity''] then Inl Unmodelled
                else Inl (ValueError ''Expecting value''))"

definition json_space :: "char \<Rightarrow> bool" where
  "json_space c \<longleftrightarrow> c = CHR '' '' \<or> c = NL \<or> c = CHR 0x0D \<or> c = CHR 0x09"

definition punctuation :: "(char \<times> json_token) list" where
  "punctuation = [(CHR ''{'', OpenDict), (CHR ''}'', CloseDict), (CHR ''['', OpenList), (CHR '']'', CloseList),
     (CHR '','', CommaTok), (CHR '':'', ColonTok)]"

text \<open>One token at the front of a text that does not start with white space.\<close>

definition scan_token :: "json_lib \<Rightarrow> string \<Rightarrow> (json_token \<times> string) result" where
  "scan_token lib s =
     (case s of
        [] \<Rightarrow> Inl (ValueError ''Expecting value'')
      | c # cs \<Rightarrow>
          (case map_of punctuation c of
             Some tok \<Rightarrow> Inr (tok, cs)
           | None \<Rightarrow>
               if c = DQ then bind_result (scan_string cs) (\<lambda>(t, rest). Inr (StringTok t, rest))
               else (case split_number s of
                       Some (t, fl, rest) \<Rightarrow> Inr (AtomTok (number_value lib t fl), rest)
                     | None \<Rightarrow> bind_result (scan_literal s) (\<lambda>(v, rest). Inr (AtomTok v, rest)))))"

lemma scan_string_shorter: "scan_string cs = Inr (s, r) \<Longrightarrow> length r < length cs"
proof (induction cs arbitrary: s r rule: length_induct)
  case (1 cs)
  have shorter: "length r' < length cs" if "scan_string ds = Inr (t, r')" "length ds < length cs" for ds t r'
    using 1(1) that by fastforce
  show ?case
  proof (cases cs)
    case (Cons c cs')
    with 1(2) show ?thesis
      by (auto split: if_splits list.splits option.splits simp: result_simps dest!: shorter)
  qed (use 1(2) in simp)
qed

lemma split_digits_length: "split_digits s = (a, b) \<Longrightarrow> length a + length b = length s"
  by (auto simp: split_digits_def simp flip: length_append)

lemma split_exp_sign_length: "split_exp_sign s = (sg, r) \<Longrightarrow> length r \<le> length s"
  by (auto simp: split_exp_sign_def split: list.splits if_splits)

lemma split_number_shorter:
  assumes "split_number s = Some (t, fl, r)"
  shows "length r < length s"
proof -
  obtain neg r0 where minus: "split_minus s = (neg, r0)" by (cases "split_minus s")
  then have 0: "length r0 \<le> length s"
    by (auto simp: split_minus_def split: list.splits if_splits)
  from assms minus obtain ip r1 where int: "split_int r0 = Some (ip, r1)"
    by (auto simp: split_number_def split: option.splits)
  then have 1: "length r1 < length r0"
    by (auto simp: split_int_def split_digits_def split: list.splits if_splits)
      (metis dropWhile.simps(2) length_Cons length_dropWhile_le less_Suc_eq_le)
  obtain fp r2 where frac: "split_frac r1 = (fp, r2)" by (cases "split_frac r1")
  then have 2: "length r2 \<le> length r1"
    by (auto simp: split_frac_def split_digits_def length_dropWhile_le le_SucI split: list.splits if_splits)
  obtain ex r3 where exp: "split_exp r2 = (ex, r3)" by (cases "split_exp r2")
  obtain sg r4 where sign: "split_exp_sign (tl r2) = (sg, r4)" by (cases "split_exp_sign (tl r2)")
  then have "length r3 \<le> length r2"
    using exp length_dropWhile_le [of is_digit r4] split_exp_sign_length [OF sign]
    by (auto simp: split_exp_def split_digits_def split: list.splits if_splits)
  moreover have "r = r3"
    using assms minus int frac exp by (simp add: split_number_def)
  ultimately show ?thesis
    using 0 1 2 by simp
qed

lemma scan_literal_shorter: "scan_literal s = Inr (v, r) \<Longrightarrow> length r < length s"
  by (auto simp: scan_literal_def literals_def starts_with_def split: if_splits option.splits dest!: arg_cong [where f = length])

lemma scan_token_shorter: "scan_token lib s = Inr (tok, r) \<Longrightarrow> length r < length s"
  by (auto simp: scan_token_def result_simps split: list.splits option.splits if_splits
      dest: scan_string_shorter split_number_shorter scan_literal_shorter)

function scan_tokens :: "json_lib \<Rightarrow> string \<Rightarrow> json_token list result" where
  "scan_tokens lib s =
     (case dropWhile json_space s of
        [] \<Rightarrow> Inr []
      | c # cs \<Rightarrow>
          bind_result (scan_token lib (c # cs)) (\<lambda>(tok, rest).
          bind_result (scan_tokens lib rest) (\<lambda>toks. Inr (tok # toks))))"
  by pat_completeness auto
termination
proof (relation "measure (\<lambda>(lib, s). length s)")
  fix lib :: json_lib and s c cs p tok rest
  assume "dropWhile json_space s = c # cs" "scan_token lib (c # cs) = Inr p" "(tok, rest) = p"
  then have "length rest < length (dropWhile json_space s)"
    using scan_token_shorter [of lib "c # cs" tok rest] by simp
  then show "((lib, rest), lib, s) \<in> measure (\<lambda>(lib, s). length s)"
    using length_dropWhile_le [of json_space s] by simp
qed simp

declare scan_tokens.simps [simp del]

section \<open>The parser\<close>

text \<open>What is open around the current place: the items of a list so far, or the items of a dictionary with the key of the next.\<close>

datatype json_frame = InList "pyval list" | InDict pydict string

datatype json_state =
    WantValue "json_frame list"
  | FirstItem "json_frame list"
  | AfterItem "pyval list" "json_frame list"
  | FirstKey "json_frame list"
  | NextKey pydict "json_frame list"
  | WantColon pydict string "json_frame list"
  | AfterPair pydict "json_frame list"
  | Finished pyval

fun put_value :: "pyval \<Rightarrow> json_frame list \<Rightarrow> json_state" where
  "put_value v [] = Finished v"
| "put_value v (InList xs # fs) = AfterItem (xs @ [v]) fs"
| "put_value v (InDict d k # fs) = AfterPair (dict_set (VStr k) v d) fs"

fun start_value :: "json_token \<Rightarrow> json_frame list \<Rightarrow> json_state result" where
  "start_value (AtomTok v) fs = Inr (put_value v fs)"
| "start_value (StringTok s) fs = Inr (put_value (VStr s) fs)"
| "start_value OpenList fs = Inr (FirstItem fs)"
| "start_value OpenDict fs = Inr (FirstKey fs)"
| "start_value _ fs = Inl (ValueError ''Expecting value'')"

fun json_step :: "json_token \<Rightarrow> json_state \<Rightarrow> json_state result" where
  "json_step tok (WantValue fs) = start_value tok fs"
| "json_step CloseList (FirstItem fs) = Inr (put_value (VList []) fs)"
| "json_step tok (FirstItem fs) = start_value tok (InList [] # fs)"
| "json_step CommaTok (AfterItem xs fs) = Inr (WantValue (InList xs # fs))"
| "json_step CloseList (AfterItem xs fs) = Inr (put_value (VList xs) fs)"
| "json_step CloseDict (FirstKey fs) = Inr (put_value (VDict []) fs)"
| "json_step (StringTok k) (FirstKey fs) = Inr (WantColon [] k fs)"
| "json_step (StringTok k) (NextKey d fs) = Inr (WantColon d k fs)"
| "json_step ColonTok (WantColon d k fs) = Inr (WantValue (InDict d k # fs))"
| "json_step CommaTok (AfterPair d fs) = Inr (NextKey d fs)"
| "json_step CloseDict (AfterPair d fs) = Inr (put_value (VDict d) fs)"
| "json_step tok (AfterItem xs fs) = Inl (ValueError ''Expecting delimiter'')"
| "json_step tok (AfterPair d fs) = Inl (ValueError ''Expecting delimiter'')"
| "json_step tok (WantColon d k fs) = Inl (ValueError ''Expecting delimiter'')"
| "json_step tok (Finished v) = Inl (ValueError ''Extra data'')"
| "json_step tok _ = Inl (ValueError ''Expecting property name enclosed in double quotes'')"

fun json_run :: "json_token list \<Rightarrow> json_state \<Rightarrow> json_state result" where
  "json_run [] st = Inr st"
| "json_run (tok # toks) st = bind_result (json_step tok st) (json_run toks)"

fun finished_value :: "json_state \<Rightarrow> pyval result" where
  "finished_value (Finished v) = Inr v"
| "finished_value _ = Inl (ValueError ''Expecting value'')"

text \<open>\<open>json.loads(txt)\<close> and \<open>json.load\<close>.\<close>

definition json_loads :: "json_lib \<Rightarrow> string \<Rightarrow> pyval result" where
  "json_loads lib s =
     bind_result (scan_tokens lib s) (\<lambda>toks. bind_result (json_run toks (WantValue [])) finished_value)"

end
