(* ===== verification/Json_Roundtrip.thy ===== *)
theory Json_Roundtrip
  imports Py_Json
begin

text \<open>
  What was written with \<open>json.dump\<close> is read back by \<open>json.load\<close>. The text is followed in two steps: the scanner
  cuts the written text into the tokens of the value (\<open>tokens_of\<close>), whatever the indentation, and the parser
  builds the value from its tokens. \<open>loaded\<close> is the value that comes back: keys are replaced by their texts and
  tuples by lists.
\<close>

named_theorems json_simps

section \<open>Strings\<close>

lemma hex_of_hex_char: "d < 16 \<Longrightarrow> hex_of_char (hex_char d) = Some d"
proof -
  have "list_all (\<lambda>d. hex_of_char (hex_char d) = Some d) [0..<16]"
    by (simp add: upt_rec hex_of_char_def hex_char_def digit_char_def)
  then show "d < 16 \<Longrightarrow> hex_of_char (hex_char d) = Some d"
    by (simp add: list_all_iff)
qed

lemma char_eqI: "(of_char c :: nat) = of_char d \<Longrightarrow> c = d"
  by simp

lemma scan_escaped:
  "scan_string (escape_char c @ rest) = bind_result (scan_string rest) (\<lambda>(s, r). Inr (c # s, r))"
proof -
  let ?n = "of_char c :: nat"
  have n: "?n < 256" by simp
  have "?n div 16 < 16" "?n mod 16 < 16"
    using n by (simp_all add: less_mult_imp_div_less)
  then have hex: "hex_of_char (hex_char (?n div 16)) = Some (?n div 16)" "hex_of_char (hex_char (?n mod 16)) = Some (?n mod 16)"
    by (simp_all only: hex_of_hex_char)
  have zero: "hex_of_char CHR ''0'' = Some 0"
    by (simp add: hex_of_char_def)
  have codes: "?n = 34 \<longleftrightarrow> c = DQ" "?n = 92 \<longleftrightarrow> c = BSL" "?n = 10 \<longleftrightarrow> c = NL" "?n = 13 \<longleftrightarrow> c = CHR 0x0D"
    "?n = 9 \<longleftrightarrow> c = CHR 0x09" "?n = 12 \<longleftrightarrow> c = CHR 0x0C" "?n = 8 \<longleftrightarrow> c = CHR 0x08"
    by (auto intro: char_eqI)
  show ?thesis
  proof (cases "c \<in> {DQ, BSL, NL, CHR 0x0D, CHR 0x09, CHR 0x0C, CHR 0x08}")
    case True
    then show ?thesis by (auto simp: escape_char_def short_escapes_def)
  next
    case False
    show ?thesis
    proof (cases "32 \<le> ?n \<and> ?n \<le> 126")
      case True
      with False show ?thesis by (simp add: escape_char_def codes)
    next
      case outside: False
      with False have "escape_char c = [BSL, CHR ''u'', CHR ''0'', CHR ''0'', hex_char (?n div 16), hex_char (?n mod 16)]"
        by (auto simp: escape_char_def Let_def codes)
      then show ?thesis by (simp add: hex zero)
    qed
  qed
qed

lemma scan_quoted: "scan_string (concat (map escape_char s) @ DQ # rest) = Inr (s, rest)"
  by (induction s) (simp_all add: scan_escaped)

section \<open>Numbers\<close>

text \<open>A text after which a number ends.\<close>

definition number_char :: "char \<Rightarrow> bool" where
  "number_char c \<longleftrightarrow> is_digit c \<or> c \<in> {CHR ''.'', CHR ''e'', CHR ''E'', CHR ''+'', CHR ''-''}"

definition stops :: "string \<Rightarrow> bool" where
  "stops rest \<longleftrightarrow> (case rest of [] \<Rightarrow> True | c # cs \<Rightarrow> \<not> number_char c)"

lemma stops_simps [simp]: "stops []" "stops (c # cs) \<longleftrightarrow> \<not> number_char c"
  by (simp_all add: stops_def)

lemma split_digits_append: "split_digits s = (a, b) \<Longrightarrow> stops rest \<Longrightarrow> split_digits (s @ rest) = (a, b @ rest)"
proof (induction s arbitrary: a b)
  case Nil
  then show ?case by (cases rest) (auto simp: split_digits_def number_char_def)
qed (auto simp: split_digits_def split: if_splits)

lemma split_minus_append: "split_minus s = (a, b) \<Longrightarrow> stops rest \<Longrightarrow> split_minus (s @ rest) = (a, b @ rest)"
  by (cases rest) (auto simp: split_minus_def number_char_def split: list.splits if_splits)

lemma split_int_append: "split_int s = Some (a, b) \<Longrightarrow> stops rest \<Longrightarrow> split_int (s @ rest) = Some (a, b @ rest)"
  using split_digits_append [of s a b rest] by (auto simp: split_int_def split: list.splits if_splits)

lemma split_frac_append:
  assumes "split_frac s = (a, b)" "stops rest"
  shows "split_frac (s @ rest) = (a, b @ rest)"
proof (cases s)
  case Nil
  with assms show ?thesis by (cases rest) (auto simp: split_frac_def number_char_def)
next
  case (Cons c cs)
  obtain ds r where "split_digits cs = (ds, r)" by (cases "split_digits cs")
  with split_digits_append [OF this assms(2)] Cons assms(1) show ?thesis
    by (auto simp: split_frac_def split: if_splits)
qed

lemma split_exp_sign_append:
  "split_exp_sign s = (a, b) \<Longrightarrow> stops rest \<Longrightarrow> split_exp_sign (s @ rest) = (a, b @ rest)"
  by (cases rest) (auto simp: split_exp_sign_def number_char_def split: list.splits if_splits)

lemma split_exp_append:
  assumes "split_exp s = (a, b)" "stops rest"
  shows "split_exp (s @ rest) = (a, b @ rest)"
proof (cases s)
  case Nil
  with assms show ?thesis by (cases rest) (auto simp: split_exp_def number_char_def)
next
  case (Cons c cs)
  obtain sg r where sg: "split_exp_sign cs = (sg, r)" by (cases "split_exp_sign cs")
  obtain ds r' where ds: "split_digits r = (ds, r')" by (cases "split_digits r")
  from split_exp_sign_append [OF sg assms(2)] split_digits_append [OF ds assms(2)] sg ds Cons assms(1) show ?thesis
    by (auto simp: split_exp_def split: if_splits)
qed

lemma split_number_append:
  assumes "split_number s = Some (t, fl, r)" "stops rest"
  shows "split_number (s @ rest) = Some (t, fl, r @ rest)"
proof -
  obtain neg r0 where minus: "split_minus s = (neg, r0)" by (cases "split_minus s")
  with assms(1) obtain ip r1 where int: "split_int r0 = Some (ip, r1)"
    by (auto simp: split_number_def split: option.splits)
  obtain fp r2 where frac: "split_frac r1 = (fp, r2)" by (cases "split_frac r1")
  obtain ex r3 where exp: "split_exp r2 = (ex, r3)" by (cases "split_exp r2")
  from assms(1) minus int frac exp show ?thesis
    by (simp add: split_number_def split_minus_append [OF minus assms(2)] split_int_append [OF int assms(2)]
        split_frac_append [OF frac assms(2)] split_exp_append [OF exp assms(2)])
qed

text \<open>Integers.\<close>

lemma digit_char_zero_iff: "n < 10 \<Longrightarrow> digit_char n = CHR ''0'' \<longleftrightarrow> n = 0"
proof -
  have "digit_val CHR ''0'' = 0" "CHR ''0'' = digit_char 0"
    by (simp_all add: digit_val_def digit_char_def char_eqI)
  then show "n < 10 \<Longrightarrow> digit_char n = CHR ''0'' \<longleftrightarrow> n = 0"
    by (metis digit_val_digit_char)
qed

lemma hd_nat_str: "n \<noteq> 0 \<Longrightarrow> hd (nat_str n) \<noteq> CHR ''0''"
proof (induction n rule: nat_str.induct)
  case (1 n)
  show ?case
  proof (cases "n < 10")
    case True
    with 1(2) digit_char_zero_iff [of n] show ?thesis
      by (subst nat_str.simps) simp
  next
    case False
    with 1 show ?thesis
      by (subst nat_str.simps) simp
  qed
qed

lemma split_digits_nat_str: "split_digits (nat_str n) = (nat_str n, [])"
  by (auto simp: split_digits_def takeWhile_eq_all_conv dropWhile_eq_Nil_conv nat_str_digits)

lemma split_int_nat_str: "split_int (nat_str n) = Some (nat_str n, [])"
proof (cases "n = 0")
  case True
  then show ?thesis
    using digit_char_zero_iff [of 0] by (subst (1 2) nat_str.simps) (simp add: split_int_def)
next
  case False
  obtain c cs where "nat_str n = c # cs" by (cases "nat_str n") auto
  with hd_nat_str [OF False] last_nat_str_digit(2) [of n] split_digits_nat_str [of n] show ?thesis
    by (simp add: split_int_def)
qed

lemma split_minus_int_str: "split_minus (int_str i) = (if i < 0 then ''-'' else [], nat_str (nat \<bar>i\<bar>))"
proof -
  obtain c cs where "nat_str (nat i) = c # cs" by (cases "nat_str (nat i)") auto
  with last_nat_str_digit(2) [of "nat i"] show ?thesis
    by (auto simp: int_str_def split_minus_def is_digit_not_sign)
qed

lemma split_number_int_str: "split_number (int_str i) = Some (int_str i, False, [])"
  by (simp add: split_number_def split_minus_int_str split_int_nat_str split_frac_def split_exp_def)
    (simp add: int_str_def)

lemma number_value_int_str: "number_value lib (int_str i) False = VInt i"
  by (simp add: number_value_def split_minus_int_str)

section \<open>Tokens\<close>

text \<open>The tokens of a value, and the value that comes back.\<close>

fun comma_sep :: "json_token list list \<Rightarrow> json_token list" where
  "comma_sep [] = []"
| "comma_sep [ts] = ts"
| "comma_sep (ts # us) = ts @ CommaTok # comma_sep us"

definition key_name :: "json_lib \<Rightarrow> pyval \<Rightarrow> string" where
  "key_name lib k = (case key_text lib k of Inl e \<Rightarrow> [] | Inr t \<Rightarrow> t)"

fun tokens_of :: "json_lib \<Rightarrow> pyval \<Rightarrow> json_token list"
  and tokens_each :: "json_lib \<Rightarrow> pyval list \<Rightarrow> json_token list list"
  and tokens_pairs :: "json_lib \<Rightarrow> (pyval \<times> pyval) list \<Rightarrow> json_token list list" where
  "tokens_of lib (VStr s) = [StringTok s]"
| "tokens_of lib (VList xs) = OpenList # comma_sep (tokens_each lib xs) @ [CloseList]"
| "tokens_of lib (VTuple xs) = OpenList # comma_sep (tokens_each lib xs) @ [CloseList]"
| "tokens_of lib (VDict d) = OpenDict # comma_sep (tokens_pairs lib d) @ [CloseDict]"
| "tokens_of lib v = [AtomTok v]"
| "tokens_each lib [] = []"
| "tokens_each lib (x # xs) = tokens_of lib x # tokens_each lib xs"
| "tokens_pairs lib [] = []"
| "tokens_pairs lib ((k, x) # d) = (StringTok (key_name lib k) # ColonTok # tokens_of lib x) # tokens_pairs lib d"

fun loaded :: "json_lib \<Rightarrow> pyval \<Rightarrow> pyval"
  and loaded_each :: "json_lib \<Rightarrow> pyval list \<Rightarrow> pyval list"
  and loaded_pairs :: "json_lib \<Rightarrow> (pyval \<times> pyval) list \<Rightarrow> (pyval \<times> pyval) list" where
  "loaded lib (VList xs) = VList (loaded_each lib xs)"
| "loaded lib (VTuple xs) = VList (loaded_each lib xs)"
| "loaded lib (VDict d) = VDict (dict_of (loaded_pairs lib d))"
| "loaded lib v = v"
| "loaded_each lib [] = []"
| "loaded_each lib (x # xs) = loaded lib x # loaded_each lib xs"
| "loaded_pairs lib [] = []"
| "loaded_pairs lib ((k, x) # d) = (VStr (key_name lib k), loaded lib x) # loaded_pairs lib d"

text \<open>The floats in a value, and the documented law of \<open>repr\<close>: a float text that is read as the same float.\<close>

fun floats_of :: "pyval \<Rightarrow> rat list"
  and floats_each :: "pyval list \<Rightarrow> rat list"
  and floats_pairs :: "(pyval \<times> pyval) list \<Rightarrow> rat list" where
  "floats_of (VFloat q) = [q]"
| "floats_of (VList xs) = floats_each xs"
| "floats_of (VTuple xs) = floats_each xs"
| "floats_of (VDict d) = floats_pairs d"
| "floats_of v = []"
| "floats_each [] = []"
| "floats_each (x # xs) = floats_of x @ floats_each xs"
| "floats_pairs [] = []"
| "floats_pairs ((k, x) # d) = floats_of x @ floats_pairs d"

definition repr_law :: "json_lib \<Rightarrow> rat set \<Rightarrow> bool" where
  "repr_law lib F \<longleftrightarrow> (\<forall>q \<in> F. split_number (float_repr lib q) = Some (float_repr lib q, True, [])
     \<and> float_of lib (float_repr lib q) = q)"

section \<open>The scanner finds the tokens\<close>

definition scans :: "json_lib \<Rightarrow> string \<Rightarrow> json_token list \<Rightarrow> bool" where
  "scans lib t toks \<longleftrightarrow> (\<forall>rest. stops rest \<longrightarrow>
     scan_tokens lib (t @ rest) = bind_result (scan_tokens lib rest) (\<lambda>ts. Inr (toks @ ts)))"

lemma scans_apply: "scans lib t toks \<Longrightarrow> stops rest \<Longrightarrow>
    scan_tokens lib (t @ rest) = bind_result (scan_tokens lib rest) (\<lambda>ts. Inr (toks @ ts))"
  by (simp add: scans_def)

lemma scan_tokens_space: "\<forall>c \<in> set w. json_space c \<Longrightarrow> scan_tokens lib (w @ s) = scan_tokens lib s"
  by (subst (1 2) scan_tokens.simps) (simp add: dropWhile_append)

lemma scan_tokens_one:
  assumes "scan_token lib s = Inr (tok, rest)" "s = c # cs" "\<not> json_space c"
  shows "scan_tokens lib s = bind_result (scan_tokens lib rest) (\<lambda>ts. Inr (tok # ts))"
  using assms by (subst scan_tokens.simps) simp

lemma scan_punctuation:
  assumes "map_of punctuation c = Some tok"
  shows "scan_tokens lib (c # rest) = bind_result (scan_tokens lib rest) (\<lambda>ts. Inr (tok # ts))"
proof (rule scan_tokens_one)
  show "\<not> json_space c"
    using assms by (auto simp: punctuation_def json_space_def split: if_splits)
qed (use assms in \<open>simp_all add: scan_token_def\<close>)

lemmas scan_marks [json_simps] =
  scan_punctuation [of "CHR ''{''", simplified punctuation_def, simplified]
  scan_punctuation [of "CHR ''}''", simplified punctuation_def, simplified]
  scan_punctuation [of "CHR ''[''", simplified punctuation_def, simplified]
  scan_punctuation [of "CHR '']''", simplified punctuation_def, simplified]
  scan_punctuation [of "CHR '',''", simplified punctuation_def, simplified]
  scan_punctuation [of "CHR '':''", simplified punctuation_def, simplified]

lemma scan_quoted_token:
  "scan_tokens lib (quoted s @ rest) = bind_result (scan_tokens lib rest) (\<lambda>ts. Inr (StringTok s # ts))"
proof (rule scan_tokens_one)
  show "scan_token lib (quoted s @ rest) = Inr (StringTok s, rest)"
    by (simp add: scan_token_def quoted_def punctuation_def scan_quoted)
  show "quoted s @ rest = DQ # (concat (map escape_char s) @ DQ # rest)"
    by (simp add: quoted_def)
  show "\<not> json_space DQ"
    by (simp add: json_space_def)
qed

lemma scans_number:
  assumes "split_number t = Some (t, fl, [])"
  shows "scans lib t [AtomTok (number_value lib t fl)]"
  unfolding scans_def
proof (intro allI impI)
  fix rest
  assume "stops rest"
  with assms have split: "split_number (t @ rest) = Some (t, fl, rest)"
    using split_number_append by fastforce
  obtain c cs where t: "t = c # cs"
    using assms split_number_shorter [OF assms] by (cases t) auto
  from assms t have "c = CHR ''-'' \<or> is_digit c"
    by (auto simp: split_number_def split_minus_def split_int_def is_digit_def split: list.splits if_splits option.splits)
  then have "c = CHR ''-'' \<or> 48 \<le> (of_char c :: nat) \<and> (of_char c :: nat) \<le> 57"
    by (simp add: is_digit_def)
  then have "map_of punctuation c = None" "c \<noteq> DQ" "\<not> json_space c"
    by (auto simp: punctuation_def json_space_def)
  with split t show "scan_tokens lib (t @ rest) =
      bind_result (scan_tokens lib rest) (\<lambda>ts. Inr ([AtomTok (number_value lib t fl)] @ ts))"
    by (subst scan_tokens_one [of lib _ "AtomTok (number_value lib t fl)" rest]) (simp_all add: scan_token_def)
qed

lemma scans_literal:
  assumes "(t, v) \<in> set literals"
  shows "scans lib t [AtomTok v]"
  unfolding scans_def
proof (intro allI impI)
  fix rest
  have "scan_token lib (t @ rest) = Inr (AtomTok v, rest)" "\<exists>c cs. t @ rest = c # cs \<and> \<not> json_space c"
    using assms by (auto simp: literals_def scan_token_def punctuation_def split_number_def split_minus_def split_int_def
        is_digit_def scan_literal_def starts_with_def json_space_def)
  then show "scan_tokens lib (t @ rest) = bind_result (scan_tokens lib rest) (\<lambda>ts. Inr ([AtomTok v] @ ts))"
    using scan_tokens_one by fastforce
qed

lemma bind_assoc: "bind_result (bind_result act f) h = bind_result act (\<lambda>x. bind_result (f x) h)"
  by (cases act) auto

lemma scan_fresh_line: "scan_tokens lib (fresh_line ind depth @ s) = scan_tokens lib s"
  by (rule scan_tokens_space) (auto simp: fresh_line_def json_space_def split: option.splits)

lemma scan_separator:
  "scan_tokens lib (separator ind depth @ s) = bind_result (scan_tokens lib s) (\<lambda>ts. Inr (CommaTok # ts))"
proof (cases ind)
  case None
  then show ?thesis
    using scan_tokens_space [of "'' ''" lib s] by (simp add: separator_def json_simps json_space_def)
qed (simp add: separator_def json_simps scan_fresh_line)

lemma stops_marks: "stops (separator ind depth @ s)" "\<not> number_char c \<Longrightarrow> stops (fresh_line ind depth @ c # s)"
  by (auto simp: separator_def fresh_line_def number_char_def is_digit_def split: option.splits)

lemma scan_joined:
  assumes "list_all2 (scans lib) ts tks" "ts \<noteq> []" "stops tail"
  shows "scan_tokens lib (join (separator ind depth) ts @ tail) =
    bind_result (scan_tokens lib tail) (\<lambda>us. Inr (comma_sep tks @ us))"
  using assms(1,2)
proof (induction rule: list_all2_induct)
  case (Cons t ts tk tks)
  show ?case
  proof (cases ts)
    case Nil
    with Cons scans_apply [OF Cons(1) assms(3)] show ?thesis by simp
  next
    case ts: (Cons t' ts')
    with Cons(2) obtain tk' tks' where tks: "tks = tk' # tks'"
      by (auto simp: list_all2_Cons1)
    have "scan_tokens lib (join (separator ind depth) (t # ts) @ tail)
        = bind_result (scan_tokens lib (separator ind depth @ join (separator ind depth) ts @ tail)) (\<lambda>us. Inr (tk @ us))"
      using scans_apply [OF Cons(1) stops_marks(1)] ts by simp
    with Cons(3) ts tks show ?thesis
      by (simp add: scan_separator bind_assoc)
  qed
qed simp

lemma scans_enclosed:
  assumes "list_all2 (scans lib) ts tks" "map_of punctuation a = Some A" "map_of punctuation b = Some B" "\<not> number_char b"
  shows "scans lib (enclosed ind depth a b ts) (A # comma_sep tks @ [B])"
proof (cases ts)
  case Nil
  with assms show ?thesis
    by (simp add: scans_def scan_punctuation bind_assoc)
next
  case (Cons t ts')
  then have nonempty: "ts \<noteq> []" by simp
  show ?thesis
    unfolding scans_def
  proof (intro allI impI)
    fix rest
    have "scan_tokens lib (enclosed ind depth a b ts @ rest) = bind_result (scan_tokens lib
        (join (separator ind (Suc depth)) ts @ fresh_line ind depth @ b # rest)) (\<lambda>us. Inr (A # us))"
      using Cons by (simp add: scan_punctuation [OF assms(2)] scan_fresh_line)
    also have "\<dots> = bind_result (scan_tokens lib rest) (\<lambda>us. Inr ((A # comma_sep tks @ [B]) @ us))"
      by (simp add: scan_joined [OF assms(1) nonempty stops_marks(2) [OF assms(4)]] scan_fresh_line
          scan_punctuation [OF assms(3)] bind_assoc)
    finally show "scan_tokens lib (enclosed ind depth a b ts @ rest) =
        bind_result (scan_tokens lib rest) (\<lambda>us. Inr ((A # comma_sep tks @ [B]) @ us))" .
  qed
qed

lemma closing_marks: "map_of punctuation CHR ''['' = Some OpenList" "map_of punctuation CHR '']'' = Some CloseList"
  "map_of punctuation CHR ''{'' = Some OpenDict" "map_of punctuation CHR ''}'' = Some CloseDict"
  "\<not> number_char CHR '']''" "\<not> number_char CHR ''}''"
  by (simp_all add: punctuation_def number_char_def is_digit_def)

lemma scans_pair:
  assumes "scans lib t tk"
  shows "scans lib (quoted kt @ '': '' @ t) (StringTok kt # ColonTok # tk)"
  unfolding scans_def
proof (intro allI impI)
  fix rest
  assume "stops rest"
  then show "scan_tokens lib ((quoted kt @ '': '' @ t) @ rest) =
      bind_result (scan_tokens lib rest) (\<lambda>us. Inr ((StringTok kt # ColonTok # tk) @ us))"
    using scan_tokens_space [of "'' ''" lib "t @ rest"]
    by (simp add: scan_quoted_token json_simps json_space_def scans_apply [OF assms] bind_assoc)
qed

text \<open>What is written has the tokens of the value, whatever the indentation.\<close>

lemma text_scans:
  "repr_law lib F \<Longrightarrow> json_text lib opts depth v = Inr t \<Longrightarrow> set (floats_of v) \<subseteq> F \<Longrightarrow> scans lib t (tokens_of lib v)"
  "repr_law lib F \<Longrightarrow> json_texts lib opts depth xs = Inr ts \<Longrightarrow> set (floats_each xs) \<subseteq> F \<Longrightarrow> list_all2 (scans lib) ts (tokens_each lib xs)"
  "repr_law lib F \<Longrightarrow> json_pairs lib opts depth d = Inr ts \<Longrightarrow> set (floats_pairs d) \<subseteq> F \<Longrightarrow> list_all2 (scans lib) ts (tokens_pairs lib d)"
proof (induction lib opts depth v and lib opts depth xs and lib opts depth d arbitrary: t and ts and ts
    rule: json_text_json_texts_json_pairs.induct)
  case (1 lib opts depth)
  then show ?case using scans_literal [of "''null''" VNone] by (simp add: literals_def)
next
  case (2 lib opts depth b)
  then show ?case
    using scans_literal [of "''true''" "VBool True"] scans_literal [of "''false''" "VBool False"]
    by (cases b) (simp_all add: literals_def)
next
  case (3 lib opts depth i)
  then show ?case
    using scans_number [OF split_number_int_str, of lib i, unfolded number_value_int_str] by simp
next
  case (4 lib opts depth q)
  then have "split_number t = Some (t, True, [])" "float_of lib t = q"
    by (auto simp: repr_law_def)
  with scans_number [of t True lib] show ?case by (simp add: number_value_def)
next
  case (5 lib opts depth s)
  then show ?case by (auto simp: scans_def scan_quoted_token)
next
  case (13 lib opts depth k x d)
  from 13(4) obtain kt t1 ts1 where parts: "key_text lib k = Inr kt" "json_text lib opts depth x = Inr t1"
      "json_pairs lib opts depth d = Inr ts1" "ts = (quoted kt @ '': '' @ t1) # ts1"
    by (auto simp: result_simps)
  have "scans lib t1 (tokens_of lib x)" "list_all2 (scans lib) ts1 (tokens_pairs lib d)"
    using 13 parts by simp_all
  then show ?case
    using scans_pair [of lib t1 "tokens_of lib x" kt] parts by (simp add: key_name_def)
qed (auto simp: result_simps intro!: scans_enclosed closing_marks)

section \<open>The parser builds the value\<close>

text \<open>A list may start with any value: its first token does not close a list.\<close>

lemma first_item:
  assumes "json_run (tokens_of lib v @ us) (WantValue (InList [] # fs)) = res"
  shows "json_run (tokens_of lib v @ us) (FirstItem fs) = res"
  using assms by (cases v) auto

lemma parse_tokens:
  "json_run (tokens_of lib v @ us) (WantValue fs) = json_run us (put_value (loaded lib v) fs)"
  "xs \<noteq> [] \<Longrightarrow> json_run (comma_sep (tokens_each lib xs) @ CloseList # us) (WantValue (InList ys # fs))
     = json_run us (put_value (VList (ys @ loaded_each lib xs)) fs)"
  "d \<noteq> [] \<Longrightarrow> json_run (comma_sep (tokens_pairs lib d) @ CloseDict # us) (NextKey e fs)
     = json_run us (put_value (VDict (fold (\<lambda>(k, x). dict_set k x) (loaded_pairs lib d) e)) fs)"
proof (induction lib v and lib xs and lib d arbitrary: us fs and us fs ys and us fs e rule: tokens_of_tokens_each_tokens_pairs.induct)
  case (2 lib xs)
  show ?case
  proof (cases xs)
    case (Cons x xs')
    have "json_run (comma_sep (tokens_each lib xs) @ CloseList # us) (FirstItem fs)
        = json_run (comma_sep (tokens_each lib xs) @ CloseList # us) (WantValue (InList [] # fs))"
      using Cons first_item [of lib x] by (cases "tokens_each lib xs'") auto
    with 2 [of us "[]" fs] Cons show ?thesis by simp
  qed simp
next
  case (3 lib xs)
  show ?case
  proof (cases xs)
    case (Cons x xs')
    have "json_run (comma_sep (tokens_each lib xs) @ CloseList # us) (FirstItem fs)
        = json_run (comma_sep (tokens_each lib xs) @ CloseList # us) (WantValue (InList [] # fs))"
      using Cons first_item [of lib x] by (cases "tokens_each lib xs'") auto
    with 3 [of us "[]" fs] Cons show ?thesis by simp
  qed simp
next
  case (4 lib d)
  show ?case
  proof (cases d)
    case (Cons p d')
    obtain k x where p: "p = (k, x)" by fastforce
    have "json_run (comma_sep (tokens_pairs lib d) @ CloseDict # us) (FirstKey fs)
        = json_run (comma_sep (tokens_pairs lib d) @ CloseDict # us) (NextKey [] fs)"
      using Cons p by (cases "tokens_pairs lib d'") auto
    with 4 [of us "[]" fs] Cons show ?thesis by (simp add: dict_of_def)
  qed (simp add: dict_of_def)
next
  case (7 lib x xs)
  then show ?case by (cases xs; cases "tokens_each lib xs") auto
next
  case (9 lib k x d)
  then show ?case by (cases d; cases "tokens_pairs lib d") auto
qed simp_all

section \<open>The round trip\<close>

lemma floats_each_concat: "floats_each xs = concat (map floats_of xs)"
  by (induction xs) auto

lemma floats_pairs_concat: "floats_pairs d = concat (map (floats_of \<circ> snd) d)"
  by (induction d) auto

lemma sort_items_set: "sort_items d = Inr e \<Longrightarrow> set e = set d"
  by (auto simp: sort_items_def split: if_splits)

lemma sort_value_floats:
  "sort_value v = Inr w \<Longrightarrow> set (floats_of w) = set (floats_of v)"
  "sort_values xs = Inr ys \<Longrightarrow> set (floats_each ys) = set (floats_each xs)"
  "sort_pairs d = Inr e \<Longrightarrow> set (floats_pairs e) = set (floats_pairs d)"
proof (induction v and xs and d arbitrary: w and ys and e rule: sort_value_sort_values_sort_pairs.induct)
  case (3 d)
  from 3(2) obtain e e' where e: "sort_pairs d = Inr e" "sort_items e = Inr e'" "w = VDict e'"
    by (auto simp: result_simps)
  then have "set (floats_pairs e') = set (floats_pairs e)"
    using sort_items_set [OF e(2)] by (auto simp: floats_pairs_concat)
  with 3(1) [OF e(1)] e(3) show ?case by simp
qed (auto simp: result_simps)

lemma json_dumps_loads:
  assumes "repr_law lib F" "json_dumps lib opts v = Inr t" "set (floats_of v) \<subseteq> F"
  shows "\<exists>w. (if do_sort opts then sort_value v else Inr v) = Inr w \<and> json_loads lib t = Inr (loaded lib w)"
proof -
  from assms(2) obtain w where w: "(if do_sort opts then sort_value v else Inr v) = Inr w" "json_text lib opts 0 w = Inr t"
    by (auto simp: json_dumps_def result_simps)
  then have "set (floats_of w) \<subseteq> F"
    using assms(3) sort_value_floats(1) [of v w] by (auto split: if_splits)
  from text_scans(1) [OF assms(1) w(2) this] have "scan_tokens lib (t @ []) = bind_result (scan_tokens lib []) (\<lambda>us. Inr (tokens_of lib w @ us))"
    by (rule scans_apply) simp
  then have "scan_tokens lib t = Inr (tokens_of lib w)"
    by (simp add: scan_tokens.simps)
  then have "json_loads lib t = Inr (loaded lib w)"
    using parse_tokens(1) [of lib w "[]" "[]"] by (simp add: json_loads_def)
  with w(1) show ?thesis by blast
qed

section \<open>Values as JSON has them\<close>

text \<open>Dictionaries whose keys are distinct strings, no tuples and no bytes.\<close>

fun plain_json :: "pyval \<Rightarrow> bool"
  and plain_json_each :: "pyval list \<Rightarrow> bool"
  and plain_json_pairs :: "(pyval \<times> pyval) list \<Rightarrow> bool" where
  "plain_json (VBytes bs) = False"
| "plain_json (VTuple xs) = False"
| "plain_json (VList xs) = plain_json_each xs"
| "plain_json (VDict d) = (distinct (map fst d) \<and> plain_json_pairs d)"
| "plain_json v = True"
| "plain_json_each [] = True"
| "plain_json_each (x # xs) = (plain_json x \<and> plain_json_each xs)"
| "plain_json_pairs [] = True"
| "plain_json_pairs ((k, x) # d) = (string_key k \<and> plain_json x \<and> plain_json_pairs d)"

text \<open>The same value with the keys of every dictionary in order.\<close>

fun in_order :: "pyval \<Rightarrow> pyval"
  and in_order_each :: "pyval list \<Rightarrow> pyval list"
  and in_order_pairs :: "(pyval \<times> pyval) list \<Rightarrow> (pyval \<times> pyval) list" where
  "in_order (VList xs) = VList (in_order_each xs)"
| "in_order (VDict d) = VDict (sort_key (\<lambda>(k, v). key_string k) (in_order_pairs d))"
| "in_order v = v"
| "in_order_each [] = []"
| "in_order_each (x # xs) = in_order x # in_order_each xs"
| "in_order_pairs [] = []"
| "in_order_pairs ((k, x) # d) = (k, in_order x) # in_order_pairs d"

lemma in_order_pairs_map: "in_order_pairs d = map (\<lambda>(k, x). (k, in_order x)) d"
  by (induction d) auto

lemma plain_pairs_all: "plain_json_pairs d \<longleftrightarrow> (\<forall>(k, x) \<in> set d. string_key k \<and> plain_json x)"
  by (induction d) auto

lemma string_key_text: "string_key k \<Longrightarrow> key_text lib k = Inr (key_string k) \<and> VStr (key_string k) = k"
  by (cases k) auto

lemma plain_loaded:
  "plain_json v \<Longrightarrow> loaded lib v = v" "plain_json_each xs \<Longrightarrow> loaded_each lib xs = xs" "plain_json_pairs d \<Longrightarrow> loaded_pairs lib d = d"
proof (induction v and xs and d rule: plain_json_plain_json_each_plain_json_pairs.induct)
  case (9 k x d)
  then show ?case using string_key_text [of k lib] by (simp add: key_name_def)
qed (simp_all add: dict_of_distinct)

lemma plain_text:
  "plain_json v \<Longrightarrow> \<exists>t. json_text lib opts depth v = Inr t" "plain_json_each xs \<Longrightarrow> \<exists>ts. json_texts lib opts depth xs = Inr ts"
  "plain_json_pairs d \<Longrightarrow> \<exists>ts. json_pairs lib opts depth d = Inr ts"
proof (induction v and xs and d arbitrary: depth and depth and depth rule: plain_json_plain_json_each_plain_json_pairs.induct)
  case (3 xs depth)
  then obtain ts where "json_texts lib opts (Suc depth) xs = Inr ts"
    using plain_json.simps(3) by blast
  then show ?case by simp
next
  case (4 d depth)
  then obtain ts where "json_pairs lib opts (Suc depth) d = Inr ts"
    using plain_json.simps(4) by blast
  then show ?case by simp
next
  case (7 x xs depth)
  then obtain t ts where "json_text lib opts depth x = Inr t" "json_texts lib opts depth xs = Inr ts"
    using plain_json_each.simps(2) by blast
  then show ?case by simp
next
  case (9 k x d depth)
  then obtain t ts where "json_text lib opts depth x = Inr t" "json_pairs lib opts depth d = Inr ts"
    using plain_json_pairs.simps(2) by blast
  with 9 string_key_text [of k lib] show ?case by simp
qed auto

lemma plain_in_order:
  "plain_json v \<Longrightarrow> plain_json (in_order v)" "plain_json_each xs \<Longrightarrow> plain_json_each (in_order_each xs)"
  "plain_json_pairs d \<Longrightarrow> plain_json_pairs (in_order_pairs d) \<and> map fst (in_order_pairs d) = map fst d"
proof (induction v and xs and d rule: plain_json_plain_json_each_plain_json_pairs.induct)
  case (4 d)
  then have "distinct (map fst (in_order_pairs d))" by simp
  then have "distinct (map fst (sort_key (\<lambda>(k, v). key_string k) (in_order_pairs d)))"
    by (simp add: distinct_map)
  with 4 show ?case by (simp add: plain_pairs_all)
qed auto

lemma sort_short: "length xs \<le> 1 \<Longrightarrow> sort_key f xs = xs"
  by (cases xs; cases "tl xs") auto

lemma plain_sorted:
  "plain_json v \<Longrightarrow> sort_value v = Inr (in_order v)" "plain_json_each xs \<Longrightarrow> sort_values xs = Inr (in_order_each xs)"
  "plain_json_pairs d \<Longrightarrow> sort_pairs d = Inr (in_order_pairs d)"
proof (induction v and xs and d rule: plain_json_plain_json_each_plain_json_pairs.induct)
  case (4 d)
  then have "plain_json_pairs (in_order_pairs d)"
    using plain_in_order(3) by simp
  then have "sort_items (in_order_pairs d) = Inr (sort_key (\<lambda>(k, v). key_string k) (in_order_pairs d))"
    by (auto simp: sort_items_def sort_short plain_pairs_all list_all_iff)
  with 4 show ?case by simp
qed auto

text \<open>Plain values are written, and read back in order.\<close>

lemma plain_roundtrip:
  assumes "repr_law lib F" "plain_json v" "set (floats_of v) \<subseteq> F"
  shows "\<exists>t. json_dumps lib opts v = Inr t \<and> json_loads lib t = Inr (if do_sort opts then in_order v else v)"
proof -
  define w where "w = (if do_sort opts then in_order v else v)"
  have w: "(if do_sort opts then sort_value v else Inr v) = Inr w" "plain_json w"
    using assms(2) plain_sorted(1) plain_in_order(1) by (auto simp: w_def)
  obtain t where t: "json_dumps lib opts v = Inr t"
    using plain_text(1) [OF w(2), of lib opts 0] w(1) by (auto simp: json_dumps_def)
  with json_dumps_loads [OF assms(1) t assms(3)] w have "json_loads lib t = Inr w"
    by (simp add: plain_loaded)
  with t show ?thesis by (auto simp: w_def)
qed

end
