(* ===== verification/Output_Files.thy ===== *)
theory Output_Files
  imports Analysis_Outputs Json_Roundtrip
begin

text \<open>
  \<open>write_json\<close>, \<open>load_json\<close> and \<open>merge_outputs\<close> of \<open>paper_iot/V10/analysis/scripts/common.py\<close> over the texts of the
  files. The output directory is a dictionary from names to texts; making the directory and printing the name are
  left out. The theorem says that what one script writes is what the next one looks up: merging the written files
  gives, at every path, the value that was written, with the keys of its dictionaries in order.
\<close>

type_synonym output_dir = "(string, string) dict"

definition write_opts :: dump_opts where
  "write_opts = \<lparr>do_indent = Some 2, do_sort = True, do_default = True\<rparr>"

definition write_json :: "json_lib \<Rightarrow> string \<Rightarrow> pyval \<Rightarrow> output_dir \<Rightarrow> output_dir result" where
  "write_json lib name obj dir = bind_result (json_dumps lib write_opts obj) (\<lambda>t. Inr (dict_set name t dir))"

definition load_json :: "json_lib \<Rightarrow> string \<Rightarrow> output_dir \<Rightarrow> pyval result" where
  "load_json lib name dir = (case dict_get dir name of None \<Rightarrow> Inl FileNotFoundError | Some t \<Rightarrow> json_loads lib t)"

definition json_names :: "output_dir \<Rightarrow> string list" where
  "json_names dir = sort (filter (ends_with json_suffix) (dict_keys dir))"

definition merge_files :: "json_lib \<Rightarrow> output_dir \<Rightarrow> pydict result" where
  "merge_files lib dir =
     bind_result (map_result (\<lambda>name. bind_result (load_json lib name dir) (\<lambda>v. Inr (name, v))) (json_names dir)) (\<lambda>loaded_files.
       Inr (fold (\<lambda>(name, content) merged. dict_set (VStr (stem name)) content merged) loaded_files []))"

text \<open>The scripts write their reports one after the other.\<close>

fun write_all :: "json_lib \<Rightarrow> (string \<times> pyval) list \<Rightarrow> output_dir \<Rightarrow> output_dir result" where
  "write_all lib [] dir = Inr dir"
| "write_all lib ((name, obj) # files) dir = bind_result (write_json lib name obj dir) (write_all lib files)"

section \<open>Looking up in a value with its keys in order\<close>

lemma dict_get_in_order:
  assumes "distinct (map fst d)"
  shows "dict_get (sort_key (\<lambda>(k, v). key_string k) (in_order_pairs d)) k = map_option in_order (dict_get d k)"
proof -
  have keys: "map fst (in_order_pairs d) = map fst d"
    by (simp add: in_order_pairs_map comp_def case_prod_beta)
  then have "distinct (map fst (in_order_pairs d))"
    using assms by simp
  moreover from this have "distinct (map fst (sort_key (\<lambda>(k, v). key_string k) (in_order_pairs d)))"
    unfolding distinct_map by simp
  ultimately have "dict_get (sort_key (\<lambda>(k, v). key_string k) (in_order_pairs d)) = dict_get (in_order_pairs d)"
    by (simp add: map_of_inject_set)
  then show ?thesis
    by (simp add: in_order_pairs_map map_of_map)
qed

lemma in_order_None [simp]: "in_order v = VNone \<longleftrightarrow> v = VNone"
  by (cases v) auto

lemma plain_value: "plain_json (VDict d) \<Longrightarrow> dict_get d k = Some x \<Longrightarrow> plain_json x"
  by (auto simp: plain_pairs_all dest!: map_of_SomeD)

lemma dig_in_order: "plain_json v \<Longrightarrow> dig (in_order v) path = in_order (dig v path)"
proof (induction v path rule: dig.induct)
  case (2 v p path)
  show ?case
  proof (cases v)
    case (VDict d)
    with 2(2) have "distinct (map fst d)" by simp
    then have look: "get_default (sort_key (\<lambda>(k, v). key_string k) (in_order_pairs d)) p VNone = in_order (get_default d p VNone)"
      by (simp add: get_default_def dict_get_in_order split: option.split)
    have "plain_json (get_default d p VNone)"
      using plain_value [of d "VStr p"] 2(2) VDict by (auto simp: get_default_def split: option.split)
    with 2(1) VDict look show ?thesis by simp
  qed simp_all
qed simp

section \<open>Writing and merging\<close>

definition text_of :: "json_lib \<Rightarrow> pyval \<Rightarrow> string" where
  "text_of lib v = (case json_dumps lib write_opts v of Inl e \<Rightarrow> [] | Inr t \<Rightarrow> t)"

definition writable :: "rat set \<Rightarrow> pyval \<Rightarrow> bool" where
  "writable F v \<longleftrightarrow> plain_json v \<and> set (floats_of v) \<subseteq> F"

lemma writable_text:
  assumes "repr_law lib F" "writable F v"
  shows "json_dumps lib write_opts v = Inr (text_of lib v)" "json_loads lib (text_of lib v) = Inr (in_order v)"
proof -
  obtain t where "json_dumps lib write_opts v = Inr t" "json_loads lib t = Inr (in_order v)"
    using plain_roundtrip [OF assms(1), of v write_opts] assms(2) by (auto simp: writable_def write_opts_def)
  then show "json_dumps lib write_opts v = Inr (text_of lib v)" "json_loads lib (text_of lib v) = Inr (in_order v)"
    by (simp_all add: text_of_def)
qed

lemma dict_set_snoc: "k \<notin> set (dict_keys d) \<Longrightarrow> dict_set k v d = d @ [(k, v)]"
  by (induction d) auto

lemma write_all_texts:
  assumes "repr_law lib F" "\<forall>(name, v) \<in> set files. writable F v" "distinct (map fst (dir @ map (\<lambda>(name, v). (name, text_of lib v)) files))"
  shows "write_all lib files dir = Inr (dir @ map (\<lambda>(name, v). (name, text_of lib v)) files)"
  using assms(2,3)
proof (induction files arbitrary: dir)
  case (Cons f files)
  obtain name v where f: "f = (name, v)" by fastforce
  with Cons(2,3) have "dict_set name (text_of lib v) dir = dir @ [(name, text_of lib v)]" "writable F v"
    by (auto intro: dict_set_snoc)
  with Cons f show ?case
    by (simp add: write_json_def writable_text [OF assms(1)])
qed simp

lemma update_map_values: "dict_set k (h v) (map (\<lambda>(k, x). (k, h x)) d) = map (\<lambda>(k, x). (k, h x)) (dict_set k v d)"
  by (induction d) auto

lemma fold_map_values:
  "fold (\<lambda>(name, content) merged. dict_set (VStr (stem name)) content merged) (map (\<lambda>(name, v). (name, h v)) files) (map (\<lambda>(k, x). (k, h x)) d)
    = map (\<lambda>(k, x). (k, h x)) (fold (\<lambda>(name, content) merged. dict_set (VStr (stem name)) content merged) files d)"
  by (induction files arbitrary: d) (auto simp: update_map_values)

lemma merged_values:
  "(k, x) \<in> set (fold (\<lambda>(name, content) merged. dict_set (VStr (stem name)) content merged) files d) \<Longrightarrow>
     x \<in> snd ` set files \<or> x \<in> snd ` set d"
proof (induction files arbitrary: d)
  case Nil
  then show ?case by (auto simp: image_iff intro!: bexI [of _ "(k, x)"])
next
  case (Cons f files)
  obtain name v where f: "f = (name, v)" by fastforce
  have "snd ` set (dict_set (VStr (stem name)) v d) \<subseteq> insert v (snd ` set d)"
    by (induction d) auto
  moreover have "x \<in> snd ` set files \<or> x \<in> snd ` set (dict_set (VStr (stem name)) v d)"
    using Cons(1) [of "dict_set (VStr (stem name)) v d"] Cons(2) f by simp
  ultimately show ?case using f by auto
qed

lemma merge_written:
  assumes "repr_law lib F" "\<forall>(name, v) \<in> set files. writable F v" "distinct (map fst files)"
  shows "merge_files lib (map (\<lambda>(name, v). (name, text_of lib v)) files) = Inr (map (\<lambda>(k, x). (k, in_order x)) (merge_outputs files))"
proof -
  let ?dir = "map (\<lambda>(name, v). (name, text_of lib v)) files" and ?sorted = "sort_key fst (filter (\<lambda>(name, v). ends_with json_suffix name) files)"
  have names: "json_names ?dir = map fst ?sorted"
    using sort_key_map [of "\<lambda>x. x" fst "filter (\<lambda>(name, v). ends_with json_suffix name) files"]
    by (simp add: json_names_def filter_map comp_def case_prod_beta')
  have load: "load_json lib name ?dir = Inr (in_order v)" if "(name, v) \<in> set files" for name v
  proof -
    have "dict_get ?dir name = Some (text_of lib v)"
      using assms(3) that by (intro map_of_is_SomeI) (auto simp: comp_def case_prod_beta image_iff intro!: bexI [of _ "(name, v)"])
    then show ?thesis
      using assms(2) that by (auto simp: load_json_def writable_text [OF assms(1)])
  qed
  have "map_result (\<lambda>name. bind_result (load_json lib name ?dir) (\<lambda>v. Inr (name, v))) (map fst xs) = Inr (map (\<lambda>(name, v). (name, in_order v)) xs)"
    if "set xs \<subseteq> set files" for xs
    using that by (induction xs) (auto simp: load)
  from this [of ?sorted] show ?thesis
    using fold_map_values [of in_order ?sorted "[]"] by (simp add: merge_files_def names merge_outputs_def)
qed

text \<open>
  C36. What the scripts write is what the later ones look up. Reports whose dictionaries have distinct string keys, with
  floats that \<open>repr\<close> can print, are written; merging the written files succeeds and gives at every path the value
  that the merged reports have there, with the keys of its dictionaries in order.
\<close>

theorem written_files_merge:
  assumes "repr_law lib F" "\<forall>(name, v) \<in> set files. writable F v" "distinct (map fst files)"
  shows "\<exists>dir merged. write_all lib files [] = Inr dir \<and> merge_files lib dir = Inr merged
    \<and> (\<forall>p path. dig (VDict merged) (p # path) = in_order (dig (VDict (merge_outputs files)) (p # path)))"
proof -
  let ?dir = "map (\<lambda>(name, v). (name, text_of lib v)) files" and ?merged = "map (\<lambda>(k, x). (k, in_order x)) (merge_outputs files)"
  have "write_all lib files [] = Inr ?dir"
    using write_all_texts [OF assms(1,2), of "[]"] assms(3) by (simp add: comp_def case_prod_beta)
  moreover have "dig (VDict ?merged) (p # path) = in_order (dig (VDict (merge_outputs files)) (p # path))" for p path
  proof (cases "dict_get (merge_outputs files) (VStr p)")
    case (Some x)
    then have "x \<in> snd ` set files"
      using merged_values [of "VStr p" x _ "[]"] map_of_SomeD by (fastforce simp: merge_outputs_def)
    then have "plain_json x"
      using assms(2) by (auto simp: writable_def)
    with Some show ?thesis
      by (simp add: get_default_def map_of_map dig_in_order)
  qed (simp add: get_default_def map_of_map)
  ultimately show ?thesis
    using merge_written [OF assms] by blast
qed

section \<open>A concrete directory\<close>

text \<open>Floats with one decimal.\<close>

definition demo_json :: json_lib where
  "demo_json = \<lparr>float_repr = fixed_str 1, float_of = (\<lambda>t. case py_float_str t of Inl e \<Rightarrow> 0 | Inr q \<Rightarrow> q)\<rparr>"

definition demo_floats :: "rat list" where
  "demo_floats = [1 / 2, 497 / 10, - 3]"

lemma demo_repr: "repr_law demo_json (set demo_floats)"
proof -
  have "list_all (\<lambda>q. split_number (float_repr demo_json q) = Some (float_repr demo_json q, True, [])) demo_floats"
    by code_simp
  moreover have "float_of demo_json (float_repr demo_json q) = q" if "q \<in> set demo_floats" for q
  proof -
    have "\<exists>i. q = of_int i / 10 ^ 1"
      using that by (auto simp: demo_floats_def intro: exI [of _ 5] exI [of _ 497] exI [of _ "- 30"])
    then obtain i where i: "q = of_int i / 10 ^ 1" ..
    have "py_float_str (fixed_str 1 q) = Inr q"
      unfolding py_float_fixed_str i by (simp only: round_abs_exact)
    then show ?thesis
      by (simp add: demo_json_def)
  qed
  ultimately show ?thesis
    by (simp add: repr_law_def list_all_iff)
qed

definition demo_report :: pyval where
  "demo_report = VDict [(VStr ''share'', VFloat (497 / 10)), (VStr ''counts'', VDict [(VStr ''n'', VInt 3), (VStr ''empty'', VList [])])]"

text \<open>The text as \<open>json.dump\<close> lays it out.\<close>

lemma demo_report_text:
  "json_dumps demo_json write_opts demo_report = Inr (join [NL]
     [''{'', ''  '' @ quoted ''counts'' @ '': {'', ''    '' @ quoted ''empty'' @ '': [],'', ''    '' @ quoted ''n'' @ '': 3'', ''  },'',
      ''  '' @ quoted ''share'' @ '': 49.7'', ''}''])"
  by code_simp

lemma written_files_merge_witness:
  "\<exists>dir merged. write_all demo_json [(''02_field.json'', demo_report), (''notes.txt'', VNone)] [] = Inr dir
     \<and> merge_files demo_json dir = Inr merged
     \<and> dig (VDict merged) [''02_field'', ''share''] = VFloat (497 / 10) \<and> dig (VDict merged) [''notes''] = VNone"
proof -
  let ?files = "[(''02_field.json'', demo_report), (''notes.txt'', VNone)]"
  have writable: "\<forall>(name, v) \<in> set ?files. writable (set demo_floats) v"
    by (simp add: writable_def demo_report_def demo_floats_def)
  obtain dir merged where facts: "write_all demo_json ?files [] = Inr dir" "merge_files demo_json dir = Inr merged"
    and look: "\<forall>p path. dig (VDict merged) (p # path) = in_order (dig (VDict (merge_outputs ?files)) (p # path))"
    using written_files_merge [OF demo_repr writable] by auto
  have "dig (VDict (merge_outputs ?files)) [''02_field'', ''share''] = VFloat (497 / 10)"
    "dig (VDict (merge_outputs ?files)) [''notes''] = VNone"
    by code_simp+
  then have "dig (VDict merged) [''02_field'', ''share''] = VFloat (497 / 10)" "dig (VDict merged) [''notes''] = VNone"
    by (simp_all only: look in_order.simps)
  with facts show ?thesis
    by (intro exI conjI)
qed

end
