(* ===== verification/Json_Endpoints.thy ===== *)
theory Json_Endpoints
  imports Flask_Fallback Paper_Benchmarks Live_Report Json_Roundtrip
begin

text \<open>
  The JSON texts at the edges of the programs: the text of a response (\<open>get_data\<close> of \<open>gateway/flask.py\<close>) and the
  benchmark summary file as \<open>gateway/paper_benchmarks.py\<close> and \<open>data/comp.py\<close> load it. A summary that is no
  dictionary is \<open>Unmodelled\<close>: the annotations of both loaders exclude it. The theorem says that a client reads
  back from the text of a response what the handler returned.
\<close>

section \<open>Loading the summary file\<close>

definition load_dict :: "json_lib \<Rightarrow> string option \<Rightarrow> pydict result" where
  "load_dict lib file =
     (case file of
        None \<Rightarrow> Inl FileNotFoundError
      | Some txt \<Rightarrow> bind_result (json_loads lib txt) (\<lambda>v. case v of VDict d \<Rightarrow> Inr d | _ \<Rightarrow> Inl Unmodelled))"

definition load_benchmarks :: "json_lib \<Rightarrow> string option \<Rightarrow> pydict result" where
  "load_benchmarks lib file = load_dict lib file"

definition load_paper_summary :: "json_lib \<Rightarrow> string option \<Rightarrow> pydict result" where
  "load_paper_summary lib file = load_dict lib file"

text \<open>The functions of \<open>paper_benchmarks.py\<close> as they are called: each loads the file.\<close>

definition metric_of_file :: "json_lib \<Rightarrow> string option \<Rightarrow> string \<Rightarrow> pyval result" where
  "metric_of_file lib file metric_name = bind_result (load_benchmarks lib file) (\<lambda>benchmarks. get_metric benchmarks metric_name)"

definition validate_file :: "json_lib \<Rightarrow> string option \<Rightarrow> bool result" where
  "validate_file lib file = bind_result (load_benchmarks lib file) validate_paper_benchmarks"

text \<open>The command \<open>data/comp.py\<close> from the texts of all files it reads.\<close>

definition comp_main :: "json_lib \<Rightarrow> bool \<Rightarrow> string option \<Rightarrow> live_files \<Rightarrow> int \<times> string option" where
  "comp_main lib strict summary files = live_main strict (load_paper_summary lib summary) files"

section \<open>The text of a response\<close>

definition get_data :: "json_lib \<Rightarrow> bool \<Rightarrow> response \<Rightarrow> pyval result" where
  "get_data lib as_text r =
     bind_result (if body r = VNone then Inr [] else json_dumps lib plain_opts (body r)) (\<lambda>data.
       Inr (if as_text then VStr data else VBytes (utf8 data)))"

text \<open>
  A client reads back what the handler returned: for a body that is not \<open>None\<close> and has dictionaries with distinct
  string keys, lists and scalars, the text is JSON for exactly this body, and the bytes are its encoding.
\<close>

theorem response_text_roundtrip:
  assumes "repr_law lib F" "plain_json (body r)" "set (floats_of (body r)) \<subseteq> F" "body r \<noteq> VNone"
  shows "\<exists>t. get_data lib True r = Inr (VStr t) \<and> get_data lib False r = Inr (VBytes (utf8 t))
    \<and> json_loads lib t = Inr (body r)"
proof -
  obtain t where "json_dumps lib plain_opts (body r) = Inr t" "json_loads lib t = Inr (body r)"
    using plain_roundtrip [OF assms(1-3), of plain_opts] by (auto simp: plain_opts_def)
  with assms(4) show ?thesis
    by (simp add: get_data_def)
qed

lemma response_text_roundtrip_witness:
  "\<exists>t. get_data \<lparr>float_repr = (\<lambda>q. []), float_of = (\<lambda>t. 0)\<rparr> True (jsonify (VDict [(VStr ''error'', VStr ''not found''), (VStr ''n'', VList [VInt 3, VNone])]) [])
       = Inr (VStr t)
     \<and> json_loads \<lparr>float_repr = (\<lambda>q. []), float_of = (\<lambda>t. 0)\<rparr> t = Inr (VDict [(VStr ''error'', VStr ''not found''), (VStr ''n'', VList [VInt 3, VNone])])"
  using response_text_roundtrip [of "\<lparr>float_repr = (\<lambda>q. []), float_of = (\<lambda>t. 0)\<rparr>" "{}"
      "jsonify (VDict [(VStr ''error'', VStr ''not found''), (VStr ''n'', VList [VInt 3, VNone])]) []"]
  by (auto simp: repr_law_def jsonify_def)

text \<open>A response without a body has an empty text, which is not JSON.\<close>

lemma empty_body_unreadable:
  "body r = VNone \<Longrightarrow> get_data lib True r = Inr (VStr []) \<and> json_loads lib [] = Inl (ValueError ''Expecting value'')"
  by (simp add: get_data_def json_loads_def scan_tokens.simps)

text \<open>
  A summary written with distinct string keys is loaded unchanged up to the order of the keys, so validating the file
  is validating what was written.
\<close>

lemma load_dict_written:
  assumes "repr_law lib F" "plain_json (VDict d)" "set (floats_of (VDict d)) \<subseteq> F" "json_dumps lib opts (VDict d) = Inr t" "\<not> do_sort opts"
  shows "load_dict lib (Some t) = Inr d"
  using plain_roundtrip [OF assms(1-3), of opts] assms(4,5) by (auto simp: load_dict_def)

lemma validate_written:
  assumes "repr_law lib F" "plain_json (VDict d)" "set (floats_of (VDict d)) \<subseteq> F" "json_dumps lib opts (VDict d) = Inr t" "\<not> do_sort opts"
  shows "validate_file lib (Some t) = validate_paper_benchmarks d"
  using load_dict_written [OF assms] by (simp add: validate_file_def load_benchmarks_def)

end
