(* ===== verification/Csv_Profile.thy ===== *)
theory Csv_Profile
  imports Data_Quality Inventory
begin

text \<open>
  \<open>profile_csv\<close> of \<open>01_extract_and_inventory.py\<close> over the table that pandas reads from a file (\<open>None\<close> when reading
  fails; the text of that error is an argument), and what the inventory takes from it. \<open>pd.to_datetime\<close> and the
  text of a time are parameters. The theorem compares the profile with the checks of \<open>09_data_quality.py\<close>.
\<close>

definition TS_COLUMNS :: "string list" where
  "TS_COLUMNS = [''timestamp'', ''start_timestamp'', ''stage_timestamp'', ''start_time'']"

definition first_ts_column :: "frame \<Rightarrow> string option" where
  "first_ts_column df = List.find (\<lambda>c. c \<in> set (frame_columns df)) TS_COLUMNS"

text \<open>\<open>ts.min()\<close> and \<open>ts.max()\<close> skip what could not be parsed; of nothing they are \<open>NaT\<close>, here \<open>None\<close>.\<close>

definition earliest :: "int option list \<Rightarrow> int option" where
  "earliest ts = (let known = List.map_filter id ts in if known = [] then None else Some (Min (set known)))"

definition latest :: "int option list \<Rightarrow> int option" where
  "latest ts = (let known = List.map_filter id ts in if known = [] then None else Some (Max (set known)))"

definition ts_fields :: "dq_lib \<Rightarrow> (int option \<Rightarrow> string) \<Rightarrow> frame \<Rightarrow> payload" where
  "ts_fields lib str_time df =
     (case first_ts_column df of
        None \<Rightarrow> []
      | Some c \<Rightarrow>
          let ts = map (to_datetime lib) (column df c)
          in [(''date_min'', VStr (str_time (earliest ts))), (''date_max'', VStr (str_time (latest ts))),
              (''unparseable_timestamps'', VInt (int (count_where (\<lambda>t. t = None) ts) - int (missing_count (column df c))))])"

definition missing_of :: "frame \<Rightarrow> (string \<times> nat) list" where
  "missing_of df = map (\<lambda>c. (c, missing_count (column df c))) (frame_columns df)"

definition profile_csv :: "dq_lib \<Rightarrow> (int option \<Rightarrow> string) \<Rightarrow> string + frame \<Rightarrow> payload" where
  "profile_csv lib str_time file =
     (case file of
        Inl message \<Rightarrow> [(''error'', VStr message)]
      | Inr df \<Rightarrow>
          [(''row_count'', count_val (length (frame_rows df))),
           (''column_count'', count_val (length (frame_columns df))),
           (''columns'', VList (map VStr (frame_columns df))),
           (''duplicate_rows'', count_val (duplicated_count (complete_rows df))),
           (''missing_values_total'', count_val (sum_list (map snd (missing_of df)))),
           (''missing_by_column'', counts_val id (filter (\<lambda>(c, n). 0 < n) (missing_of df)))] @
          ts_fields lib str_time df)"

text \<open>\<open>prof.get(...)\<close> for the fields of an inventory row.\<close>

definition get_count :: "payload \<Rightarrow> string \<Rightarrow> nat option" where
  "get_count d k = (case payload_get d k of VInt n \<Rightarrow> Some (nat n) | _ \<Rightarrow> None)"

definition get_text :: "payload \<Rightarrow> string \<Rightarrow> string" where
  "get_text d k = (case payload_get d k of VStr s \<Rightarrow> s | _ \<Rightarrow> [])"

definition get_texts :: "payload \<Rightarrow> string \<Rightarrow> string list" where
  "get_texts d k = (case payload_get d k of VList vs \<Rightarrow> map (\<lambda>v. case v of VStr s \<Rightarrow> s | _ \<Rightarrow> []) vs | _ \<Rightarrow> [])"

definition profile_fields :: "payload \<Rightarrow> profile" where
  "profile_fields d = \<lparr>pr_row_count = get_count d ''row_count'', pr_column_count = get_count d ''column_count'',
     pr_columns = get_texts d ''columns'', pr_duplicate_rows = get_count d ''duplicate_rows'',
     pr_missing_values = get_count d ''missing_values_total'', pr_date_min = get_text d ''date_min'', pr_date_max = get_text d ''date_max''\<rparr>"

section \<open>The profile of a table\<close>

lemma dict_get_dict_of: "dict_get (dict_of pairs) k = map_of (rev pairs) k"
proof (induction pairs rule: rev_induct)
  case (snoc p pairs)
  then show ?case by (cases p) (simp add: dict_of_def dict_get_set)
qed (simp add: dict_of_def)

lemma check_df_field:
  assumes "dict_get [(''dataset'', VStr name), (''n_rows'', count_val (length (frame_rows df))),
      (''duplicate_complete_rows'', count_val (duplicated_count (complete_rows df)))] k = Some v"
    and "k \<notin> fst ` set (concat (map (id_checks df) ids))" "k \<notin> fst ` set (concat (map (ts_checks lib df window) tss))"
  shows "payload_get (check_df lib name df ids tss window) k = v"
proof -
  let ?base = "[(''dataset'', VStr name), (''n_rows'', count_val (length (frame_rows df))),
      (''duplicate_complete_rows'', count_val (duplicated_count (complete_rows df)))]"
  have "dict_get (rev (concat (map (id_checks df) ids))) k = None" "dict_get (rev (concat (map (ts_checks lib df window) tss))) k = None"
    unfolding map_of_eq_None_iff set_rev by (rule assms)+
  moreover have "dict_get (rev ?base) k = Some v"
    using assms(1) by (auto split: if_splits)
  ultimately have "dict_get (check_df lib name df ids tss window) k = Some v"
    by (simp only: check_df_def dict_get_dict_of rev_append map_of_append map_add_def option.case)
  then show ?thesis
    by (simp add: payload_get_def)
qed

lemma id_check_keys: "(k, v) \<in> set (id_checks df c) \<Longrightarrow> k = ''duplicate_'' @ c \<or> k = ''missing_'' @ c"
  by (auto simp: id_checks_def split: if_splits)

lemma ts_check_keys:
  "(k, v) \<in> set (ts_checks lib df window c) \<Longrightarrow> k = ''unparseable_'' @ c \<or> last k = CHR ''w'' \<or> last k = CHR ''n''"
  by (auto simp: ts_checks_def Let_def split: if_splits option.splits)

text \<open>
  The inventory and the quality report agree on every table that both read: the profile counts the rows, the columns
  and the duplicate rows as the checks do, whatever id and time columns these look at; the missing values by column
  add up to the total, and the total is zero exactly when no cell of the table is missing.
\<close>

theorem profile_agrees_with_checks:
  assumes "''complete_rows'' \<notin> set ids"
  shows "let p = profile_fields (profile_csv lib str_time (Inr df)); report = check_df lib name df ids tss window in
    map_option count_val (pr_row_count p) = Some (payload_get report ''n_rows'')
    \<and> map_option count_val (pr_duplicate_rows p) = Some (payload_get report ''duplicate_complete_rows'')
    \<and> pr_column_count p = Some (length (pr_columns p)) \<and> pr_columns p = frame_columns df
    \<and> pr_missing_values p = Some (sum_list (map snd (filter (\<lambda>(c, n). 0 < n) (missing_of df))))
    \<and> (pr_missing_values p = Some 0 \<longleftrightarrow> (\<forall>row \<in> set (complete_rows df). Missing \<notin> set row))"
proof -
  have n_rows: "payload_get (check_df lib name df ids tss window) ''n_rows'' = count_val (length (frame_rows df))"
    by (rule check_df_field) (auto dest!: id_check_keys ts_check_keys)
  have dups: "payload_get (check_df lib name df ids tss window) ''duplicate_complete_rows'' = count_val (duplicated_count (complete_rows df))"
    by (rule check_df_field) (use assms in \<open>auto dest!: id_check_keys ts_check_keys\<close>)
  have "sum_list (map snd (filter (\<lambda>(c, n). 0 < n) ms)) = sum_list (map snd ms)" for ms :: "(string \<times> nat) list"
    by (induction ms) auto
  note positive = this [of "missing_of df"]
  have "sum_list (map snd (missing_of df)) = 0 \<longleftrightarrow> (\<forall>c \<in> set (frame_columns df). \<forall>row \<in> set (frame_rows df). cell_at c row \<noteq> Missing)"
    by (auto simp: missing_of_def missing_count_def column_def count_where_def filter_empty_conv)
  also have "\<dots> \<longleftrightarrow> (\<forall>row \<in> set (complete_rows df). Missing \<notin> set row)"
    by (simp add: complete_rows_def image_iff) metis
  finally have zero: "sum_list (map snd (missing_of df)) = 0 \<longleftrightarrow> (\<forall>row \<in> set (complete_rows df). Missing \<notin> set row)" .
  let ?p = "profile_fields (profile_csv lib str_time (Inr df))"
  have "pr_row_count ?p = Some (length (frame_rows df))" "pr_duplicate_rows ?p = Some (duplicated_count (complete_rows df))"
    "pr_column_count ?p = Some (length (frame_columns df))" "pr_columns ?p = frame_columns df"
    "pr_missing_values ?p = Some (sum_list (map snd (missing_of df)))"
    by (simp_all add: profile_fields_def profile_csv_def get_count_def get_texts_def payload_get_def comp_def)
  then show ?thesis
    using positive zero by (simp add: Let_def n_rows dups)
qed

lemma profile_agrees_with_checks_witness:
  "let df = \<lparr>frame_columns = [''tx_id'', ''n''], frame_rows = [[(''tx_id'', Text ''a''), (''n'', Num 1)], [(''tx_id'', Text ''a''), (''n'', Num 1)],
         [(''tx_id'', Text ''b'')]]\<rparr>;
       lib = \<lparr>to_datetime = (\<lambda>x. None), str_cell = (\<lambda>x. [])\<rparr>;
       p = profile_fields (profile_csv lib (\<lambda>t. []) (Inr df))
   in pr_row_count p = Some 3 \<and> pr_duplicate_rows p = Some 1 \<and> pr_missing_values p = Some 1
    \<and> payload_get (check_df lib ''t'' df [''tx_id''] [] None) ''duplicate_complete_rows'' = VInt 1"
proof -
  let ?df = "\<lparr>frame_columns = [''tx_id'', ''n''], frame_rows = [[(''tx_id'', Text ''a''), (''n'', Num 1)], [(''tx_id'', Text ''a''), (''n'', Num 1)],
      [(''tx_id'', Text ''b'')]]\<rparr>"
  let ?lib = "\<lparr>to_datetime = (\<lambda>x. None), str_cell = (\<lambda>x. [])\<rparr>"
  have counts: "pr_row_count (profile_fields (profile_csv ?lib (\<lambda>t. []) (Inr ?df))) = Some 3"
    "pr_duplicate_rows (profile_fields (profile_csv ?lib (\<lambda>t. []) (Inr ?df))) = Some 1"
    "pr_missing_values (profile_fields (profile_csv ?lib (\<lambda>t. []) (Inr ?df))) = Some 1"
    by code_simp+
  have "''complete_rows'' \<notin> set [''tx_id'']"
    by simp
  from profile_agrees_with_checks [OF this, of ?lib "\<lambda>t. []" ?df "''t''" "[]" None]
  have "map_option count_val (pr_duplicate_rows (profile_fields (profile_csv ?lib (\<lambda>t. []) (Inr ?df))))
      = Some (payload_get (check_df ?lib ''t'' ?df [''tx_id''] [] None) ''duplicate_complete_rows'')"
    unfolding Let_def by (elim conjE)
  then have "payload_get (check_df ?lib ''t'' ?df [''tx_id''] [] None) ''duplicate_complete_rows'' = count_val 1"
    unfolding counts by simp
  with counts show ?thesis
    unfolding Let_def by (intro conjI) simp_all
qed

end
