(* ===== verification/Extraction_Run.thy ===== *)
theory Extraction_Run
  imports Safe_Extract Csv_Profile "HOL-Library.Multiset"
begin

text \<open>
  \<open>main\<close> of \<open>01_extract_and_inventory.py\<close>: the archive is extracted, then everything below the destination is
  listed in the inventory. The file system of \<open>Safe_Extract\<close> is the one that \<open>rglob\<close> searches. What pandas reads from a CSV file and the
  decoder from a text, the hash, and the order in which the operating system lists directories
  are arguments. The theorem joins the two halves of the script: every member of the archive is on disk, and the
  number of rows that the later scripts quote is the sum over exactly the CSV files below the destination.
\<close>

section \<open>Listing the destination\<close>

record run_lib =
  rl_sha :: "bytes \<Rightarrow> string"
  rl_read :: "bytes \<Rightarrow> string + frame"
  rl_dq :: dq_lib
  rl_str_time :: "int option \<Rightarrow> string"
  rl_text :: "bytes \<Rightarrow> string result"
  rl_listing :: "path list \<Rightarrow> path list"

record archive =
  ar_bytes :: bytes
  ar_members :: "member list"

definition below :: "path \<Rightarrow> path \<Rightarrow> bool" where
  "below raw p \<longleftrightarrow> take (length raw) p = raw \<and> length raw < length p"

text \<open>\<open>p.parent\<close> taken \<open>n\<close> times.\<close>

definition parents :: "nat \<Rightarrow> path \<Rightarrow> path" where
  "parents n p = take (length p - n) p"

text \<open>\<open>sorted(raw.rglob("*" + suffix))\<close>: files and directories, compared component by component.\<close>

definition all_paths_of :: "file_system \<Rightarrow> path list" where
  "all_paths_of fs = remdups (dict_keys (fs_files fs) @ fs_dirs fs)"

definition rglob :: "string \<Rightarrow> path \<Rightarrow> file_system \<Rightarrow> path list" where
  "rglob suffix raw fs = sort (filter (\<lambda>p. below raw p \<and> ends_with suffix (last p)) (all_paths_of fs))"

definition children :: "path \<Rightarrow> file_system \<Rightarrow> path list" where
  "children d fs = filter (\<lambda>p. p \<noteq> [] \<and> butlast p = d) (all_paths_of fs)"

definition log_dirs_of :: "path \<Rightarrow> file_system \<Rightarrow> path list" where
  "log_dirs_of raw fs =
     filter (\<lambda>d. is_dir fs d \<and> list_ex (\<lambda>p. ends_with ''.log'' (last p)) (children d fs))
       (filter (below raw) (all_paths_of fs))"

section \<open>The inventory of a directory\<close>

definition file_profile :: "run_lib \<Rightarrow> bytes \<Rightarrow> profile" where
  "file_profile lib bs = profile_fields (profile_csv (rl_dq lib) (rl_str_time lib) (rl_read lib bs))"

text \<open>The rows of a table that can be read.\<close>

definition rows_read :: "run_lib \<Rightarrow> bytes \<Rightarrow> nat option" where
  "rows_read lib bs = (case rl_read lib bs of Inl message \<Rightarrow> None | Inr df \<Rightarrow> Some (length (frame_rows df)))"

lemma file_profile_rows: "pr_row_count (file_profile lib bs) = rows_read lib bs"
  by (simp add: file_profile_def profile_fields_def profile_csv_def get_count_def payload_get_def rows_read_def split: sum.split)

text \<open>A directory whose name ends in \<open>.csv\<close> or \<open>.jsonl\<close> cannot be hashed or opened.\<close>

definition csv_entry :: "run_lib \<Rightarrow> path \<Rightarrow> file_system \<Rightarrow> path \<Rightarrow> csv_file result" where
  "csv_entry lib raw fs p =
     bind_result (relative_to (parents 3 raw) p) (\<lambda>rel.
     bind_result (sha256_file (rl_sha lib) p fs) (\<lambda>h.
       let bs = the (dict_get (fs_files fs) p)
       in Inr \<lparr>cf_name = last p, cf_relative = rel, cf_size = length bs, cf_sha256 = h, cf_profile = file_profile lib bs\<rparr>))"

definition jsonl_entry :: "run_lib \<Rightarrow> path \<Rightarrow> file_system \<Rightarrow> path \<Rightarrow> jsonl_file result" where
  "jsonl_entry lib raw fs p =
     bind_result (relative_to (parents 3 raw) p) (\<lambda>rel.
     bind_result (sha256_file (rl_sha lib) p fs) (\<lambda>h.
       let bs = the (dict_get (fs_files fs) p)
       in bind_result (rl_text lib bs) (\<lambda>txt.
            Inr \<lparr>jf_name = last p, jf_relative = rel, jf_size = length bs, jf_sha256 = h, jf_text = txt\<rparr>)))"

definition log_entry :: "path \<Rightarrow> file_system \<Rightarrow> path \<Rightarrow> log_dir result" where
  "log_entry raw fs d =
     bind_result (relative_to (parents 3 raw) d) (\<lambda>rel.
       Inr \<lparr>ld_name = last d, ld_relative = rel, ld_entries = map (\<lambda>p. dict_get (fs_files fs) p) (children d fs)\<rparr>)"

definition inventory_of :: "run_lib \<Rightarrow> path \<Rightarrow> file_system \<Rightarrow> (csv_file list \<times> jsonl_file list \<times> log_dir list) result" where
  "inventory_of lib raw fs =
     bind_result (map_result (csv_entry lib raw fs) (rglob ''.csv'' raw fs)) (\<lambda>csv_files.
     bind_result (map_result (jsonl_entry lib raw fs) (rglob ''.jsonl'' raw fs)) (\<lambda>jsonl_files.
     bind_result (map_result (log_entry raw fs) (rl_listing lib (log_dirs_of raw fs))) (\<lambda>log_dirs.
       Inr (csv_files, jsonl_files, log_dirs))))"

section \<open>The script\<close>

definition entry_val :: "extracted \<Rightarrow> pyval" where
  "entry_val e = payload_value [(''zip_entry'', VStr (zip_entry e)), (''canonical_path'', VStr (canonical_path e)),
     (''sha256'', VStr (ex_sha256 e)), (''size_bytes'', VInt (int (size_bytes e)))]"

definition mapping_payload :: "run_lib \<Rightarrow> archive \<Rightarrow> extracted list \<Rightarrow> payload" where
  "mapping_payload lib ar mapping =
     [(''zip_sha256'', VStr (rl_sha lib (ar_bytes ar))), (''zip_size_bytes'', VInt (int (length (ar_bytes ar)))),
      (''extracted_entries'', VList (map entry_val mapping))]"

text \<open>The mapping file, the inventory with its summary, and the file system; the mapping is written before the inventory is made.\<close>

definition extract_main ::
  "run_lib \<Rightarrow> path \<Rightarrow> archive \<Rightarrow> file_system \<Rightarrow> (payload result \<times> (string \<times> payload) result) \<times> file_system" where
  "extract_main lib raw ar fs =
     (case mkdirs raw fs of
        Inl e \<Rightarrow> ((Inl e, Inl e), fs)
      | Inr fs0 \<Rightarrow>
          (case safe_extract (rl_sha lib) (parents 4 raw) raw (ar_members ar) fs0 of
             (Inl e, fs1) \<Rightarrow> ((Inl e, Inl e), fs1)
           | (Inr mapping, fs1) \<Rightarrow>
               ((Inr (mapping_payload lib ar mapping),
                 bind_result (inventory_of lib raw fs1) (\<lambda>(csv_files, jsonl_files, log_dirs).
                 bind_result (inventory_csv csv_files jsonl_files log_dirs) (\<lambda>inventory.
                   Inr (inventory, inventory_summary csv_files jsonl_files log_dirs)))), fs1)))"

section \<open>What was extracted\<close>

definition is_content :: "member \<Rightarrow> bool" where
  "is_content m \<longleftrightarrow> \<not> skipped (m_name m) \<and> \<not> is_dir_name (m_name m)"

lemma extract_member_content:
  assumes "extract_member sha base dest m fs = (Inr entry, fs')" "is_content m"
  shows "inside dest (target_of dest (m_name m))"
    "\<exists>bs old. m_content m = Inr bs \<and> dict_get (fs_files fs') (target_of dest (m_name m)) = Some old \<and> sha old = sha bs"
    "\<exists>en. entry = Some en \<and> zip_entry en = m_name m"
proof -
  let ?t = "target_of dest (m_name m)"
  from assms obtain fs0 en where facts: "inside dest ?t" "store_member sha ?t m fs0 = (Inr (), fs')"
      "mapping_entry sha base ?t (m_name m) fs' = Inr en" "entry = Some en"
    by (auto simp: extract_member_def is_content_def Let_def result_simps split: if_splits sum.splits prod.splits)
  then show "inside dest ?t" "\<exists>en. entry = Some en \<and> zip_entry en = m_name m"
    by (auto simp: mapping_entry_def result_simps)
  show "\<exists>bs old. m_content m = Inr bs \<and> dict_get (fs_files fs') ?t = Some old \<and> sha old = sha bs"
    using store_member_effect(4) [OF facts(2)] by simp
qed

lemma extract_member_other: "extract_member sha base dest m fs = (Inr entry, fs') \<Longrightarrow> \<not> is_content m \<Longrightarrow> entry = None"
  by (auto simp: extract_member_def is_content_def Let_def split: if_splits sum.splits)

lemma safe_extract_members:
  assumes "safe_extract sha base dest ms fs = (Inr listed, fs')"
  shows "map zip_entry listed = map m_name (filter is_content ms)"
    "m \<in> set ms \<Longrightarrow> is_content m \<Longrightarrow> inside dest (target_of dest (m_name m))
       \<and> (\<exists>bs old. m_content m = Inr bs \<and> dict_get (fs_files fs') (target_of dest (m_name m)) = Some old \<and> sha old = sha bs)"
  using assms
proof (induction ms arbitrary: fs listed)
  case (Cons m0 ms)
  {
    case 1
    then obtain entry fs1 rest where one: "extract_member sha base dest m0 fs = (Inr entry, fs1)"
        and more: "safe_extract sha base dest ms fs1 = (Inr rest, fs')"
        and listed: "listed = (case entry of None \<Rightarrow> rest | Some en \<Rightarrow> en # rest)"
      by (auto simp: result_simps split: prod.splits sum.splits)
    show ?case
      using Cons.IH(1) [OF more] extract_member_content(3) [OF one] extract_member_other [OF one] listed
      by (cases "is_content m0") auto
  next
    case 2
    then obtain entry fs1 rest where one: "extract_member sha base dest m0 fs = (Inr entry, fs1)"
        and more: "safe_extract sha base dest ms fs1 = (Inr rest, fs')"
      by (auto simp: result_simps split: prod.splits sum.splits)
    show ?case
    proof (cases "m \<in> set ms")
      case True
      with Cons.IH(2) [OF _ _ more] 2 show ?thesis by blast
    next
      case False
      with 2 have "m = m0" by simp
      with extract_member_content(1,2) [OF one] safe_extract_grows [OF more] 2 show ?thesis
        by (fastforce simp: grows_def)
    qed
  }
qed simp_all

section \<open>What is counted\<close>

text \<open>The CSV files below the destination with their contents.\<close>

definition csv_contents :: "path \<Rightarrow> file_system \<Rightarrow> (path \<times> bytes) list" where
  "csv_contents raw fs = filter (\<lambda>(p, bs). below raw p \<and> ends_with ''.csv'' (last p)) (fs_files fs)"

lemma csv_entry_Inr:
  "csv_entry lib raw fs p = Inr f \<Longrightarrow> \<exists>bs. dict_get (fs_files fs) p = Some bs \<and> cf_profile f = file_profile lib bs"
  by (auto simp: csv_entry_def sha256_file_def Let_def result_simps split: option.splits if_splits)

lemma csv_entries_profiles:
  assumes "map_result (csv_entry lib raw fs) ps = Inr cs"
  shows "map cf_profile cs = map (\<lambda>p. file_profile lib (the (dict_get (fs_files fs) p))) ps \<and> (\<forall>p \<in> set ps. is_file fs p)"
  using assms
proof (induction ps arbitrary: cs)
  case (Cons p ps)
  then show ?case by (auto simp: result_simps is_file_def dest!: csv_entry_Inr)
qed simp

lemma mset_csv_paths:
  assumes "wf_dict (fs_files fs)" "\<forall>p \<in> set (rglob ''.csv'' raw fs). is_file fs p"
  shows "mset (rglob ''.csv'' raw fs) = mset (map fst (csv_contents raw fs))"
proof -
  have "distinct (rglob ''.csv'' raw fs)" "distinct (map fst (csv_contents raw fs))"
    using assms(1) by (simp_all add: rglob_def all_paths_of_def csv_contents_def distinct_map_filter)
  moreover have "set (rglob ''.csv'' raw fs) = set (map fst (csv_contents raw fs))"
  proof (intro set_eqI iffI)
    fix p
    assume p: "p \<in> set (rglob ''.csv'' raw fs)"
    with assms(2) obtain bs where "dict_get (fs_files fs) p = Some bs"
      by (auto simp: is_file_def)
    with p have "(p, bs) \<in> set (csv_contents raw fs)"
      by (auto simp: csv_contents_def rglob_def dest: map_of_SomeD)
    then show "p \<in> set (map fst (csv_contents raw fs))"
      by (simp add: rev_image_eqI)
  next
    fix p
    assume "p \<in> set (map fst (csv_contents raw fs))"
    then show "p \<in> set (rglob ''.csv'' raw fs)"
      by (auto simp: csv_contents_def rglob_def all_paths_of_def image_iff intro!: bexI)
  qed
  ultimately show ?thesis
    by (rule set_eq_iff_mset_eq_distinct [THEN iffD1])
qed

lemma mset_map_filter: "mset (List.map_filter f xs) = image_mset (the \<circ> f) (filter_mset (\<lambda>x. f x \<noteq> None) (mset xs))"
  by (simp add: List.map_filter_def)

lemma counted_contents:
  assumes "wf_dict (fs_files fs)" "map_result (csv_entry lib raw fs) (rglob ''.csv'' raw fs) = Inr cs"
  shows "mset (counted cs) = mset (List.map_filter (\<lambda>(p, bs). rows_read lib bs) (csv_contents raw fs))"
proof -
  let ?count = "\<lambda>p. rows_read lib (the (dict_get (fs_files fs) p))"
  note profiles = csv_entries_profiles [OF assms(2)]
  have "counted cs = List.map_filter pr_row_count (map cf_profile cs)"
    by (simp add: counted_def List.map_filter_def filter_map comp_def)
  also have "\<dots> = List.map_filter ?count (rglob ''.csv'' raw fs)"
    using profiles by (simp add: List.map_filter_def filter_map comp_def file_profile_rows)
  finally have "mset (counted cs) = mset (List.map_filter ?count (map fst (csv_contents raw fs)))"
    by (simp only: mset_map_filter mset_csv_paths [OF assms(1) conjunct2 [OF profiles]])
  moreover have "List.map_filter ?count (map fst xs) = List.map_filter (\<lambda>(p, bs). rows_read lib bs) xs"
    if "set xs \<subseteq> set (fs_files fs)" for xs
    using that assms(1) by (induction xs) (auto simp: List.map_filter_simps split: option.split)
  ultimately show ?thesis
    by (simp add: csv_contents_def)
qed

lemma target_below:
  assumes "plain raw" "inside raw (target_of raw name)" "dict_get (fs_files fs) (target_of raw name) = Some bs" "\<not> is_file fs raw"
  shows "below raw (target_of raw name)"
proof -
  obtain rest where rest: "target_of raw name = raw @ rest" "target_of raw name \<noteq> raw \<longrightarrow> rest \<noteq> []"
    using inside_prefix [OF assms(1) plain_target [OF assms(1)] assms(2)] by blast
  moreover have "target_of raw name \<noteq> raw"
    using assms(3,4) by (auto simp: is_file_def)
  ultimately show ?thesis
    by (simp add: below_def)
qed

text \<open>
  C39. The two halves of the script fit together. After a successful run from a file system in which the destination is
  no file, the mapping lists exactly the members with content, each of them is on disk below the destination with
  the hash of its content, and reading the inventory back gives the number of rows of all CSV files below the
  destination, whatever else the archive and the directory hold.
\<close>

theorem inventory_counts_archive:
  assumes "extract_main lib raw ar fs = ((mapping, Inr (inventory, summary)), fs')" "plain raw" "wf_dict (fs_files fs')" "\<not> is_file fs' raw"
  shows "\<exists>listed. mapping = Inr (mapping_payload lib ar listed) \<and> map zip_entry listed = map m_name (filter is_content (ar_members ar))
    \<and> (\<forall>m \<in> set (filter is_content (ar_members ar)). \<exists>bs stored. m_content m = Inr bs
         \<and> dict_get (fs_files fs') (target_of raw (m_name m)) = Some stored \<and> rl_sha lib stored = rl_sha lib bs
         \<and> below raw (target_of raw (m_name m)))
    \<and> (let counts = List.map_filter (\<lambda>(p, bs). rows_read lib bs) (csv_contents raw fs')
       in inventory_totals (Some inventory) = Inr (int (sum_list counts), int (length counts)))"
proof -
  from assms(1) obtain fs0 listed cs js ls where ex: "safe_extract (rl_sha lib) (parents 4 raw) raw (ar_members ar) fs0 = (Inr listed, fs')"
    and mapping: "mapping = Inr (mapping_payload lib ar listed)"
    and cs: "map_result (csv_entry lib raw fs') (rglob ''.csv'' raw fs') = Inr cs" and csv: "inventory_csv cs js ls = Inr inventory"
    by (auto simp: extract_main_def inventory_of_def result_simps split: sum.splits prod.splits)
  have stored: "\<exists>bs stored. m_content m = Inr bs \<and> dict_get (fs_files fs') (target_of raw (m_name m)) = Some stored
      \<and> rl_sha lib stored = rl_sha lib bs \<and> below raw (target_of raw (m_name m))" if "m \<in> set (filter is_content (ar_members ar))" for m
    using safe_extract_members(2) [OF ex, of m] that target_below [OF assms(2) _ _ assms(4)] by fastforce
  let ?counts = "List.map_filter (\<lambda>(p, bs). rows_read lib bs) (csv_contents raw fs')"
  have "mset (counted cs) = mset ?counts"
    by (rule counted_contents [OF assms(3) cs])
  then have "sum_list (counted cs) = sum_list ?counts" "length (counted cs) = length ?counts"
    by (metis sum_mset_sum_list) (metis size_mset \<open>mset (counted cs) = mset ?counts\<close>)
  then have "inventory_totals (Some inventory) = Inr (int (sum_list ?counts), int (length ?counts))"
    using inventory_totals_roundtrip [OF csv] by simp
  with mapping safe_extract_members(1) [OF ex] stored show ?thesis
    by (auto simp: Let_def)
qed

text \<open>An archive with a CSV file, a log file, a directory and a hidden file, extracted beside a CSV file that was there.\<close>

definition demo_raw :: path where
  "demo_raw = [''p'', ''V10'', ''analysis'', ''data'', ''raw'']"

definition demo_run_lib :: run_lib where
  "demo_run_lib = \<lparr>rl_sha = toy_hash, rl_read = (\<lambda>bs. Inr \<lparr>frame_columns = [''x''], frame_rows = map (\<lambda>b. [(''x'', Num (of_nat (unat b)))]) bs\<rparr>),
     rl_dq = \<lparr>to_datetime = (\<lambda>x. None), str_cell = (\<lambda>x. [])\<rparr>, rl_str_time = (\<lambda>t. []),
     rl_text = (\<lambda>bs. Inr []), rl_listing = (\<lambda>ds. ds)\<rparr>"

definition demo_zip :: archive where
  "demo_zip = \<lparr>ar_bytes = [80, 75], ar_members =
     [\<lparr>m_name = ''field/'', m_open = Inr (), m_content = Inr []\<rparr>, \<lparr>m_name = ''field/a.csv'', m_open = Inr (), m_content = Inr [7, 8]\<rparr>,
      \<lparr>m_name = ''logs/gw.log'', m_open = Inr (), m_content = Inr [1, 10]\<rparr>, \<lparr>m_name = ''field/.hidden'', m_open = Inr (), m_content = Inr [9]\<rparr>]\<rparr>"

definition demo_disk :: file_system where
  "demo_disk = \<lparr>fs_files = [(demo_raw @ [''old.csv''], [1, 2, 3])], fs_dirs = [[''p''], [''p'', ''V10''], [''p'', ''V10'', ''analysis''],
     [''p'', ''V10'', ''analysis'', ''data''], demo_raw]\<rparr>"

definition demo_disk_after :: file_system where
  "demo_disk_after = \<lparr>fs_files = [(demo_raw @ [''old.csv''], [1, 2, 3]), (demo_raw @ [''field'', ''a.csv''], [7, 8]),
       (demo_raw @ [''logs'', ''gw.log''], [1, 10])],
     fs_dirs = [[''p''], [''p'', ''V10''], [''p'', ''V10'', ''analysis''], [''p'', ''V10'', ''analysis'', ''data''], demo_raw,
       demo_raw @ [''field''], demo_raw @ [''logs'']]\<rparr>"

lemma demo_extraction:
  "case extract_main demo_run_lib demo_raw demo_zip demo_disk of ((mapping, result), disk) \<Rightarrow>
     \<not> isl result \<and> disk = demo_disk_after"
  by code_simp

lemma demo_extraction_run:
  obtains mapping inventory summary where
    "extract_main demo_run_lib demo_raw demo_zip demo_disk = ((mapping, Inr (inventory, summary)), demo_disk_after)"
proof -
  obtain mapping result where "extract_main demo_run_lib demo_raw demo_zip demo_disk = ((mapping, result), demo_disk_after)" "\<not> isl result"
    using demo_extraction by (auto split: prod.splits)
  with that show thesis
    by (cases result) auto
qed

lemma inventory_counts_archive_witness:
  "\<exists>mapping inventory summary. extract_main demo_run_lib demo_raw demo_zip demo_disk = ((mapping, Inr (inventory, summary)), demo_disk_after)
     \<and> inventory_totals (Some inventory) = Inr (5, 2)"
proof -
  obtain mapping inventory summary
    where run: "extract_main demo_run_lib demo_raw demo_zip demo_disk = ((mapping, Inr (inventory, summary)), demo_disk_after)"
    by (rule demo_extraction_run)
  have raw: "plain demo_raw" "wf_dict (fs_files demo_disk_after)" "\<not> is_file demo_disk_after demo_raw"
    by (simp_all add: plain_def demo_raw_def demo_disk_after_def is_file_def)
  have "List.map_filter (\<lambda>(p, bs). rows_read demo_run_lib bs) (csv_contents demo_raw demo_disk_after) = [3, 2]"
    by code_simp
  with inventory_counts_archive [OF run raw] have "inventory_totals (Some inventory) = Inr (5, 2)"
    by (auto simp: Let_def)
  with run show ?thesis
    by (intro exI conjI)
qed

end
