(* ===== verification/Full_Run.thy ===== *)
theory Full_Run
  imports Pipeline Figures Data_Quality Extraction_Run
begin

text \<open>
  \<open>paper_iot/V10/analysis/scripts/run_all.sh\<close> as a whole: the scripts 01 to 12 in the order of the loop. Script 01 works
  on the archive and the file system; what pandas reads from the extracted tables is a function of that file system
  (\<open>fl_read\<close>, called once where each script reads its own tables). The theorems carry those of \<open>Pipeline\<close> over to the
  whole run: the files of the scripts 01 and 09 are merged beside the reports, and the inventory that the claim
  and macro scripts open is the one that script 01 has written.
\<close>

section \<open>The loop\<close>

record trace_tables =
  tt_data :: pipeline_data
  tt_quality :: dq_tables

record full_lib =
  fl_extract :: run_lib
  fl_read :: "file_system \<Rightarrow> trace_tables result"
  fl_pipeline :: pipeline_lib
  fl_quality :: dq_lib
  fl_std :: "rat list \<Rightarrow> rat"
  fl_jitter1 :: jitter_source
  fl_jitter2 :: jitter_source

text \<open>The scripts 01 to 09: the files in the directory of outputs, the inventory and the tables that were read.\<close>

definition run_outputs ::
  "full_lib \<Rightarrow> path \<Rightarrow> archive \<Rightarrow> file_system \<Rightarrow> ((string \<times> pyval) list \<times> string \<times> trace_tables) result" where
  "run_outputs lib raw ar fs =
     (case extract_main (fl_extract lib) raw ar fs of ((mapping, inventoried), fs1) \<Rightarrow>
        bind_result mapping (\<lambda>mapping.
        bind_result inventoried (\<lambda>(inventory, summary).
        bind_result (fl_read lib fs1) (\<lambda>tables.
        bind_result (run_reports (fl_pipeline lib) (tt_data tables)) (\<lambda>reports.
        bind_result (quality_main (fl_quality lib) (tt_quality tables)) (\<lambda>(quality, exclusions).
          Inr ([(''01_zip_extraction_mapping.json'', payload_value mapping), (''01_inventory_summary.json'', payload_value summary)]
                 @ reports @ quality, inventory, tables)))))))"

record full_result =
  ra_outputs :: "(string \<times> pyval) list"
  ra_claims :: "payload list \<times> payload \<times> payload list"
  ra_macros :: string
  ra_figure3 :: "(string \<times> (int \<times> rat \<times> rat) list) list"
  ra_figure4 :: "(string \<times> ((rat \<times> rat \<times> int) list \<times> rat \<times> rat \<times> rat) list) list"

text \<open>Then 10, 11 and 12; \<open>set -e\<close>: the first script that fails ends the run. The values of the earlier version are read from a file beside.\<close>

definition run_all :: "full_lib \<Rightarrow> path \<Rightarrow> archive \<Rightarrow> pydict \<Rightarrow> file_system \<Rightarrow> full_result result" where
  "run_all lib raw ar v92 fs =
     bind_result (run_outputs lib raw ar fs) (\<lambda>(outputs, inventory, tables).
     bind_result (claim_main (merge_outputs outputs) v92 (Some inventory)) (\<lambda>claims.
     bind_result (build_macros (merge_outputs outputs) (Some inventory)) (\<lambda>macros.
     bind_result (figure3_throughput (fl_std lib) (map run.truncate (pd_campaign (tt_data tables)))) (\<lambda>fig3.
     bind_result (figure4_peer_latency (pp_peer (fl_pipeline lib)) (fl_jitter1 lib) (fl_jitter2 lib)
         (pd_TX (tt_data tables)) (pd_RUNS (tt_data tables))) (\<lambda>fig4.
       Inr \<lparr>ra_outputs = outputs, ra_claims = claims, ra_macros = macros, ra_figure3 = fig3, ra_figure4 = fig4\<rparr>)))))"

section \<open>The whole run\<close>

lemma run_outputs_files:
  assumes "run_outputs lib raw ar fs = Inr (outputs, inventory, tables)"
  obtains mapping summary reports quality checks cs js ls where
    "run_reports (fl_pipeline lib) (tt_data tables) = Inr reports"
    "outputs = [(''01_zip_extraction_mapping.json'', payload_value mapping), (''01_inventory_summary.json'', payload_value summary)]
       @ reports @ [(''09_data_quality_per_dataset.json'', quality), (''09_data_quality_checks.json'', checks)]"
    "inventory_csv cs js ls = Inr inventory"
  using assms by (auto simp: run_outputs_def extract_main_def quality_main_def result_simps split: prod.splits sum.splits)

text \<open>
  After the scripts 01 to 09, with the tables that \<open>every_path_resolves\<close> asks for, every path that a claim, a
  validated count or a macro is taken from leads to a number, the macro file is written from numbers and no claim is
  missing its value. Nothing is assumed of the inventory: script 01 has written it.
\<close>

theorem full_run_resolves:
  assumes "run_outputs lib raw ar fs = Inr (outputs, inventory, tables)"
    and "build_run_table (pp_peer (fl_pipeline lib)) (pd_TX (tt_data tables)) (pd_RUNS (tt_data tables)) = Inr tbl"
    and "{4, 8, 16, 32} \<subseteq> peer_count ` set tbl"
    and "{''sha256'', ''ed25519_sign'', ''ed25519_verify''} \<subseteq> ct_operation ` set (pd_timings (tt_data tables))"
  shows "\<forall>path \<in> set (claim_paths @ validation_paths @ macro_paths). number_at (VDict (merge_outputs outputs)) path"
    "\<exists>contents. build_macros (merge_outputs outputs) (Some inventory) = Inr contents"
    "list_all (\<lambda>(claim_id, sect, claim, dataset, script, get, key). v10_value (merge_outputs outputs) (Some inventory) get \<noteq> VNone) ROWS"
proof -
  obtain mapping summary reports quality checks cs js ls where
    reports: "run_reports (fl_pipeline lib) (tt_data tables) = Inr reports"
    and outputs: "outputs = [(''01_zip_extraction_mapping.json'', payload_value mapping), (''01_inventory_summary.json'', payload_value summary)]
       @ reports @ [(''09_data_quality_per_dataset.json'', quality), (''09_data_quality_checks.json'', checks)]"
    and csv: "inventory_csv cs js ls = Inr inventory"
    by (rule run_outputs_files [OF assms(1)])
  note paths = all_paths [OF reports assms(2-4) outputs]
  have names: "distinct (map fst ([(''01_zip_extraction_mapping.json'', payload_value mapping), (''01_inventory_summary.json'', payload_value summary)]
       @ [(''09_data_quality_per_dataset.json'', quality), (''09_data_quality_checks.json'', checks)]))"
    "set (map fst ([(''01_zip_extraction_mapping.json'', payload_value mapping), (''01_inventory_summary.json'', payload_value summary)]
       @ [(''09_data_quality_per_dataset.json'', quality), (''09_data_quality_checks.json'', checks)])) \<inter> set report_names = {}"
    by (simp_all add: report_names_def)
  note numbers = paths [OF names]
  from numbers show "\<forall>path \<in> set (claim_paths @ validation_paths @ macro_paths). number_at (VDict (merge_outputs outputs)) path"
    by (simp add: list_all_iff ball_Un)
  from reports_from_paths [OF numbers(1,3) inventory_totals_roundtrip [OF csv]]
  show "\<exists>contents. build_macros (merge_outputs outputs) (Some inventory) = Inr contents"
    "list_all (\<lambda>(claim_id, sect, claim, dataset, script, get, key). v10_value (merge_outputs outputs) (Some inventory) get \<noteq> VNone) ROWS"
    by blast+
qed

text \<open>What script 11 prints, in a run that reaches its end, are the texts built from these numbers.\<close>

lemma run_all_macros:
  assumes "run_all lib raw ar v92 fs = Inr res"
  obtains inventory tables where "run_outputs lib raw ar fs = Inr (ra_outputs res, inventory, tables)"
    "build_macros (merge_outputs (ra_outputs res)) (Some inventory) = Inr (ra_macros res)"
    "claim_main (merge_outputs (ra_outputs res)) v92 (Some inventory) = Inr (ra_claims res)"
  using assms by (auto simp: run_all_def result_simps)

section \<open>A concrete run\<close>

definition demo_quality :: dq_tables where
  "demo_quality =
     \<lparr>dq_AD = \<lparr>frame_columns = [''timestamp'', ''latency_ms'', ''caller_role'', ''decision''],
        frame_rows = [[(''timestamp'', Stamp 0 60), (''latency_ms'', Num 10), (''caller_role'', Text ''Farmer''), (''decision'', Text ''denied'')]]\<rparr>,
      dq_ST = \<lparr>frame_columns = [''timestamp'', ''latency_ms'', ''signature_valid'', ''crt_residues_received'', ''decision''], frame_rows = []\<rparr>,
      dq_REVDENY = \<lparr>frame_columns = [], frame_rows = []\<rparr>,
      dq_REVSTG = \<lparr>frame_columns = [''status''], frame_rows = []\<rparr>,
      dq_PR = \<lparr>frame_columns = [''start_timestamp'', ''peer_count''], frame_rows = []\<rparr>,
      dq_PT = \<lparr>frame_columns = [''latency_ms'', ''run_id'', ''serial_position''], frame_rows = []\<rparr>,
      dq_TR = \<lparr>frame_columns = [''start_timestamp'', ''tps'', ''concurrency_level''], frame_rows = []\<rparr>,
      dq_SEC = \<lparr>frame_columns = [''timestamp'', ''decision''], frame_rows = []\<rparr>,
      dq_EM = \<lparr>frame_columns = [''energy_mj''], frame_rows = [[(''energy_mj'', Num 80)]]\<rparr>,
      dq_CT = \<lparr>frame_columns = [''duration_us''], frame_rows = []\<rparr>\<rparr>"

definition demo_full_lib :: full_lib where
  "demo_full_lib =
     \<lparr>fl_extract = demo_run_lib, fl_read = (\<lambda>fs. Inr \<lparr>tt_data = demo_data, tt_quality = demo_quality\<rparr>), fl_pipeline = demo_pipeline_lib,
      fl_quality = \<lparr>to_datetime = (\<lambda>x. None), str_cell = (\<lambda>x. ''+01:00'')\<rparr>, fl_std = (\<lambda>xs. 1), fl_jitter1 = low_jitter, fl_jitter2 = low_jitter\<rparr>"

lemma demo_quality_run: "\<not> isl (quality_main (fl_quality demo_full_lib) demo_quality)"
  by code_simp

text \<open>The hypotheses can be met: the archive of \<open>Extraction_Run\<close> and the tables of \<open>Pipeline\<close>.\<close>

lemma full_run_demo:
  "\<exists>outputs inventory tables contents. run_outputs demo_full_lib demo_raw demo_zip demo_disk = Inr (outputs, inventory, tables)
     \<and> build_macros (merge_outputs outputs) (Some inventory) = Inr contents"
proof -
  obtain files tbl where run: "run_reports demo_pipeline_lib demo_data = Inr files"
    "build_run_table (pp_peer demo_pipeline_lib) (pd_TX demo_data) (pd_RUNS demo_data) = Inr tbl"
    "{4, 8, 16, 32} \<subseteq> peer_count ` set tbl"
    "{''sha256'', ''ed25519_sign'', ''ed25519_verify''} \<subseteq> ct_operation ` set (pd_timings demo_data)"
    by (rule demo_pipeline)
  obtain mapping inventory summary where
    extracted: "extract_main demo_run_lib demo_raw demo_zip demo_disk = ((mapping, Inr (inventory, summary)), demo_disk_after)"
    by (rule demo_extraction_run)
  have "\<not> isl mapping"
    using extracted by (auto simp: extract_main_def split: sum.splits prod.splits)
  then obtain m where m: "mapping = Inr m"
    by (cases mapping) auto
  obtain quality exclusions where quality: "quality_main (fl_quality demo_full_lib) demo_quality = Inr (quality, exclusions)"
    using demo_quality_run by (cases "quality_main (fl_quality demo_full_lib) demo_quality") auto
  let ?tables = "\<lparr>tt_data = demo_data, tt_quality = demo_quality\<rparr>"
  obtain outputs where outputs: "run_outputs demo_full_lib demo_raw demo_zip demo_disk = Inr (outputs, inventory, ?tables)"
    using extracted m quality run(1) by (simp add: run_outputs_def demo_full_lib_def)
  have "\<exists>contents. build_macros (merge_outputs outputs) (Some inventory) = Inr contents"
    by (rule full_run_resolves(2) [OF outputs]) (use run in \<open>simp_all add: demo_full_lib_def\<close>)
  with outputs show ?thesis
    by blast
qed

end
