(* ===== verification/Py_Threads.thy ===== *)
theory Py_Threads
  imports Py_Prelude
begin

text \<open>
  Threads that work on one shared state. A thread is a local state with its position in the code; one turn of a
  thread is one step of \<open>turn\<close>, which may read the clock and change the shared state. A schedule is a list of events: a
  thread starts, or thread \<open>i\<close> takes a turn while the clock shows some value. Every interleaving is such a list; what
  a turn does is atomic, as an operation under a lock or a single operation on a built-in object is in CPython.
\<close>

datatype ('a, 'e) thread_event = Start 'a | Turn nat 'e

fun thread_step ::
  "('a \<Rightarrow> 'l) \<Rightarrow> ('e \<Rightarrow> 'l \<Rightarrow> 's \<Rightarrow> 'l \<times> 's) \<Rightarrow> ('a, 'e) thread_event \<Rightarrow> 'l list \<times> 's \<Rightarrow> 'l list \<times> 's" where
  "thread_step begin_at turn (Start a) (ls, s) = (ls @ [begin_at a], s)"
| "thread_step begin_at turn (Turn i e) (ls, s) =
     (if i < length ls then (case turn e (ls ! i) s of (l, s') \<Rightarrow> (ls[i := l], s')) else (ls, s))"

definition run_threads ::
  "('a \<Rightarrow> 'l) \<Rightarrow> ('e \<Rightarrow> 'l \<Rightarrow> 's \<Rightarrow> 'l \<times> 's) \<Rightarrow> ('a, 'e) thread_event list \<Rightarrow> 's \<Rightarrow> 'l list \<times> 's" where
  "run_threads begin_at turn evs s = fold (thread_step begin_at turn) evs ([], s)"

lemma run_threads_Nil [simp]: "run_threads begin_at turn [] s = ([], s)"
  by (simp add: run_threads_def)

lemma run_threads_snoc [simp]: "run_threads begin_at turn (evs @ [ev]) s = thread_step begin_at turn ev (run_threads begin_at turn evs s)"
  by (simp add: run_threads_def)

text \<open>A thread that takes its turns alone.\<close>

definition run_alone :: "('e \<Rightarrow> 'l \<Rightarrow> 's \<Rightarrow> 'l \<times> 's) \<Rightarrow> 'e list \<Rightarrow> 'l \<times> 's \<Rightarrow> 'l \<times> 's" where
  "run_alone turn es ls = fold (\<lambda>e (l, s). turn e l s) es ls"

lemma run_alone_simps [simp]:
  "run_alone turn [] ls = ls"
  "run_alone turn (e # es) (l, s) = run_alone turn es (turn e l s)"
  by (simp_all add: run_alone_def)

section \<open>Counting threads\<close>

lemma length_filter_update:
  "i < length xs \<Longrightarrow>
     length (filter P (xs[i := x])) + (if P (xs ! i) then 1 else 0) = length (filter P xs) + (if P x then 1 else 0)"
proof (induction xs arbitrary: i)
  case (Cons y xs)
  then show ?case by (cases i) auto
qed simp

text \<open>The threads of one kind: an update of one of them, and of another one.\<close>

lemma filter_update:
  assumes "i < length ls" "P (ls ! i)" "P l'"
  shows "filter P (ls[i := l']) = (filter P ls)[length (filter P (take i ls)) := l']"
    "length (filter P (take i ls)) < length (filter P ls)" "filter P ls ! length (filter P (take i ls)) = ls ! i"
proof -
  have ls: "ls = take i ls @ ls ! i # drop (Suc i) ls"
    using assms(1) by (rule id_take_nth_drop)
  have flt: "filter P ls = filter P (take i ls) @ ls ! i # filter P (drop (Suc i) ls)"
    using assms(2) by (subst ls) simp
  have "ls[i := l'] = take i ls @ l' # drop (Suc i) ls"
    using assms(1) by (rule upd_conv_take_nth_drop)
  then show "filter P (ls[i := l']) = (filter P ls)[length (filter P (take i ls)) := l']"
    using assms(3) by (simp add: flt)
  show "length (filter P (take i ls)) < length (filter P ls)" "filter P ls ! length (filter P (take i ls)) = ls ! i"
    by (simp_all add: flt)
qed

lemma filter_update_other:
  assumes "i < length ls" "\<not> P (ls ! i)" "\<not> P l'"
  shows "filter P (ls[i := l']) = filter P ls"
proof -
  have "ls = take i ls @ ls ! i # drop (Suc i) ls"
    using assms(1) by (rule id_take_nth_drop)
  then have "filter P ls = filter P (take i ls) @ filter P (drop (Suc i) ls)"
    using assms(2) by (metis filter.simps(2) filter_append)
  then show ?thesis
    using assms by (simp add: upd_conv_take_nth_drop)
qed

end
