(* ===== verification/Enrollment_Threads.thy ===== *)
theory Enrollment_Threads
  imports Enrollment_Server Py_Threads
begin

text \<open>
  The rate limit of \<open>gateway/enrollment_server.py\<close> as threads run it. The server is started with
  \<open>threaded=True\<close> and \<open>rate_limited\<close> takes no lock, so requests interleave between any two operations on the
  deque; each of these operations (truth value, first element, \<open>popleft\<close>, length, \<open>append\<close>) is atomic in CPython.
  The function \<open>rate_limited\<close> of \<open>Enrollment_Server\<close> is such a request that runs alone. The theorem says what is left of
  the limit under every interleaving, and when it is exact; the lemmas at the end show that the limit can be exceeded, that
  an attempt that still counts can be lost and that a request can raise. Since attempts can be lost, requests that
  overlap are bounded only up to the time at which the first attempt leaves the window.
\<close>

section \<open>One request\<close>

text \<open>Where a request stands in \<open>rate_limited\<close>: lines 50, 52 (both tests), 53, 54, 56 and after the return.\<close>

datatype rl_place = At_clock | At_while | At_head | At_popleft | At_check | At_append | Answered bool | Raised pyerr

record rl_request =
  rl_caller :: string
  rl_now :: rat
  rl_at :: rl_place

definition new_request :: "string \<Rightarrow> rl_request" where
  "new_request caller = \<lparr>rl_caller = caller, rl_now = 0, rl_at = At_clock\<rparr>"

definition rate_turn :: "rat \<Rightarrow> rl_request \<Rightarrow> rat list \<Rightarrow> rl_request \<times> rat list" where
  "rate_turn clock r attempts =
     (case rl_at r of
        At_clock \<Rightarrow> (r\<lparr>rl_now := clock, rl_at := At_while\<rparr>, attempts)
      | At_while \<Rightarrow> (r\<lparr>rl_at := if attempts \<noteq> [] then At_head else At_check\<rparr>, attempts)
      | At_head \<Rightarrow>
          (case attempts of
             [] \<Rightarrow> (r\<lparr>rl_at := Raised (IndexError ''deque index out of range'')\<rparr>, attempts)
           | t # ts \<Rightarrow> (r\<lparr>rl_at := if rl_now r - t \<ge> ENROLL_WINDOW_SECONDS then At_popleft else At_check\<rparr>, attempts))
      | At_popleft \<Rightarrow>
          (case attempts of
             [] \<Rightarrow> (r\<lparr>rl_at := Raised (IndexError ''pop from an empty deque'')\<rparr>, attempts)
           | t # ts \<Rightarrow> (r\<lparr>rl_at := At_while\<rparr>, ts))
      | At_check \<Rightarrow> (r\<lparr>rl_at := if length attempts \<ge> ENROLL_LIMIT then Answered True else At_append\<rparr>, attempts)
      | At_append \<Rightarrow> (r\<lparr>rl_at := Answered False\<rparr>, attempts @ [rl_now r])
      | _ \<Rightarrow> (r, attempts))"

section \<open>All requests\<close>

type_synonym deques = "(string, rat list) dict"

definition deque_of :: "string \<Rightarrow> deques \<Rightarrow> rat list" where
  "deque_of caller d = (case dict_get d caller of None \<Rightarrow> [] | Some q \<Rightarrow> q)"

text \<open>\<open>enroll_attempts\<close> is a \<open>defaultdict\<close> of deques: a request works on the deque of its caller.\<close>

definition limiter_turn :: "rat \<Rightarrow> rl_request \<Rightarrow> deques \<Rightarrow> rl_request \<times> deques" where
  "limiter_turn clock r d = (case rate_turn clock r (deque_of (rl_caller r) d) of (r', q) \<Rightarrow> (r', dict_set (rl_caller r) q d))"

type_synonym schedule = "(string, rat) thread_event list"

definition run_limiter :: "schedule \<Rightarrow> rl_request list \<times> deques" where
  "run_limiter evs = run_threads new_request limiter_turn evs []"

text \<open>The requests of one caller in the order of arrival, and how many of them are between their start and their end.\<close>

definition requests_of :: "string \<Rightarrow> schedule \<Rightarrow> rl_request list" where
  "requests_of caller evs = filter (\<lambda>r. rl_caller r = caller) (fst (run_limiter evs))"

definition running :: "rl_request \<Rightarrow> bool" where
  "running r \<longleftrightarrow> (case rl_at r of Answered b \<Rightarrow> False | Raised e \<Rightarrow> False | _ \<Rightarrow> True)"

definition in_flight :: "rl_request list \<Rightarrow> nat" where
  "in_flight rs = length (filter running rs)"

text \<open>The largest number of requests of a caller that ran at the same time.\<close>

definition overlap :: "string \<Rightarrow> schedule \<Rightarrow> nat" where
  "overlap caller evs = Max (set (map (\<lambda>n. in_flight (requests_of caller (take n evs))) [0..<Suc (length evs)]))"

definition let_through :: "rl_request list \<Rightarrow> nat" where
  "let_through rs = length (filter (\<lambda>r. rl_at r = Answered False) rs)"

section \<open>One caller's part of a run\<close>

lemma run_limiter_simps [simp]:
  "run_limiter [] = ([], [])"
  "run_limiter (evs @ [ev]) = thread_step new_request limiter_turn ev (run_limiter evs)"
  by (simp_all add: run_limiter_def)

lemma rate_turn_fields:
  assumes "rate_turn clock r q = (r', q')"
  shows "rl_caller r' = rl_caller r" "rl_at r \<noteq> At_clock \<Longrightarrow> rl_now r' = rl_now r \<and> rl_at r' \<noteq> At_clock"
    "\<not> running r \<Longrightarrow> r' = r \<and> q' = q"
  using assms by (auto simp: rate_turn_def running_def split: rl_place.splits list.splits if_splits)

lemma deque_of_set [simp]: "deque_of c (dict_set c' q d) = (if c = c' then q else deque_of c d)"
  by (auto simp: deque_of_def dict_simps)

lemma overlap_snoc: "overlap c (evs @ [ev]) = max (overlap c evs) (in_flight (requests_of c (evs @ [ev])))"
proof -
  let ?f = "\<lambda>n. in_flight (requests_of c (take n (evs @ [ev])))"
  have "map ?f [0..<Suc (length (evs @ [ev]))] = map (\<lambda>n. in_flight (requests_of c (take n evs))) [0..<Suc (length evs)] @ [in_flight (requests_of c (evs @ [ev]))]"
    by simp
  then show ?thesis
    unfolding overlap_def by (simp del: upt_Suc map_append)
qed

text \<open>In one pass, for concrete schedules.\<close>

definition scan_step :: "string \<Rightarrow> (string, rat) thread_event \<Rightarrow> (rl_request list \<times> deques) \<times> nat \<Rightarrow> (rl_request list \<times> deques) \<times> nat" where
  "scan_step c ev = (\<lambda>(st, m). let st' = thread_step new_request limiter_turn ev st
     in (st', max m (in_flight (filter (\<lambda>r. rl_caller r = c) (fst st')))))"

lemma overlap_scan: "fold (scan_step c) evs (([], []), 0) = (run_limiter evs, overlap c evs)"
proof (induction evs rule: rev_induct)
  case Nil
  then show ?case by (simp add: overlap_def requests_of_def in_flight_def)
next
  case (snoc ev evs)
  have "scan_step c ev (run_limiter evs, overlap c evs) = (run_limiter (evs @ [ev]), overlap c (evs @ [ev]))"
    by (simp add: scan_step_def overlap_snoc requests_of_def Let_def)
  with snoc show ?case
    by (simp del: run_limiter_simps)
qed

text \<open>An event appends a request, is a turn of one of the requests, or leaves the caller's part alone.\<close>

lemma caller_step:
  obtains (other) "requests_of c (evs @ [ev]) = requests_of c evs" "deque_of c (snd (run_limiter (evs @ [ev]))) = deque_of c (snd (run_limiter evs))"
    | (arrives) "requests_of c (evs @ [ev]) = requests_of c evs @ [new_request c]"
        "deque_of c (snd (run_limiter (evs @ [ev]))) = deque_of c (snd (run_limiter evs))"
    | (turn) k clock r' q' where "k < length (requests_of c evs)"
        "rate_turn clock (requests_of c evs ! k) (deque_of c (snd (run_limiter evs))) = (r', q')"
        "requests_of c (evs @ [ev]) = (requests_of c evs)[k := r']" "deque_of c (snd (run_limiter (evs @ [ev]))) = q'"
proof (cases ev)
  case (Start c')
  then show ?thesis
    by (cases "c' = c"; cases "run_limiter evs") (auto intro: other arrives simp: requests_of_def new_request_def)
next
  case (Turn i clock)
  obtain ls d where run: "run_limiter evs = (ls, d)" by fastforce
  show ?thesis
  proof (cases "i < length ls")
    case False
    with Turn run show ?thesis by (intro other) (simp_all add: requests_of_def)
  next
    case True
    obtain r' q' where turn_eq: "rate_turn clock (ls ! i) (deque_of (rl_caller (ls ! i)) d) = (r', q')" by fastforce
    note caller = rate_turn_fields(1) [OF turn_eq]
    have step: "run_limiter (evs @ [ev]) = (ls[i := r'], dict_set (rl_caller (ls ! i)) q' d)"
      using True Turn run turn_eq by (simp add: limiter_turn_def)
    show ?thesis
    proof (cases "rl_caller (ls ! i) = c")
      case mine: True
      note upd = filter_update [OF True, of "\<lambda>r. rl_caller r = c" r']
      show ?thesis
        by (rule turn [of "length (filter (\<lambda>r. rl_caller r = c) (take i ls))" clock r' q'])
          (use upd mine caller turn_eq run step in \<open>simp_all add: requests_of_def\<close>)
    next
      case False
      show ?thesis
        by (rule other) (use False True caller in \<open>simp_all add: requests_of_def step run filter_update_other del: run_limiter_simps(2)\<close>)
    qed
  qed
qed

lemma caller_invariant:
  assumes "overlap c evs \<le> k" "ok [] []"
    and "\<And>rs q. ok rs q \<Longrightarrow> in_flight (rs @ [new_request c]) \<le> k \<Longrightarrow> ok (rs @ [new_request c]) q"
    and "\<And>rs q i clock r' q'. ok rs q \<Longrightarrow> in_flight rs \<le> k \<Longrightarrow> i < length rs \<Longrightarrow> rate_turn clock (rs ! i) q = (r', q') \<Longrightarrow>
       ok (rs[i := r']) q'"
  shows "ok (requests_of c evs) (deque_of c (snd (run_limiter evs)))"
  using assms(1)
proof (induction evs rule: rev_induct)
  case Nil
  with assms(2) show ?case by (simp add: requests_of_def deque_of_def)
next
  case (snoc ev evs)
  then have IH: "ok (requests_of c evs) (deque_of c (snd (run_limiter evs)))" and now: "in_flight (requests_of c (evs @ [ev])) \<le> k"
    and before: "overlap c evs \<le> k"
    by (simp_all add: overlap_snoc)
  have "in_flight (requests_of c evs) \<le> overlap c evs"
    unfolding overlap_def by (rule Max_ge) (simp_all del: upt_Suc add: rev_image_eqI [of "length evs"])
  with before have "in_flight (requests_of c evs) \<le> k" by simp
  with IH now assms(3,4) show ?case
    by (cases rule: caller_step [of c evs ev]) simp_all
qed

section \<open>Requests one after the other\<close>

text \<open>Requests that were answered as \<open>rate_limited\<close> answers them, and the state it leaves.\<close>

inductive served :: "string \<Rightarrow> rl_request list \<Rightarrow> app_state \<Rightarrow> bool" for c where
  served_none: "served c [] no_state"
| served_next: "served c rs s \<Longrightarrow> rate_limited (rl_now r) c s = (limited, s') \<Longrightarrow> rl_at r = Answered limited \<Longrightarrow> served c (rs @ [r]) s'"

inductive_cases served_NilE: "served c [] s"

lemma served_snoc:
  assumes "served c (rs @ [r]) s"
  obtains s0 where "served c rs s0" "rate_limited (rl_now r) c s0 = (fst (rate_limited (rl_now r) c s0), s)"
    "rl_at r = Answered (fst (rate_limited (rl_now r) c s0))"
  using assms by (cases rule: served.cases) auto

lemma served_append: "served c (rs @ rs') s \<Longrightarrow> \<exists>s0. served c rs s0"
proof (induction rs' arbitrary: s rule: rev_induct)
  case (snoc r rs')
  from snoc.prems have "served c ((rs @ rs') @ [r]) s" by simp
  then show ?case by (rule served_snoc) (rule snoc.IH)
qed auto

lemma served_answered: "served c rs s \<Longrightarrow> r \<in> set rs \<Longrightarrow> \<exists>b. rl_at r = Answered b"
  by (induction rule: served.induct) auto

lemma served_events:
  "served c rs s \<Longrightarrow> run_events rate_step (map (\<lambda>r. (rl_now r, c)) rs) no_state =
     (map (\<lambda>r. (rl_now r, c)) (filter (\<lambda>r. rl_at r = Answered False) rs), s)"
  by (induction rule: served.induct) (auto simp: run_events_append)

lemma served_exact:
  assumes "served c rs s" "i < length rs" "sorted (map rl_now (take (Suc i) rs))" "rl_at (rs ! i) = Answered limited"
  shows "limited \<longleftrightarrow> 10 \<le> length (filter (\<lambda>r. rl_at r = Answered False \<and> rl_now (rs ! i) - rl_now r < 3600) (take i rs))"
proof -
  have "served c (take i rs @ [rs ! i] @ drop (Suc i) rs) s"
    using assms(1,2) by (simp add: Cons_nth_drop_Suc)
  then obtain s1 where "served c (take i rs @ [rs ! i]) s1"
    using served_append [of c "take i rs @ [rs ! i]"] by auto
  then obtain s0 where s0: "served c (take i rs) s0" "rl_at (rs ! i) = Answered (fst (rate_limited (rl_now (rs ! i)) c s0))"
    by (rule served_snoc)
  have "sorted (map fst (map (\<lambda>r. (rl_now r, c)) (take i rs)) @ [rl_now (rs ! i)])"
    using assms(2,3) by (simp add: take_Suc_conv_app_nth comp_def)
  from rate_limit_exact [OF served_events [OF s0(1)] _ this, of c]
  have "limited \<longleftrightarrow> 10 \<le> length (filter (\<lambda>t. rl_now (rs ! i) - t < 3600) (map rl_now (filter (\<lambda>r. rl_at r = Answered False) (take i rs))))"
    using s0(2) assms(4) by (simp add: no_state_def filter_map comp_def)
  also have "length (filter (\<lambda>t. rl_now (rs ! i) - t < 3600) (map rl_now (filter (\<lambda>r. rl_at r = Answered False) (take i rs)))) =
      length (filter (\<lambda>r. rl_at r = Answered False \<and> rl_now (rs ! i) - rl_now r < 3600) (take i rs))"
    by (simp add: filter_map comp_def conj_commute)
  finally show ?thesis .
qed

text \<open>The position of the request that runs, and what it will answer.\<close>

fun place_ok :: "rl_place \<Rightarrow> rat \<Rightarrow> rat list \<Rightarrow> bool" where
  "place_ok At_head now q = (q \<noteq> [])"
| "place_ok At_popleft now q = (q \<noteq> [] \<and> now - hd q \<ge> ENROLL_WINDOW_SECONDS)"
| "place_ok At_check now q = (prune now q = q)"
| "place_ok At_append now q = (prune now q = q \<and> length q < ENROLL_LIMIT)"
| "place_ok (Raised e) now q = False"
| "place_ok _ now q = True"

definition alone_inv :: "string \<Rightarrow> rl_request list \<Rightarrow> rat list \<Rightarrow> bool" where
  "alone_inv c rs q \<longleftrightarrow> (\<exists>past s. served c past s \<and>
     (rs = past \<and> attempts_of c s = q \<or>
      (\<exists>r. rs = past @ [r] \<and> running r \<and> place_ok (rl_at r) (rl_now r) q \<and>
         (if rl_at r = At_clock then attempts_of c s = q else prune (rl_now r) (attempts_of c s) = prune (rl_now r) q))))"

lemma alone_invE:
  assumes "alone_inv c rs q"
  obtains past s rest where "served c past s" "rs = past @ rest" "\<forall>r \<in> set rest. running r"
  using assms unfolding alone_inv_def
proof (elim exE conjE disjE)
  fix past s
  assume "served c past s" "rs = past"
  then show thesis by (intro that [of past s "[]"]) simp_all
next
  fix past s r
  assume "served c past s" "rs = past @ [r]" "running r"
  then show thesis by (intro that [of past s "[r]"]) simp_all
qed

lemma alone_turn:
  assumes "served c past s" "running r" "place_ok (rl_at r) (rl_now r) q"
    "if rl_at r = At_clock then attempts_of c s = q else prune (rl_now r) (attempts_of c s) = prune (rl_now r) q"
    "rate_turn clock r q = (r', q')"
  shows "alone_inv c (past @ [r']) q'"
proof (cases "running r'")
  case True
  then have "place_ok (rl_at r') (rl_now r') q'"
    "if rl_at r' = At_clock then attempts_of c s = q' else prune (rl_now r') (attempts_of c s) = prune (rl_now r') q'"
    using assms(2-5) by (auto simp: rate_turn_def running_def prune_def split: rl_place.splits list.splits if_splits)
  with True assms(1) show ?thesis
    unfolding alone_inv_def by blast
next
  case False
  have "rl_at r = At_check \<or> rl_at r = At_append"
    using assms(2,3,5) False by (auto simp: rate_turn_def running_def split: rl_place.splits list.splits if_splits)
  then obtain limited s' where "rate_limited (rl_now r') c s = (limited, s')" "rl_at r' = Answered limited" "attempts_of c s' = q'"
    using assms(2-5) False attempts_after [of c "rl_now r" c s] rate_limited_iff [of "rl_now r" c s]
    by (cases "rate_limited (rl_now r) c s") (auto simp: rate_turn_def running_def split: if_splits)
  with served_next [OF assms(1)] show ?thesis
    unfolding alone_inv_def by blast
qed

lemma alone_inv_run:
  assumes "overlap c evs \<le> 1"
  shows "alone_inv c (requests_of c evs) (deque_of c (snd (run_limiter evs)))"
proof (rule caller_invariant [OF assms])
  show "alone_inv c [] []"
    unfolding alone_inv_def by (intro exI [of _ "[]"] exI [of _ no_state]) (use served_none [of c] in \<open>simp add: attempts_of_def no_state_def\<close>)
next
  fix rs q
  assume inv: "alone_inv c rs q" "in_flight (rs @ [new_request c]) \<le> 1"
  then obtain s where "served c rs s" "attempts_of c s = q"
    unfolding alone_inv_def by (auto simp: in_flight_def running_def new_request_def)
  then show "alone_inv c (rs @ [new_request c]) q"
    unfolding alone_inv_def by (intro exI [of _ rs] exI [of _ s]) (simp add: new_request_def running_def)
next
  fix rs q i clock r' q'
  assume inv: "alone_inv c rs q" and i: "i < length rs" and turn: "rate_turn clock (rs ! i) q = (r', q')"
  show "alone_inv c (rs[i := r']) q'"
  proof (cases "running (rs ! i)")
    case False
    with rate_turn_fields(3) [OF turn] inv show ?thesis by simp
  next
    case True
    from inv obtain past s r where past: "served c past s" "rs = past @ [r]" and r: "running r" "place_ok (rl_at r) (rl_now r) q"
        "if rl_at r = At_clock then attempts_of c s = q else prune (rl_now r) (attempts_of c s) = prune (rl_now r) q"
      unfolding alone_inv_def using True i served_answered by (fastforce simp: running_def dest: nth_mem)
    have "i = length past"
      using True i past served_answered [OF past(1) nth_mem, of i] by (cases "i < length past") (auto simp: nth_append running_def)
    with alone_turn [OF past(1) r] turn past(2) show ?thesis by simp
  qed
qed

section \<open>Requests that overlap\<close>

definition one_window :: "rl_request list \<Rightarrow> bool" where
  "one_window rs \<longleftrightarrow> (\<forall>r \<in> set rs. \<forall>r' \<in> set rs. rl_at r \<noteq> At_clock \<longrightarrow> rl_at r' \<noteq> At_clock \<longrightarrow> rl_now r - rl_now r' < 3600)"

lemma one_window_append: "one_window (rs @ rs') \<Longrightarrow> one_window rs"
  by (simp add: one_window_def)

text \<open>A clock value that was read is kept by every turn.\<close>

lemma clock_kept:
  assumes "rate_turn clock (rs ! i) q = (r', q')" "i < length rs" "r \<in> set rs" "rl_at r \<noteq> At_clock"
  shows "\<exists>r0 \<in> set (rs[i := r']). rl_at r0 \<noteq> At_clock \<and> rl_now r0 = rl_now r"
proof -
  obtain j where j: "j < length rs" "rs ! j = r" using assms(3) by (auto simp: in_set_conv_nth)
  show ?thesis
  proof (cases "j = i")
    case True
    with rate_turn_fields(2) [OF assms(1)] assms(2,4) j show ?thesis by (auto intro: set_update_memI)
  next
    case False
    with j assms(4) show ?thesis by (metis length_list_update nth_list_update_neq nth_mem)
  qed
qed

lemma one_window_turn:
  assumes "one_window (rs[i := r'])" "i < length rs" "rate_turn clock (rs ! i) q = (r', q')"
  shows "one_window rs"
  using assms(1) clock_kept [OF assms(3,2)] unfolding one_window_def by metis

definition appending :: "rl_request list \<Rightarrow> nat" where
  "appending rs = length (filter (\<lambda>r. rl_at r = At_append) rs)"

lemma appending_in_flight: "appending rs \<le> in_flight rs"
  unfolding appending_def in_flight_def by (rule filter_length_mono) (auto simp: running_def)

text \<open>While nothing leaves the window, the deque holds all that were let through.\<close>

definition window_inv :: "nat \<Rightarrow> rl_request list \<Rightarrow> rat list \<Rightarrow> bool" where
  "window_inv k rs q \<longleftrightarrow> (one_window rs \<longrightarrow>
     (\<forall>t \<in> set q. \<exists>r \<in> set rs. rl_at r \<noteq> At_clock \<and> rl_now r = t) \<and>
     (\<forall>r \<in> set rs. rl_at r \<noteq> At_popleft \<and> (\<forall>e. rl_at r \<noteq> Raised e) \<and> (rl_at r = At_head \<longrightarrow> q \<noteq> [])) \<and>
     length q = let_through rs \<and> appending rs + length q \<le> ENROLL_LIMIT - 1 + k)"

text \<open>Whatever happens, the deque holds no more than were let through, and a refusal has seen a full deque.\<close>

definition refusal_inv :: "rl_request list \<Rightarrow> rat list \<Rightarrow> bool" where
  "refusal_inv rs q \<longleftrightarrow> length q \<le> let_through rs \<and> ((\<exists>r \<in> set rs. rl_at r = Answered True) \<longrightarrow> ENROLL_LIMIT \<le> let_through rs)"

lemma refusal_turn:
  assumes "refusal_inv rs q" "i < length rs" "rate_turn clock (rs ! i) q = (r', q')"
  shows "refusal_inv (rs[i := r']) q'"
proof -
  have count: "let_through (rs[i := r']) + (if rl_at (rs ! i) = Answered False then 1 else 0) = let_through rs + (if rl_at r' = Answered False then 1 else 0)"
    unfolding let_through_def by (rule length_filter_update [OF assms(2)])
  have step: "length q' \<le> length q + (if rl_at r' = Answered False \<and> rl_at (rs ! i) \<noteq> Answered False then 1 else 0)"
    "rl_at (rs ! i) = Answered False \<Longrightarrow> rl_at r' = Answered False"
    "rl_at r' = Answered True \<Longrightarrow> rl_at (rs ! i) = Answered True \<or> ENROLL_LIMIT \<le> length q"
    using assms(3) by (auto simp: rate_turn_def split: rl_place.splits list.splits if_splits)
  have "\<exists>r \<in> set rs. rl_at r = Answered True" if "r \<in> set (rs[i := r'])" "rl_at r = Answered True" "\<not> ENROLL_LIMIT \<le> length q" for r
    using that step(3) assms(2) set_update_subset_insert [of rs i r'] by (metis insertE nth_mem subsetD)
  with assms(1) count step(1,2) show ?thesis
    unfolding refusal_inv_def by (fastforce split: if_splits)
qed

text \<open>In one window nothing is popped, so a turn only adds what is let through.\<close>

lemma window_place:
  assumes "one_window rs" "window_inv k rs q" "r \<in> set rs" "rate_turn clock r q = (r', q')"
  shows "q' = (if rl_at r = At_append then q @ [rl_now r] else q)"
    "rl_at r' \<noteq> At_popleft" "rl_at r' \<noteq> Raised e" "rl_at r' = At_head \<Longrightarrow> q \<noteq> []"
    "rl_at r' = Answered False \<longleftrightarrow> rl_at r = At_append \<or> rl_at r = Answered False"
    "rl_at r' = At_append \<Longrightarrow> length q < ENROLL_LIMIT" "running r' \<Longrightarrow> running r"
proof -
  from assms(1,2) have old: "\<forall>t \<in> set q. \<exists>r \<in> set rs. rl_at r \<noteq> At_clock \<and> rl_now r = t"
    and place: "rl_at r \<noteq> At_popleft" "\<And>e. rl_at r \<noteq> Raised e" "rl_at r = At_head \<Longrightarrow> q \<noteq> []"
    using assms(3) unfolding window_inv_def by blast+
  have young: "rl_now r - t < ENROLL_WINDOW_SECONDS" if "t \<in> set q" "rl_at r \<noteq> At_clock" for t
    using old assms(1,3) that unfolding one_window_def ENROLL_WINDOW_SECONDS_def by metis
  have head: "\<not> rl_now r - t \<ge> ENROLL_WINDOW_SECONDS" if "q = t # ts" "rl_at r = At_head" for t ts
    using young [of t] that by simp
  show "q' = (if rl_at r = At_append then q @ [rl_now r] else q)" "rl_at r' \<noteq> At_popleft" "rl_at r' \<noteq> Raised e"
    "rl_at r' = At_head \<Longrightarrow> q \<noteq> []" "rl_at r' = Answered False \<longleftrightarrow> rl_at r = At_append \<or> rl_at r = Answered False"
    "rl_at r' = At_append \<Longrightarrow> length q < ENROLL_LIMIT" "running r' \<Longrightarrow> running r"
    using assms(4) place head by (auto simp: rate_turn_def running_def split: rl_place.splits list.splits if_splits)
qed

lemma window_turn:
  assumes "window_inv k rs q" "in_flight rs \<le> k" "i < length rs" "rate_turn clock (rs ! i) q = (r', q')"
  shows "window_inv k (rs[i := r']) q'"
  unfolding window_inv_def
proof (intro impI conjI)
  let ?rs = "rs[i := r']"
  assume later: "one_window ?rs"
  have w: "one_window rs"
    by (rule one_window_turn [OF later assms(3,4)])
  note place = window_place [OF w assms(1) nth_mem [OF assms(3)] assms(4)]
  from w assms(1) have old: "\<forall>t \<in> set q. \<exists>r \<in> set rs. rl_at r \<noteq> At_clock \<and> rl_now r = t"
    and places: "\<forall>r \<in> set rs. rl_at r \<noteq> At_popleft \<and> (\<forall>e. rl_at r \<noteq> Raised e) \<and> (rl_at r = At_head \<longrightarrow> q \<noteq> [])"
    and counts: "length q = let_through rs" "appending rs + length q \<le> ENROLL_LIMIT - 1 + k"
    unfolding window_inv_def by blast+
  note kept = clock_kept [OF assms(4,3)]
  show "\<forall>t \<in> set q'. \<exists>r \<in> set ?rs. rl_at r \<noteq> At_clock \<and> rl_now r = t"
    using old kept place(1) nth_mem [OF assms(3)] by (auto split: if_splits)
  show "\<forall>r \<in> set ?rs. rl_at r \<noteq> At_popleft \<and> (\<forall>e. rl_at r \<noteq> Raised e) \<and> (rl_at r = At_head \<longrightarrow> q' \<noteq> [])"
  proof
    fix r
    assume "r \<in> set ?rs"
    then have "r = r' \<or> r \<in> set rs"
      using set_update_subset_insert [of rs i r'] by blast
    then show "rl_at r \<noteq> At_popleft \<and> (\<forall>e. rl_at r \<noteq> Raised e) \<and> (rl_at r = At_head \<longrightarrow> q' \<noteq> [])"
      using place(1-4) places by auto
  qed
  have through: "let_through ?rs + (if rl_at (rs ! i) = Answered False then 1 else 0) = let_through rs + (if rl_at r' = Answered False then 1 else 0)"
    unfolding let_through_def by (rule length_filter_update [OF assms(3)])
  with place(1,5) counts(1) show "length q' = let_through ?rs"
    by (auto split: if_splits)
  have app: "appending ?rs + (if rl_at (rs ! i) = At_append then 1 else 0) = appending rs + (if rl_at r' = At_append then 1 else 0)"
    unfolding appending_def by (rule length_filter_update [OF assms(3)])
  have "in_flight ?rs + (if running (rs ! i) then 1 else 0) = in_flight rs + (if running r' then 1 else 0)"
    unfolding in_flight_def by (rule length_filter_update [OF assms(3)])
  with place(7) assms(2) appending_in_flight [of ?rs] have "appending ?rs \<le> k"
    by (auto split: if_splits)
  with app place(1,5,6) counts(2) show "appending ?rs + length q' \<le> ENROLL_LIMIT - 1 + k"
    by (cases "rl_at r' = At_append"; cases "rl_at (rs ! i) = At_append") (auto simp: ENROLL_LIMIT_def)
qed

lemma window_inv_run: "window_inv (overlap c evs) (requests_of c evs) (deque_of c (snd (run_limiter evs)))"
proof (rule caller_invariant [OF order_refl])
  show "window_inv (overlap c evs) [] []"
    by (simp add: window_inv_def let_through_def appending_def)
next
  fix rs q
  assume "window_inv (overlap c evs) rs q"
  then show "window_inv (overlap c evs) (rs @ [new_request c]) q"
    by (auto simp: window_inv_def let_through_def appending_def new_request_def dest: one_window_append)
qed (rule window_turn)

lemma refusal_inv_run: "refusal_inv (requests_of c evs) (deque_of c (snd (run_limiter evs)))"
proof (rule caller_invariant [OF order_refl])
  show "refusal_inv [] []"
    by (simp add: refusal_inv_def)
next
  fix rs q
  assume "refusal_inv rs q"
  then show "refusal_inv (rs @ [new_request c]) q"
    by (auto simp: refusal_inv_def let_through_def new_request_def)
qed (rule refusal_turn)

section \<open>What the limit guarantees\<close>

text \<open>
  C22. The rate limit under threads, for every interleaving of the requests of all callers. (1) If no two requests of a
  caller overlap, none of them raises and the limit is exact: while the clock did not go back, a request is
  refused if and only if ten of the caller's earlier requests were let through during the last 3600 seconds. (2) If
  the caller's requests read the clock within 3600 seconds and at most \<open>k\<close> of them ran at the same time, at most
  \<open>9 + k\<close> are let through and none raises. (3) In any case a request is refused only if ten of this caller are let through.
\<close>

theorem rate_limit_threads:
  fixes caller :: string and evs :: schedule
  defines "rs \<equiv> requests_of caller evs"
  shows "(overlap caller evs \<le> 1 \<longrightarrow>
      (\<forall>r \<in> set rs. \<forall>e. rl_at r \<noteq> Raised e) \<and>
      (\<forall>i < length rs. \<forall>limited. rl_at (rs ! i) = Answered limited \<longrightarrow> sorted (map rl_now (take (Suc i) rs)) \<longrightarrow>
         (limited \<longleftrightarrow> 10 \<le> length (filter (\<lambda>r. rl_at r = Answered False \<and> rl_now (rs ! i) - rl_now r < 3600) (take i rs)))))
    \<and> (one_window rs \<longrightarrow> let_through rs \<le> 9 + overlap caller evs \<and> (\<forall>r \<in> set rs. \<forall>e. rl_at r \<noteq> Raised e))
    \<and> ((\<exists>r \<in> set rs. rl_at r = Answered True) \<longrightarrow> 10 \<le> let_through rs)"
proof (intro conjI impI)
  assume "overlap caller evs \<le> 1"
  from alone_inv_run [OF this] obtain past s rest where past: "served caller past s" "rs = past @ rest" "\<forall>r \<in> set rest. running r"
    unfolding rs_def by (rule alone_invE)
  then show "\<forall>r \<in> set rs. \<forall>e. rl_at r \<noteq> Raised e"
    using served_answered [OF past(1)] by (fastforce simp: running_def)
  show "\<forall>i < length rs. \<forall>limited. rl_at (rs ! i) = Answered limited \<longrightarrow> sorted (map rl_now (take (Suc i) rs)) \<longrightarrow>
      (limited \<longleftrightarrow> 10 \<le> length (filter (\<lambda>r. rl_at r = Answered False \<and> rl_now (rs ! i) - rl_now r < 3600) (take i rs)))"
  proof (intro allI impI)
    fix i limited
    assume i: "i < length rs" "rl_at (rs ! i) = Answered limited" "sorted (map rl_now (take (Suc i) rs))"
    have "i < length past"
    proof (rule ccontr)
      assume "\<not> i < length past"
      with i(1) past(2) have "rs ! i \<in> set rest" by (simp add: nth_append)
      with past(3) i(2) show False by (auto simp: running_def)
    qed
    with served_exact [OF past(1) this] i past(2)
    show "limited \<longleftrightarrow> 10 \<le> length (filter (\<lambda>r. rl_at r = Answered False \<and> rl_now (rs ! i) - rl_now r < 3600) (take i rs))"
      by (simp add: nth_append)
  qed
next
  assume "one_window rs"
  with window_inv_run [of caller evs] show "let_through rs \<le> 9 + overlap caller evs" "\<forall>r \<in> set rs. \<forall>e. rl_at r \<noteq> Raised e"
    by (auto simp: window_inv_def rs_def ENROLL_LIMIT_def)
next
  assume "\<exists>r \<in> set rs. rl_at r = Answered True"
  with refusal_inv_run [of caller evs] show "10 \<le> let_through rs"
    by (simp add: refusal_inv_def rs_def ENROLL_LIMIT_def)
qed

section \<open>The limit is exceeded, an attempt is lost, a request raises\<close>

definition requests_alone :: "string \<Rightarrow> rat list \<Rightarrow> nat \<Rightarrow> schedule" where
  "requests_alone caller clocks i =
     concat (map (\<lambda>(j, clock). Start caller # replicate 5 (Turn j clock)) (zip [i..<i + length clocks] clocks))"

definition requests_together :: "string \<Rightarrow> rat \<Rightarrow> nat \<Rightarrow> nat \<Rightarrow> schedule" where
  "requests_together caller clock i n = [Start caller, Start caller] @ concat (replicate n [Turn i clock, Turn (Suc i) clock])"

text \<open>Nine requests are let through, then two at the same time: eleven within a second. Another caller is not affected.\<close>

definition race :: schedule where
  "race = requests_alone ''h'' (replicate 9 7) 0 @ requests_together ''h'' 8 9 5 @ requests_alone ''g'' (replicate 11 8) 11"

lemma race_overlap: "overlap ''h'' race = 2" "overlap ''g'' race = 1"
proof -
  have "snd (fold (scan_step ''h'') race (([], []), 0)) = 2" "snd (fold (scan_step ''g'') race (([], []), 0)) = 1"
    by code_simp+
  then show "overlap ''h'' race = 2" "overlap ''g'' race = 1"
    by (simp_all only: overlap_scan snd_conv)
qed

lemma race_requests:
  "map (\<lambda>r. (rl_now r, rl_at r)) (requests_of ''h'' race) = replicate 9 (7, Answered False) @ replicate 2 (8, Answered False)"
  "map (\<lambda>r. (rl_now r, rl_at r)) (requests_of ''g'' race) = replicate 10 (8, Answered False) @ [(8, Answered True)]"
  by code_simp+

lemma race_runs:
  "let_through (requests_of ''h'' race) = 11" "one_window (requests_of ''h'' race)"
  "map rl_at (requests_of ''g'' race) = replicate 10 (Answered False) @ [Answered True]"
  "map rl_now (requests_of ''g'' race) = replicate 11 8"
proof -
  have "let_through rs = length (filter (\<lambda>a. a = Answered False) (map rl_at rs))" for rs
    by (simp add: let_through_def filter_map comp_def)
  moreover have "map rl_at (requests_of ''h'' race) = replicate 11 (Answered False)"
    using arg_cong [OF race_requests(1), of "map snd"] by (simp add: comp_def numeral_eq_Suc)
  ultimately show "let_through (requests_of ''h'' race) = 11"
    by (simp only:) simp
  have "fst ` set (map (\<lambda>r. (rl_now r, rl_at r)) (requests_of ''h'' race)) = {7, 8}"
    unfolding race_requests(1) by auto
  then have "rl_now ` set (requests_of ''h'' race) = {7, 8}"
    by (simp add: image_image)
  then have clocks: "rl_now r = 7 \<or> rl_now r = 8" if "r \<in> set (requests_of ''h'' race)" for r
    using that by blast
  show "one_window (requests_of ''h'' race)"
    unfolding one_window_def by (intro ballI impI) (use clocks in \<open>fastforce dest: clocks\<close>)
  show "map rl_at (requests_of ''g'' race) = replicate 10 (Answered False) @ [Answered True]"
    using arg_cong [OF race_requests(2), of "map snd"] by (simp add: comp_def)
  show "map rl_now (requests_of ''g'' race) = replicate 11 8"
    using arg_cong [OF race_requests(2), of "map fst"] by (simp add: comp_def numeral_eq_Suc)
qed

lemma rate_limit_threads_witness:
  "let_through (requests_of ''h'' race) = 9 + overlap ''h'' race \<and> let_through (requests_of ''h'' race) \<le> 9 + overlap ''h'' race
   \<and> 10 \<le> length (filter (\<lambda>r. rl_at r = Answered False \<and> rl_now (requests_of ''g'' race ! 10) - rl_now r < 3600) (take 10 (requests_of ''g'' race)))
   \<and> 10 \<le> let_through (requests_of ''g'' race)"
proof -
  let ?rs = "requests_of ''g'' race"
  have len: "length ?rs = 11"
    using arg_cong [OF race_runs(4), of length] by simp
  then have refused: "rl_at (?rs ! 10) = Answered True"
    using arg_cong [OF race_runs(3), of "\<lambda>xs. xs ! 10"] by (simp add: nth_append)
  have "sorted (map rl_now (take (Suc 10) ?rs))"
    by (simp add: take_map [symmetric] race_runs(4) sorted_replicate)
  with refused have "10 \<le> length (filter (\<lambda>r. rl_at r = Answered False \<and> rl_now (?rs ! 10) - rl_now r < 3600) (take 10 ?rs))"
    using conjunct1 [OF rate_limit_threads [of "''g''" race]] len by (auto simp: race_overlap)
  moreover have "let_through (requests_of ''h'' race) \<le> 9 + overlap ''h'' race"
    using conjunct1 [OF conjunct2 [OF rate_limit_threads [of "''h''" race]]] race_runs(2) by blast
  moreover have "?rs ! 10 \<in> set ?rs"
    by (rule nth_mem) (simp add: len)
  then have "10 \<le> let_through ?rs"
    using conjunct2 [OF conjunct2 [OF rate_limit_threads [of "''g''" race]]] refused by blast
  ultimately show ?thesis
    by (simp add: race_runs(1) race_overlap)
qed

text \<open>
  One attempt has left the window and one still counts. Two requests at the same time both find the first one expired
  and both pop: the attempt that still counts is lost. With one attempt only, the second pop raises.
\<close>

lemma attempt_lost:
  "snd (run_limiter (requests_alone ''h'' [0, 3000] 0)) = [(''h'', [0, 3000])]"
  "snd (run_limiter (requests_alone ''h'' [0, 3000] 0 @ requests_together ''h'' 3700 2 8)) = [(''h'', [3700, 3700])]"
  by code_simp+

lemma second_pop_raises:
  "map rl_at (fst (run_limiter (requests_alone ''h'' [0] 0 @ requests_together ''h'' 3700 1 8))) =
     [Answered False, Answered False, Raised (IndexError ''pop from an empty deque'')]"
  by code_simp

end
