(* ===== verification/Gateway_Threads.thy ===== *)
theory Gateway_Threads
  imports Gateway Py_Threads
begin

text \<open>
  \<open>handle_reading\<close> of \<open>gateway/gateway.py\<close> as threads run it: the source threads of the receiver call it (\<open>run\<close> passes it
  as the callback) and the main loop calls it too, at the same time and without a lock. A handling takes one turn for each
  operation on what the threads share: the cache, whose \<open>get\<close> and \<open>set\<close> run under its lock, and the list of live readings.
  An invocation of the ledger with its retries is one turn: it touches nothing else that handlings share. The
  theorem says that under every interleaving what is submitted was granted by the ledger, in the same handling or
  less than one time to live before the cache was read.
\<close>

section \<open>Handling a reading in turns\<close>

datatype gw_place =
    Received
  | Looking string
  | Asking string
  | Storing string pyval
  | Decided pyval
  | Showing
  | Finished
  | Failed pyerr

record handling =
  h_reading :: sensor_reading
  h_at :: gw_place

definition new_handling :: "sensor_reading \<Rightarrow> handling" where
  "new_handling r = \<lparr>h_reading = r, h_at = Received\<rparr>"

definition handling_turn ::
  "'k crypto_lib \<Rightarrow> 'w fabric_env \<Rightarrow> gateway_config \<Rightarrow> rat \<Rightarrow> handling \<Rightarrow> 'w gateway_state \<Rightarrow> handling \<times> 'w gateway_state" where
  "handling_turn lib env cfg clock h s =
     (let reading = h_reading h in
      case h_at h of
        Received \<Rightarrow>
          (case verify_signature lib reading VNone of
             Inl e \<Rightarrow> (h\<lparr>h_at := Failed e\<rparr>, s)
           | Inr False \<Rightarrow> (h\<lparr>h_at := Finished\<rparr>, s)
           | Inr True \<Rightarrow>
               (case policy_key cfg reading of Inl e \<Rightarrow> (h\<lparr>h_at := Failed e\<rparr>, s) | Inr key \<Rightarrow> (h\<lparr>h_at := Looking key\<rparr>, s)))
      | Looking key \<Rightarrow>
          (case cache_get clock key (gw_cache s) of (decision, cache) \<Rightarrow>
             (h\<lparr>h_at := if decision = VNone then Asking key else Decided decision\<rparr>, s\<lparr>gw_cache := cache\<rparr>))
      | Asking key \<Rightarrow>
          (case check_access env (gw_client cfg) (device_id reading) (effective_zone cfg reading) ''submit_reading'' (gw_world s) of
             (Inl e, w) \<Rightarrow> (h\<lparr>h_at := Failed e\<rparr>, s\<lparr>gw_world := w\<rparr>)
           | (Inr v, w) \<Rightarrow> (h\<lparr>h_at := Storing key v\<rparr>, s\<lparr>gw_world := w\<rparr>))
      | Storing key v \<Rightarrow>
          (case cache_set clock key v None (gw_cache s) of
             (Inl e, cache) \<Rightarrow> (h\<lparr>h_at := Failed e\<rparr>, s\<lparr>gw_cache := cache\<rparr>)
           | (Inr _, cache) \<Rightarrow> (h\<lparr>h_at := Decided v\<rparr>, s\<lparr>gw_cache := cache\<rparr>))
      | Decided decision \<Rightarrow>
          if decision_is_grant decision then
            (case submit_sensor_reading env (gw_client cfg) (WithToPayload (to_payload reading)) (gw_world s) of
               (Inl e, w) \<Rightarrow> (h\<lparr>h_at := Failed e\<rparr>, s\<lparr>gw_world := w\<rparr>)
             | (Inr _, w) \<Rightarrow> (h\<lparr>h_at := Showing\<rparr>, s\<lparr>gw_world := w\<rparr>))
          else (h\<lparr>h_at := Finished\<rparr>, s)
      | Showing \<Rightarrow> (h\<lparr>h_at := Finished\<rparr>, s\<lparr>live_readings := live_readings s @ [to_payload reading]\<rparr>)
      | _ \<Rightarrow> (h, s))"

type_synonym gw_schedule = "(sensor_reading, rat) thread_event list"

definition run_gateway ::
  "'k crypto_lib \<Rightarrow> 'w fabric_env \<Rightarrow> gateway_config \<Rightarrow> 'w gateway_state \<Rightarrow> gw_schedule \<Rightarrow> handling list \<times> 'w gateway_state" where
  "run_gateway lib env cfg s0 evs = run_threads new_handling (handling_turn lib env cfg) evs s0"

text \<open>A handling that is not interrupted is \<open>handle_reading\<close>.\<close>

lemma handling_alone:
  "handle_reading lib env cfg now1 now2 r s = (res, s') \<Longrightarrow>
     run_alone (handling_turn lib env cfg) [t0, now1, t1, now2, t2, t3] (new_handling r, s)
       = (\<lparr>h_reading = r, h_at = (case res of Inl e \<Rightarrow> Failed e | Inr _ \<Rightarrow> Finished)\<rparr>, s')"
  by (auto simp: handle_reading_def obtain_decision_def handling_turn_def new_handling_def Let_def result_simps
      split: sum.splits bool.splits prod.splits if_splits)

section \<open>Where a decision comes from\<close>

text \<open>
  \<open>run\<close> maps a schedule to the state it leads to. In a schedule, handling \<open>i\<close> of reading \<open>r\<close> has asked the ledger under
  its policy key and was answered \<open>v\<close>: at some turn it stood at the request, and the last call that this turn
  adds to the trace of the ledger is the request for \<open>r\<close> with this answer.
\<close>

type_synonym 'w gw_run = "gw_schedule \<Rightarrow> handling list \<times> ('w \<times> fabric_event list) gateway_state"

definition ledger_answered ::
  "'w gw_run \<Rightarrow> gateway_config \<Rightarrow> gw_schedule \<Rightarrow> nat \<Rightarrow> sensor_reading \<Rightarrow> string \<Rightarrow> pyval \<Rightarrow> bool" where
  "ledger_answered run cfg evs i r key v \<longleftrightarrow>
     (\<exists>earlier clock later req more. evs = earlier @ Turn i clock # later \<and>
        i < length (fst (run earlier)) \<and> fst (run earlier) ! i = \<lparr>h_reading = r, h_at = Asking key\<rparr> \<and>
        access_calls (snd (run (earlier @ [Turn i clock]))) = access_calls (snd (run earlier)) @ more @ [(req, Inr v)] \<and>
        same_request (access_request cfg r) req)"

text \<open>At clock \<open>t\<close> a handling of a reading with this policy key stored the answer that the ledger had given it.\<close>

definition answer_stored :: "'w gw_run \<Rightarrow> gateway_config \<Rightarrow> gw_schedule \<Rightarrow> string \<Rightarrow> pyval \<Rightarrow> rat \<Rightarrow> bool" where
  "answer_stored run cfg evs key v t \<longleftrightarrow>
     (\<exists>earlier j later r. evs = earlier @ Turn j t # later \<and>
        j < length (fst (run earlier)) \<and> fst (run earlier) ! j = \<lparr>h_reading = r, h_at = Storing key v\<rparr> \<and>
        policy_key cfg r = Inr key \<and> ledger_answered run cfg earlier j r key v)"

text \<open>Handling \<open>i\<close> looked the key up at a clock value less than \<open>ttl\<close> after an answer was stored, which was earlier in the schedule.\<close>

definition young_answer_found :: "'w gw_run \<Rightarrow> gateway_config \<Rightarrow> rat \<Rightarrow> gw_schedule \<Rightarrow> nat \<Rightarrow> string \<Rightarrow> pyval \<Rightarrow> bool" where
  "young_answer_found run cfg ttl evs i key v \<longleftrightarrow>
     (\<exists>earlier now later t. evs = earlier @ Turn i now # later \<and>
        i < length (fst (run earlier)) \<and> h_at (fst (run earlier) ! i) = Looking key \<and>
        answer_stored run cfg earlier key v t \<and> now < t + ttl)"

lemma later_events:
  "ledger_answered run cfg evs i r key v \<Longrightarrow> ledger_answered run cfg (evs @ [ev]) i r key v"
  "answer_stored run cfg evs key v t \<Longrightarrow> answer_stored run cfg (evs @ [ev]) key v t"
  "young_answer_found run cfg ttl evs i key v \<Longrightarrow> young_answer_found run cfg ttl (evs @ [ev]) i key v"
  unfolding ledger_answered_def answer_stored_def young_answer_found_def
  by (metis append_Cons append_assoc)+

section \<open>The invariant of all interleavings\<close>

definition key_ok :: "'k crypto_lib \<Rightarrow> gateway_config \<Rightarrow> sensor_reading \<Rightarrow> string \<Rightarrow> bool" where
  "key_ok lib cfg r key \<longleftrightarrow> verify_signature lib r VNone = Inr True \<and> policy_key cfg r = Inr key"

definition decision_backed :: "'w gw_run \<Rightarrow> gateway_config \<Rightarrow> rat \<Rightarrow> gw_schedule \<Rightarrow> nat \<Rightarrow> sensor_reading \<Rightarrow> string \<Rightarrow> pyval \<Rightarrow> bool" where
  "decision_backed run cfg ttl evs i r key v \<longleftrightarrow>
     ledger_answered run cfg evs i r key v \<or> young_answer_found run cfg ttl evs i key v"

definition place_inv :: "'k crypto_lib \<Rightarrow> 'w gw_run \<Rightarrow> gateway_config \<Rightarrow> rat \<Rightarrow> gw_schedule \<Rightarrow> nat \<Rightarrow> handling \<Rightarrow> bool" where
  "place_inv lib run cfg ttl evs i h \<longleftrightarrow>
     (case h_at h of
        Looking key \<Rightarrow> key_ok lib cfg (h_reading h) key
      | Asking key \<Rightarrow> key_ok lib cfg (h_reading h) key
      | Storing key v \<Rightarrow> key_ok lib cfg (h_reading h) key \<and> ledger_answered run cfg evs i (h_reading h) key v
      | Decided v \<Rightarrow> (\<exists>key. key_ok lib cfg (h_reading h) key \<and> decision_backed run cfg ttl evs i (h_reading h) key v)
      | _ \<Rightarrow> True)"

lemma place_inv_later: "place_inv lib run cfg ttl evs i h \<Longrightarrow> place_inv lib run cfg ttl (evs @ [ev]) i h"
  by (auto simp: place_inv_def decision_backed_def intro: later_events split: gw_place.splits)

definition cache_backed :: "'w gw_run \<Rightarrow> gateway_config \<Rightarrow> rat \<Rightarrow> gw_schedule \<Rightarrow> policy_cache \<Rightarrow> bool" where
  "cache_backed run cfg ttl evs c \<longleftrightarrow>
     ttl_seconds c = ttl \<and> backed_by cache_view ttl {(t, k, v). answer_stored run cfg evs k v t} c"

lemma cache_backed_later: "cache_backed run cfg ttl evs c \<Longrightarrow> cache_backed run cfg ttl (evs @ [ev]) c"
  unfolding cache_backed_def by (auto elim!: pc.backed_mono intro: later_events)

lemma cache_backed_get:
  assumes "cache_backed run cfg ttl evs c" "cache_get now k c = (v, c')"
  shows "cache_backed run cfg ttl evs c'" "v \<noteq> VNone \<Longrightarrow> \<exists>t. answer_stored run cfg evs k v t \<and> now < t + ttl"
  using pc.backed_get [OF _ assms(2)] pc.backed_hit [OF _ assms(2)] pc.get_ttl [OF assms(2)] assms(1)
  unfolding cache_backed_def by auto

lemma cache_backed_put:
  assumes "cache_backed run cfg ttl evs c" "0 < ttl" "answer_stored run cfg (evs @ [ev]) k v now"
  shows "cache_backed run cfg ttl (evs @ [ev]) (cache_put now k v c)" "fst (cache_set now k v None c) = Inr ()"
proof -
  have "backed_by cache_view ttl (insert (now, k, v) {(t, k, v). answer_stored run cfg evs k v t}) (cache_put now k v c)"
    using pc.backed_put [of c _ now k v] pc.put_ttl [of now k v c] assms(1,2) unfolding cache_backed_def by simp
  then have "backed_by cache_view ttl {(t, k, v). answer_stored run cfg (evs @ [ev]) k v t} (cache_put now k v c)"
    by (rule pc.backed_mono) (use assms(3) in \<open>auto intro: later_events\<close>)
  then show "cache_backed run cfg ttl (evs @ [ev]) (cache_put now k v c)"
    using assms(1) pc.put_ttl [of now k v c] unfolding cache_backed_def by simp
  show "fst (cache_set now k v None c) = Inr ()"
    using assms(1,2) by (simp add: cache_backed_def cache_set_def Let_def)
qed

text \<open>One turn keeps the invariant of the cache and of the handling that takes it.\<close>

lemma turn_sound:
  assumes run: "run (evs @ [Turn i clock]) = (hs[i := h'], s')" "run evs = (hs, s)" "i < length hs"
    and turn: "handling_turn lib (observed env) cfg clock (hs ! i) s = (h', s')"
    and inv: "place_inv lib run cfg ttl evs i (hs ! i)" "cache_backed run cfg ttl evs (gw_cache s)" "0 < ttl"
  shows "place_inv lib run cfg ttl (evs @ [Turn i clock]) i h' \<and> cache_backed run cfg ttl (evs @ [Turn i clock]) (gw_cache s')"
proof -
  let ?evs = "evs @ [Turn i clock]" and ?r = "h_reading (hs ! i)"
  note later = cache_backed_later [OF inv(2), of "Turn i clock"]
  show ?thesis
  proof (cases "h_at (hs ! i)")
    case Received
    with turn later show ?thesis
      by (auto simp: handling_turn_def Let_def place_inv_def key_ok_def split: sum.splits bool.splits)
  next
    case (Looking key)
    obtain d c where get: "cache_get clock key (gw_cache s) = (d, c)" by fastforce
    note got = cache_backed_get [OF inv(2) get]
    have "young_answer_found run cfg ttl ?evs i key d" if "d \<noteq> VNone"
      using got(2) [OF that] run(2,3) Looking unfolding young_answer_found_def by fastforce
    with turn get Looking inv(1) cache_backed_later [OF got(1)] show ?thesis
      by (cases "d = VNone") (auto simp: handling_turn_def Let_def place_inv_def decision_backed_def intro: exI [of _ key])
  next
    case (Asking key)
    obtain a w where ca: "check_access (observed env) (gw_client cfg) (device_id ?r) (effective_zone cfg ?r)
        ''submit_reading'' (gw_world s) = (a, w)" by (rule prod.exhaust)
    have h: "hs ! i = \<lparr>h_reading = ?r, h_at = Asking key\<rparr>"
      using Asking by simp
    have "ledger_answered run cfg ?evs i ?r key v" if "a = Inr v" for v
    proof -
      from fc.answered [OF ca [unfolded check_access_invoke that]] obtain req more where
        "same_request (access_request cfg ?r) req" "access_calls (s\<lparr>gw_world := w\<rparr>) = access_calls s @ more @ [(req, Inr v)]"
        by auto
      moreover have "s' = s\<lparr>gw_world := w\<rparr>"
        using turn ca Asking that by (simp add: handling_turn_def Let_def)
      ultimately show ?thesis
        using run h unfolding ledger_answered_def
        by (intro exI [of _ evs] exI [of _ clock] exI [of _ "[]"] exI [of _ req] exI [of _ more]) simp
    qed
    with turn ca Asking inv(1) later show ?thesis
      by (auto simp: handling_turn_def Let_def place_inv_def split: sum.splits)
  next
    case (Storing key v)
    have "hs ! i = \<lparr>h_reading = ?r, h_at = Storing key v\<rparr>" "key_ok lib cfg ?r key" "ledger_answered run cfg evs i ?r key v"
      using Storing inv(1) by (simp_all add: place_inv_def)
    then have stored: "answer_stored run cfg ?evs key v clock"
      using run(2,3) unfolding answer_stored_def key_ok_def
      by (intro exI [of _ evs] exI [of _ i] exI [of _ "[]"] exI [of _ ?r]) simp
    note put = cache_backed_put [OF inv(2,3) stored]
    have "h' = (hs ! i)\<lparr>h_at := Decided v\<rparr>" "gw_cache s' = cache_put clock key v (gw_cache s)"
      using turn put(2) Storing by (auto simp: handling_turn_def Let_def split: prod.splits sum.splits)
    with put(1) Storing inv(1) later_events(1) [of run cfg evs i ?r key v] show ?thesis
      by (auto simp: place_inv_def decision_backed_def)
  next
    case (Decided v)
    with turn later show ?thesis
      by (auto simp: handling_turn_def Let_def place_inv_def split: if_splits prod.splits sum.splits)
  qed (use turn later in \<open>auto simp: handling_turn_def Let_def place_inv_def\<close>)
qed

lemma gateway_inv_run:
  fixes lib :: "'k crypto_lib" and env :: "'w fabric_env"
  assumes "cache_init ttl = Inr c" "run = run_gateway lib (observed env) cfg (fresh_gateway c w)"
  shows "cache_backed run cfg ttl evs (gw_cache (snd (run evs))) \<and> (\<forall>i < length (fst (run evs)). place_inv lib run cfg ttl evs i (fst (run evs) ! i))"
proof (induction evs rule: rev_induct)
  case Nil
  from assms(1) have "ttl_seconds c = ttl" "cache_view c k = None" for k
    by (auto simp: cache_init_Inr cache_view_init)
  then show ?case
    by (simp add: assms(2) run_gateway_def fresh_gateway_def cache_backed_def backed_by_def)
next
  case (snoc ev evs)
  obtain hs s where old: "run evs = (hs, s)" by fastforce
  have step: "run (evs @ [ev]) = thread_step new_handling (handling_turn lib (observed env) cfg) ev (hs, s)"
    using old by (simp add: assms(2) run_gateway_def)
  have inv: "cache_backed run cfg ttl evs (gw_cache s)" "\<And>i. i < length hs \<Longrightarrow> place_inv lib run cfg ttl evs i (hs ! i)"
    using snoc.IH old by simp_all
  have ttl: "0 < ttl"
    using assms(1) by (simp add: cache_init_Inr)
  show ?case
  proof (cases ev)
    case (Start r)
    have "place_inv lib run cfg ttl (evs @ [ev]) i ((hs @ [new_handling r]) ! i)" if "i < Suc (length hs)" for i
    proof (cases "i < length hs")
      case True
      with place_inv_later [OF inv(2)] show ?thesis by (simp add: nth_append)
    next
      case False
      with that show ?thesis by (simp add: nth_append place_inv_def new_handling_def)
    qed
    with Start step cache_backed_later [OF inv(1)] show ?thesis by simp
  next
    case (Turn i clock)
    show ?thesis
    proof (cases "i < length hs")
      case False
      with Turn step inv place_inv_later cache_backed_later show ?thesis by fastforce
    next
      case True
      obtain h' s' where turn: "handling_turn lib (observed env) cfg clock (hs ! i) s = (h', s')" by fastforce
      with Turn True step have new: "run (evs @ [Turn i clock]) = (hs[i := h'], s')" by simp
      note sound = turn_sound [OF new old True turn inv(2) [OF True] inv(1) ttl]
      have "place_inv lib run cfg ttl (evs @ [ev]) j (hs[i := h'] ! j)" if "j < length hs" for j
        using that sound Turn place_inv_later [OF inv(2)] by (cases "j = i") simp_all
      with new sound Turn show ?thesis by simp
    qed
  qed
qed

section \<open>Submissions\<close>

lemma turn_submits:
  assumes "handling_turn lib (observed env) cfg clock h s = (h', s')" "submit_calls s' \<noteq> submit_calls s"
  obtains v more where "h_at h = Decided v" "decision_is_grant v" "submit_calls s' = submit_calls s @ more"
    "\<forall>(req, x) \<in> set more. same_request (to_payload (h_reading h)) req"
proof -
  obtain a w where ca: "check_access (observed env) (gw_client cfg) (device_id (h_reading h)) (effective_zone cfg (h_reading h))
      ''submit_reading'' (gw_world s) = (a, w)" by (rule prod.exhaust)
  have same: "calls_of ''SubmitSensorReading'' (snd w) = submit_calls s"
    using fc.other_calls [OF ca [unfolded check_access_invoke]] by simp
  obtain b u where sub: "submit_sensor_reading (observed env) (gw_client cfg) (WithToPayload (to_payload (h_reading h)))
      (gw_world s) = (b, u)" by (rule prod.exhaust)
  from fc.extends [OF sub [unfolded submit_invoke]] obtain evs where
    evs: "snd u = snd (gw_world s) @ evs" "\<forall>(req, x) \<in> set (calls_of ''SubmitSensorReading'' evs). same_request (to_payload (h_reading h)) req"
    by blast
  from assms obtain v where v: "h_at h = Decided v"
    by (cases "h_at h") (auto simp: handling_turn_def Let_def ca same split: sum.splits bool.splits prod.splits)
  then have "decision_is_grant v" "gw_world s' = u"
    using assms sub by (auto simp: handling_turn_def Let_def split: sum.splits if_splits)
  with v evs that [of v "calls_of ''SubmitSensorReading'' evs"] show thesis
    by simp
qed

text \<open>
  C13. Authorised submission, under every interleaving of the threads that handle readings, with whatever ledger, client
  settings, clock values and failures. If an event submits anything, then it is a turn of a handling whose reading has
  an accepted signature, what it submits is this reading, and there is a grant for the policy key of this
  reading: either the ledger gave it to this handling itself, or the handling found it in the cache less than one time to
  live after another handling, of a reading with the same policy key, had stored what the ledger answered it.
\<close>

theorem gateway_submission_authorised:
  fixes lib :: "'k crypto_lib" and env :: "'w fabric_env"
  assumes "cache_init ttl = Inr c" "run = run_gateway lib (observed env) cfg (fresh_gateway c w)"
    and "submit_calls (snd (run (evs @ [ev]))) \<noteq> submit_calls (snd (run evs))"
  shows "\<exists>i clock r key v more. ev = Turn i clock \<and> i < length (fst (run evs)) \<and> h_reading (fst (run evs) ! i) = r \<and>
    submit_calls (snd (run (evs @ [ev]))) = submit_calls (snd (run evs)) @ more \<and>
    (\<forall>(req, x) \<in> set more. same_request (to_payload r) req) \<and>
    verify_signature lib r VNone = Inr True \<and> policy_key cfg r = Inr key \<and> decision_is_grant v \<and>
    (ledger_answered run cfg evs i r key v \<or> young_answer_found run cfg ttl evs i key v)"
proof -
  obtain hs s where old: "run evs = (hs, s)" by fastforce
  have step: "run (evs @ [ev]) = thread_step new_handling (handling_turn lib (observed env) cfg) ev (hs, s)"
    using old by (simp add: assms(2) run_gateway_def)
  with old assms(3) obtain i clock where ev: "ev = Turn i clock" "i < length hs"
    by (cases ev) (auto split: if_splits)
  obtain h' s' where turn: "handling_turn lib (observed env) cfg clock (hs ! i) s = (h', s')" by fastforce
  have "snd (run (evs @ [ev])) = s'"
    using step turn ev by simp
  with assms(3) old turn_submits [OF turn] obtain v more where v: "h_at (hs ! i) = Decided v" "decision_is_grant v"
    "submit_calls (snd (run (evs @ [ev]))) = submit_calls (snd (run evs)) @ more"
    "\<forall>(req, x) \<in> set more. same_request (to_payload (h_reading (hs ! i))) req"
    by (metis snd_conv)
  have "place_inv lib run cfg ttl evs i (hs ! i)"
    using gateway_inv_run [OF assms(1,2), of evs] old ev(2) by simp
  with v(1) obtain key where "key_ok lib cfg (h_reading (hs ! i)) key" "decision_backed run cfg ttl evs i (h_reading (hs ! i)) key v"
    unfolding place_inv_def by auto
  with v ev old show ?thesis
    unfolding key_ok_def decision_backed_def by auto
qed

text \<open>
  Two readings of one device: while the first is between the ledger's answer and its submission, the second is
  verified, finds the stored answer and submits.
\<close>

definition demo_schedule :: gw_schedule where
  "demo_schedule = [Start (reading_in_zone ''d1'' ''a''), Start ((reading_in_zone ''d1'' ''a'')\<lparr>reading_id := ''2''\<rparr>),
     Turn 0 10, Turn 0 10, Turn 0 11, Turn 1 11, Turn 0 12, Turn 1 13]"

lemma demo_schedule_runs:
  "case run_gateway no_keys (observed yes_env) demo_cfg (fresh_gateway demo_cache ()) demo_schedule of (hs, s) \<Rightarrow>
     map h_at hs = [Decided (VBool True), Decided (VBool True)] \<and> length (access_calls s) = 1 \<and> submit_calls s = []"
  "case run_gateway no_keys (observed yes_env) demo_cfg (fresh_gateway demo_cache ()) (demo_schedule @ [Turn 1 14]) of (hs, s) \<Rightarrow>
     length (submit_calls s) = 1"
  by code_simp+

lemma gateway_submission_authorised_witness:
  "\<exists>r key v. h_reading (fst (run_gateway no_keys (observed yes_env) demo_cfg (fresh_gateway demo_cache ()) demo_schedule) ! 1) = r
     \<and> policy_key demo_cfg r = Inr key \<and> decision_is_grant v
     \<and> (ledger_answered (run_gateway no_keys (observed yes_env) demo_cfg (fresh_gateway demo_cache ())) demo_cfg demo_schedule 1 r key v
        \<or> young_answer_found (run_gateway no_keys (observed yes_env) demo_cfg (fresh_gateway demo_cache ())) demo_cfg 300 demo_schedule 1 key v)"
proof -
  let ?run = "run_gateway no_keys (observed yes_env) demo_cfg (fresh_gateway demo_cache ())"
  have "submit_calls (snd (?run (demo_schedule @ [Turn 1 14]))) \<noteq> submit_calls (snd (?run demo_schedule))"
    using demo_schedule_runs by (auto split: prod.splits)
  from gateway_submission_authorised [OF demo_gateway(3) refl this] show ?thesis
    by auto
qed

end
