(* ===== verification/Spec2Isabelle.thy ===== *)
theory Spec2Isabelle
  imports Gateway Enrollment_Server Role_Model Crt_Quantization Live_Report Raw_Data_Api
    Claim_Map Safe_Extract Inventory Build_Macros Supplement_Tables Flash_Package Esp32_Crt
    Hrbac_Security Field_Deployment Peer_Scaling Throughput_Report Crt_Report Revocation_Trace Bench_Measurements
    Data_Quality Supplement_Runs Figures Pipeline Output_Files Json_Endpoints Extraction_Run Full_Run
    Enrollment_Threads Gateway_Threads
begin

text \<open>
  Verification of the blockchain field-evaluation gateway: access control for farm sensors on a permissioned
  ledger, and the analysis of its field trial.

  \<^bold>\<open>The program.\<close> A sensor packs a reading into an integer and sends its residues modulo 97, 101 and 103 as
  separate radio packets (\<open>esp32/main\<close>). The gateway (\<open>gateway/\<close>) collects the packets of a reading, restores the
  integer, verifies the signature, asks the ledger whether the device may write to the zone, caches the answer
  and submits the reading. The ledger runs the chaincode (\<open>chaincode/hrbac\<close>), which decides by role, permission,
  zone, token, expiry and nonce and keeps an audit log. Beside the gateway run a web server for enrolment and roles
  and one for the measured data. The analysis scripts (\<open>paper_iot/V10/analysis/scripts\<close>) recompute every reported
  number from the raw traces, write one JSON file each, and build the claim table, the macro file, the tables and
  the figures from these files.

  \<^bold>\<open>Foundations.\<close>
  \<^item> \<open>Py_Prelude\<close>: exceptions as values, Python's values and dictionaries, runs of events; the locale \<open>keyed_store\<close>
    (a store by key, interpreted for dictionaries here and for the roles of the enrolment server) and the locale
    \<open>at_most_once\<close> (interpreted for the radio receiver).
  \<^item> \<open>Py_Threads\<close>: threads on a shared state, where a schedule of turns is any interleaving.
  \<^item> \<open>Py_Text\<close>, \<open>Py_Number\<close>, \<open>Py_Csv\<close>, \<open>Py_Frame\<close>: texts, numbers and their formats, the \<open>csv\<close> module, data
    frames as lists of rows. Their lemmas are the round trips (a printed number reads back, a written CSV file reads
    back) and the facts about counts, means and groups that the reports rest on.
  \<^item> \<open>Py_Json\<close>, \<open>Json_Roundtrip\<close>: the \<open>json\<close> module, writer and reader, and its round trip. The text of a float is a
    parameter (\<open>json_lib\<close>) with the documented law that it reads back (\<open>repr_law\<close>).
  \<^item> \<open>Analysis_Outputs\<close>, \<open>Output_Files\<close> (\<open>common.py\<close>): the merged output files with look-ups by path, and the texts
    of these files; looking up in what was written and read back is looking up in what the scripts computed.

  \<^bold>\<open>The gateway.\<close>
  \<^item> \<open>Crt_Decode\<close> (\<open>crt_decode.py\<close>): the locales \<open>coprime_moduli\<close> and \<open>residue_codec\<close>, interpreted for the three
    moduli and \<open>decode\<close>. Round trip, partial residues, every error.
  \<^item> \<open>Esp32_Crt\<close> (\<open>crt_encode.c\<close>, \<open>crt_encode.h\<close>, a function of \<open>main.c\<close>): the same codec on machine words, equivalent
    to the gateway's wherever both are defined.
  \<^item> \<open>Lora_Rx\<close> (\<open>lora_rx.py\<close>): the receiver as a state that packets and the clock change; invariants over all runs.
  \<^item> \<open>Policy_Cache\<close> (\<open>policy_cache.py\<close>): refines the history of its operations (\<open>cache_view\<close>); locale \<open>decision_cache\<close>.
  \<^item> \<open>Fabric_Client\<close> (\<open>fabric_client.py\<close>): retries with backoff and nonces; locale \<open>ledger_client\<close>; the trace of calls
    is described by the inductive predicate \<open>retry_shape\<close>.
  \<^item> \<open>Gateway\<close> (\<open>gateway.py\<close>): receiver, cache and client together, one reading after the other; signatures, keys and
    live readings. \<open>Gateway_Threads\<close>: the same handling taken turn by turn, since the source threads and the main loop
    call it at the same time without a lock; what is submitted was granted by the ledger, under every interleaving.
  \<^item> \<open>Flask_Fallback\<close> (\<open>flask.py\<close>), \<open>Enrollment_Server\<close> (\<open>enrollment_server.py\<close>), \<open>Raw_Data_Api\<close>
    (\<open>raw_data_api.py\<close>), \<open>Paper_Benchmarks\<close> (\<open>paper_benchmarks.py\<close>): routing and the handlers, errors included, one
    request at a time. \<open>Enrollment_Threads\<close>: the rate limiter, which takes no lock, as the threads of the server run it;
    what is left of the limit under every interleaving, and runs that exceed it, lose an attempt or raise.
  \<^item> \<open>Live_Report\<close> (\<open>data/comp.py\<close>): measured against reported results; what a strict success means.
  \<^item> \<open>Json_Endpoints\<close>: the text of a response, and the summary file as both of its readers load it.
  \<^item> \<open>Flash_Package\<close> (\<open>scripts/make_flash_package.py\<close>): the package written to a sensor determines its inputs.

  \<^bold>\<open>The chaincode.\<close> \<open>Hrbac_Ledger\<close> holds the state, keys, roles, zones, nonces and the audit log with the state monad of
  a transaction (buffered writes over a ledger); \<open>Hrbac_Contract\<close> holds one definition per transaction and the step
  relation \<open>ledger_step\<close> with its runs \<open>ledger_run\<close>; \<open>Hrbac_Properties\<close> gives the shape of every transaction, from which
  \<open>Hrbac_Security\<close> proves the safety theorems over all runs. \<open>Role_Model\<close> (\<open>role_model.py\<close>, \<open>06_security_oracle.py\<close>) has
  the role tables as instances of one locale and shows that the oracle, the tests and the chaincode agree.

  \<^bold>\<open>The analysis.\<close>
  \<^item> 01: \<open>Safe_Extract\<close> (nothing is extracted outside the destination), \<open>Csv_Profile\<close>, \<open>Inventory\<close> and
    \<open>Extraction_Run\<close>, the script as a whole: the inventory counts exactly the files below the destination.
  \<^item> 02 \<open>Field_Deployment\<close>, 03 \<open>Peer_Scaling\<close>, 04 \<open>Throughput\<close> and \<open>Throughput_Report\<close> (locale \<open>argsorter\<close>: Holm's correction is
    right for every tie order), 05 \<open>Crt_Quantization\<close> and \<open>Crt_Report\<close>, 06 in \<open>Role_Model\<close>, 07 \<open>Revocation_Trace\<close>,
    08 \<open>Bench_Measurements\<close>, 09 \<open>Data_Quality\<close>: each report over the rows of its tables, with the facts that make its
    figures consistent.
  \<^item> 10 \<open>Claim_Map\<close>, 11 \<open>Build_Macros\<close>, 13 \<open>Supplement_Tables\<close> and \<open>Supplement_Runs\<close>, 12 \<open>Figures\<close>: what is built from the
    reports.
  \<^item> \<open>Pipeline\<close> (\<open>run_all.sh\<close>): the scripts 02 to 08 in sequence. Its theorems join the writers to the readers: every path
    that a claim or a macro looks up exists and leads to a number. \<open>Full_Run\<close>: all twelve scripts of the loop, from the
    archive to the figures, where the same holds with the files of 01 and 09 beside and the inventory that 01 wrote.

  \<^bold>\<open>Termination and fuel.\<close> Loops are structural recursion or have a measure: Euclid's algorithm \<open>invmod_loop\<close>, the retry
  loop (attempts left), the search for a free audit key (keys taken from there on) and the JSON scanner (text left). The search of the C decoder is
  a \<open>partial_function\<close>, since its loop ends only for coprime moduli; that it ends is part of its equivalence theorem.
  No definition takes fuel.

  \<^bold>\<open>Not modelled.\<close> Threads are sequences of atomic turns. Each step of the receiver and of the cache is one, since it runs
  under a lock. The rate limiter and the handling of a reading have no lock: their turns are the single operations on what
  they share, except that an invocation of the ledger with its retries is one turn. The other requests to the servers
  are taken one at a time. Floats are exact rationals; infinities and NaN are the error \<open>Unmodelled\<close>. Texts have code points below 256.
  Library functions are parameters with their documented laws as hypotheses: signatures, hashes, certificates and PEM,
  random numbers, clocks, the statistics of numpy, scipy and statsmodels, parsing of time stamps. Left out are drawing,
  sockets, command lines, printing and logging; the drivers of the firmware; the process and network glue of the test
  harnesses and shell scripts; and the dashboards, contracts and back-end stubs, which hold no logic.
\<close>

end
